(* ===== verification/Prelude.thy ===== *)
theory Prelude
  imports Main "HOL-Library.Word" "HOL-Library.AList" "HOL-Library.List_Lexorder"
begin

text \<open>
  What every component shares: the result type of code that may throw, the JavaScript
  \<open>Map\<close> as an insertion-ordered association list, JavaScript strings as lists of UTF-16
  code units, byte buffers, and the generic facts about them that the component proofs use.
\<close>

unbundle bit_operations_syntax

named_theorems result_simps \<open>evaluation rules of the result type\<close>
named_theorems encodes_intros \<open>what the encoders write is what the reader reads\<close>

section \<open>Types\<close>

type_synonym byte = "8 word"

type_synonym bytes = "8 word list"

text \<open>A JavaScript string is a sequence of UTF-16 code units; \<open><\<close> compares it unit by unit.\<close>

type_synonym jsstr = "16 word list"

definition js :: "string \<Rightarrow> jsstr" where
  "js s = map (\<lambda>c. of_nat (of_char c)) s"

lemma js_inj: "js s = js t \<longleftrightarrow> s = t"
proof -
  have "c = d" if "(of_nat (of_char c) :: 16 word) = of_nat (of_char d)" for c d :: char
  proof -
    from that have "(of_char c :: nat) mod 2 ^ 16 = of_char d mod 2 ^ 16"
      by (simp add: word_of_nat_eq_iff take_bit_eq_mod)
    then have "(of_char c :: nat) = of_char d"
      using nat_of_char_less_256 [of c] nat_of_char_less_256 [of d] by simp
    then show ?thesis by simp
  qed
  then have "inj (\<lambda>c::char. of_nat (of_char c) :: 16 word)"
    by (rule injI)
  then show ?thesis by (simp add: js_def inj_map_eq_map)
qed

section \<open>Code that may throw\<close>

text \<open>
  \<open>Inl e\<close> is a thrown error (or an \<open>err(e)\<close> result), \<open>Inr v\<close> a returned value. \<open>bindE\<close> is
  sequencing: the rest runs only when nothing was thrown.
\<close>

definition bindE :: "'e + 'a \<Rightarrow> ('a \<Rightarrow> 'e + 'b) \<Rightarrow> 'e + 'b" where
  "bindE r f = (case r of Inl e \<Rightarrow> Inl e | Inr v \<Rightarrow> f v)"

definition guardE :: "bool \<Rightarrow> 'e \<Rightarrow> 'e + unit" where
  "guardE b e = (if b then Inr () else Inl e)"

definition mapE :: "('a \<Rightarrow> 'b) \<Rightarrow> 'e + 'a \<Rightarrow> 'e + 'b" where
  "mapE f r = (case r of Inl e \<Rightarrow> Inl e | Inr v \<Rightarrow> Inr (f v))"

text \<open>Mapping a throwing function over an array, and evaluating an array literal, stop at the first throw.\<close>

fun traverseE :: "('a \<Rightarrow> 'e + 'b) \<Rightarrow> 'a list \<Rightarrow> 'e + 'b list" where
  "traverseE f [] = Inr []"
| "traverseE f (x # xs) = bindE (f x) (\<lambda>y. mapE (Cons y) (traverseE f xs))"

definition sequenceE :: "('e + 'a) list \<Rightarrow> 'e + 'a list" where
  "sequenceE rs = traverseE id rs"

text \<open>An optional property present in an object literal: \<open>...(x !== undefined ? [f(x)] : [])\<close>.\<close>

definition optField :: "'a option \<Rightarrow> ('a \<Rightarrow> 'b) \<Rightarrow> 'b list" where
  "optField x f = (case x of None \<Rightarrow> [] | Some v \<Rightarrow> [f v])"

definition optE :: "bool \<Rightarrow> 'e + 'a \<Rightarrow> 'e + 'a option" where
  "optE b r = (if b then mapE Some r else Inr None)"

lemma bindE_simps [simp, result_simps]:
  "bindE (Inl e) f = Inl e"
  "bindE (Inr v) f = f v"
  by (simp_all add: bindE_def)

lemma mapE_simps [simp, result_simps]:
  "mapE g (Inl e) = Inl e"
  "mapE g (Inr v) = Inr (g v)"
  by (simp_all add: mapE_def)

lemma guardE_simps [simp, result_simps]:
  "guardE True e = Inr ()"
  "guardE False e = Inl e"
  by (simp_all add: guardE_def)

lemma optField_simps [simp, result_simps]:
  "optField None f = []"
  "optField (Some v) f = [f v]"
  by (simp_all add: optField_def)

lemma optE_simps [simp, result_simps]:
  "optE True r = mapE Some r"
  "optE False r = Inr None"
  by (simp_all add: optE_def)

lemma bindE_Inr_iff: "bindE r f = Inr v \<longleftrightarrow> (\<exists>x. r = Inr x \<and> f x = Inr v)"
  by (cases r) auto

lemma bindE_Inl_iff: "bindE r f = Inl e \<longleftrightarrow> r = Inl e \<or> (\<exists>x. r = Inr x \<and> f x = Inl e)"
  by (cases r) auto

lemma mapE_Inr_iff: "mapE f r = Inr v \<longleftrightarrow> (\<exists>x. r = Inr x \<and> v = f x)"
  by (cases r) auto

lemma mapE_Inl_iff: "mapE f r = Inl e \<longleftrightarrow> r = Inl e"
  by (cases r) auto

lemma guardE_Inr_iff: "guardE b e = Inr u \<longleftrightarrow> b"
  by (cases b) auto

lemma bindE_assoc: "bindE (bindE r f) g = bindE r (\<lambda>x. bindE (f x) g)"
  by (cases r) auto

lemma bindE_cong [fundef_cong]:
  "r = s \<Longrightarrow> (\<And>x. s = Inr x \<Longrightarrow> f x = g x) \<Longrightarrow> bindE r f = bindE s g"
  by (cases s) auto

lemma sequenceE_simps [simp, result_simps]:
  "sequenceE [] = Inr []"
  "sequenceE (r # rs) = bindE r (\<lambda>y. mapE (Cons y) (sequenceE rs))"
  by (simp_all add: sequenceE_def)

lemma traverseE_Inr_iff:
  "traverseE f xs = Inr ys \<longleftrightarrow> list_all2 (\<lambda>x y. f x = Inr y) xs ys"
  by (induction xs arbitrary: ys) (auto simp: bindE_Inr_iff mapE_Inr_iff list_all2_Cons1)

lemma traverseE_map: "traverseE f (map g xs) = traverseE (\<lambda>x. f (g x)) xs"
  by (induction xs) auto

lemma traverseE_all_Inr:
  "(\<And>x. x \<in> set xs \<Longrightarrow> f x = Inr (g x)) \<Longrightarrow> traverseE f xs = Inr (map g xs)"
  by (induction xs) auto

lemma traverseE_Inl_iff:
  "traverseE f xs = Inl e \<longleftrightarrow>
     (\<exists>us x vs. xs = us @ x # vs \<and> (\<forall>u\<in>set us. \<exists>y. f u = Inr y) \<and> f x = Inl e)"
proof (induction xs)
  case (Cons a xs)
  show ?case
  proof (cases "f a")
    case (Inl d)
    show ?thesis
    proof
      assume "traverseE f (a # xs) = Inl e"
      with Inl have "f a = Inl e" by simp
      then show "\<exists>us x vs. a # xs = us @ x # vs \<and> (\<forall>u\<in>set us. \<exists>y. f u = Inr y) \<and> f x = Inl e"
        by (intro exI [of _ "[]"]) auto
    next
      assume "\<exists>us x vs. a # xs = us @ x # vs \<and> (\<forall>u\<in>set us. \<exists>y. f u = Inr y) \<and> f x = Inl e"
      then obtain us x vs where *: "a # xs = us @ x # vs" "\<forall>u\<in>set us. \<exists>y. f u = Inr y" "f x = Inl e"
        by blast
      with Inl show "traverseE f (a # xs) = Inl e" by (cases us) auto
    qed
  next
    case (Inr y)
    have "traverseE f (a # xs) = Inl e \<longleftrightarrow> traverseE f xs = Inl e"
      using Inr by (simp add: mapE_Inl_iff)
    also have "\<dots> \<longleftrightarrow> (\<exists>us x vs. a # xs = us @ x # vs \<and> (\<forall>u\<in>set us. \<exists>y. f u = Inr y) \<and> f x = Inl e)"
      unfolding Cons.IH
    proof
      assume "\<exists>us x vs. xs = us @ x # vs \<and> (\<forall>u\<in>set us. \<exists>y. f u = Inr y) \<and> f x = Inl e"
      then obtain us x vs where "xs = us @ x # vs" "\<forall>u\<in>set us. \<exists>y. f u = Inr y" "f x = Inl e"
        by blast
      with Inr show "\<exists>us x vs. a # xs = us @ x # vs \<and> (\<forall>u\<in>set us. \<exists>y. f u = Inr y) \<and> f x = Inl e"
        by (intro exI [of _ "a # us"]) auto
    next
      assume "\<exists>us x vs. a # xs = us @ x # vs \<and> (\<forall>u\<in>set us. \<exists>y. f u = Inr y) \<and> f x = Inl e"
      then obtain us x vs where *: "a # xs = us @ x # vs" "\<forall>u\<in>set us. \<exists>y. f u = Inr y" "f x = Inl e"
        by blast
      with Inr show "\<exists>us x vs. xs = us @ x # vs \<and> (\<forall>u\<in>set us. \<exists>y. f u = Inr y) \<and> f x = Inl e"
        by (cases us) auto
    qed
    finally show ?thesis .
  qed
qed simp

end
