(* ===== verification/Numbers.thy ===== *)
theory Numbers
  imports Prelude
begin

text \<open>
  Numbers as the code uses them: \<open>bigint\<close> is \<open>int\<close>; \<open>Number(b)\<close> of a \<open>bigint\<close> rounds to the
  nearest double (ties to even), here restricted to integers, the only numbers the modelled
  code converts; \<open>DataView\<close> reads and writes big-endian; and the float32 to float64 widening
  that \<open>getFloat32\<close> performs, on bit patterns.
\<close>

section \<open>\<open>Number(bigint)\<close>\<close>

fun bit_count :: "nat \<Rightarrow> nat" where
  "bit_count n = (if n = 0 then 0 else Suc (bit_count (n div 2)))"

declare bit_count.simps [simp del]

definition js_number :: "int \<Rightarrow> int" where
  "js_number n =
     (let a = nat \<bar>n\<bar>; e = bit_count a - 53 in
      if e = 0 then n
      else let q = a div 2 ^ e; r = a mod 2 ^ e; h = 2 ^ (e - 1);
               q' = (if h < r \<or> (r = h \<and> odd q) then q + 1 else q)
           in sgn n * int (q' * 2 ^ e))"

lemma bit_count_le: "n < 2 ^ k \<Longrightarrow> bit_count n \<le> k"
proof (induction n arbitrary: k rule: bit_count.induct)
  case (1 n)
  show ?case
  proof (cases "n = 0")
    case True
    then show ?thesis by (simp add: bit_count.simps)
  next
    case False
    with "1.prems" obtain j where j: "k = Suc j" by (cases k) auto
    with "1.prems" have "n div 2 < 2 ^ j" by (simp add: div_less_iff_less_mult mult.commute)
    with "1.IH" False have "bit_count (n div 2) \<le> j" by simp
    with False j show ?thesis by (subst bit_count.simps) simp
  qed
qed

lemma js_number_exact: "\<bar>n\<bar> < 2 ^ 53 \<Longrightarrow> js_number n = n"
proof -
  assume "\<bar>n\<bar> < 2 ^ 53"
  then have "nat \<bar>n\<bar> < 2 ^ 53" by (simp add: nat_less_iff)
  then have "bit_count (nat \<bar>n\<bar>) \<le> 53" by (rule bit_count_le)
  then show ?thesis by (simp add: js_number_def)
qed

lemma js_number_u32 [simp]: "0 \<le> n \<Longrightarrow> n \<le> 4294967295 \<Longrightarrow> js_number n = n"
  by (rule js_number_exact) simp

lemma js_number_nonneg: "0 \<le> n \<Longrightarrow> 0 \<le> js_number n"
  by (auto simp: js_number_def Let_def sgn_if)

section \<open>Big-endian bytes\<close>

definition be_bytes :: "nat \<Rightarrow> int \<Rightarrow> bytes" where
  "be_bytes k n = map (\<lambda>i. word_of_int (n div 256 ^ i)) (rev [0..<k])"

definition be_int :: "bytes \<Rightarrow> int" where
  "be_int bs = foldl (\<lambda>a b. a * 256 + uint b) 0 bs"

lemma length_be_bytes [simp]: "length (be_bytes k n) = k"
  by (simp add: be_bytes_def)

lemma be_int_Nil [simp]: "be_int [] = 0"
  by (simp add: be_int_def)

lemma be_int_snoc: "be_int (bs @ [b]) = be_int bs * 256 + uint b"
  by (simp add: be_int_def)

lemma uint_byte_of_int: "uint (word_of_int n :: byte) = n mod 256"
  by (simp add: uint_word_of_int)

lemma be_bytes_Suc: "be_bytes (Suc k) n = be_bytes k (n div 256) @ [word_of_int n]"
proof -
  have "[0..<Suc k] = 0 # map Suc [0..<k]"
    by (simp only: map_Suc_upt upt_conv_Cons zero_less_Suc)
  then have "rev [0..<Suc k] = map Suc (rev [0..<k]) @ [0]"
    by (simp only: rev.simps rev_map)
  moreover have "n div 256 ^ Suc i = n div 256 div 256 ^ i" for i
    by (simp add: zdiv_zmult2_eq)
  ultimately show ?thesis
    by (simp add: be_bytes_def o_def del: upt_Suc)
qed

lemma be_int_be_bytes: "be_int (be_bytes k n) = n mod 256 ^ k"
proof (induction k arbitrary: n)
  case (Suc k)
  have "be_int (be_bytes (Suc k) n) = (n div 256 mod 256 ^ k) * 256 + n mod 256"
    by (simp add: be_bytes_Suc be_int_snoc Suc.IH uint_byte_of_int)
  also have "\<dots> = n mod 256 ^ Suc k"
    by (simp add: zmod_zmult2_eq algebra_simps)
  finally show ?case .
qed (simp add: be_bytes_def)

lemma be_int_roundtrip: "0 \<le> n \<Longrightarrow> n < 256 ^ k \<Longrightarrow> be_int (be_bytes k n) = n"
  by (simp add: be_int_be_bytes)

lemma be_int_bounds: "0 \<le> be_int bs \<and> be_int bs < 256 ^ length bs"
proof (induction bs rule: rev_induct)
  case (snoc b bs)
  have "uint b < 256" using uint_lt2p [of b] by simp
  moreover have "be_int bs + 1 \<le> 256 ^ length bs" using snoc.IH by simp
  then have "(be_int bs + 1) * 256 \<le> 256 ^ length bs * 256" by (rule mult_right_mono) simp
  ultimately show ?case using snoc.IH by (simp add: be_int_snoc algebra_simps)
qed simp

section \<open>Floating-point bit patterns\<close>

type_synonym float64 = "64 word"

text \<open>\<open>Number.isFinite\<close> on a binary64 pattern: the exponent field is not all ones.\<close>

definition float64_finite :: "float64 \<Rightarrow> bool" where
  "float64_finite w \<longleftrightarrow> (drop_bit 52 w) AND 2047 \<noteq> 2047"

text \<open>
  The double that \<open>getFloat32\<close> returns for a binary32 pattern \<open>w\<close>: sign, exponent re-biased by
  896, fraction shifted by 29; subnormals are normalised, and an all-ones exponent stays so.
\<close>

definition float32_to_64 :: "32 word \<Rightarrow> float64" where
  "float32_to_64 w =
     (let s = uint (drop_bit 31 w); e = uint ((drop_bit 23 w) AND 255); m = uint (w AND 8388607);
          r = (if e = 255 then 2047 * 2 ^ 52 + m * 2 ^ 29
               else if e \<noteq> 0 then (e + 896) * 2 ^ 52 + m * 2 ^ 29
               else if m = 0 then 0
               else let k = int (bit_count (nat m)) - 1
                    in (k + 874) * 2 ^ 52 + (m - 2 ^ nat k) * 2 ^ nat (52 - k))
      in word_of_int (s * 2 ^ 63 + r))"

definition float64_bytes :: "float64 \<Rightarrow> bytes" where
  "float64_bytes w = be_bytes 8 (uint w)"

definition float64_of_bytes :: "bytes \<Rightarrow> float64" where
  "float64_of_bytes bs = word_of_int (be_int bs)"

lemma float64_bytes_roundtrip: "float64_of_bytes (float64_bytes w) = w"
proof -
  have "be_int (be_bytes 8 (uint w)) = uint w"
    using uint_lt2p [of w] by (intro be_int_roundtrip) simp_all
  then show ?thesis by (simp add: float64_of_bytes_def float64_bytes_def)
qed

lemma length_float64_bytes [simp]: "length (float64_bytes w) = 8"
  by (simp add: float64_bytes_def)

end
