(* ===== verification/Utf8.thy ===== *)
theory Utf8
  imports Prelude
begin

text \<open>
  \<open>TextEncoder\<close> and \<open>new TextDecoder("utf-8", { fatal: true })\<close>, the two platform objects
  \<open>protocol-sdk/src/cbor.ts\<close> uses for text strings. The encoder works on the scalar values of a
  string (a lone surrogate becomes U+FFFD); the fatal decoder rejects every ill-formed
  sequence, and strips one leading byte-order mark (its \<open>ignoreBOM\<close> option defaults to false).
\<close>

definition is_high :: "16 word \<Rightarrow> bool" where
  "is_high u \<longleftrightarrow> 0xD800 \<le> unat u \<and> unat u < 0xDC00"

definition is_low :: "16 word \<Rightarrow> bool" where
  "is_low u \<longleftrightarrow> 0xDC00 \<le> unat u \<and> unat u < 0xE000"

text \<open>The scalar values of a string.\<close>

fun scalars :: "jsstr \<Rightarrow> nat list" where
  "scalars [] = []"
| "scalars [u] = (if is_high u \<or> is_low u then [0xFFFD] else [unat u])"
| "scalars (u # v # us) =
     (if is_high u then
        (if is_low v
         then (0x10000 + (unat u - 0xD800) * 0x400 + (unat v - 0xDC00)) # scalars us
         else 0xFFFD # scalars (v # us))
      else if is_low u then 0xFFFD # scalars (v # us)
      else unat u # scalars (v # us))"

definition units_of :: "nat \<Rightarrow> jsstr" where
  "units_of c = (if c < 0x10000 then [of_nat c]
                 else [of_nat (0xD800 + (c - 0x10000) div 0x400),
                       of_nat (0xDC00 + (c - 0x10000) mod 0x400)])"

definition valid_scalar :: "nat \<Rightarrow> bool" where
  "valid_scalar c \<longleftrightarrow> c < 0xD800 \<or> (0xE000 \<le> c \<and> c < 0x110000)"

text \<open>A string without lone surrogates.\<close>

fun well_formed :: "jsstr \<Rightarrow> bool" where
  "well_formed [] = True"
| "well_formed [u] = (\<not> is_high u \<and> \<not> is_low u)"
| "well_formed (u # v # us) =
     (if is_high u then is_low v \<and> well_formed us
      else \<not> is_low u \<and> well_formed (v # us))"

section \<open>Encoding\<close>

definition scalar_bytes :: "nat \<Rightarrow> bytes" where
  "scalar_bytes c =
     (if c < 0x80 then [of_nat c]
      else if c < 0x800 then [of_nat (0xC0 + c div 64), of_nat (0x80 + c mod 64)]
      else if c < 0x10000 then
        [of_nat (0xE0 + c div 4096), of_nat (0x80 + c div 64 mod 64), of_nat (0x80 + c mod 64)]
      else
        [of_nat (0xF0 + c div 262144), of_nat (0x80 + c div 4096 mod 64),
         of_nat (0x80 + c div 64 mod 64), of_nat (0x80 + c mod 64)])"

definition utf8_encode :: "jsstr \<Rightarrow> bytes" where
  "utf8_encode s = concat (map scalar_bytes (scalars s))"

section \<open>Fatal decoding\<close>

definition cont_in :: "nat \<Rightarrow> nat \<Rightarrow> byte \<Rightarrow> bool" where
  "cont_in lo hi b \<longleftrightarrow> lo \<le> unat b \<and> unat b \<le> hi"

fun utf8_scalars :: "bytes \<Rightarrow> nat list option" where
  "utf8_scalars [] = Some []"
| "utf8_scalars (b # bs) =
     (let n = unat b in
      if n < 0x80 then map_option (Cons n) (utf8_scalars bs)
      else if 0xC2 \<le> n \<and> n \<le> 0xDF then
        (case bs of
           c1 # r \<Rightarrow> if cont_in 0x80 0xBF c1
                     then map_option (Cons ((n - 0xC0) * 64 + (unat c1 - 0x80))) (utf8_scalars r)
                     else None
         | _ \<Rightarrow> None)
      else if 0xE0 \<le> n \<and> n \<le> 0xEF then
        (case bs of
           c1 # c2 # r \<Rightarrow>
             if cont_in (if n = 0xE0 then 0xA0 else 0x80) (if n = 0xED then 0x9F else 0xBF) c1
                \<and> cont_in 0x80 0xBF c2
             then map_option (Cons ((n - 0xE0) * 4096 + (unat c1 - 0x80) * 64 + (unat c2 - 0x80)))
                    (utf8_scalars r)
             else None
         | _ \<Rightarrow> None)
      else if 0xF0 \<le> n \<and> n \<le> 0xF4 then
        (case bs of
           c1 # c2 # c3 # r \<Rightarrow>
             if cont_in (if n = 0xF0 then 0x90 else 0x80) (if n = 0xF4 then 0x8F else 0xBF) c1
                \<and> cont_in 0x80 0xBF c2 \<and> cont_in 0x80 0xBF c3
             then map_option (Cons ((n - 0xF0) * 262144 + (unat c1 - 0x80) * 4096
                    + (unat c2 - 0x80) * 64 + (unat c3 - 0x80))) (utf8_scalars r)
             else None
         | _ \<Rightarrow> None)
      else None)"

definition strip_bom :: "nat list \<Rightarrow> nat list" where
  "strip_bom cs = (case cs of c # r \<Rightarrow> if c = 0xFEFF then r else c # r | [] \<Rightarrow> [])"

definition utf8_decode :: "bytes \<Rightarrow> jsstr option" where
  "utf8_decode bs = map_option (\<lambda>cs. concat (map units_of (strip_bom cs))) (utf8_scalars bs)"

section \<open>The decoder inverts the encoder\<close>

lemma unat_byte_of_nat: "n < 256 \<Longrightarrow> unat (of_nat n :: byte) = n"
  by (simp add: unat_of_nat)

lemma unat_unit_less: "unat (u :: 16 word) < 65536"
  using unsigned_less [of u] by simp

lemma unat_unit_of_nat: "n < 65536 \<Longrightarrow> unat (of_nat n :: 16 word) = n"
  by (simp add: unat_of_nat)

lemma scalars_valid: "c \<in> set (scalars s) \<Longrightarrow> valid_scalar c"
proof (induction s rule: scalars.induct)
  case (2 u)
  then show ?case
    using unat_unit_less [of u] by (auto simp: valid_scalar_def is_high_def is_low_def split: if_splits)
next
  case (3 u v us)
  show ?case
  proof (cases "is_high u \<and> is_low v")
    case True
    then have "unat u - 0xD800 < 0x400" "unat v - 0xDC00 < 0x400"
      by (auto simp: is_high_def is_low_def)
    then have "valid_scalar (0x10000 + (unat u - 0xD800) * 0x400 + (unat v - 0xDC00))"
      by (auto simp: valid_scalar_def)
    with 3 True show ?thesis by auto
  next
    case False
    with 3 show ?thesis
      using unat_unit_less [of u]
      by (auto simp: valid_scalar_def is_high_def is_low_def split: if_splits)
  qed
qed simp

lemma utf8_scalars_1:
  "unat b < 0x80 \<Longrightarrow> utf8_scalars (b # r) = map_option (Cons (unat b)) (utf8_scalars r)"
  by simp

lemma utf8_scalars_2:
  "0xC2 \<le> unat b \<Longrightarrow> unat b \<le> 0xDF \<Longrightarrow> cont_in 0x80 0xBF c1 \<Longrightarrow>
   utf8_scalars (b # c1 # r) =
     map_option (Cons ((unat b - 0xC0) * 64 + (unat c1 - 0x80))) (utf8_scalars r)"
  by (subst utf8_scalars.simps(2)) (simp add: Let_def del: utf8_scalars.simps(2))

lemma utf8_scalars_3:
  "0xE0 \<le> unat b \<Longrightarrow> unat b \<le> 0xEF \<Longrightarrow>
   cont_in (if unat b = 0xE0 then 0xA0 else 0x80) (if unat b = 0xED then 0x9F else 0xBF) c1 \<Longrightarrow>
   cont_in 0x80 0xBF c2 \<Longrightarrow>
   utf8_scalars (b # c1 # c2 # r) =
     map_option (Cons ((unat b - 0xE0) * 4096 + (unat c1 - 0x80) * 64 + (unat c2 - 0x80)))
       (utf8_scalars r)"
  by (subst utf8_scalars.simps(2)) (simp add: Let_def del: utf8_scalars.simps(2))

lemma utf8_scalars_4:
  "0xF0 \<le> unat b \<Longrightarrow> unat b \<le> 0xF4 \<Longrightarrow>
   cont_in (if unat b = 0xF0 then 0x90 else 0x80) (if unat b = 0xF4 then 0x8F else 0xBF) c1 \<Longrightarrow>
   cont_in 0x80 0xBF c2 \<Longrightarrow> cont_in 0x80 0xBF c3 \<Longrightarrow>
   utf8_scalars (b # c1 # c2 # c3 # r) =
     map_option (Cons ((unat b - 0xF0) * 262144 + (unat c1 - 0x80) * 4096
       + (unat c2 - 0x80) * 64 + (unat c3 - 0x80))) (utf8_scalars r)"
  by (subst utf8_scalars.simps(2)) (simp add: Let_def del: utf8_scalars.simps(2))

declare utf8_scalars.simps(2) [simp del]

lemma split3: "(c::nat) = c div 4096 * 4096 + c div 64 mod 64 * 64 + c mod 64"
proof -
  have "c mod 4096 = c div 64 mod 64 * 64 + c mod 64"
    using mod_mult2_eq [of c 64 64] by simp
  then show ?thesis using div_mult_mod_eq [of c 4096] by linarith
qed

lemma split4:
  "(c::nat) = c div 262144 * 262144 + c div 4096 mod 64 * 4096 + c div 64 mod 64 * 64 + c mod 64"
proof -
  have "c mod 262144 = c div 4096 mod 64 * 4096 + c mod 4096"
    using mod_mult2_eq [of c 4096 64] by simp
  then show ?thesis using div_mult_mod_eq [of c 262144] div_mult_mod_eq [of c 4096] split3 [of c]
    by linarith
qed

lemma utf8_scalars_scalar_bytes:
  assumes "valid_scalar c"
  shows "utf8_scalars (scalar_bytes c @ bs) = map_option (Cons c) (utf8_scalars bs)"
proof -
  consider "c < 0x80" | "0x80 \<le> c" "c < 0x800" | "0x800 \<le> c" "c < 0x10000" | "0x10000 \<le> c"
    by linarith
  then show ?thesis
  proof cases
    case 1
    then have "unat (of_nat c :: byte) = c" by (intro unat_byte_of_nat) simp
    with 1 show ?thesis by (simp add: scalar_bytes_def utf8_scalars_1)
  next
    case 2
    define a d where "a = c div 64" and "d = c mod 64"
    from 2 have r: "2 \<le> a" "a < 32" "d < 64" "c = a * 64 + d"
      by (simp_all add: a_def d_def div_less_iff_less_mult less_eq_div_iff_mult_less_eq)
    then have "unat (of_nat (0xC0 + a) :: byte) = 0xC0 + a" "unat (of_nat (0x80 + d) :: byte) = 0x80 + d"
      by (intro unat_byte_of_nat; simp)+
    with r have "utf8_scalars (of_nat (0xC0 + a) # of_nat (0x80 + d) # bs) = map_option (Cons c) (utf8_scalars bs)"
      by (subst utf8_scalars_2) (simp_all add: cont_in_def)
    with 2 show ?thesis by (simp add: scalar_bytes_def a_def d_def)
  next
    case 3
    define a b d where "a = c div 4096" and "b = c div 64 mod 64" and "d = c mod 64"
    have c: "c = a * 4096 + b * 64 + d" unfolding a_def b_def d_def by (rule split3)
    have r: "b < 64" "d < 64" by (simp_all add: b_def d_def)
    from 3 have a: "a < 16" by (simp add: a_def div_less_iff_less_mult)
    have lo: "32 \<le> b" if "a = 0" using 3 c r that by linarith
    have hi: "b \<le> 31" if "a = 13" using assms 3 c r that unfolding valid_scalar_def by linarith
    have u: "unat (of_nat (0xE0 + a) :: byte) = 0xE0 + a" "unat (of_nat (0x80 + b) :: byte) = 0x80 + b"
      "unat (of_nat (0x80 + d) :: byte) = 0x80 + d"
      using a r by (intro unat_byte_of_nat; simp)+
    have "utf8_scalars (of_nat (0xE0 + a) # of_nat (0x80 + b) # of_nat (0x80 + d) # bs)
        = map_option (Cons c) (utf8_scalars bs)"
      using a r lo hi by (subst utf8_scalars_3) (simp_all only: u cont_in_def, auto simp: c)
    with 3 show ?thesis by (simp add: scalar_bytes_def a_def b_def d_def)
  next
    case 4
    define a b d e where "a = c div 262144" and "b = c div 4096 mod 64"
      and "d = c div 64 mod 64" and "e = c mod 64"
    have c: "c = a * 262144 + b * 4096 + d * 64 + e" unfolding a_def b_def d_def e_def by (rule split4)
    have r: "b < 64" "d < 64" "e < 64" by (simp_all add: b_def d_def e_def)
    from 4 assms have lt: "c < 0x110000" by (simp add: valid_scalar_def)
    then have a: "a < 5" by (simp add: a_def div_less_iff_less_mult)
    have lo: "16 \<le> b" if "a = 0" using 4 c r that by linarith
    have hi: "b \<le> 15" if "a = 4" using lt c r that by linarith
    have u: "unat (of_nat (0xF0 + a) :: byte) = 0xF0 + a" "unat (of_nat (0x80 + b) :: byte) = 0x80 + b"
      "unat (of_nat (0x80 + d) :: byte) = 0x80 + d" "unat (of_nat (0x80 + e) :: byte) = 0x80 + e"
      using a r by (intro unat_byte_of_nat; simp)+
    have "utf8_scalars (of_nat (0xF0 + a) # of_nat (0x80 + b) # of_nat (0x80 + d) # of_nat (0x80 + e) # bs)
        = map_option (Cons c) (utf8_scalars bs)"
      using a r lo hi by (subst utf8_scalars_4) (simp_all only: u cont_in_def, auto simp: c)
    with 4 show ?thesis by (simp add: scalar_bytes_def a_def b_def d_def e_def)
  qed
qed

lemma utf8_scalars_concat:
  "(\<And>c. c \<in> set cs \<Longrightarrow> valid_scalar c) \<Longrightarrow> utf8_scalars (concat (map scalar_bytes cs)) = Some cs"
  by (induction cs) (simp_all add: utf8_scalars_scalar_bytes)

lemma utf8_scalars_encode: "utf8_scalars (utf8_encode s) = Some (scalars s)"
  unfolding utf8_encode_def by (rule utf8_scalars_concat) (rule scalars_valid)

lemma units_of_scalars: "well_formed s \<Longrightarrow> concat (map units_of (scalars s)) = s"
proof (induction s rule: scalars.induct)
  case (2 u)
  then show ?case using unat_unit_less [of u] by (simp add: units_of_def)
next
  case (3 u v us)
  show ?case
  proof (cases "is_high u")
    case True
    with "3.prems" have v: "is_low v" and us: "well_formed us" by simp_all
    let ?h = "unat u - 0xD800" and ?l = "unat v - 0xDC00"
    from True v have h: "?h < 0x400" "unat u = 0xD800 + ?h" and l: "?l < 0x400" "unat v = 0xDC00 + ?l"
      by (auto simp: is_high_def is_low_def)
    have d: "(h * 0x400 + l) div 0x400 = h" "(h * 0x400 + l) mod 0x400 = l" if "l < 0x400" for h l :: nat
      using that by simp_all
    have "units_of (0x10000 + ?h * 0x400 + ?l) = [of_nat (0xD800 + ?h), of_nat (0xDC00 + ?l)]"
      using d [OF l(1), of ?h] unfolding units_of_def
      by (simp only: add.assoc add_diff_cancel_left') simp
    also have "\<dots> = [of_nat (unat u), of_nat (unat v)]"
      by (simp only: h(2) [symmetric] l(2) [symmetric])
    also have "\<dots> = [u, v]" by simp
    finally have "units_of (0x10000 + ?h * 0x400 + ?l) = [u, v]" .
    with True v "3.IH"(1) [OF True v us] show ?thesis by simp
  next
    case False
    with "3.prems" have "\<not> is_low u" "well_formed (v # us)" by simp_all
    with False "3.IH" show ?thesis using unat_unit_less [of u] by (simp add: units_of_def)
  qed
qed simp

text \<open>A text the wire carries unchanged: no lone surrogate, no leading byte-order mark.\<close>

definition text_ok :: "jsstr \<Rightarrow> bool" where
  "text_ok s \<longleftrightarrow> well_formed s \<and> (s = [] \<or> hd s \<noteq> 0xFEFF)"

lemma scalars_hd: "well_formed (u # us) \<Longrightarrow> u \<noteq> 0xFEFF \<Longrightarrow> hd (scalars (u # us)) \<noteq> 0xFEFF"
proof (cases us)
  case (Cons v vs)
  assume "well_formed (u # us)" "u \<noteq> 0xFEFF"
  moreover have "unat u = 0xFEFF \<Longrightarrow> u = 0xFEFF" by (simp add: word_unat_eq_iff)
  ultimately show ?thesis using Cons
    by (auto simp: is_high_def is_low_def)
next
  case Nil
  assume "well_formed (u # us)" "u \<noteq> 0xFEFF"
  moreover have "unat u = 0xFEFF \<Longrightarrow> u = 0xFEFF" by (simp add: word_unat_eq_iff)
  ultimately show ?thesis using Nil by auto
qed

lemma utf8_roundtrip: "text_ok s \<Longrightarrow> utf8_decode (utf8_encode s) = Some s"
proof -
  assume ok: "text_ok s"
  then have wf: "well_formed s" by (simp add: text_ok_def)
  have "strip_bom (scalars s) = scalars s"
  proof (cases s)
    case (Cons u us)
    with ok have "hd (scalars s) \<noteq> 0xFEFF" using scalars_hd by (simp add: text_ok_def)
    then show ?thesis by (cases "scalars s") (simp_all add: strip_bom_def)
  qed (simp add: strip_bom_def)
  with wf show ?thesis
    by (simp add: utf8_decode_def utf8_scalars_encode units_of_scalars)
qed

text \<open>The ASCII literals of the code are carried unchanged.\<close>

lemma well_formed_small: "\<forall>u\<in>set s. unat u < 0xD800 \<Longrightarrow> well_formed s"
  by (induction s rule: well_formed.induct) (auto simp: is_high_def is_low_def)

lemma text_ok_js [simp]: "text_ok (js s)"
proof -
  have small: "unat u < 0xD800 \<and> u \<noteq> 0xFEFF" if "u \<in> set (js s)" for u
  proof -
    from that obtain c where u: "u = of_nat (of_char c)" by (auto simp: js_def)
    have "unat u = of_char c"
      unfolding u using nat_of_char_less_256 [of c] by (intro unat_unit_of_nat) linarith
    moreover have "(of_char c :: nat) < 256" by (rule nat_of_char_less_256)
    ultimately have "unat u < 256" by simp
    then show ?thesis by (auto simp: word_unat_eq_iff)
  qed
  then have "well_formed (js s)" by (intro well_formed_small) blast
  moreover have "js s = [] \<or> hd (js s) \<noteq> 0xFEFF"
    using small [of "hd (js s)"] by (cases "js s") auto
  ultimately show ?thesis by (simp add: text_ok_def)
qed

lemma text_ok_Nil [simp]: "text_ok []"
  by (simp add: text_ok_def)

end
