(* ===== verification/JsMap.thy ===== *)
theory JsMap
  imports Prelude
begin

text \<open>
  The JavaScript \<open>Map\<close>: an insertion-ordered table. \<open>set\<close> on a present key keeps its
  position, on a new key appends; \<open>delete\<close> removes the key; \<open>keys()\<close>, \<open>values()\<close> and the
  iterator follow insertion order. The interface \<open>keyed_map\<close> says what the client
  components rely on; the association lists of \<open>HOL-Library.AList\<close> provide it.
\<close>

type_synonym ('k, 'v) jsmap = "('k \<times> 'v) list"

abbreviation jm_get :: "('k, 'v) jsmap \<Rightarrow> 'k \<Rightarrow> 'v option" where
  "jm_get m k \<equiv> map_of m k"

abbreviation jm_put :: "'k \<Rightarrow> 'v \<Rightarrow> ('k, 'v) jsmap \<Rightarrow> ('k, 'v) jsmap" where
  "jm_put k v m \<equiv> AList.update k v m"

abbreviation jm_del :: "'k \<Rightarrow> ('k, 'v) jsmap \<Rightarrow> ('k, 'v) jsmap" where
  "jm_del k m \<equiv> AList.delete k m"

abbreviation jm_keys :: "('k, 'v) jsmap \<Rightarrow> 'k list" where
  "jm_keys m \<equiv> map fst m"

definition jm_has :: "('k, 'v) jsmap \<Rightarrow> 'k \<Rightarrow> bool" where
  "jm_has m k \<longleftrightarrow> map_of m k \<noteq> None"

definition jm_wf :: "('k, 'v) jsmap \<Rightarrow> bool" where
  "jm_wf m \<longleftrightarrow> distinct (map fst m)"

text \<open>\<open>new Map(entries)\<close> sets the entries one after another.\<close>

definition jm_of :: "('k \<times> 'v) list \<Rightarrow> ('k, 'v) jsmap" where
  "jm_of kvs = fold (\<lambda>(k, v) m. AList.update k v m) kvs []"

lemma jm_has_iff: "jm_has m k \<longleftrightarrow> k \<in> fst ` set m"
  by (simp add: jm_has_def map_of_eq_None_iff)

lemma jm_wf_Nil [simp]: "jm_wf []"
  by (simp add: jm_wf_def)

lemma jm_wf_Cons [simp]: "jm_wf ((k, v) # m) \<longleftrightarrow> k \<notin> fst ` set m \<and> jm_wf m"
  by (simp add: jm_wf_def)

lemma update_new: "k \<notin> fst ` set m \<Longrightarrow> AList.update k v m = m @ [(k, v)]"
  by (induction m) auto

lemma keys_update:
  "map fst (AList.update k v m) = (if k \<in> fst ` set m then map fst m else map fst m @ [k])"
  by (induction m) auto

lemma delete_absent: "k \<notin> fst ` set m \<Longrightarrow> AList.delete k m = m"
  by (induction m) (auto simp: AList.delete_eq)

lemma keys_delete: "map fst (AList.delete k m) = filter (\<lambda>j. j \<noteq> k) (map fst m)"
  by (induction m) (auto simp: AList.delete_eq)

lemma set_update_subset: "set (AList.update k v m) \<subseteq> insert (k, v) (set m)"
  by (induction m) auto

section \<open>The interface\<close>

locale keyed_map =
  fixes get :: "'m \<Rightarrow> 'k \<Rightarrow> 'v option"
    and put :: "'k \<Rightarrow> 'v \<Rightarrow> 'm \<Rightarrow> 'm"
    and del :: "'k \<Rightarrow> 'm \<Rightarrow> 'm"
    and keys :: "'m \<Rightarrow> 'k list"
    and wf :: "'m \<Rightarrow> bool"
  assumes get_put: "get (put k v m) j = (if j = k then Some v else get m j)"
    and get_del: "get (del k m) j = (if j = k then None else get m j)"
    and get_keys: "get m k \<noteq> None \<longleftrightarrow> k \<in> set (keys m)"
    and keys_put: "keys (put k v m) = (if k \<in> set (keys m) then keys m else keys m @ [k])"
    and keys_del: "keys (del k m) = filter (\<lambda>j. j \<noteq> k) (keys m)"
    and wf_keys: "wf m \<longleftrightarrow> distinct (keys m)"
begin

lemma get_put_same: "get (put k v m) k = Some v"
  by (simp add: get_put)

lemma get_put_other: "j \<noteq> k \<Longrightarrow> get (put k v m) j = get m j"
  by (simp add: get_put)

lemma get_del_other: "j \<noteq> k \<Longrightarrow> get (del k m) j = get m j"
  by (simp add: get_del)

lemma wf_put: "wf m \<Longrightarrow> wf (put k v m)"
  by (simp add: wf_keys keys_put)

lemma wf_del: "wf m \<Longrightarrow> wf (del k m)"
  by (simp add: wf_keys keys_del)

lemma del_removes: "k \<notin> set (keys (del k m))"
  by (simp add: keys_del)

lemma size_put: "length (keys (put k v m)) \<le> Suc (length (keys m))"
  by (simp add: keys_put)

lemma size_put_present: "get m k \<noteq> None \<Longrightarrow> keys (put k v m) = keys m"
  using get_keys [of m k] by (simp add: keys_put)

lemma size_del: "wf m \<Longrightarrow> get m k \<noteq> None \<Longrightarrow> Suc (length (keys (del k m))) = length (keys m)"
proof -
  assume wf: "wf m" and "get m k \<noteq> None"
  then have k: "k \<in> set (keys m)" using get_keys [of m k] by blast
  from wf have d: "distinct (keys m)" by (simp add: wf_keys)
  have "filter (\<lambda>j. j \<noteq> k) (keys m) = remove1 k (keys m)"
    using d by (simp add: distinct_remove1_removeAll removeAll_filter_not_eq eq_commute)
  with k show ?thesis
    by (simp add: keys_del length_remove1) (metis Suc_pred length_pos_if_in_set)
qed

lemma get_put_del: "get (del k (put k v m)) j = get (del k m) j"
  by (simp add: get_put get_del)

end

interpretation jm: keyed_map map_of AList.update AList.delete "map fst" jm_wf
proof unfold_locales
  fix m :: "('a \<times> 'b) list" and k :: 'a
  show "map_of m k \<noteq> None \<longleftrightarrow> k \<in> set (map fst m)"
    by (simp add: map_of_eq_None_iff)
qed (simp_all add: update_conv' delete_conv' keys_update keys_delete jm_wf_def)

lemma jm_get_in: "jm_wf m \<Longrightarrow> map_of m k = Some v \<longleftrightarrow> (k, v) \<in> set m"
  by (auto simp: jm_wf_def)

lemma update_vals:
  "P v \<Longrightarrow> (\<And>x. x \<in> snd ` set m \<Longrightarrow> P x) \<Longrightarrow> x \<in> snd ` set (AList.update k v m) \<Longrightarrow> P x"
  using set_update_subset [of k v m] by fastforce

lemma fold_update_new:
  assumes "distinct (map fst kvs)" and "fst ` set kvs \<inter> fst ` set m = {}"
  shows "fold (\<lambda>(k, v) m. AList.update k v m) kvs m = m @ kvs"
  using assms
proof (induction kvs arbitrary: m)
  case (Cons p kvs)
  obtain k v where p: "p = (k, v)" by (cases p)
  from Cons.prems p have "AList.update k v m = m @ [(k, v)]" by (intro update_new) auto
  with Cons p show ?case by auto
qed simp

lemma jm_of_distinct: "distinct (map fst kvs) \<Longrightarrow> jm_of kvs = kvs"
  unfolding jm_of_def using fold_update_new [of kvs "[]"] by simp

lemma jm_wf_of: "jm_wf (jm_of kvs)"
proof -
  have "jm_wf m \<Longrightarrow> jm_wf (fold (\<lambda>(k, v) m. AList.update k v m) kvs m)" for m
  proof (induction kvs arbitrary: m)
    case (Cons p kvs)
    obtain k v where p: "p = (k, v)" by (cases p)
    have "jm_wf (AList.update k v m)" by (rule jm.wf_put [OF Cons.prems])
    then show ?case using Cons.IH p by simp
  qed simp
  then show ?thesis by (simp add: jm_of_def)
qed

end
