(* ===== verification/Cbor.thy ===== *)
theory Cbor
  imports Numbers Utf8 JsMap
begin

text \<open>
  \<open>protocol-sdk/src/cbor.ts\<close>: the encoders of the Protocol V1 subset of CBOR and the
  cursor-based \<open>CborReader\<close>. A reader is the list of the bytes it has not consumed yet (its
  \<open>offset\<close> is the length of what is gone). \<open>readValue\<close> recurses over nested arrays and maps;
  it is modelled with fuel, and \<open>readerValue_fuel\<close> shows that twice the number of bytes is enough,
  so \<open>decodeOne\<close> always returns a value or one of the errors the code throws.
\<close>

section \<open>Errors\<close>

text \<open>
  The messages of \<open>ProtocolCodecError\<close>, with the context and field number they carry;
  \<open>Utf8TypeError\<close> is the \<open>TypeError\<close> of the fatal text decoder, and \<open>OutOfFuel\<close> belongs to the
  model only.
\<close>

datatype codec_error =
    HeadNegative
  | ArgumentTooLarge
  | UnexpectedEnd
  | UnsupportedInfo nat
  | MapKeyNotUint
  | DuplicateKey int
  | NonFiniteFloat
  | UnsupportedSimple nat
  | UnsupportedMajor nat
  | Utf8TypeError
  | MissingField string int
  | WrongKind string int
  | ExceedsU32 string int
  | NotAMap string
  | NotEmptyPayload string
  | InvalidMessage string
  | OutOfFuel

section \<open>Encoders\<close>

definition MAJOR_UINT :: nat where "MAJOR_UINT = 0"
definition MAJOR_NEGINT :: nat where "MAJOR_NEGINT = 1"
definition MAJOR_BYTES :: nat where "MAJOR_BYTES = 2"
definition MAJOR_TEXT :: nat where "MAJOR_TEXT = 3"
definition MAJOR_ARRAY :: nat where "MAJOR_ARRAY = 4"
definition MAJOR_MAP :: nat where "MAJOR_MAP = 5"
definition MAJOR_SIMPLE :: nat where "MAJOR_SIMPLE = 7"

lemmas major_defs = MAJOR_UINT_def MAJOR_NEGINT_def MAJOR_BYTES_def MAJOR_TEXT_def
  MAJOR_ARRAY_def MAJOR_MAP_def MAJOR_SIMPLE_def

definition concatBytes :: "bytes list \<Rightarrow> bytes" where
  "concatBytes chunks = concat chunks"

text \<open>\<open>(majorType << 5) | additionalInfo\<close>, stored in a byte.\<close>

definition head_byte :: "nat \<Rightarrow> nat \<Rightarrow> byte" where
  "head_byte mt info = push_bit 5 (of_nat mt) OR of_nat info"

definition encodeHead :: "nat \<Rightarrow> int \<Rightarrow> codec_error + bytes" where
  "encodeHead majorType argument =
     (if argument < 0 then Inl HeadNegative
      else if argument < 24 then Inr [head_byte majorType (nat argument)]
      else if argument \<le> 0xff then Inr (head_byte majorType 24 # be_bytes 1 argument)
      else if argument \<le> 0xffff then Inr (head_byte majorType 25 # be_bytes 2 argument)
      else if argument \<le> 0xffffffff then Inr (head_byte majorType 26 # be_bytes 4 argument)
      else if argument \<le> 0xffffffffffffffff then Inr (head_byte majorType 27 # be_bytes 8 argument)
      else Inl ArgumentTooLarge)"

definition encodeUint :: "int \<Rightarrow> codec_error + bytes" where
  "encodeUint value = encodeHead MAJOR_UINT value"

definition encodeInt :: "int \<Rightarrow> codec_error + bytes" where
  "encodeInt value = (if value \<ge> 0 then encodeHead MAJOR_UINT value
                      else encodeHead MAJOR_NEGINT (-1 - value))"

definition encodeBytes :: "bytes \<Rightarrow> codec_error + bytes" where
  "encodeBytes value =
     mapE (\<lambda>h. concatBytes [h, value]) (encodeHead MAJOR_BYTES (int (length value)))"

definition encodeText :: "jsstr \<Rightarrow> codec_error + bytes" where
  "encodeText value = (let utf8 = utf8_encode value in
     mapE (\<lambda>h. concatBytes [h, utf8]) (encodeHead MAJOR_TEXT (int (length utf8))))"

definition encodeArrayHeader :: bytes where
  "encodeArrayHeader = [head_byte MAJOR_ARRAY 31]"

definition encodeMapHeader :: bytes where
  "encodeMapHeader = [head_byte MAJOR_MAP 31]"

definition encodeBreak :: bytes where
  "encodeBreak = [head_byte MAJOR_SIMPLE 31]"

definition encodeBool :: "bool \<Rightarrow> bytes" where
  "encodeBool value = [if value then 0xf5 else 0xf4]"

definition encodeNull :: bytes where
  "encodeNull = [0xf6]"

definition encodeSequence :: "bytes list \<Rightarrow> bytes" where
  "encodeSequence items = concatBytes items"

text \<open>A field pair: its key and its already encoded value.\<close>

type_synonym field_pair = "int \<times> bytes"

definition encodeMap :: "field_pair list \<Rightarrow> codec_error + bytes" where
  "encodeMap pairs =
     mapE (\<lambda>parts. concatBytes ([encodeMapHeader] @ concat parts @ [encodeBreak]))
       (traverseE (\<lambda>(key, value). mapE (\<lambda>k. [k, value]) (encodeUint key)) pairs)"

definition encodeArray :: "bytes list \<Rightarrow> bytes" where
  "encodeArray items = concatBytes ([encodeArrayHeader] @ items @ [encodeBreak])"

definition encodeFloat :: "float64 \<Rightarrow> codec_error + bytes" where
  "encodeFloat value =
     (if float64_finite value then Inr (0xfb # float64_bytes value) else Inl NonFiniteFloat)"

section \<open>Decoded values\<close>

text \<open>The decoder's \<open>CborValue\<close>; a map keeps the order in which its keys arrived.\<close>

datatype cbor =
    CFloat float64
  | CUint int
  | CInt int
  | CBytes bytes
  | CText jsstr
  | CArray "cbor list"
  | CMap "(int \<times> cbor) list"
  | CBool bool
  | CNull

section \<open>The reader\<close>

type_synonym 'a read_result = "codec_error + ('a \<times> bytes)"

definition readByte :: "bytes \<Rightarrow> byte read_result" where
  "readByte bs = (case bs of [] \<Rightarrow> Inl UnexpectedEnd | b # r \<Rightarrow> Inr (b, r))"

definition readBytes :: "int \<Rightarrow> bytes \<Rightarrow> bytes read_result" where
  "readBytes n bs = (if int (length bs) < n then Inl UnexpectedEnd
                     else Inr (take (nat n) bs, drop (nat n) bs))"

definition readArgument :: "nat \<Rightarrow> bytes \<Rightarrow> int read_result" where
  "readArgument info bs =
     (if info < 24 then Inr (int info, bs)
      else if info = 24 then mapE (\<lambda>(b, r). (uint b, r)) (readByte bs)
      else if info = 25 then mapE (\<lambda>(b, r). (be_int b, r)) (readBytes 2 bs)
      else if info = 26 then mapE (\<lambda>(b, r). (be_int b, r)) (readBytes 4 bs)
      else if info = 27 then mapE (\<lambda>(b, r). (be_int b, r)) (readBytes 8 bs)
      else Inl (UnsupportedInfo info))"

definition atBreak :: "bytes \<Rightarrow> bool" where
  "atBreak bs = (case bs of [] \<Rightarrow> False | b # _ \<Rightarrow> b = 0xff)"

definition readText :: "nat \<Rightarrow> bytes \<Rightarrow> cbor read_result" where
  "readText info bs =
     bindE (readArgument info bs) (\<lambda>(n, r).
     bindE (readBytes (js_number n) r) (\<lambda>(raw, r').
       case utf8_decode raw of None \<Rightarrow> Inl Utf8TypeError | Some s \<Rightarrow> Inr (CText s, r')))"

definition readSimple :: "nat \<Rightarrow> bytes \<Rightarrow> cbor read_result" where
  "readSimple info bs =
     (if info = 27 \<or> info = 26 then
        bindE (readBytes (if info = 27 then 8 else 4) bs) (\<lambda>(b, r).
          let value = (if info = 27 then float64_of_bytes b
                       else float32_to_64 (word_of_int (be_int b))) in
          if float64_finite value then Inr (CFloat value, r) else Inl NonFiniteFloat)
      else if info = 20 then Inr (CBool False, bs)
      else if info = 21 then Inr (CBool True, bs)
      else if info = 22 then Inr (CNull, bs)
      else Inl (UnsupportedSimple info))"

text \<open>
  \<open>loop_done\<close> is the exit test of the two container loops: with a definite length the count,
  with an indefinite one the break marker.
\<close>

definition loop_done :: "int option \<Rightarrow> bytes \<Rightarrow> bool" where
  "loop_done cnt bs = (case cnt of Some n \<Rightarrow> n \<le> 0 | None \<Rightarrow> atBreak bs)"

definition loop_next :: "int option \<Rightarrow> int option" where
  "loop_next cnt = map_option (\<lambda>n. n - 1) cnt"

text \<open>The count of a container and the byte that ends it: \<open>additionalInfo === 31\<close> is indefinite.\<close>

definition openContainer :: "nat \<Rightarrow> bytes \<Rightarrow> int option read_result" where
  "openContainer info bs =
     (if info = 31 then Inr (None, bs)
      else mapE (\<lambda>(n, r). (Some (js_number n), r)) (readArgument info bs))"

definition closeContainer :: "int option \<Rightarrow> bytes \<Rightarrow> unit read_result" where
  "closeContainer cnt bs = (case cnt of Some _ \<Rightarrow> Inr ((), bs) | None \<Rightarrow> mapE (\<lambda>(_, r). ((), r)) (readByte bs))"

fun readValue :: "nat \<Rightarrow> bytes \<Rightarrow> cbor read_result"
and readItems :: "nat \<Rightarrow> int option \<Rightarrow> bytes \<Rightarrow> cbor list read_result"
and readPairs :: "nat \<Rightarrow> int option \<Rightarrow> (int \<times> cbor) list \<Rightarrow> bytes \<Rightarrow> (int \<times> cbor) list read_result"
where
  "readValue 0 bs = Inl OutOfFuel"
| "readValue (Suc f) bs =
     bindE (readByte bs) (\<lambda>(head, r).
       let majorType = unat (drop_bit 5 head); info = unat (head AND 31) in
       if majorType = MAJOR_UINT then mapE (\<lambda>(n, r'). (CUint n, r')) (readArgument info r)
       else if majorType = MAJOR_NEGINT then mapE (\<lambda>(n, r'). (CInt (-1 - n), r')) (readArgument info r)
       else if majorType = MAJOR_BYTES then
         bindE (readArgument info r) (\<lambda>(n, r').
           mapE (\<lambda>(b, r''). (CBytes b, r'')) (readBytes (js_number n) r'))
       else if majorType = MAJOR_TEXT then readText info r
       else if majorType = MAJOR_ARRAY then
         bindE (openContainer info r) (\<lambda>(cnt, r').
         bindE (readItems f cnt r') (\<lambda>(items, r'').
           mapE (\<lambda>(_, r'''). (CArray items, r''')) (closeContainer cnt r'')))
       else if majorType = MAJOR_MAP then
         bindE (openContainer info r) (\<lambda>(cnt, r').
         bindE (readPairs f cnt [] r') (\<lambda>(m, r'').
           mapE (\<lambda>(_, r'''). (CMap m, r''')) (closeContainer cnt r'')))
       else if majorType = MAJOR_SIMPLE then readSimple info r
       else Inl (UnsupportedMajor majorType))"
| "readItems 0 cnt bs = Inl OutOfFuel"
| "readItems (Suc f) cnt bs =
     (if loop_done cnt bs then Inr ([], bs)
      else bindE (readValue f bs) (\<lambda>(v, r).
           mapE (\<lambda>(vs, r'). (v # vs, r')) (readItems f (loop_next cnt) r)))"
| "readPairs 0 cnt m bs = Inl OutOfFuel"
| "readPairs (Suc f) cnt m bs =
     (if loop_done cnt bs then Inr (m, bs)
      else bindE (readValue f bs) (\<lambda>(key, r).
        case key of
          CUint k \<Rightarrow>
            (let numericKey = js_number k in
             if jm_has m numericKey then Inl (DuplicateKey numericKey)
             else bindE (readValue f r) (\<lambda>(v, r').
                    readPairs f (loop_next cnt) (jm_put numericKey v m) r'))
        | _ \<Rightarrow> Inl MapKeyNotUint))"

text \<open>Enough fuel for every input: see \<open>readerValue_fuel\<close>.\<close>

definition reader_fuel :: "bytes \<Rightarrow> nat" where
  "reader_fuel bs = 2 * length bs + 1"

text \<open>\<open>new CborReader(bytes).readValue()\<close> with the rest of the input, and \<open>decodeOne\<close>, which ignores it.\<close>

definition readerValue :: "bytes \<Rightarrow> cbor read_result" where
  "readerValue bs = readValue (reader_fuel bs) bs"

definition decodeOne :: "bytes \<Rightarrow> codec_error + cbor" where
  "decodeOne bs = mapE fst (readerValue bs)"

end
