(* ===== verification/CborReader.thy ===== *)
theory CborReader
  imports Cbor
begin

text \<open>
  Facts about \<open>CborReader\<close>: every read consumes a non-empty prefix of its input, the fuel of
  \<open>decodeOne\<close> is always enough, and \<open>encodes bs v\<close>, the compositional statement that the bytes
  \<open>bs\<close> are read back as \<open>v\<close> whatever follows them, with one rule per encoder.
\<close>

section \<open>Reads consume a prefix\<close>

definition consumes :: "bytes \<Rightarrow> bytes \<Rightarrow> bool" where
  "consumes bs r \<longleftrightarrow> (\<exists>p. bs = p @ r)"

lemma consumes_refl [intro, simp]: "consumes bs bs"
  by (simp add: consumes_def)

lemma consumes_trans: "consumes bs r \<Longrightarrow> consumes r r' \<Longrightarrow> consumes bs r'"
  by (auto simp: consumes_def)

lemma consumes_length: "consumes bs r \<Longrightarrow> length r \<le> length bs"
  by (auto simp: consumes_def)

lemma readByte_Inr_iff: "readByte bs = Inr (b, r) \<longleftrightarrow> bs = b # r"
  by (auto simp: readByte_def split: list.splits)

lemma readByte_Inl_iff: "readByte bs = Inl e \<longleftrightarrow> bs = [] \<and> e = UnexpectedEnd"
  by (auto simp: readByte_def split: list.splits)

lemma readBytes_consumes: "readBytes n bs = Inr (b, r) \<Longrightarrow> consumes bs r"
  by (auto simp: readBytes_def consumes_def split: if_splits) (metis append_take_drop_id)

lemma readArgument_consumes: "readArgument i bs = Inr (n, r) \<Longrightarrow> consumes bs r"
  by (auto simp: readArgument_def mapE_Inr_iff readByte_Inr_iff split: if_splits
      dest: readBytes_consumes) (simp add: consumes_def)

lemma readText_consumes: "readText i bs = Inr (v, r) \<Longrightarrow> consumes bs r"
  by (auto simp: readText_def bindE_Inr_iff split: option.splits
      dest!: readArgument_consumes readBytes_consumes intro: consumes_trans)

lemma readSimple_consumes: "readSimple i bs = Inr (v, r) \<Longrightarrow> consumes bs r"
  by (auto simp: readSimple_def bindE_Inr_iff Let_def split: if_splits dest: readBytes_consumes)

lemma openContainer_consumes: "openContainer i bs = Inr (c, r) \<Longrightarrow> consumes bs r"
  by (auto simp: openContainer_def mapE_Inr_iff split: if_splits dest: readArgument_consumes)

lemma closeContainer_consumes: "closeContainer c bs = Inr (u, r) \<Longrightarrow> consumes bs r"
  by (auto simp: closeContainer_def mapE_Inr_iff readByte_Inr_iff split: option.splits)
    (simp add: consumes_def)

lemmas step_consumes = readBytes_consumes readArgument_consumes readText_consumes
  readSimple_consumes openContainer_consumes closeContainer_consumes

text \<open>Which reads a successful, and a failing, \<open>readValue\<close> is made of.\<close>

lemma readValue_Inr_cases:
  assumes "readValue (Suc f) (h # t) = Inr (v, r)"
  obtains (arg) i n where "readArgument i t = Inr (n, r)"
  | (bytes) i n t' k b where "readArgument i t = Inr (n, t')" "readBytes k t' = Inr (b, r)"
  | (textual) i where "readText i t = Inr (v, r)"
  | (items) i c t' vs t'' where "openContainer i t = Inr (c, t')" "readItems f c t' = Inr (vs, t'')"
      "closeContainer c t'' = Inr ((), r)"
  | (pairs) i c t' m t'' where "openContainer i t = Inr (c, t')" "readPairs f c [] t' = Inr (m, t'')"
      "closeContainer c t'' = Inr ((), r)"
  | (simple) i where "readSimple i t = Inr (v, r)"
  using assms
  by (simp add: readByte_def Let_def split: if_splits)
    (auto simp: bindE_Inr_iff mapE_Inr_iff)

lemma readValue_Inl_cases:
  assumes "readValue (Suc f) (h # t) = Inl e"
  obtains (arg) i where "readArgument i t = Inl e"
  | (bytes) i n t' k where "readArgument i t = Inr (n, t')" "readBytes k t' = Inl e"
  | (textual) i where "readText i t = Inl e"
  | (openc) i where "openContainer i t = Inl e"
  | (items) i c t' where "openContainer i t = Inr (c, t')" "readItems f c t' = Inl e"
  | (pairs) i c t' where "openContainer i t = Inr (c, t')" "readPairs f c [] t' = Inl e"
  | (closing) c t' where "closeContainer c t' = Inl e"
  | (simple) i where "readSimple i t = Inl e"
  | (major) k where "e = UnsupportedMajor k"
  using assms
  by (simp add: readByte_def Let_def split: if_splits)
    (auto simp: bindE_Inl_iff mapE_Inl_iff)

lemma readItems_Inr_cases:
  assumes "readItems (Suc f) cnt bs = Inr (vs, r)"
  obtains (stop) "loop_done cnt bs" "vs = []" "r = bs"
  | (step) v t ws where "\<not> loop_done cnt bs" "readValue f bs = Inr (v, t)"
      "readItems f (loop_next cnt) t = Inr (ws, r)" "vs = v # ws"
  using assms by (auto simp: bindE_Inr_iff mapE_Inr_iff split: if_splits)

lemma readPairs_Inr_cases:
  assumes "readPairs (Suc f) cnt m bs = Inr (m', r)"
  obtains (stop) "loop_done cnt bs" "m' = m" "r = bs"
  | (step) k t v t' where "\<not> loop_done cnt bs" "readValue f bs = Inr (CUint k, t)"
      "\<not> jm_has m (js_number k)" "readValue f t = Inr (v, t')"
      "readPairs f (loop_next cnt) (jm_put (js_number k) v m) t' = Inr (m', r)"
proof (cases "loop_done cnt bs")
  case True
  with assms show thesis by (intro that(1)) auto
next
  case False
  with assms obtain key t where key: "readValue f bs = Inr (key, t)"
    by (auto simp: bindE_Inr_iff)
  with False assms show thesis
    by (cases key) (auto simp: bindE_Inr_iff Let_def split: if_split_asm intro: that(2))
qed

lemma read_consumes:
  "(\<forall>bs v r. readValue f bs = Inr (v, r) \<longrightarrow> consumes bs r \<and> length r < length bs) \<and>
   (\<forall>cnt bs vs r. readItems f cnt bs = Inr (vs, r) \<longrightarrow> consumes bs r) \<and>
   (\<forall>cnt m bs m' r. readPairs f cnt m bs = Inr (m', r) \<longrightarrow> consumes bs r)"
proof (induction f)
  case (Suc f)
  then have V: "readValue f bs = Inr (v, r) \<Longrightarrow> consumes bs r"
    and I: "readItems f cnt bs = Inr (vs, r) \<Longrightarrow> consumes bs r"
    and P: "readPairs f cnt m bs = Inr (m', r) \<Longrightarrow> consumes bs r" for cnt bs v vs m m' r
    by blast+
  have "consumes bs r \<and> length r < length bs" if *: "readValue (Suc f) bs = Inr (v, r)" for bs v r
  proof -
    from * obtain h t where bs: "bs = h # t"
      by (auto simp: bindE_Inr_iff readByte_Inr_iff)
    from * [unfolded bs] have "consumes t r"
      by (cases rule: readValue_Inr_cases) (blast dest: step_consumes I P intro: consumes_trans)+
    then show ?thesis unfolding bs using consumes_length [of t r] by (auto simp: consumes_def)
  qed
  moreover have "consumes bs r" if "readItems (Suc f) cnt bs = Inr (vs, r)" for cnt bs vs r
    using that by (cases rule: readItems_Inr_cases) (blast dest: V I intro: consumes_trans)+
  moreover have "consumes bs r" if "readPairs (Suc f) cnt m bs = Inr (m', r)" for cnt m bs m' r
    using that by (cases rule: readPairs_Inr_cases) (blast dest: V P intro: consumes_trans)+
  ultimately show ?case by blast
qed simp

lemma readValue_shrinks: "readValue f bs = Inr (v, r) \<Longrightarrow> length r < length bs"
  using read_consumes by blast

section \<open>The fuel is enough\<close>

lemma readBytes_fuel: "readBytes n bs \<noteq> Inl OutOfFuel"
  by (simp add: readBytes_def)

lemma readArgument_fuel: "readArgument i bs \<noteq> Inl OutOfFuel"
  by (auto simp: readArgument_def mapE_Inl_iff readByte_Inl_iff readBytes_def)

lemma readText_fuel: "readText i bs \<noteq> Inl OutOfFuel"
  using readArgument_fuel readBytes_fuel
  by (auto simp: readText_def bindE_Inl_iff split: option.splits)

lemma readSimple_fuel: "readSimple i bs \<noteq> Inl OutOfFuel"
  using readBytes_fuel by (auto simp: readSimple_def bindE_Inl_iff Let_def split: if_splits)

lemma openContainer_fuel: "openContainer i bs \<noteq> Inl OutOfFuel"
  using readArgument_fuel by (auto simp: openContainer_def mapE_Inl_iff)

lemma closeContainer_fuel: "closeContainer c bs \<noteq> Inl OutOfFuel"
  by (auto simp: closeContainer_def mapE_Inl_iff readByte_Inl_iff split: option.splits)

lemmas step_fuel = readBytes_fuel readArgument_fuel readText_fuel readSimple_fuel
  openContainer_fuel closeContainer_fuel

lemma read_fuel:
  "(\<forall>bs. 2 * length bs + 1 \<le> f \<longrightarrow> readValue f bs \<noteq> Inl OutOfFuel) \<and>
   (\<forall>cnt bs. 2 * length bs + 2 \<le> f \<longrightarrow> readItems f cnt bs \<noteq> Inl OutOfFuel) \<and>
   (\<forall>cnt m bs. 2 * length bs + 2 \<le> f \<longrightarrow> readPairs f cnt m bs \<noteq> Inl OutOfFuel)"
proof (induction f)
  case (Suc f)
  then have V: "2 * length bs + 1 \<le> f \<Longrightarrow> readValue f bs \<noteq> Inl OutOfFuel"
    and I: "2 * length bs + 2 \<le> f \<Longrightarrow> readItems f cnt bs \<noteq> Inl OutOfFuel"
    and P: "2 * length bs + 2 \<le> f \<Longrightarrow> readPairs f cnt m bs \<noteq> Inl OutOfFuel" for cnt bs m
    by blast+
  have "readValue (Suc f) bs \<noteq> Inl OutOfFuel" if f: "2 * length bs + 1 \<le> Suc f" for bs
  proof (cases bs)
    case Nil
    then show ?thesis by (simp add: readByte_def)
  next
    case (Cons h t)
    have rest: "2 * length t' + 2 \<le> f" if "openContainer i t = Inr (c, t')" for i c t'
      using consumes_length [OF openContainer_consumes [OF that]] f Cons by simp
    show ?thesis
    proof
      assume "readValue (Suc f) bs = Inl OutOfFuel"
      then have "readValue (Suc f) (h # t) = Inl OutOfFuel" by (simp only: Cons)
      then show False
        by (cases rule: readValue_Inl_cases) (use step_fuel I P rest in blast)+
    qed
  qed
  moreover have "readItems (Suc f) cnt bs \<noteq> Inl OutOfFuel" if f: "2 * length bs + 2 \<le> Suc f" for cnt bs
    using f V [of bs] by (auto simp: bindE_Inl_iff mapE_Inl_iff dest!: readValue_shrinks intro!: I)
  moreover have "readPairs (Suc f) cnt m bs \<noteq> Inl OutOfFuel" if f: "2 * length bs + 2 \<le> Suc f" for cnt m bs
  proof -
    have "2 * length t + 1 \<le> f" "2 * length t' + 2 \<le> f"
      if "readValue f bs = Inr (v, t)" "readValue f t = Inr (v', t')" for v v' t t'
      using that [THEN readValue_shrinks] f by simp_all
    moreover have "2 * length t + 1 \<le> f" if "readValue f bs = Inr (v, t)" for v t
      using that [THEN readValue_shrinks] f by simp
    ultimately show ?thesis
      using f V P by (auto simp: bindE_Inl_iff Let_def split: cbor.splits)
  qed
  ultimately show ?case by blast
qed simp

lemma readerValue_fuel: "readerValue bs \<noteq> Inl OutOfFuel"
  using read_fuel [of "reader_fuel bs"] unfolding readerValue_def reader_fuel_def by blast

lemma readerValue_shrinks: "readerValue bs = Inr (v, r) \<Longrightarrow> \<exists>p. bs = p @ r \<and> p \<noteq> []"
  using read_consumes [of "reader_fuel bs"] unfolding readerValue_def consumes_def by fastforce

declare readValue.simps [simp del] readItems.simps [simp del] readPairs.simps [simp del]

section \<open>What the encoders write\<close>

lemma head_byte_table:
  "\<forall>m\<in>set [0..<8]. \<forall>a\<in>set [0..<32].
     unat (drop_bit 5 (head_byte m a)) = m \<and> unat (head_byte m a AND 31) = a"
  by code_simp

lemma head_byte_major [simp]: "m < 8 \<Longrightarrow> a < 32 \<Longrightarrow> unat (drop_bit 5 (head_byte m a)) = m"
  using head_byte_table by simp

lemma head_byte_info [simp]: "m < 8 \<Longrightarrow> a < 32 \<Longrightarrow> unat (head_byte m a AND 31) = a"
  using head_byte_table by simp

lemma readBytes_append: "int (length b) = n \<Longrightarrow> readBytes n (b @ r) = Inr (b, r)"
  by (auto simp: readBytes_def)

text \<open>The head the encoder writes is split into its major type and its argument by the reader.\<close>

lemma encodeHead_reads:
  assumes "encodeHead mt n = Inr bs" and "mt < 8"
  obtains h as where "bs = h # as" "unat (drop_bit 5 h) = mt" "unat (h AND 31) < 28"
    "\<And>r. readArgument (unat (h AND 31)) (as @ r) = Inr (n, r)"
proof -
  have n: "0 \<le> n" using assms(1) by (auto simp: encodeHead_def split: if_splits)
  have rd: "readArgument i (be_bytes k n @ r) = Inr (n, r)"
    if "(i, k) \<in> {(24, 1), (25, 2), (26, 4), (27, 8)}" "n < 256 ^ k" for i k r
    using that be_int_roundtrip [OF n that(2)] be_bytes_Suc [of 0 n] n
    by (auto simp: readArgument_def readBytes_append readByte_def be_bytes_def uint_byte_of_int)
  consider "n < 24" | "24 \<le> n" "n \<le> 0xff" | "0xff < n" "n \<le> 0xffff"
    | "0xffff < n" "n \<le> 0xffffffff" | "0xffffffff < n" "n \<le> 0xffffffffffffffff"
    using assms(1) by (auto simp: encodeHead_def split: if_splits)
  then show thesis
  proof cases
    case 1
    then show thesis using n assms that [of "head_byte mt (nat n)" "[]"]
      by (simp add: encodeHead_def readArgument_def)
  next
    case 2
    then show thesis using n assms rd [of 24 1] that [of "head_byte mt 24" "be_bytes 1 n"]
      by (simp add: encodeHead_def)
  next
    case 3
    then show thesis using n assms rd [of 25 2] that [of "head_byte mt 25" "be_bytes 2 n"]
      by (simp add: encodeHead_def)
  next
    case 4
    then show thesis using n assms rd [of 26 4] that [of "head_byte mt 26" "be_bytes 4 n"]
      by (simp add: encodeHead_def)
  next
    case 5
    then show thesis using n assms rd [of 27 8] that [of "head_byte mt 27" "be_bytes 8 n"]
      by (simp add: encodeHead_def)
  qed
qed

text \<open>\<open>bs\<close> is read back as \<open>v\<close>, with exactly its own bytes consumed, whatever follows it.\<close>

definition encodes :: "bytes \<Rightarrow> cbor \<Rightarrow> bool" where
  "encodes bs v \<longleftrightarrow> bs \<noteq> [] \<and> hd bs \<noteq> 0xff \<and>
     (\<forall>r f. 2 * length bs \<le> f \<longrightarrow> readValue f (bs @ r) = Inr (v, r))"

lemma encodes_read: "encodes bs v \<Longrightarrow> 2 * length bs \<le> f \<Longrightarrow> readValue f (bs @ r) = Inr (v, r)"
  by (simp add: encodes_def)

lemma encodes_not_break: "encodes bs v \<Longrightarrow> \<not> atBreak (bs @ r)"
  by (cases bs) (auto simp: encodes_def atBreak_def)

lemma encodes_length: "encodes bs v \<Longrightarrow> 0 < length bs"
  by (auto simp: encodes_def)

lemma encodes_readerValue: "encodes bs v \<Longrightarrow> readerValue (bs @ r) = Inr (v, r)"
  by (simp add: readerValue_def reader_fuel_def encodes_read)

lemma encodes_decodeOne: "encodes bs v \<Longrightarrow> decodeOne bs = Inr v"
  using encodes_readerValue [of bs v "[]"] by (simp add: decodeOne_def)

section \<open>One rule per encoder\<close>

text \<open>What fits on the wire: the bounds under which the encoders do not throw and nothing is rounded.\<close>

definition u32_ok :: "int \<Rightarrow> bool" where
  "u32_ok n \<longleftrightarrow> 0 \<le> n \<and> n \<le> 0xffffffff"

definition u64_ok :: "int \<Rightarrow> bool" where
  "u64_ok n \<longleftrightarrow> 0 \<le> n \<and> n \<le> 0xffffffffffffffff"

definition int_ok :: "int \<Rightarrow> bool" where
  "int_ok n \<longleftrightarrow> - 0x10000000000000000 \<le> n \<and> n \<le> 0xffffffffffffffff"

definition bytes_ok :: "bytes \<Rightarrow> bool" where
  "bytes_ok b \<longleftrightarrow> length b < 2 ^ 53"

definition wtext_ok :: "jsstr \<Rightarrow> bool" where
  "wtext_ok s \<longleftrightarrow> text_ok s \<and> length (utf8_encode s) < 2 ^ 53"

lemma u32_ok_js_number [simp]: "u32_ok n \<Longrightarrow> js_number n = n"
  by (simp add: u32_ok_def)

lemma u32_u64: "u32_ok n \<Longrightarrow> u64_ok n"
  by (simp add: u32_ok_def u64_ok_def)

lemma js_number_length [simp]: "length b < 2 ^ 53 \<Longrightarrow> js_number (int (length b)) = int (length b)"
  by (rule js_number_exact) simp

lemma encodeHead_ok: "u64_ok n \<Longrightarrow> \<exists>bs. encodeHead mt n = Inr bs"
  by (auto simp: encodeHead_def u64_ok_def)

text \<open>The bytes of a successful encoder call.\<close>

definition uint_w :: "int \<Rightarrow> bytes" where "uint_w n = projr (encodeUint n)"
definition int_w :: "int \<Rightarrow> bytes" where "int_w n = projr (encodeInt n)"
definition bytes_w :: "bytes \<Rightarrow> bytes" where "bytes_w b = projr (encodeBytes b)"
definition text_w :: "jsstr \<Rightarrow> bytes" where "text_w s = projr (encodeText s)"
definition float_w :: "float64 \<Rightarrow> bytes" where "float_w w = projr (encodeFloat w)"
definition map_w :: "field_pair list \<Rightarrow> bytes" where "map_w ps = projr (encodeMap ps)"

lemma encodesI:
  assumes "bs = h # as" and "unat (drop_bit 5 h) = mt" and "mt < 7"
    and "\<And>f r. 2 * length bs \<le> Suc f \<Longrightarrow> readValue (Suc f) (h # as @ r) = Inr (v, r)"
  shows "encodes bs v"
proof -
  have "unat (drop_bit 5 (0xff :: byte)) = 7" by code_simp
  then have "h \<noteq> 0xff" using assms(2,3) by auto
  moreover have "readValue f (bs @ r) = Inr (v, r)" if "2 * length bs \<le> f" for f r
    using that assms(1,4) by (cases f) simp_all
  ultimately show ?thesis using assms(1) by (simp add: encodes_def)
qed

lemma encodes_uint: "encodeUint n = Inr bs \<Longrightarrow> encodes bs (CUint n)"
  unfolding encodeUint_def
proof (erule encodeHead_reads)
  fix h as
  assume *: "bs = h # as" "unat (drop_bit 5 h) = MAJOR_UINT"
    "\<And>r. readArgument (unat (h AND 31)) (as @ r) = Inr (n, r)"
  then show "encodes bs (CUint n)"
    by (intro encodesI [OF *(1,2)]) (simp_all add: readValue.simps readByte_def major_defs)
qed (simp add: major_defs)

lemma encodes_negint: "encodeHead MAJOR_NEGINT n = Inr bs \<Longrightarrow> encodes bs (CInt (-1 - n))"
proof (erule encodeHead_reads)
  fix h as
  assume *: "bs = h # as" "unat (drop_bit 5 h) = MAJOR_NEGINT"
    "\<And>r. readArgument (unat (h AND 31)) (as @ r) = Inr (n, r)"
  then show "encodes bs (CInt (-1 - n))"
    by (intro encodesI [OF *(1,2)]) (simp_all add: readValue.simps readByte_def major_defs)
qed (simp add: major_defs)

text \<open>A signed field comes back as \<open>uint\<close> or \<open>int\<close>, by its sign.\<close>

definition cbor_int :: "int \<Rightarrow> cbor" where
  "cbor_int n = (if n \<ge> 0 then CUint n else CInt n)"

lemma encodes_int: "encodeInt n = Inr bs \<Longrightarrow> encodes bs (cbor_int n)"
  using encodes_negint [of "-1 - n" bs] encodes_uint [of n bs]
  by (auto simp: encodeInt_def cbor_int_def encodeUint_def split: if_splits)

lemma encodes_bytes: "encodeBytes b = Inr bs \<Longrightarrow> bytes_ok b \<Longrightarrow> encodes bs (CBytes b)"
proof -
  assume "encodeBytes b = Inr bs" and ok: "bytes_ok b"
  then obtain hd where hd: "encodeHead MAJOR_BYTES (int (length b)) = Inr hd" and bs: "bs = hd @ b"
    by (auto simp: encodeBytes_def mapE_Inr_iff concatBytes_def)
  from hd show "encodes bs (CBytes b)"
  proof (rule encodeHead_reads)
    fix h as
    assume *: "hd = h # as" "unat (drop_bit 5 h) = MAJOR_BYTES"
      "\<And>r. readArgument (unat (h AND 31)) (as @ r) = Inr (int (length b), r)"
    have "bs = h # (as @ b)" using bs *(1) by simp
    then show "encodes bs (CBytes b)"
      by (rule encodesI [OF _ *(2)])
        (use * ok in \<open>simp_all add: readValue.simps readByte_def major_defs bytes_ok_def readBytes_append\<close>)
  qed (simp add: major_defs)
qed

lemma encodes_text: "encodeText s = Inr bs \<Longrightarrow> wtext_ok s \<Longrightarrow> encodes bs (CText s)"
proof -
  assume "encodeText s = Inr bs" and ok: "wtext_ok s"
  then obtain hd where hd: "encodeHead MAJOR_TEXT (int (length (utf8_encode s))) = Inr hd"
    and bs: "bs = hd @ utf8_encode s"
    by (auto simp: encodeText_def mapE_Inr_iff concatBytes_def Let_def)
  from hd show "encodes bs (CText s)"
  proof (rule encodeHead_reads)
    fix h as
    assume *: "hd = h # as" "unat (drop_bit 5 h) = MAJOR_TEXT"
      "\<And>r. readArgument (unat (h AND 31)) (as @ r) = Inr (int (length (utf8_encode s)), r)"
    have "bs = h # (as @ utf8_encode s)" using bs *(1) by simp
    then show "encodes bs (CText s)"
      by (rule encodesI [OF _ *(2)])
        (use * ok in \<open>simp_all add: readValue.simps readByte_def readText_def major_defs wtext_ok_def
          readBytes_append utf8_roundtrip\<close>)
  qed (simp add: major_defs)
qed

lemma encodes_simple:
  assumes "\<And>r. readSimple i (as @ r) = Inr (v, r)" and "h = head_byte 7 i" and "i < 31"
  shows "encodes (h # as) v"
proof -
  have "h \<noteq> 0xff"
  proof
    assume "h = 0xff"
    moreover have "unat ((0xff :: byte) AND 31) = 31" by code_simp
    ultimately show False using assms(2,3) head_byte_info [of 7 i] by simp
  qed
  moreover have "readValue f (h # as @ r) = Inr (v, r)" if "2 * length (h # as) \<le> f" for f r
    using that assms by (cases f) (simp_all add: readValue.simps readByte_def major_defs)
  ultimately show ?thesis by (simp add: encodes_def)
qed

lemma encodes_bool: "encodes (encodeBool b) (CBool b)"
proof -
  have "0xf5 = head_byte 7 21" "0xf4 = head_byte 7 20" by code_simp+
  then show ?thesis
    unfolding encodeBool_def by (cases b) (auto intro!: encodes_simple simp: readSimple_def)
qed

lemma encodes_null: "encodes encodeNull CNull"
proof -
  have "0xf6 = head_byte 7 22" by code_simp
  then show ?thesis
    unfolding encodeNull_def by (auto intro!: encodes_simple simp: readSimple_def)
qed

lemma encodes_float: "encodeFloat w = Inr bs \<Longrightarrow> encodes bs (CFloat w)"
proof -
  assume *: "encodeFloat w = Inr bs"
  have "0xfb = head_byte 7 27" by code_simp
  with * show ?thesis
    by (auto simp: encodeFloat_def readSimple_def readBytes_append float64_bytes_roundtrip Let_def
        split: if_splits intro!: encodes_simple)
qed

lemma uint_w: "u64_ok n \<Longrightarrow> encodeUint n = Inr (uint_w n)"
  using encodeHead_ok [of n MAJOR_UINT] by (auto simp: uint_w_def encodeUint_def)

lemma int_w: "int_ok n \<Longrightarrow> encodeInt n = Inr (int_w n)"
  using encodeHead_ok [of n MAJOR_UINT] encodeHead_ok [of "-1 - n" MAJOR_NEGINT]
  by (auto simp: int_w_def encodeInt_def int_ok_def u64_ok_def)

lemma bytes_w: "bytes_ok b \<Longrightarrow> encodeBytes b = Inr (bytes_w b)"
proof -
  assume "bytes_ok b"
  then have "length b < 0x10000000000000000" by (simp add: bytes_ok_def)
  then have "u64_ok (int (length b))" unfolding u64_ok_def by linarith
  then show ?thesis
    using encodeHead_ok [of "int (length b)" MAJOR_BYTES] by (auto simp: bytes_w_def encodeBytes_def)
qed

lemma text_w: "wtext_ok s \<Longrightarrow> encodeText s = Inr (text_w s)"
proof -
  assume "wtext_ok s"
  then have "length (utf8_encode s) < 0x10000000000000000" by (simp add: wtext_ok_def)
  then have "u64_ok (int (length (utf8_encode s)))" unfolding u64_ok_def by linarith
  then show ?thesis
    using encodeHead_ok [of "int (length (utf8_encode s))" MAJOR_TEXT]
    by (auto simp: text_w_def encodeText_def Let_def)
qed

lemma float_w: "float64_finite w \<Longrightarrow> encodeFloat w = Inr (float_w w)"
  by (simp add: float_w_def encodeFloat_def)

lemmas encodes_leaf [encodes_intros] =
  encodes_uint [OF uint_w] encodes_int [OF int_w] encodes_bytes [OF bytes_w]
  encodes_text [OF text_w] encodes_float [OF float_w] encodes_bool encodes_null

section \<open>Containers\<close>

lemma encodeBreak_ff: "encodeBreak = [0xff]"
  by code_simp

lemma encodes_items:
  "list_all2 encodes bss vs \<Longrightarrow> 2 * length (concat bss) + 1 \<le> f \<Longrightarrow>
   readItems f None (concat bss @ 0xff # r) = Inr (vs, 0xff # r)"
proof (induction bss vs arbitrary: f rule: list_all2_induct)
  case Nil
  then show ?case by (cases f) (simp_all add: readItems.simps loop_done_def atBreak_def)
next
  case (Cons b bss v vs)
  then obtain g where f: "f = Suc g" by (cases f) simp_all
  have "0 < length b" using Cons.hyps(1) by (rule encodes_length)
  with Cons.prems f have g: "2 * length b \<le> g" "2 * length (concat bss) + 1 \<le> g"
    by (simp_all del: length_greater_0_conv)
  have "readValue g (b @ concat bss @ 0xff # r) = Inr (v, concat bss @ 0xff # r)"
    using Cons.hyps(1) g(1) by (rule encodes_read)
  with Cons.IH [OF g(2)] f encodes_not_break [OF Cons.hyps(1)] show ?case
    by (simp add: readItems.simps loop_done_def loop_next_def)
qed

lemma encodes_array [encodes_intros]:
  assumes "list_all2 encodes bss vs"
  shows "encodes (encodeArray bss) (CArray vs)"
proof -
  have "encodeArray bss = head_byte MAJOR_ARRAY 31 # (concat bss @ [0xff])"
    by (simp add: encodeArray_def concatBytes_def encodeArrayHeader_def encodeBreak_ff)
  then show ?thesis
  proof (rule encodesI)
    show "unat (drop_bit 5 (head_byte MAJOR_ARRAY 31)) = 4" by (simp add: major_defs)
    fix f r
    assume "2 * length (encodeArray bss) \<le> Suc f"
    then have f: "2 * length (concat bss) + 1 \<le> f"
      by (simp add: encodeArray_def concatBytes_def encodeArrayHeader_def encodeBreak_ff)
    show "readValue (Suc f) (head_byte MAJOR_ARRAY 31 # (concat bss @ [0xff]) @ r) = Inr (CArray vs, r)"
      using encodes_items [OF assms f]
      by (simp add: readValue.simps readByte_def major_defs openContainer_def closeContainer_def)
  qed simp
qed

definition pair_encodes :: "field_pair \<Rightarrow> int \<times> cbor \<Rightarrow> bool" where
  "pair_encodes p kv \<longleftrightarrow> fst p = fst kv \<and> u32_ok (fst p) \<and> encodes (snd p) (snd kv)"

definition pairs_bytes :: "field_pair list \<Rightarrow> bytes" where
  "pairs_bytes ps = concat (map (\<lambda>(k, b). uint_w k @ b) ps)"

lemma encodes_pairs:
  "list_all2 pair_encodes ps kvs \<Longrightarrow> 2 * length (pairs_bytes ps) + 1 \<le> f \<Longrightarrow>
   distinct (map fst m @ map fst kvs) \<Longrightarrow>
   readPairs f None m (pairs_bytes ps @ 0xff # r) = Inr (m @ kvs, 0xff # r)"
proof (induction ps kvs arbitrary: f m rule: list_all2_induct)
  case Nil
  then show ?case by (cases f) (simp_all add: readPairs.simps loop_done_def atBreak_def pairs_bytes_def)
next
  case (Cons p ps kv kvs)
  obtain k b where p: "p = (k, b)" by (cases p)
  with Cons.hyps(1) obtain v where kv: "kv = (k, v)" and k: "u32_ok k" and b: "encodes b v"
    by (cases kv) (auto simp: pair_encodes_def)
  have kk: "encodes (uint_w k) (CUint k)" by (rule encodes_uint [OF uint_w]) (rule u32_u64 [OF k])
  obtain g where f: "f = Suc g" using Cons.prems by (cases f) simp_all
  have pb: "pairs_bytes (p # ps) = uint_w k @ b @ pairs_bytes ps" by (simp add: pairs_bytes_def p)
  have "0 < length b" "0 < length (uint_w k)" using b kk by (auto dest: encodes_length)
  with Cons.prems(1) f pb have g: "2 * length (uint_w k) \<le> g" "2 * length b \<le> g"
    "2 * length (pairs_bytes ps) + 1 \<le> g"
    by (simp_all del: length_greater_0_conv)
  have new: "k \<notin> fst ` set m" using Cons.prems(2) kv by auto
  have "readValue g (uint_w k @ b @ pairs_bytes ps @ 0xff # r) = Inr (CUint k, b @ pairs_bytes ps @ 0xff # r)"
    using kk g(1) by (rule encodes_read)
  moreover have "readValue g (b @ pairs_bytes ps @ 0xff # r) = Inr (v, pairs_bytes ps @ 0xff # r)"
    using b g(2) by (rule encodes_read)
  moreover have "readPairs g None (m @ [(k, v)]) (pairs_bytes ps @ 0xff # r) = Inr ((m @ [(k, v)]) @ kvs, 0xff # r)"
    using Cons.prems(2) kv by (intro Cons.IH [OF g(3)]) auto
  ultimately show ?case
    using encodes_not_break [OF kk] new k
    by (simp add: f pb kv readPairs.simps loop_done_def loop_next_def jm_has_iff update_new)
qed

lemma encodeMap_bytes:
  "list_all (\<lambda>p. u32_ok (fst p)) ps \<Longrightarrow>
   encodeMap ps = Inr (head_byte MAJOR_MAP 31 # pairs_bytes ps @ [0xff])"
proof -
  assume "list_all (\<lambda>p. u32_ok (fst p)) ps"
  then have "traverseE (\<lambda>(key, value). mapE (\<lambda>k. [k, value]) (encodeUint key)) ps
      = Inr (map (\<lambda>(k, b). [uint_w k, b]) ps)"
    by (intro traverseE_all_Inr) (auto simp: list_all_iff uint_w u32_u64)
  moreover have "concat (concat (map (\<lambda>(k, b). [uint_w k, b]) ps)) = pairs_bytes ps"
    by (induction ps) (auto simp: pairs_bytes_def)
  ultimately show ?thesis
    by (simp add: encodeMap_def concatBytes_def encodeMapHeader_def encodeBreak_ff)
qed

lemma encodes_map:
  assumes "list_all2 pair_encodes ps kvs" and "distinct (map fst kvs)"
  shows "encodeMap ps = Inr (map_w ps)" and "encodes (map_w ps) (CMap kvs)"
proof -
  have "list_all (\<lambda>p. u32_ok (fst p)) ps"
    using assms(1) by (induction rule: list_all2_induct) (auto simp: pair_encodes_def)
  from encodeMap_bytes [OF this]
  have w: "map_w ps = head_byte MAJOR_MAP 31 # (pairs_bytes ps @ [0xff])" and e: "encodeMap ps = Inr (map_w ps)"
    by (simp_all add: map_w_def)
  show "encodeMap ps = Inr (map_w ps)" by (fact e)
  from w show "encodes (map_w ps) (CMap kvs)"
  proof (rule encodesI)
    show "unat (drop_bit 5 (head_byte MAJOR_MAP 31)) = 5" by (simp add: major_defs)
    fix f r
    assume "2 * length (map_w ps) \<le> Suc f"
    then have f: "2 * length (pairs_bytes ps) + 1 \<le> f" by (simp add: w)
    show "readValue (Suc f) (head_byte MAJOR_MAP 31 # (pairs_bytes ps @ [0xff]) @ r) = Inr (CMap kvs, r)"
      using encodes_pairs [OF assms(1) f, of "[]"] assms(2)
      by (simp add: readValue.simps readByte_def major_defs openContainer_def closeContainer_def)
  qed simp
qed

end
