(* ===== verification/PayloadFields.thy ===== *)
theory PayloadFields
  imports CborReader
begin

text \<open>
  \<open>protocol-sdk/src/fields.ts\<close>: the readers and writers of numbered fields that every
  operation and event payload is built from, the shared payload shapes, and the rules that
  make a payload's round trip a matter of listing its fields. The interface \<open>value_codec\<close> is
  the contract of every payload codec: what was written is read back.
\<close>

type_synonym field_map = "(int \<times> cbor) list"

type_synonym field = "codec_error + field_pair"

section \<open>Readers\<close>

definition get :: "field_map \<Rightarrow> int \<Rightarrow> string \<Rightarrow> codec_error + cbor" where
  "get m key context =
     (case map_of m key of None \<Rightarrow> Inl (MissingField context key) | Some v \<Rightarrow> Inr v)"

definition requireU32 :: "field_map \<Rightarrow> int \<Rightarrow> string \<Rightarrow> codec_error + int" where
  "requireU32 m key context = bindE (get m key context) (\<lambda>v.
     case v of
       CUint n \<Rightarrow> if n > 0xffffffff then Inl (ExceedsU32 context key) else Inr (js_number n)
     | _ \<Rightarrow> Inl (WrongKind context key))"

definition optionalU32 :: "field_map \<Rightarrow> int \<Rightarrow> int \<Rightarrow> string \<Rightarrow> codec_error + int" where
  "optionalU32 m key defaultValue context =
     (case map_of m key of
        None \<Rightarrow> Inr defaultValue
      | Some (CUint n) \<Rightarrow> Inr (js_number n)
      | Some _ \<Rightarrow> Inl (WrongKind context key))"

definition requireInt64 :: "field_map \<Rightarrow> int \<Rightarrow> string \<Rightarrow> codec_error + int" where
  "requireInt64 m key context = bindE (get m key context) (\<lambda>v.
     case v of CUint n \<Rightarrow> Inr n | CInt n \<Rightarrow> Inr n | _ \<Rightarrow> Inl (WrongKind context key))"

definition requireBytes :: "field_map \<Rightarrow> int \<Rightarrow> string \<Rightarrow> codec_error + bytes" where
  "requireBytes m key context = bindE (get m key context) (\<lambda>v.
     case v of CBytes b \<Rightarrow> Inr b | _ \<Rightarrow> Inl (WrongKind context key))"

definition requireText :: "field_map \<Rightarrow> int \<Rightarrow> string \<Rightarrow> codec_error + jsstr" where
  "requireText m key context = bindE (get m key context) (\<lambda>v.
     case v of CText s \<Rightarrow> Inr s | _ \<Rightarrow> Inl (WrongKind context key))"

definition requireBool :: "field_map \<Rightarrow> int \<Rightarrow> string \<Rightarrow> codec_error + bool" where
  "requireBool m key context = bindE (get m key context) (\<lambda>v.
     case v of CBool b \<Rightarrow> Inr b | _ \<Rightarrow> Inl (WrongKind context key))"

definition requireArray :: "field_map \<Rightarrow> int \<Rightarrow> string \<Rightarrow> codec_error + cbor list" where
  "requireArray m key context = bindE (get m key context) (\<lambda>v.
     case v of CArray vs \<Rightarrow> Inr vs | _ \<Rightarrow> Inl (WrongKind context key))"

definition requireMap :: "cbor \<Rightarrow> string \<Rightarrow> codec_error + field_map" where
  "requireMap v context = (case v of CMap m \<Rightarrow> Inr m | _ \<Rightarrow> Inl (NotAMap context))"

definition requireMapField :: "field_map \<Rightarrow> int \<Rightarrow> string \<Rightarrow> codec_error + field_map" where
  "requireMapField m key context = bindE (get m key context) (\<lambda>v. requireMap v context)"

text \<open>\<open>requireMap(decodeOne(bytes), context)\<close>, the first line of every decoder.\<close>

definition decodeMap :: "bytes \<Rightarrow> string \<Rightarrow> codec_error + field_map" where
  "decodeMap bs context = bindE (decodeOne bs) (\<lambda>v. requireMap v context)"

lemmas reader_defs = get_def requireU32_def optionalU32_def requireInt64_def requireBytes_def
  requireText_def requireBool_def requireArray_def requireMap_def requireMapField_def

section \<open>Writers\<close>

definition u32Field :: "int \<Rightarrow> int \<Rightarrow> field" where
  "u32Field key value = mapE (Pair key) (encodeUint value)"

definition int64Field :: "int \<Rightarrow> int \<Rightarrow> field" where
  "int64Field key value = mapE (Pair key) (encodeInt value)"

definition bytesField :: "int \<Rightarrow> bytes \<Rightarrow> field" where
  "bytesField key value = mapE (Pair key) (encodeBytes value)"

definition textField :: "int \<Rightarrow> jsstr \<Rightarrow> field" where
  "textField key value = mapE (Pair key) (encodeText value)"

definition boolField :: "int \<Rightarrow> bool \<Rightarrow> field" where
  "boolField key value = Inr (key, encodeBool value)"

text \<open>The pairs the operations build by hand: \<open>[key, encodedValue]\<close> and \<open>[key, encodeArray(...)]\<close>.\<close>

definition rawField :: "int \<Rightarrow> codec_error + bytes \<Rightarrow> field" where
  "rawField key e = mapE (Pair key) e"

definition arrayField :: "int \<Rightarrow> ('a \<Rightarrow> codec_error + bytes) \<Rightarrow> 'a list \<Rightarrow> field" where
  "arrayField key enc xs = mapE (\<lambda>bss. (key, encodeArray bss)) (traverseE enc xs)"

definition encodeFields :: "field list \<Rightarrow> codec_error + bytes" where
  "encodeFields fs = bindE (sequenceE fs) encodeMap"

section \<open>Shared payloads\<close>

definition encodeEmptyPayload :: "codec_error + bytes" where
  "encodeEmptyPayload = encodeMap []"

definition decodeEmptyPayload :: "bytes \<Rightarrow> string \<Rightarrow> codec_error + unit" where
  "decodeEmptyPayload bs context = bindE (decodeOne bs) (\<lambda>v.
     case v of CMap [] \<Rightarrow> Inr () | _ \<Rightarrow> Inl (NotEmptyPayload context))"

definition encodeJobIdResponse :: "int \<Rightarrow> codec_error + bytes" where
  "encodeJobIdResponse jobId = encodeFields [u32Field 0 jobId]"

definition decodeJobIdResponse :: "bytes \<Rightarrow> codec_error + int" where
  "decodeJobIdResponse bs = bindE (decodeMap bs ''JobIdResponse'') (\<lambda>m. requireU32 m 0 ''JobIdResponse'')"

record HandoverAckResponse =
  ha_address :: jsstr
  ha_port :: int
  ha_leaseExpiresAtMs :: int
  ha_reachedStateRaw :: int

definition encodeHandoverAckResponse :: "HandoverAckResponse \<Rightarrow> codec_error + bytes" where
  "encodeHandoverAckResponse r = encodeFields
     [textField 0 (ha_address r), u32Field 1 (ha_port r), int64Field 2 (ha_leaseExpiresAtMs r),
      u32Field 3 (ha_reachedStateRaw r)]"

definition decodeHandoverAckResponse :: "bytes \<Rightarrow> codec_error + HandoverAckResponse" where
  "decodeHandoverAckResponse bs = bindE (decodeMap bs ''HandoverAckResponse'') (\<lambda>m.
     bindE (requireText m 0 ''HandoverAckResponse'') (\<lambda>a.
     bindE (requireU32 m 1 ''HandoverAckResponse'') (\<lambda>p.
     bindE (requireInt64 m 2 ''HandoverAckResponse'') (\<lambda>l.
     bindE (requireU32 m 3 ''HandoverAckResponse'') (\<lambda>s.
       Inr \<lparr>ha_address = a, ha_port = p, ha_leaseExpiresAtMs = l, ha_reachedStateRaw = s\<rparr>)))))"

section \<open>Reading back what was written\<close>

text \<open>A field writes one key and one value the reader will return.\<close>

definition writes :: "field \<Rightarrow> int \<times> cbor \<Rightarrow> bool" where
  "writes f kv \<longleftrightarrow> (\<exists>b. f = Inr (fst kv, b) \<and> u32_ok (fst kv) \<and> encodes b (snd kv))"

named_theorems writes_intros \<open>what each field builder writes\<close>

lemma u32_ok_numeral [simp]: "u32_ok 0" "u32_ok 1" "u32_ok (numeral n) \<longleftrightarrow> numeral n \<le> (4294967295 :: int)"
  by (simp_all add: u32_ok_def)

lemma writes_u32 [writes_intros]: "u32_ok k \<Longrightarrow> u32_ok v \<Longrightarrow> writes (u32Field k v) (k, CUint v)"
  using uint_w [OF u32_u64, of v] encodes_uint [OF uint_w [OF u32_u64], of v]
  by (auto simp: writes_def u32Field_def)

lemma writes_u64: "u32_ok k \<Longrightarrow> u64_ok v \<Longrightarrow> writes (u32Field k v) (k, CUint v)"
  using uint_w [of v] encodes_uint [OF uint_w, of v]
  by (auto simp: writes_def u32Field_def)

lemma writes_int64 [writes_intros]: "u32_ok k \<Longrightarrow> int_ok v \<Longrightarrow> writes (int64Field k v) (k, cbor_int v)"
  using int_w [of v] encodes_int [OF int_w, of v]
  by (auto simp: writes_def int64Field_def)

lemma writes_bytes [writes_intros]: "u32_ok k \<Longrightarrow> bytes_ok v \<Longrightarrow> writes (bytesField k v) (k, CBytes v)"
  using bytes_w [of v] encodes_bytes [OF bytes_w, of v]
  by (auto simp: writes_def bytesField_def)

lemma writes_text [writes_intros]: "u32_ok k \<Longrightarrow> wtext_ok v \<Longrightarrow> writes (textField k v) (k, CText v)"
  using text_w [of v] encodes_text [OF text_w, of v]
  by (auto simp: writes_def textField_def)

lemma writes_bool [writes_intros]: "u32_ok k \<Longrightarrow> writes (boolField k v) (k, CBool v)"
  using encodes_bool [of v] by (auto simp: writes_def boolField_def)

lemma writes_raw: "u32_ok k \<Longrightarrow> e = Inr b \<Longrightarrow> encodes b v \<Longrightarrow> writes (rawField k e) (k, v)"
  by (auto simp: writes_def rawField_def)

text \<open>An encoder \<open>e\<close> (of an array element or nested record) that succeeds and is read as \<open>v\<close>.\<close>

definition gives :: "codec_error + bytes \<Rightarrow> cbor \<Rightarrow> bool" where
  "gives e v \<longleftrightarrow> (\<exists>b. e = Inr b \<and> encodes b v)"

lemma writes_given [writes_intros]: "u32_ok k \<Longrightarrow> gives e v \<Longrightarrow> writes (rawField k e) (k, v)"
  by (auto simp: gives_def intro: writes_raw)

lemma gives_fields [writes_intros]:
  "list_all2 writes fs kvs \<Longrightarrow> distinct (map fst kvs) \<Longrightarrow> gives (encodeFields fs) (CMap kvs)"
proof -
  assume w: "list_all2 writes fs kvs" and d: "distinct (map fst kvs)"
  from w have "\<exists>ps. sequenceE fs = Inr ps \<and> list_all2 pair_encodes ps kvs"
  proof (induction rule: list_all2_induct)
    case (Cons f fs kv kvs)
    from Cons.hyps obtain b where f: "f = Inr (fst kv, b)" and b: "u32_ok (fst kv)" "encodes b (snd kv)"
      by (auto simp: writes_def)
    from Cons.IH obtain ps where ps: "sequenceE fs = Inr ps" "list_all2 pair_encodes ps kvs"
      by blast
    from b have "pair_encodes (fst kv, b) kv" by (simp add: pair_encodes_def)
    with ps(2) have "list_all2 pair_encodes ((fst kv, b) # ps) (kv # kvs)" by simp
    with f ps(1) show ?case by simp
  qed simp
  then obtain ps where ps: "sequenceE fs = Inr ps" "list_all2 pair_encodes ps kvs" by blast
  from encodes_map [OF ps(2) d] ps(1) show ?thesis by (auto simp: gives_def encodeFields_def)
qed

lemma gives_leaf:
  "u64_ok n \<Longrightarrow> gives (encodeUint n) (CUint n)"
  "int_ok n \<Longrightarrow> gives (encodeInt n) (cbor_int n)"
  "bytes_ok b \<Longrightarrow> gives (encodeBytes b) (CBytes b)"
  "wtext_ok s \<Longrightarrow> gives (encodeText s) (CText s)"
  "float64_finite w \<Longrightarrow> gives (encodeFloat w) (CFloat w)"
  "gives (Inr (encodeBool c)) (CBool c)"
  "gives (Inr encodeNull) CNull"
  using encodes_bool [of c] encodes_null
  by (auto simp: gives_def dest: uint_w int_w bytes_w text_w float_w
      intro: encodes_uint encodes_int encodes_bytes encodes_text encodes_float)

lemma gives_array:
  "(\<And>x. x \<in> set xs \<Longrightarrow> gives (enc x) (val x)) \<Longrightarrow>
   \<exists>bss. traverseE enc xs = Inr bss \<and> encodes (encodeArray bss) (CArray (map val xs))"
proof -
  assume *: "\<And>x. x \<in> set xs \<Longrightarrow> gives (enc x) (val x)"
  then have "\<exists>bss. traverseE enc xs = Inr bss \<and> list_all2 encodes bss (map val xs)"
  proof (induction xs)
    case (Cons x xs)
    from Cons.prems [of x] obtain b where "enc x = Inr b" "encodes b (val x)"
      by (auto simp: gives_def)
    moreover from Cons obtain bss where "traverseE enc xs = Inr bss" "list_all2 encodes bss (map val xs)"
      by auto
    ultimately show ?case by simp
  qed simp
  then show ?thesis by (auto intro: encodes_array)
qed

lemma writes_array [writes_intros]:
  "u32_ok k \<Longrightarrow> (\<And>x. x \<in> set xs \<Longrightarrow> gives (enc x) (val x)) \<Longrightarrow>
   writes (arrayField k enc xs) (k, CArray (map val xs))"
  using gives_array [of xs enc val] by (auto simp: writes_def arrayField_def)

text \<open>The round trip of a payload: what its fields write, then what its readers make of that.\<close>

lemma gives_decodeOne: "gives e v \<Longrightarrow> bindE e (\<lambda>bs. bindE (decodeOne bs) g) = g v"
  by (auto simp: gives_def dest: encodes_decodeOne)

lemma gives_decodeMap: "gives e (CMap m) \<Longrightarrow> bindE e (\<lambda>bs. bindE (decodeMap bs c) g) = g m"
  by (auto simp: gives_def decodeMap_def requireMap_def dest: encodes_decodeOne)

lemma codec_roundtrip:
  "list_all2 writes fs kvs \<Longrightarrow> distinct (map fst kvs) \<Longrightarrow> g kvs = Inr r \<Longrightarrow>
   bindE (encodeFields fs) (\<lambda>bs. bindE (decodeMap bs c) g) = Inr r"
  using gives_decodeMap [OF gives_fields, of fs kvs c g] by simp

lemma traverseE_map_val:
  "(\<And>x. x \<in> set xs \<Longrightarrow> dec (val x) = Inr x) \<Longrightarrow> traverseE dec (map val xs) = Inr xs"
  by (induction xs) auto

lemma list_all2_append_opt:
  "list_all2 P as bs \<Longrightarrow> list_all2 P (optField x f) (optField x g) \<Longrightarrow> list_all2 P (as @ optField x f) (bs @ optField x g)"
  by (rule list_all2_appendI)

lemma list_all2_optField:
  "(\<And>v. x = Some v \<Longrightarrow> P (f v) (g v)) \<Longrightarrow> list_all2 P (optField x f) (optField x g)"
  by (cases x) auto

lemma requireInt64_cbor_int [simp]:
  "map_of m k = Some (cbor_int v) \<Longrightarrow> requireInt64 m k c = Inr v"
  by (simp add: requireInt64_def get_def cbor_int_def)

lemma get_Some: "map_of m k = Some v \<Longrightarrow> get m k c = Inr v"
  by (simp add: get_def)

lemma require_simps [simp]:
  "map_of m k = Some (CUint v) \<Longrightarrow> u32_ok v \<Longrightarrow> requireU32 m k c = Inr v"
  "map_of m k = Some (CUint v) \<Longrightarrow> u32_ok v \<Longrightarrow> optionalU32 m k d c = Inr v"
  "map_of m k = None \<Longrightarrow> optionalU32 m k d c = Inr d"
  "map_of m k = Some (CBytes b) \<Longrightarrow> requireBytes m k c = Inr b"
  "map_of m k = Some (CText s) \<Longrightarrow> requireText m k c = Inr s"
  "map_of m k = Some (CBool x) \<Longrightarrow> requireBool m k c = Inr x"
  "map_of m k = Some (CArray vs) \<Longrightarrow> requireArray m k c = Inr vs"
  "map_of m k = Some (CMap m') \<Longrightarrow> requireMapField m k c = Inr m'"
  subgoal by (simp add: requireU32_def get_Some u32_ok_def js_number_exact)
  subgoal by (simp add: optionalU32_def u32_ok_def js_number_exact)
  subgoal by (simp add: optionalU32_def)
  subgoal by (simp add: requireBytes_def get_Some)
  subgoal by (simp add: requireText_def get_Some)
  subgoal by (simp add: requireBool_def get_Some)
  subgoal by (simp add: requireArray_def get_Some)
  subgoal by (simp add: requireMapField_def get_Some requireMap_def)
  done

lemma requireMap_CMap [simp]: "requireMap (CMap m) c = Inr m"
  by (simp add: requireMap_def)

section \<open>The contract of a payload codec\<close>

locale value_codec =
  fixes enc :: "'a \<Rightarrow> codec_error + bytes"
    and dec :: "bytes \<Rightarrow> codec_error + 'a"
    and ok :: "'a \<Rightarrow> bool"
  assumes roundtrip: "ok a \<Longrightarrow> bindE (enc a) dec = Inr a"
begin

lemma enc_total: "ok a \<Longrightarrow> \<exists>bs. enc a = Inr bs"
  using roundtrip [of a] by (auto simp: bindE_Inr_iff)

lemma dec_enc: "ok a \<Longrightarrow> enc a = Inr bs \<Longrightarrow> dec bs = Inr a"
  using roundtrip [of a] by simp

lemma enc_inj: "ok a \<Longrightarrow> ok b \<Longrightarrow> enc a = enc b \<Longrightarrow> a = b"
  by (metis roundtrip sum.inject(2))

end

definition handover_ok :: "HandoverAckResponse \<Rightarrow> bool" where
  "handover_ok r \<longleftrightarrow> wtext_ok (ha_address r) \<and> u32_ok (ha_port r) \<and> int_ok (ha_leaseExpiresAtMs r)
     \<and> u32_ok (ha_reachedStateRaw r)"

interpretation jobId: value_codec encodeJobIdResponse decodeJobIdResponse u32_ok
proof
  fix n assume "u32_ok n"
  then show "bindE (encodeJobIdResponse n) decodeJobIdResponse = Inr n"
    unfolding encodeJobIdResponse_def decodeJobIdResponse_def
    by (intro codec_roundtrip) (rule list.rel_intros writes_intros | simp)+
qed

interpretation handoverAck: value_codec encodeHandoverAckResponse decodeHandoverAckResponse handover_ok
proof
  fix r assume "handover_ok r"
  then show "bindE (encodeHandoverAckResponse r) decodeHandoverAckResponse = Inr r"
    unfolding encodeHandoverAckResponse_def decodeHandoverAckResponse_def handover_ok_def
    by (intro codec_roundtrip) (rule list.rel_intros writes_intros | simp)+
qed

lemma emptyPayload_roundtrip: "bindE encodeEmptyPayload (\<lambda>bs. decodeEmptyPayload bs c) = Inr ()"
proof -
  have "gives encodeEmptyPayload (CMap [])"
    using gives_fields [of "[]" "[]"] by (simp add: encodeFields_def encodeEmptyPayload_def)
  then show ?thesis unfolding decodeEmptyPayload_def by (subst gives_decodeOne) auto
qed

text \<open>The empty payload is the indefinite-length empty map, two bytes, and not \<open>0xA0\<close>.\<close>

lemma emptyPayload_bytes: "encodeEmptyPayload = Inr [0xbf, 0xff]"
  by code_simp

end
