(* ===== verification/Envelope.thy ===== *)
theory Envelope
  imports PayloadFields
begin

text \<open>
  \<open>protocol-sdk/src/envelope.ts\<close>: the four-field CBOR map that carries every request, response
  and event of Protocol V1. An envelope round-trips through its decoder, and the decoder accepts
  exactly the maps with keys 0..3, version 1, a nonzero field 1 and a bounded payload, with
  nothing after them.
\<close>

definition PROTOCOL_VERSION :: int where "PROTOCOL_VERSION = 1"
definition PAYLOAD_ABSOLUTE_MAX :: int where "PAYLOAD_ABSOLUTE_MAX = 2048"
definition KEY_VERSION :: int where "KEY_VERSION = 0"
definition KEY_FIELD1 :: int where "KEY_FIELD1 = 1"
definition KEY_FIELD2 :: int where "KEY_FIELD2 = 2"
definition KEY_PAYLOAD :: int where "KEY_PAYLOAD = 3"

lemmas envelope_consts = PROTOCOL_VERSION_def PAYLOAD_ABSOLUTE_MAX_def KEY_VERSION_def
  KEY_FIELD1_def KEY_FIELD2_def KEY_PAYLOAD_def

section \<open>Enumerations\<close>

datatype Operation =
    GET_CATALOG | GET_STATUS | APPLY_CONFIG | LIST_DISCOVERY | SCAN_DISCOVERY | ACCEPT_DISCOVERY
  | MODULE_COMMAND | GET_UPDATE_STATUS | GET_CAPABILITIES | GET_CONNECTIVITY_STATUS
  | ACQUIRE_CONNECTIVITY_LEASE | RELEASE_CONNECTIVITY_LEASE | OPEN_NETWORK_MAINTENANCE
  | OPEN_WIFI_UPDATE | FACTORY_RESET | GET_CONFIG | VALIDATE_CONFIG | GET_AUDIT_LOG
  | GET_JOB_STATUS | GET_TOPOLOGY | GET_RESOURCES | LIST_DEVICE_PROFILES | GET_DEVICE_PROFILE
  | VALIDATE_DEVICE_PROFILE | INSTALL_DEVICE_PROFILE | REMOVE_DEVICE_PROFILE | GET_FEATURES
  | OPEN_BLE_UPDATE | WRITE_BLE_UPDATE | FINISH_BLE_UPDATE | CANCEL_BLE_UPDATE | APPLY_PHYSICAL
  | NFC_PAGE | IDENTIFY_BACKBONE | CAN_REQUEST

text \<open>The operations in the order of their numbers; the first has number 1.\<close>

definition operations :: "Operation list" where
  "operations =
    [GET_CATALOG, GET_STATUS, APPLY_CONFIG, LIST_DISCOVERY, SCAN_DISCOVERY, ACCEPT_DISCOVERY,
     MODULE_COMMAND, GET_UPDATE_STATUS, GET_CAPABILITIES, GET_CONNECTIVITY_STATUS,
     ACQUIRE_CONNECTIVITY_LEASE, RELEASE_CONNECTIVITY_LEASE, OPEN_NETWORK_MAINTENANCE,
     OPEN_WIFI_UPDATE, FACTORY_RESET, GET_CONFIG, VALIDATE_CONFIG, GET_AUDIT_LOG,
     GET_JOB_STATUS, GET_TOPOLOGY, GET_RESOURCES, LIST_DEVICE_PROFILES, GET_DEVICE_PROFILE,
     VALIDATE_DEVICE_PROFILE, INSTALL_DEVICE_PROFILE, REMOVE_DEVICE_PROFILE, GET_FEATURES,
     OPEN_BLE_UPDATE, WRITE_BLE_UPDATE, FINISH_BLE_UPDATE, CANCEL_BLE_UPDATE, APPLY_PHYSICAL,
     NFC_PAGE, IDENTIFY_BACKBONE, CAN_REQUEST]"

fun operation_code :: "Operation \<Rightarrow> int" where
  "operation_code GET_CATALOG = 1"
| "operation_code GET_STATUS = 2"
| "operation_code APPLY_CONFIG = 3"
| "operation_code LIST_DISCOVERY = 4"
| "operation_code SCAN_DISCOVERY = 5"
| "operation_code ACCEPT_DISCOVERY = 6"
| "operation_code MODULE_COMMAND = 7"
| "operation_code GET_UPDATE_STATUS = 8"
| "operation_code GET_CAPABILITIES = 9"
| "operation_code GET_CONNECTIVITY_STATUS = 10"
| "operation_code ACQUIRE_CONNECTIVITY_LEASE = 11"
| "operation_code RELEASE_CONNECTIVITY_LEASE = 12"
| "operation_code OPEN_NETWORK_MAINTENANCE = 13"
| "operation_code OPEN_WIFI_UPDATE = 14"
| "operation_code FACTORY_RESET = 15"
| "operation_code GET_CONFIG = 16"
| "operation_code VALIDATE_CONFIG = 17"
| "operation_code GET_AUDIT_LOG = 18"
| "operation_code GET_JOB_STATUS = 19"
| "operation_code GET_TOPOLOGY = 20"
| "operation_code GET_RESOURCES = 21"
| "operation_code LIST_DEVICE_PROFILES = 22"
| "operation_code GET_DEVICE_PROFILE = 23"
| "operation_code VALIDATE_DEVICE_PROFILE = 24"
| "operation_code INSTALL_DEVICE_PROFILE = 25"
| "operation_code REMOVE_DEVICE_PROFILE = 26"
| "operation_code GET_FEATURES = 27"
| "operation_code OPEN_BLE_UPDATE = 28"
| "operation_code WRITE_BLE_UPDATE = 29"
| "operation_code FINISH_BLE_UPDATE = 30"
| "operation_code CANCEL_BLE_UPDATE = 31"
| "operation_code APPLY_PHYSICAL = 32"
| "operation_code NFC_PAGE = 33"
| "operation_code IDENTIFY_BACKBONE = 34"
| "operation_code CAN_REQUEST = 35"

datatype ProtocolStatus =
    StatusOK | INVALID_ARGUMENT | UNSUPPORTED | UNAUTHORIZED | CONFLICT | BUSY | UNAVAILABLE
  | TIMEOUT | RESOURCE_EXHAUSTED | MALFORMED_REQUEST | INTERNAL_ERROR

fun status_code :: "ProtocolStatus \<Rightarrow> int" where
  "status_code StatusOK = 0"
| "status_code INVALID_ARGUMENT = 1"
| "status_code UNSUPPORTED = 2"
| "status_code UNAUTHORIZED = 3"
| "status_code CONFLICT = 4"
| "status_code BUSY = 5"
| "status_code UNAVAILABLE = 6"
| "status_code TIMEOUT = 7"
| "status_code RESOURCE_EXHAUSTED = 8"
| "status_code MALFORMED_REQUEST = 9"
| "status_code INTERNAL_ERROR = 10"

datatype EventType = RECORD | STATUS | DISCOVERY | CONNECTIVITY

fun event_code :: "EventType \<Rightarrow> int" where
  "event_code RECORD = 1"
| "event_code STATUS = 2"
| "event_code DISCOVERY = 3"
| "event_code CONNECTIVITY = 4"

definition OPERATION_MIN :: int where "OPERATION_MIN = operation_code GET_CATALOG"
definition OPERATION_MAX :: int where "OPERATION_MAX = operation_code CAN_REQUEST"

text \<open>
  The decoders cast a number in range to the enumeration; every such number is one of its codes,
  so the cast is sound.
\<close>

lemma operation_codes: "map operation_code operations = [1..35]"
  by code_simp

lemma set_operations: "set operations = UNIV"
proof -
  have "op \<in> set operations" for op by (cases op) (simp_all add: operations_def)
  then show ?thesis by blast
qed

lemma operation_code_range: "(\<exists>op. n = operation_code op) \<longleftrightarrow> OPERATION_MIN \<le> n \<and> n \<le> OPERATION_MAX"
proof -
  have "range operation_code = {1..35}"
    using arg_cong [OF operation_codes, of set] set_operations by auto
  then show ?thesis by (auto simp: OPERATION_MIN_def OPERATION_MAX_def image_iff set_eq_iff)
qed

lemma status_codes: "map status_code [StatusOK, INVALID_ARGUMENT, UNSUPPORTED, UNAUTHORIZED, CONFLICT, BUSY,
     UNAVAILABLE, TIMEOUT, RESOURCE_EXHAUSTED, MALFORMED_REQUEST, INTERNAL_ERROR] = [0..10]"
  by code_simp

lemma status_code_range: "(\<exists>s. n = status_code s) \<longleftrightarrow> 0 \<le> n \<and> n \<le> 10"
proof
  assume "\<exists>s. n = status_code s"
  then obtain s where "n = status_code s" by blast
  then show "0 \<le> n \<and> n \<le> 10" by (cases s) auto
next
  assume "0 \<le> n \<and> n \<le> 10"
  then have "n \<in> set [0..10]" by (simp only: set_upto atLeastAtMost_iff)
  then have "n \<in> status_code ` UNIV" unfolding status_codes [symmetric] set_map by blast
  then show "\<exists>s. n = status_code s" by blast
qed

lemma event_code_range: "(\<exists>t. n = event_code t) \<longleftrightarrow> 1 \<le> n \<and> n \<le> 4"
proof
  assume "\<exists>t. n = event_code t"
  then obtain t where "n = event_code t" by blast
  then show "1 \<le> n \<and> n \<le> 4" by (cases t) auto
next
  assume "1 \<le> n \<and> n \<le> 4"
  then consider "n = 1" | "n = 2" | "n = 3" | "n = 4" by linarith
  then show "\<exists>t. n = event_code t" by cases (metis event_code.simps)+
qed

section \<open>Envelopes\<close>

record RequestEnvelope =
  rq_correlationId :: int
  rq_operation :: int
  rq_payload :: bytes

record ResponseEnvelope =
  rs_correlationId :: int
  rs_status :: int
  rs_payload :: bytes

record EventEnvelope =
  ev_sequence :: int
  ev_type :: int
  ev_payload :: bytes

definition encodeEnvelope :: "int \<Rightarrow> int \<Rightarrow> bytes \<Rightarrow> codec_error + bytes" where
  "encodeEnvelope field1 field2 payload =
     (if int (length payload) > PAYLOAD_ABSOLUTE_MAX then Inl (InvalidMessage ''payload exceeds limit'')
      else encodeFields
        [rawField KEY_VERSION (encodeUint PROTOCOL_VERSION),
         rawField KEY_FIELD1 (encodeUint field1),
         rawField KEY_FIELD2 (encodeUint field2),
         rawField KEY_PAYLOAD (encodeBytes payload)])"

definition encodeRequest :: "RequestEnvelope \<Rightarrow> codec_error + bytes" where
  "encodeRequest r =
     (if rq_correlationId r = 0 then Inl (InvalidMessage ''correlationId must be nonzero'')
      else if rq_operation r < OPERATION_MIN \<or> rq_operation r > OPERATION_MAX
      then Inl (InvalidMessage ''invalid operation'')
      else encodeEnvelope (rq_correlationId r) (rq_operation r) (rq_payload r))"

definition encodeResponse :: "ResponseEnvelope \<Rightarrow> codec_error + bytes" where
  "encodeResponse r =
     (if rs_correlationId r = 0 then Inl (InvalidMessage ''correlationId must be nonzero'')
      else if rs_status r < 0 \<or> rs_status r > 10 then Inl (InvalidMessage ''invalid status'')
      else encodeEnvelope (rs_correlationId r) (rs_status r) (rs_payload r))"

definition encodeEvent :: "EventEnvelope \<Rightarrow> codec_error + bytes" where
  "encodeEvent e =
     (if ev_sequence e = 0 then Inl (InvalidMessage ''sequence must be nonzero'')
      else if ev_type e < 1 \<or> ev_type e > 4 then Inl (InvalidMessage ''invalid event type'')
      else encodeEnvelope (ev_sequence e) (ev_type e) (ev_payload e))"

record RawEnvelope =
  raw_field1 :: int
  raw_field2 :: int
  raw_payload :: bytes

text \<open>\<open>map.get(key)!\<close> with its kind checked.\<close>

definition uint_at :: "field_map \<Rightarrow> int \<Rightarrow> string \<Rightarrow> codec_error + int" where
  "uint_at m key msg = (case map_of m key of Some (CUint n) \<Rightarrow> Inr n | _ \<Rightarrow> Inl (InvalidMessage msg))"

definition bytes_at :: "field_map \<Rightarrow> int \<Rightarrow> string \<Rightarrow> codec_error + bytes" where
  "bytes_at m key msg = (case map_of m key of Some (CBytes b) \<Rightarrow> Inr b | _ \<Rightarrow> Inl (InvalidMessage msg))"

text \<open>The checks of \<open>decodeEnvelope\<close> on the decoded map, in their order.\<close>

definition check_envelope :: "field_map \<Rightarrow> codec_error + RawEnvelope" where
  "check_envelope m =
     bindE (guardE (list_all (\<lambda>k. 0 \<le> k \<and> k \<le> 3) (map fst m)) (InvalidMessage ''unexpected envelope key'')) (\<lambda>_.
     bindE (guardE (list_all (\<lambda>k. k \<in> set (map fst m)) [KEY_VERSION, KEY_FIELD1, KEY_FIELD2, KEY_PAYLOAD])
              (InvalidMessage ''missing envelope key'')) (\<lambda>_.
     bindE (uint_at m KEY_VERSION ''unsupported envelope version'') (\<lambda>version.
     bindE (guardE (version = PROTOCOL_VERSION) (InvalidMessage ''unsupported envelope version'')) (\<lambda>_.
     bindE (uint_at m KEY_FIELD1 ''envelope field 1 must be a uint'') (\<lambda>field1.
     bindE (guardE (field1 \<noteq> 0) (InvalidMessage ''envelope field 1 must be nonzero'')) (\<lambda>_.
     bindE (uint_at m KEY_FIELD2 ''envelope field 2 must be a uint'') (\<lambda>field2.
     bindE (bytes_at m KEY_PAYLOAD ''envelope field 3 must be a byte string'') (\<lambda>payload.
     bindE (guardE (int (length payload) \<le> PAYLOAD_ABSOLUTE_MAX) (InvalidMessage ''payload exceeds limit'')) (\<lambda>_.
       Inr \<lparr>raw_field1 = js_number field1, raw_field2 = js_number field2, raw_payload = payload\<rparr>)))))))))"

definition decodeEnvelope :: "bytes \<Rightarrow> codec_error + RawEnvelope" where
  "decodeEnvelope bs = bindE (readerValue bs) (\<lambda>(value, rest).
     if rest \<noteq> [] then Inl (InvalidMessage ''trailing bytes after envelope'')
     else case value of
       CMap m \<Rightarrow> check_envelope m
     | _ \<Rightarrow> Inl (InvalidMessage ''envelope must be a CBOR map''))"

definition decodeRequest :: "bytes \<Rightarrow> codec_error + RequestEnvelope" where
  "decodeRequest bs = bindE (decodeEnvelope bs) (\<lambda>raw.
     if raw_field2 raw < OPERATION_MIN \<or> raw_field2 raw > OPERATION_MAX
     then Inl (InvalidMessage ''unsupported operation'')
     else Inr \<lparr>rq_correlationId = raw_field1 raw, rq_operation = raw_field2 raw, rq_payload = raw_payload raw\<rparr>)"

definition decodeResponse :: "bytes \<Rightarrow> codec_error + ResponseEnvelope" where
  "decodeResponse bs = bindE (decodeEnvelope bs) (\<lambda>raw.
     if raw_field2 raw > 10 then Inl (InvalidMessage ''unsupported status'')
     else Inr \<lparr>rs_correlationId = raw_field1 raw, rs_status = raw_field2 raw, rs_payload = raw_payload raw\<rparr>)"

definition decodeEvent :: "bytes \<Rightarrow> codec_error + EventEnvelope" where
  "decodeEvent bs = bindE (decodeEnvelope bs) (\<lambda>raw.
     if raw_field2 raw < 1 \<or> raw_field2 raw > 4 then Inl (InvalidMessage ''unsupported event type'')
     else Inr \<lparr>ev_sequence = raw_field1 raw, ev_type = raw_field2 raw, ev_payload = raw_payload raw\<rparr>)"

section \<open>What the decoder accepts\<close>

lemma check_envelope_iff:
  "check_envelope m = Inr raw \<longleftrightarrow>
     set (map fst m) = {0, 1, 2, 3} \<and>
     map_of m 0 = Some (CUint 1) \<and>
     (\<exists>n1. map_of m 1 = Some (CUint n1) \<and> n1 \<noteq> 0 \<and> raw_field1 raw = js_number n1) \<and>
     (\<exists>n2. map_of m 2 = Some (CUint n2) \<and> raw_field2 raw = js_number n2) \<and>
     map_of m 3 = Some (CBytes (raw_payload raw)) \<and> length (raw_payload raw) \<le> 2048"
proof -
  have keys: "list_all (\<lambda>k. 0 \<le> k \<and> k \<le> (3::int)) ks \<and> list_all (\<lambda>k. k \<in> set ks) [0, 1, 2, 3]
      \<longleftrightarrow> set ks = {0, 1, 2, 3}" for ks
  proof -
    have "k \<in> {0, 1, 2, 3}" if "0 \<le> k" "k \<le> (3::int)" for k using that by auto
    then show ?thesis by (auto simp: list_all_iff)
  qed
  have u: "uint_at m k msg = Inr n \<longleftrightarrow> map_of m k = Some (CUint n)" for k msg n
    by (auto simp: uint_at_def split: option.splits cbor.splits)
  have b: "bytes_at m k msg = Inr n \<longleftrightarrow> map_of m k = Some (CBytes n)" for k msg n
    by (auto simp: bytes_at_def split: option.splits cbor.splits)
  have raw: "Inr \<lparr>raw_field1 = x, raw_field2 = y, raw_payload = z\<rparr> = (Inr raw :: codec_error + RawEnvelope)
      \<longleftrightarrow> raw_field1 raw = x \<and> raw_field2 raw = y \<and> raw_payload raw = z" for x y z
    by (cases raw) auto
  show ?thesis
    unfolding check_envelope_def bindE_Inr_iff guardE_Inr_iff u b raw envelope_consts keys [symmetric]
    by auto
qed

text \<open>\<open>decodeEnvelope\<close> accepts a buffer exactly when it is one such map and nothing more.\<close>

lemma decodeEnvelope_iff:
  "decodeEnvelope bs = Inr raw \<longleftrightarrow> (\<exists>m. readerValue bs = Inr (CMap m, []) \<and> check_envelope m = Inr raw)"
proof (cases "readerValue bs")
  case (Inr vr)
  then show ?thesis by (cases vr, cases "fst vr") (auto simp: decodeEnvelope_def)
qed (simp add: decodeEnvelope_def)

lemma decodeEnvelope_bounds:
  "decodeEnvelope bs = Inr raw \<Longrightarrow> length (raw_payload raw) \<le> 2048"
  by (auto simp: decodeEnvelope_iff check_envelope_iff)

section \<open>Round trips\<close>

lemma gives_readerValue: "gives e v \<Longrightarrow> \<exists>bs. e = Inr bs \<and> readerValue bs = Inr (v, [])"
  using encodes_readerValue [where r = "[]"] by (auto simp: gives_def)

definition envelope_ok :: "int \<Rightarrow> int \<Rightarrow> bytes \<Rightarrow> bool" where
  "envelope_ok a b p \<longleftrightarrow> 0 < a \<and> a < 2 ^ 53 \<and> 0 \<le> b \<and> b < 2 ^ 53 \<and> length p \<le> 2048"

lemma encodeEnvelope_gives:
  assumes "envelope_ok a b p"
  shows "gives (encodeEnvelope a b p) (CMap [(0, CUint 1), (1, CUint a), (2, CUint b), (3, CBytes p)])"
proof -
  have ok: "u64_ok 1" "u64_ok a" "u64_ok b" "bytes_ok p"
    using assms by (auto simp: envelope_ok_def u64_ok_def bytes_ok_def)
  have "list_all2 writes
      [rawField 0 (encodeUint 1), rawField 1 (encodeUint a), rawField 2 (encodeUint b), rawField 3 (encodeBytes p)]
      [(0, CUint 1), (1, CUint a), (2, CUint b), (3, CBytes p)]"
    using gives_leaf(1) [OF ok(1)] gives_leaf(1) [OF ok(2)] gives_leaf(1) [OF ok(3)] gives_leaf(3) [OF ok(4)]
    by (simp add: writes_given)
  from gives_fields [OF this] show ?thesis
    using assms by (simp add: encodeEnvelope_def envelope_consts envelope_ok_def)
qed

lemma envelope_roundtrip:
  assumes "envelope_ok a b p"
  shows "\<exists>bs. encodeEnvelope a b p = Inr bs \<and>
           decodeEnvelope bs = Inr \<lparr>raw_field1 = a, raw_field2 = b, raw_payload = p\<rparr>"
proof -
  from gives_readerValue [OF encodeEnvelope_gives [OF assms]] obtain bs where
    bs: "encodeEnvelope a b p = Inr bs"
      "readerValue bs = Inr (CMap [(0, CUint 1), (1, CUint a), (2, CUint b), (3, CBytes p)], [])"
    by blast
  have "check_envelope [(0, CUint 1), (1, CUint a), (2, CUint b), (3, CBytes p)] =
      Inr \<lparr>raw_field1 = a, raw_field2 = b, raw_payload = p\<rparr>"
    unfolding check_envelope_iff using assms by (auto simp: envelope_ok_def js_number_exact)
  with bs show ?thesis by (auto simp: decodeEnvelope_iff)
qed

definition request_ok :: "RequestEnvelope \<Rightarrow> bool" where
  "request_ok r \<longleftrightarrow> 0 < rq_correlationId r \<and> rq_correlationId r < 2 ^ 53
     \<and> 1 \<le> rq_operation r \<and> rq_operation r \<le> 35 \<and> length (rq_payload r) \<le> 2048"

definition response_ok :: "ResponseEnvelope \<Rightarrow> bool" where
  "response_ok r \<longleftrightarrow> 0 < rs_correlationId r \<and> rs_correlationId r < 2 ^ 53
     \<and> 0 \<le> rs_status r \<and> rs_status r \<le> 10 \<and> length (rs_payload r) \<le> 2048"

definition event_ok :: "EventEnvelope \<Rightarrow> bool" where
  "event_ok e \<longleftrightarrow> 0 < ev_sequence e \<and> ev_sequence e < 2 ^ 53
     \<and> 1 \<le> ev_type e \<and> ev_type e \<le> 4 \<and> length (ev_payload e) \<le> 2048"

interpretation request: value_codec encodeRequest decodeRequest request_ok
proof
  fix r assume "request_ok r"
  moreover from this have "envelope_ok (rq_correlationId r) (rq_operation r) (rq_payload r)"
    by (auto simp: request_ok_def envelope_ok_def)
  note envelope_roundtrip [OF this]
  ultimately show "bindE (encodeRequest r) decodeRequest = Inr r"
    by (auto simp: encodeRequest_def decodeRequest_def request_ok_def OPERATION_MIN_def OPERATION_MAX_def)
qed

interpretation response: value_codec encodeResponse decodeResponse response_ok
proof
  fix r assume "response_ok r"
  moreover from this have "envelope_ok (rs_correlationId r) (rs_status r) (rs_payload r)"
    by (auto simp: response_ok_def envelope_ok_def)
  note envelope_roundtrip [OF this]
  ultimately show "bindE (encodeResponse r) decodeResponse = Inr r"
    by (auto simp: encodeResponse_def decodeResponse_def response_ok_def)
qed

interpretation event: value_codec encodeEvent decodeEvent event_ok
proof
  fix e assume "event_ok e"
  moreover from this have "envelope_ok (ev_sequence e) (ev_type e) (ev_payload e)"
    by (auto simp: event_ok_def envelope_ok_def)
  note envelope_roundtrip [OF this]
  ultimately show "bindE (encodeEvent e) decodeEvent = Inr e"
    by (auto simp: encodeEvent_def decodeEvent_def event_ok_def)
qed

end
