(* ===== verification/CborSafety.thy ===== *)
theory CborSafety
  imports Envelope
begin

text \<open>
  What \<open>CborReader\<close> guarantees of any input: a decoded value is well formed (map keys distinct at
  every level, integers in the 64-bit ranges), a successful read does not depend on what follows
  it, and so no proper prefix of an encoding is accepted: truncation is always noticed.
\<close>

section \<open>Decoded values are well formed\<close>

lemma size_map_value: "(k, v) \<in> set m \<Longrightarrow> size v < Suc (size_list (size_prod (\<lambda>_. 0) size) m)"
  using size_list_estimation [of "(k, v)" m "size v" "size_prod (\<lambda>_. 0) size"] by simp

lemma size_array_value: "v \<in> set vs \<Longrightarrow> size v < Suc (size_list size vs)"
  using size_list_estimation' [of v vs "size v" size] by simp

function (sequential) cbor_wf :: "cbor \<Rightarrow> bool" where
  "cbor_wf (CUint n) = (0 \<le> n \<and> n < 2 ^ 64)"
| "cbor_wf (CInt n) = (- (2 ^ 64) \<le> n \<and> n < 0)"
| "cbor_wf (CFloat w) = float64_finite w"
| "cbor_wf (CArray vs) = (\<forall>v\<in>set vs. cbor_wf v)"
| "cbor_wf (CMap m) = (distinct (map fst m) \<and> (\<forall>v\<in>snd ` set m. cbor_wf v))"
| "cbor_wf _ = True"
  by pat_completeness auto

termination
  by (relation "measure size") (auto dest: size_map_value size_array_value)

lemma readBytes_length: "readBytes n bs = Inr (b, r) \<Longrightarrow> length b = nat n"
  by (auto simp: readBytes_def split: if_splits)

lemma readArgument_range:
  assumes "readArgument i bs = Inr (n, r)"
  shows "0 \<le> n \<and> n < 2 ^ 64"
proof -
  have be: "0 \<le> be_int b \<and> be_int b < 2 ^ 64" if "length b \<le> 8" for b
  proof -
    have "(256 :: int) ^ length b \<le> 256 ^ 8" using that by (intro power_increasing) simp_all
    also have "(256 :: int) ^ 8 = 2 ^ 64" by simp
    finally show ?thesis using be_int_bounds [of b] by linarith
  qed
  have byte: "0 \<le> uint x \<and> uint x < 2 ^ 64" for x :: byte
    using uint_bounded [of x] by auto
  have "0 \<le> int i \<and> int i < 2 ^ 64" if "i < 24" using that by simp
  with assms be byte show ?thesis
    by (auto simp: readArgument_def mapE_Inr_iff split: if_split_asm dest!: readBytes_length)
qed

lemma readText_wf: "readText i bs = Inr (v, r) \<Longrightarrow> cbor_wf v"
  by (auto simp: readText_def bindE_Inr_iff split: option.splits)

lemma readSimple_wf: "readSimple i bs = Inr (v, r) \<Longrightarrow> cbor_wf v"
  by (auto simp: readSimple_def bindE_Inr_iff Let_def split: if_splits)

lemma readValue_Inr_value:
  assumes "readValue (Suc f) (h # t) = Inr (v, r)"
  obtains (uint) i n where "v = CUint n" "readArgument i t = Inr (n, r)"
  | (negint) i n where "v = CInt (-1 - n)" "readArgument i t = Inr (n, r)"
  | (bytes) b where "v = CBytes b"
  | (textual) i where "readText i t = Inr (v, r)"
  | (items) c t' vs t'' where "v = CArray vs" "readItems f c t' = Inr (vs, t'')"
  | (pairs) c t' m t'' where "v = CMap m" "readPairs f c [] t' = Inr (m, t'')"
  | (simple) i where "readSimple i t = Inr (v, r)"
  using assms
  by (simp add: readByte_def Let_def readValue.simps split: if_splits)
    (auto simp: bindE_Inr_iff mapE_Inr_iff)

lemma read_wf:
  "(\<forall>bs v r. readValue f bs = Inr (v, r) \<longrightarrow> cbor_wf v) \<and>
   (\<forall>cnt bs vs r. readItems f cnt bs = Inr (vs, r) \<longrightarrow> (\<forall>v\<in>set vs. cbor_wf v)) \<and>
   (\<forall>cnt m bs m' r. readPairs f cnt m bs = Inr (m', r) \<longrightarrow> cbor_wf (CMap m) \<longrightarrow> cbor_wf (CMap m'))"
proof (induction f)
  case 0
  show ?case by (simp add: readValue.simps readItems.simps readPairs.simps)
next
  case (Suc f)
  then have V: "readValue f bs = Inr (v, r) \<Longrightarrow> cbor_wf v"
    and I: "readItems f cnt bs = Inr (vs, r) \<Longrightarrow> v \<in> set vs \<Longrightarrow> cbor_wf v"
    and P: "readPairs f cnt m bs = Inr (m', r) \<Longrightarrow> cbor_wf (CMap m) \<Longrightarrow> cbor_wf (CMap m')"
    for cnt bs v vs m m' r
    by blast+
  have "cbor_wf v" if *: "readValue (Suc f) bs = Inr (v, r)" for bs v r
  proof -
    from * obtain h t where bs: "bs = h # t"
      by (auto simp: readValue.simps bindE_Inr_iff readByte_Inr_iff)
    from * [unfolded bs] show ?thesis
    proof (cases rule: readValue_Inr_value)
      case (pairs c t' m t'')
      with P [OF pairs(2)] show ?thesis by simp
    qed (auto dest: readArgument_range readText_wf readSimple_wf I)
  qed
  moreover have "\<forall>v\<in>set vs. cbor_wf v" if "readItems (Suc f) cnt bs = Inr (vs, r)" for cnt bs vs r
    using that by (cases rule: readItems_Inr_cases) (auto dest: V I)
  moreover have "cbor_wf (CMap m')"
    if "readPairs (Suc f) cnt m bs = Inr (m', r)" and m: "cbor_wf (CMap m)" for cnt m bs m' r
    using that(1)
  proof (cases rule: readPairs_Inr_cases)
    case (step k t v t')
    have "cbor_wf (CMap (jm_put (js_number k) v m))"
      using m V [OF step(4)] step(3) by (auto simp: update_new keys_update jm_has_iff)
    with P [OF step(5)] show ?thesis by blast
  qed (use m in simp)
  ultimately show ?case by blast
qed

lemma readerValue_wf: "readerValue bs = Inr (v, r) \<Longrightarrow> cbor_wf v"
  using read_wf unfolding readerValue_def by blast

lemma decodeMap_distinct: "decodeMap bs c = Inr m \<Longrightarrow> distinct (map fst m)"
proof -
  assume "decodeMap bs c = Inr m"
  then obtain v r where "readerValue bs = Inr (v, r)" "requireMap v c = Inr m"
    by (auto simp: decodeMap_def decodeOne_def bindE_Inr_iff mapE_Inr_iff)
  then have "readerValue bs = Inr (CMap m, r)" by (cases v) (auto simp: requireMap_def)
  from readerValue_wf [OF this] show ?thesis by simp
qed

section \<open>A read does not depend on what follows\<close>

definition then_bytes :: "bytes \<Rightarrow> 'a \<times> bytes \<Rightarrow> 'a \<times> bytes" where
  "then_bytes x z = (fst z, snd z @ x)"

lemma then_bytes_Pair [simp]: "then_bytes x (a, r) = (a, r @ x)"
  by (simp add: then_bytes_def)

named_theorems extends \<open>a successful read of bs, of bs followed by more\<close>

lemma readBytes_extend [extends]: "readBytes n bs = Inr z \<Longrightarrow> readBytes n (bs @ x) = Inr (then_bytes x z)"
  by (cases "n \<le> 0") (auto simp: readBytes_def split: if_splits)

lemma readByte_extend [extends]: "readByte bs = Inr z \<Longrightarrow> readByte (bs @ x) = Inr (then_bytes x z)"
  by (cases bs) (auto simp: readByte_def)

lemma readArgument_extend [extends]:
  "readArgument i bs = Inr z \<Longrightarrow> readArgument i (bs @ x) = Inr (then_bytes x z)"
  by (auto simp: readArgument_def mapE_Inr_iff extends split: if_split_asm)

lemma readText_extend [extends]: "readText i bs = Inr z \<Longrightarrow> readText i (bs @ x) = Inr (then_bytes x z)"
  by (auto simp: readText_def bindE_Inr_iff extends split: option.split_asm)

lemma readSimple_extend [extends]: "readSimple i bs = Inr z \<Longrightarrow> readSimple i (bs @ x) = Inr (then_bytes x z)"
  by (auto simp: readSimple_def bindE_Inr_iff Let_def extends split: if_split_asm)

lemma openContainer_extend [extends]:
  "openContainer i bs = Inr z \<Longrightarrow> openContainer i (bs @ x) = Inr (then_bytes x z)"
  by (auto simp: openContainer_def mapE_Inr_iff extends split: if_split_asm)

lemma closeContainer_extend [extends]:
  "closeContainer c bs = Inr z \<Longrightarrow> closeContainer c (bs @ x) = Inr (then_bytes x z)"
  by (auto simp: closeContainer_def mapE_Inr_iff extends split: option.split_asm)

lemma loop_done_extend: "bs \<noteq> [] \<Longrightarrow> loop_done c (bs @ x) = loop_done c bs"
  by (cases bs) (auto simp: loop_done_def atBreak_def split: option.splits)

lemma loop_done_extend_True: "loop_done c bs \<Longrightarrow> loop_done c (bs @ x)"
  by (cases bs) (auto simp: loop_done_def atBreak_def split: option.splits)

lemma readValue_extend_step:
  assumes "readValue (Suc f) (h # t) = Inr z"
    and "\<And>c t z. readItems f c t = Inr z \<Longrightarrow> readItems f c (t @ x) = Inr (then_bytes x z)"
    and "\<And>c m t z. readPairs f c m t = Inr z \<Longrightarrow> readPairs f c m (t @ x) = Inr (then_bytes x z)"
  shows "readValue (Suc f) (h # t @ x) = Inr (then_bytes x z)"
  using assms(1)
  by (simp add: readByte_def Let_def readValue.simps split: if_splits)
    (auto simp: bindE_Inr_iff mapE_Inr_iff extends assms(2,3))

lemma read_extend:
  "(\<forall>bs z. readValue f bs = Inr z \<longrightarrow> readValue f (bs @ x) = Inr (then_bytes x z)) \<and>
   (\<forall>cnt bs z. readItems f cnt bs = Inr z \<longrightarrow> readItems f cnt (bs @ x) = Inr (then_bytes x z)) \<and>
   (\<forall>cnt m bs z. readPairs f cnt m bs = Inr z \<longrightarrow> readPairs f cnt m (bs @ x) = Inr (then_bytes x z))"
proof (induction f)
  case 0
  show ?case by (simp add: readValue.simps readItems.simps readPairs.simps)
next
  case (Suc f)
  then have V: "readValue f bs = Inr z \<Longrightarrow> readValue f (bs @ x) = Inr (then_bytes x z)"
    and I: "readItems f cnt bs = Inr y \<Longrightarrow> readItems f cnt (bs @ x) = Inr (then_bytes x y)"
    and P: "readPairs f cnt m bs = Inr w \<Longrightarrow> readPairs f cnt m (bs @ x) = Inr (then_bytes x w)"
    for cnt bs m z y w
    by blast+
  have more: "loop_done c (bs @ x) = loop_done c bs" if "readValue f bs = Inr (v, r)" for c bs v r
    using readValue_shrinks [OF that] by (intro loop_done_extend) auto
  have "readValue (Suc f) (bs @ x) = Inr (then_bytes x z)" if *: "readValue (Suc f) bs = Inr z" for bs z
  proof -
    from * obtain h t where bs: "bs = h # t"
      by (auto simp: readValue.simps bindE_Inr_iff readByte_Inr_iff)
    from readValue_extend_step [OF * [unfolded bs] I P] show ?thesis by (simp add: bs)
  qed
  moreover have "readItems (Suc f) cnt (bs @ x) = Inr (then_bytes x z)"
    if "readItems (Suc f) cnt bs = Inr z" for cnt bs z
  proof -
    obtain vs r where z: "z = (vs, r)" by (cases z)
    from that [unfolded z] show ?thesis
    proof (cases rule: readItems_Inr_cases)
      case stop
      then show ?thesis by (simp add: readItems.simps loop_done_extend_True z)
    next
      case (step v t ws)
      then show ?thesis by (simp add: readItems.simps more [OF step(2)] V [OF step(2)] I [OF step(3)] z step)
    qed
  qed
  moreover have "readPairs (Suc f) cnt m (bs @ x) = Inr (then_bytes x z)"
    if "readPairs (Suc f) cnt m bs = Inr z" for cnt m bs z
  proof -
    obtain m' r where z: "z = (m', r)" by (cases z)
    from that [unfolded z] show ?thesis
    proof (cases rule: readPairs_Inr_cases)
      case stop
      then show ?thesis by (simp add: readPairs.simps loop_done_extend_True z)
    next
      case (step k t v t')
      then show ?thesis
        by (simp add: readPairs.simps more [OF step(2)] V [OF step(2)] V [OF step(4)] P [OF step(5)] Let_def z step)
    qed
  qed
  ultimately show ?case by blast
qed

text \<open>More fuel does not change a result, so \<open>readerValue\<close> extends as well.\<close>

lemma readValue_fuel_step:
  assumes "readValue (Suc f) (h # t) = Inr z"
    and "\<And>c t z. readItems f c t = Inr z \<Longrightarrow> readItems (Suc f) c t = Inr z"
    and "\<And>c m t z. readPairs f c m t = Inr z \<Longrightarrow> readPairs (Suc f) c m t = Inr z"
  shows "readValue (Suc (Suc f)) (h # t) = Inr z"
  using assms(1)
  by (simp add: readByte_def Let_def readValue.simps split: if_splits)
    (auto simp: bindE_Inr_iff mapE_Inr_iff assms(2,3))

lemma read_more_fuel:
  "(\<forall>bs z. readValue f bs = Inr z \<longrightarrow> readValue (Suc f) bs = Inr z) \<and>
   (\<forall>cnt bs z. readItems f cnt bs = Inr z \<longrightarrow> readItems (Suc f) cnt bs = Inr z) \<and>
   (\<forall>cnt m bs z. readPairs f cnt m bs = Inr z \<longrightarrow> readPairs (Suc f) cnt m bs = Inr z)"
proof (induction f)
  case 0
  show ?case by (simp add: readValue.simps readItems.simps readPairs.simps)
next
  case (Suc f)
  then have V: "readValue f bs = Inr z \<Longrightarrow> readValue (Suc f) bs = Inr z"
    and I: "readItems f cnt bs = Inr y \<Longrightarrow> readItems (Suc f) cnt bs = Inr y"
    and P: "readPairs f cnt m bs = Inr w \<Longrightarrow> readPairs (Suc f) cnt m bs = Inr w"
    for cnt bs m z y w
    by blast+
  have "readValue (Suc (Suc f)) bs = Inr z" if *: "readValue (Suc f) bs = Inr z" for bs z
  proof -
    from * obtain h t where bs: "bs = h # t"
      by (auto simp: readValue.simps bindE_Inr_iff readByte_Inr_iff)
    from readValue_fuel_step [OF * [unfolded bs] I P] show ?thesis by (simp add: bs)
  qed
  moreover have "readItems (Suc (Suc f)) cnt bs = Inr z" if "readItems (Suc f) cnt bs = Inr z" for cnt bs z
  proof -
    obtain vs r where z: "z = (vs, r)" by (cases z)
    from that [unfolded z] show ?thesis
    proof (cases rule: readItems_Inr_cases)
      case (step v t ws)
      then show ?thesis
        by (simp add: readItems.simps(2) [of "Suc f"] V [OF step(2)] I [OF step(3)] z step)
    qed (simp add: readItems.simps z)
  qed
  moreover have "readPairs (Suc (Suc f)) cnt m bs = Inr z" if "readPairs (Suc f) cnt m bs = Inr z" for cnt m bs z
  proof -
    obtain m' r where z: "z = (m', r)" by (cases z)
    from that [unfolded z] show ?thesis
    proof (cases rule: readPairs_Inr_cases)
      case (step k t v t')
      then show ?thesis
        by (simp add: readPairs.simps(2) [of "Suc f"] V [OF step(2)] V [OF step(4)] P [OF step(5)] Let_def z step)
    qed (simp add: readPairs.simps z)
  qed
  ultimately show ?case by blast
qed

lemma readValue_more_fuel: "readValue f bs = Inr z \<Longrightarrow> f \<le> g \<Longrightarrow> readValue g bs = Inr z"
proof (induction g)
  case (Suc g)
  show ?case
  proof (cases "f = Suc g")
    case False
    with Suc have "readValue g bs = Inr z" by simp
    with read_more_fuel [of g] show ?thesis by blast
  qed (use Suc.prems in simp)
qed simp

lemma readerValue_extend:
  assumes "readerValue p = Inr (v, r)"
  shows "readerValue (p @ q) = Inr (v, r @ q)"
proof -
  from assms read_extend [of "reader_fuel p" q] have "readValue (reader_fuel p) (p @ q) = Inr (v, r @ q)"
    unfolding readerValue_def by fastforce
  then show ?thesis
    unfolding readerValue_def by (rule readValue_more_fuel) (simp add: reader_fuel_def)
qed

text \<open>Truncation is noticed: no proper prefix of a complete value decodes.\<close>

lemma truncated_value:
  assumes "readerValue (p @ q) = Inr (v, [])" and "q \<noteq> []"
  shows "\<exists>e. readerValue p = Inl e"
proof (cases "readerValue p")
  case (Inr vr)
  obtain v' r where "vr = (v', r)" by (cases vr)
  with Inr have "readerValue p = Inr (v', r)" by simp
  from readerValue_extend [OF this, of q] assms show ?thesis by auto
qed simp

lemma truncated_envelope:
  assumes "decodeEnvelope (p @ q) = Inr raw" and "q \<noteq> []"
  shows "\<exists>e. decodeEnvelope p = Inl e"
proof -
  from assms(1) obtain m where "readerValue (p @ q) = Inr (CMap m, [])"
    by (auto simp: decodeEnvelope_iff)
  from truncated_value [OF this assms(2)] show ?thesis by (auto simp: decodeEnvelope_def)
qed

end
