(* ===== verification/Operations.thy ===== *)
theory Operations
  imports PayloadFields
begin

text \<open>
  \<open>protocol-sdk/src/operations/*.ts\<close>, the operations whose payloads are records of numbered
  fields, nested records and arrays of records. Every codec is an instance of \<open>value_codec\<close> (what
  is encoded is decoded again) and every array element an instance of \<open>item_codec\<close>. A request or
  response type with one property is modelled as that property.
\<close>

section \<open>Array elements and paging\<close>

locale item_codec =
  fixes enc :: "'a \<Rightarrow> codec_error + bytes"
    and dec :: "cbor \<Rightarrow> codec_error + 'a"
    and val :: "'a \<Rightarrow> cbor"
    and ok :: "'a \<Rightarrow> bool"
  assumes gives_item: "ok x \<Longrightarrow> gives (enc x) (val x)"
    and decode_item: "ok x \<Longrightarrow> dec (val x) = Inr x"
begin

lemma writes_items:
  "u32_ok k \<Longrightarrow> \<forall>x\<in>set xs. ok x \<Longrightarrow> writes (arrayField k enc xs) (k, CArray (map val xs))"
  by (rule writes_array) (auto intro: gives_item)

lemma decode_items: "\<forall>x\<in>set xs. ok x \<Longrightarrow> traverseE dec (map val xs) = Inr xs"
  by (rule traverseE_map_val) (auto intro: decode_item)

text \<open>The encoders that build the array before the other fields.\<close>

lemma items_first:
  assumes "\<forall>x\<in>set xs. ok x"
    and "\<And>bss. encodes (encodeArray bss) (CArray (map val xs)) \<Longrightarrow> bindE (f bss) g = Inr r"
  shows "bindE (bindE (traverseE enc xs) f) g = Inr r"
proof -
  from assms(1) have "\<And>x. x \<in> set xs \<Longrightarrow> gives (enc x) (val x)" by (auto intro: gives_item)
  from gives_array [of xs enc val, OF this] obtain bss
    where "traverseE enc xs = Inr bss" "encodes (encodeArray bss) (CArray (map val xs))" by auto
  with assms(2) show ?thesis by simp
qed

end

lemma writes_encoded: "u32_ok k \<Longrightarrow> encodes b v \<Longrightarrow> writes (rawField k (Inr b)) (k, v)"
  by (rule writes_raw) simp_all

text \<open>
  \<open>{ cursor?, limit? }\<close>, the request of every paged operation. Each operation has its own
  defaults, which its decoder fills in.
\<close>

record PageRequest =
  pg_cursor :: "int option"
  pg_limit :: "int option"

definition page_ok :: "PageRequest \<Rightarrow> bool" where
  "page_ok r \<longleftrightarrow> (\<forall>c. pg_cursor r = Some c \<longrightarrow> u32_ok c) \<and> (\<forall>l. pg_limit r = Some l \<longrightarrow> u32_ok l)"

definition with_defaults :: "int \<Rightarrow> int \<Rightarrow> PageRequest \<Rightarrow> PageRequest" where
  "with_defaults c l r = \<lparr>pg_cursor = Some (case pg_cursor r of None \<Rightarrow> c | Some v \<Rightarrow> v),
                          pg_limit = Some (case pg_limit r of None \<Rightarrow> l | Some v \<Rightarrow> v)\<rparr>"

lemma page_roundtrip:
  assumes "page_ok r"
  shows "bindE (encodeFields (optField (pg_cursor r) (u32Field 0) @ optField (pg_limit r) (u32Field 1)))
           (\<lambda>bs. bindE (decodeMap bs ctx) (\<lambda>m.
              bindE (optionalU32 m 0 c ctx) (\<lambda>cursor.
              bindE (optionalU32 m 1 l ctx) (\<lambda>limit.
                Inr \<lparr>pg_cursor = Some cursor, pg_limit = Some limit\<rparr>))))
         = Inr (with_defaults c l r)"
proof (rule codec_roundtrip)
  let ?kvs = "optField (pg_cursor r) (\<lambda>v. (0 :: int, CUint v)) @ optField (pg_limit r) (\<lambda>v. (1, CUint v))"
  show "list_all2 writes (optField (pg_cursor r) (u32Field 0) @ optField (pg_limit r) (u32Field 1)) ?kvs"
    using assms by (auto intro!: list_all2_appendI list_all2_optField writes_u32 simp: page_ok_def)
  show "distinct (map fst ?kvs)"
    by (cases "pg_cursor r"; cases "pg_limit r") simp_all
  show "bindE (optionalU32 ?kvs 0 c ctx) (\<lambda>cursor. bindE (optionalU32 ?kvs 1 l ctx) (\<lambda>limit.
          Inr \<lparr>pg_cursor = Some cursor, pg_limit = Some limit\<rparr>)) = Inr (with_defaults c l r)"
    using assms by (cases "pg_cursor r"; cases "pg_limit r") (simp_all add: page_ok_def with_defaults_def)
qed

section \<open>\<open>catalog.ts\<close>\<close>

definition encodeGetCatalogRequest :: "PageRequest \<Rightarrow> codec_error + bytes" where
  "encodeGetCatalogRequest r = encodeFields
      (optField (pg_cursor r) (u32Field 0) @ optField (pg_limit r) (u32Field 1))"

definition decodeGetCatalogRequest :: "bytes \<Rightarrow> codec_error + PageRequest" where
  "decodeGetCatalogRequest bs =
     bindE (decodeMap bs ''GetCatalogRequest'') (\<lambda>m.
     bindE (optionalU32 m 0 0 ''GetCatalogRequest'') (\<lambda>cursor.
     bindE (optionalU32 m 1 8 ''GetCatalogRequest'') (\<lambda>limit.
       Inr \<lparr>pg_cursor = Some cursor, pg_limit = Some limit\<rparr>)))"

lemma GetCatalogRequest_roundtrip:
  "page_ok r \<Longrightarrow> bindE (encodeGetCatalogRequest r) decodeGetCatalogRequest = Inr (with_defaults 0 8 r)"
  unfolding encodeGetCatalogRequest_def decodeGetCatalogRequest_def
  by (rule page_roundtrip)

record CatalogDriverEntry =
  cde_typeId :: jsstr
  cde_commandCount :: int

definition encodeCatalogDriverEntry :: "CatalogDriverEntry \<Rightarrow> codec_error + bytes" where
  "encodeCatalogDriverEntry r = encodeFields
      [textField 0 (cde_typeId r), u32Field 1 (cde_commandCount r)]"

definition decodeCatalogDriverEntry :: "cbor \<Rightarrow> codec_error + CatalogDriverEntry" where
  "decodeCatalogDriverEntry entry =
     bindE (requireMap entry ''GetCatalogResponse.drivers[]'') (\<lambda>m.
     bindE (requireText m 0 ''CatalogDriverEntry'') (\<lambda>typeId.
     bindE (requireU32 m 1 ''CatalogDriverEntry'') (\<lambda>commandCount.
       Inr \<lparr>cde_typeId = typeId, cde_commandCount = commandCount\<rparr>)))"

definition cde_val :: "CatalogDriverEntry \<Rightarrow> cbor" where
  "cde_val r = CMap
     [(0, CText (cde_typeId r)), (1, CUint (cde_commandCount r))]"

definition cde_ok :: "CatalogDriverEntry \<Rightarrow> bool" where
  "cde_ok r \<longleftrightarrow> wtext_ok (cde_typeId r) \<and> u32_ok (cde_commandCount r)"

interpretation cde: item_codec encodeCatalogDriverEntry decodeCatalogDriverEntry cde_val cde_ok
proof
  fix r assume "cde_ok r"
  then show "gives (encodeCatalogDriverEntry r) (cde_val r)"
    unfolding encodeCatalogDriverEntry_def cde_val_def cde_ok_def
    by (intro gives_fields) (rule list.rel_intros writes_intros | simp)+
next
  fix r assume "cde_ok r"
  then show "decodeCatalogDriverEntry (cde_val r) = Inr r"
    by (simp add: decodeCatalogDriverEntry_def cde_val_def cde_ok_def)
qed

record GetCatalogResponse =
  cat_protocolVersion :: int
  cat_configVersion :: int
  cat_fingerprint :: bytes
  cat_drivers :: "CatalogDriverEntry list"
  cat_nextCursor :: int
  cat_driverCount :: int

definition encodeGetCatalogResponse :: "GetCatalogResponse \<Rightarrow> codec_error + bytes" where
  "encodeGetCatalogResponse r = bindE (traverseE encodeCatalogDriverEntry (cat_drivers r)) (\<lambda>drivers. encodeFields
      [u32Field 0 (cat_protocolVersion r), u32Field 1 (cat_configVersion r),
       bytesField 2 (cat_fingerprint r), rawField 3 (Inr (encodeArray drivers)),
       u32Field 4 (cat_nextCursor r), u32Field 5 (cat_driverCount r)])"

definition decodeGetCatalogResponse :: "bytes \<Rightarrow> codec_error + GetCatalogResponse" where
  "decodeGetCatalogResponse bs =
     bindE (decodeMap bs ''GetCatalogResponse'') (\<lambda>m.
     bindE (requireArray m 3 ''GetCatalogResponse'') (\<lambda>vs.
     bindE (traverseE decodeCatalogDriverEntry vs) (\<lambda>drivers.
     bindE (requireU32 m 0 ''GetCatalogResponse'') (\<lambda>protocolVersion.
     bindE (requireU32 m 1 ''GetCatalogResponse'') (\<lambda>configVersion.
     bindE (requireBytes m 2 ''GetCatalogResponse'') (\<lambda>fingerprint.
     bindE (requireU32 m 4 ''GetCatalogResponse'') (\<lambda>nextCursor.
     bindE (requireU32 m 5 ''GetCatalogResponse'') (\<lambda>driverCount.
       Inr \<lparr>cat_protocolVersion = protocolVersion, cat_configVersion = configVersion,
          cat_fingerprint = fingerprint, cat_drivers = drivers, cat_nextCursor = nextCursor,
          cat_driverCount = driverCount\<rparr>))))))))"

definition cat_ok :: "GetCatalogResponse \<Rightarrow> bool" where
  "cat_ok r \<longleftrightarrow> u32_ok (cat_protocolVersion r) \<and> u32_ok (cat_configVersion r) \<and>
     bytes_ok (cat_fingerprint r) \<and> (\<forall>x\<in>set (cat_drivers r). cde_ok x) \<and>
     u32_ok (cat_nextCursor r) \<and> u32_ok (cat_driverCount r)"

interpretation cat: value_codec encodeGetCatalogResponse decodeGetCatalogResponse cat_ok
proof
  fix r assume "cat_ok r"
  note ok = this [unfolded cat_ok_def]
  show "bindE (encodeGetCatalogResponse r) decodeGetCatalogResponse = Inr r"
    unfolding encodeGetCatalogResponse_def decodeGetCatalogResponse_def
    by (rule cde.items_first, use ok in blast, insert ok, intro codec_roundtrip)
       (assumption | rule list.rel_intros writes_encoded | rule writes_intros | simp add: cde.decode_items)+
qed

section \<open>\<open>capabilities.ts\<close>\<close>

record GetCapabilitiesResponse =
  cap_resourceProfile :: int
  cap_buildCapabilities :: int
  cap_coreVariant :: jsstr
  cap_maxProtocolPayload :: int
  cap_maxInflightRequests :: int
  cap_replayWindowMs :: int
  cap_maxModules :: int
  cap_maxPrincipals :: int

definition encodeGetCapabilitiesResponse :: "GetCapabilitiesResponse \<Rightarrow> codec_error + bytes" where
  "encodeGetCapabilitiesResponse r = encodeFields
      [u32Field 0 (cap_resourceProfile r), u32Field 1 (cap_buildCapabilities r),
       textField 2 (cap_coreVariant r), u32Field 3 (cap_maxProtocolPayload r),
       u32Field 4 (cap_maxInflightRequests r), u32Field 5 (cap_replayWindowMs r),
       u32Field 6 (cap_maxModules r), u32Field 7 (cap_maxPrincipals r)]"

definition decodeGetCapabilitiesResponse :: "bytes \<Rightarrow> codec_error + GetCapabilitiesResponse" where
  "decodeGetCapabilitiesResponse bs =
     bindE (decodeMap bs ''GetCapabilitiesResponse'') (\<lambda>m.
     bindE (requireU32 m 0 ''GetCapabilitiesResponse'') (\<lambda>resourceProfile.
     bindE (requireU32 m 1 ''GetCapabilitiesResponse'') (\<lambda>buildCapabilities.
     bindE (requireText m 2 ''GetCapabilitiesResponse'') (\<lambda>coreVariant.
     bindE (requireU32 m 3 ''GetCapabilitiesResponse'') (\<lambda>maxProtocolPayload.
     bindE (requireU32 m 4 ''GetCapabilitiesResponse'') (\<lambda>maxInflightRequests.
     bindE (requireU32 m 5 ''GetCapabilitiesResponse'') (\<lambda>replayWindowMs.
     bindE (requireU32 m 6 ''GetCapabilitiesResponse'') (\<lambda>maxModules.
     bindE (requireU32 m 7 ''GetCapabilitiesResponse'') (\<lambda>maxPrincipals.
       Inr \<lparr>cap_resourceProfile = resourceProfile,
          cap_buildCapabilities = buildCapabilities, cap_coreVariant = coreVariant,
          cap_maxProtocolPayload = maxProtocolPayload,
          cap_maxInflightRequests = maxInflightRequests, cap_replayWindowMs = replayWindowMs,
          cap_maxModules = maxModules, cap_maxPrincipals = maxPrincipals\<rparr>)))))))))"

definition cap_ok :: "GetCapabilitiesResponse \<Rightarrow> bool" where
  "cap_ok r \<longleftrightarrow> u32_ok (cap_resourceProfile r) \<and> u32_ok (cap_buildCapabilities r) \<and>
     wtext_ok (cap_coreVariant r) \<and> u32_ok (cap_maxProtocolPayload r) \<and>
     u32_ok (cap_maxInflightRequests r) \<and> u32_ok (cap_replayWindowMs r) \<and>
     u32_ok (cap_maxModules r) \<and> u32_ok (cap_maxPrincipals r)"

interpretation cap: value_codec encodeGetCapabilitiesResponse decodeGetCapabilitiesResponse cap_ok
proof
  fix r assume "cap_ok r"
  then show "bindE (encodeGetCapabilitiesResponse r) decodeGetCapabilitiesResponse = Inr r"
    unfolding encodeGetCapabilitiesResponse_def decodeGetCapabilitiesResponse_def cap_ok_def
    by (intro codec_roundtrip) (rule list.rel_intros writes_intros | simp)+
qed

section \<open>\<open>discovery.ts\<close>\<close>

definition encodeListDiscoveryRequest :: "PageRequest \<Rightarrow> codec_error + bytes" where
  "encodeListDiscoveryRequest r = encodeFields
      (optField (pg_cursor r) (u32Field 0) @ optField (pg_limit r) (u32Field 1))"

definition decodeListDiscoveryRequest :: "bytes \<Rightarrow> codec_error + PageRequest" where
  "decodeListDiscoveryRequest bs =
     bindE (decodeMap bs ''ListDiscoveryRequest'') (\<lambda>m.
     bindE (optionalU32 m 0 0 ''ListDiscoveryRequest'') (\<lambda>cursor.
     bindE (optionalU32 m 1 4 ''ListDiscoveryRequest'') (\<lambda>limit.
       Inr \<lparr>pg_cursor = Some cursor, pg_limit = Some limit\<rparr>)))"

lemma ListDiscoveryRequest_roundtrip:
  "page_ok r \<Longrightarrow> bindE (encodeListDiscoveryRequest r) decodeListDiscoveryRequest = Inr (with_defaults 0 4 r)"
  unfolding encodeListDiscoveryRequest_def decodeListDiscoveryRequest_def
  by (rule page_roundtrip)

record DiscoveryCandidate =
  cand_id :: int
  cand_portId :: int
  cand_generation :: int
  cand_confidence :: int
  cand_suggestedTypeId :: jsstr

definition encodeDiscoveryCandidate :: "DiscoveryCandidate \<Rightarrow> codec_error + bytes" where
  "encodeDiscoveryCandidate r = encodeFields
      [u32Field 0 (cand_id r), u32Field 1 (cand_portId r), u32Field 2 (cand_generation r),
       u32Field 3 (cand_confidence r), textField 4 (cand_suggestedTypeId r)]"

definition decodeDiscoveryCandidate :: "cbor \<Rightarrow> codec_error + DiscoveryCandidate" where
  "decodeDiscoveryCandidate entry =
     bindE (requireMap entry ''ListDiscoveryResponse.candidates[]'') (\<lambda>m.
     bindE (requireU32 m 0 ''DiscoveryCandidate'') (\<lambda>id.
     bindE (requireU32 m 1 ''DiscoveryCandidate'') (\<lambda>portId.
     bindE (requireU32 m 2 ''DiscoveryCandidate'') (\<lambda>generation.
     bindE (requireU32 m 3 ''DiscoveryCandidate'') (\<lambda>confidence.
     bindE (requireText m 4 ''DiscoveryCandidate'') (\<lambda>suggestedTypeId.
       Inr \<lparr>cand_id = id, cand_portId = portId, cand_generation = generation,
          cand_confidence = confidence, cand_suggestedTypeId = suggestedTypeId\<rparr>))))))"

definition cand_val :: "DiscoveryCandidate \<Rightarrow> cbor" where
  "cand_val r = CMap
     [(0, CUint (cand_id r)), (1, CUint (cand_portId r)), (2, CUint (cand_generation r)),
      (3, CUint (cand_confidence r)), (4, CText (cand_suggestedTypeId r))]"

definition cand_ok :: "DiscoveryCandidate \<Rightarrow> bool" where
  "cand_ok r \<longleftrightarrow> u32_ok (cand_id r) \<and> u32_ok (cand_portId r) \<and> u32_ok (cand_generation r) \<and>
     u32_ok (cand_confidence r) \<and> wtext_ok (cand_suggestedTypeId r)"

interpretation cand: item_codec encodeDiscoveryCandidate decodeDiscoveryCandidate cand_val cand_ok
proof
  fix r assume "cand_ok r"
  then show "gives (encodeDiscoveryCandidate r) (cand_val r)"
    unfolding encodeDiscoveryCandidate_def cand_val_def cand_ok_def
    by (intro gives_fields) (rule list.rel_intros writes_intros | simp)+
next
  fix r assume "cand_ok r"
  then show "decodeDiscoveryCandidate (cand_val r) = Inr r"
    by (simp add: decodeDiscoveryCandidate_def cand_val_def cand_ok_def)
qed

record ListDiscoveryResponse =
  lds_candidates :: "DiscoveryCandidate list"
  lds_nextCursor :: int

definition encodeListDiscoveryResponse :: "ListDiscoveryResponse \<Rightarrow> codec_error + bytes" where
  "encodeListDiscoveryResponse r = encodeFields
      [arrayField 0 encodeDiscoveryCandidate (lds_candidates r), u32Field 1 (lds_nextCursor r)]"

definition decodeListDiscoveryResponse :: "bytes \<Rightarrow> codec_error + ListDiscoveryResponse" where
  "decodeListDiscoveryResponse bs =
     bindE (decodeMap bs ''ListDiscoveryResponse'') (\<lambda>m.
     bindE (requireArray m 0 ''ListDiscoveryResponse'') (\<lambda>vs.
     bindE (traverseE decodeDiscoveryCandidate vs) (\<lambda>candidates.
     bindE (requireU32 m 1 ''ListDiscoveryResponse'') (\<lambda>nextCursor.
       Inr \<lparr>lds_candidates = candidates, lds_nextCursor = nextCursor\<rparr>))))"

definition lds_ok :: "ListDiscoveryResponse \<Rightarrow> bool" where
  "lds_ok r \<longleftrightarrow> (\<forall>x\<in>set (lds_candidates r). cand_ok x) \<and> u32_ok (lds_nextCursor r)"

interpretation lds: value_codec encodeListDiscoveryResponse decodeListDiscoveryResponse lds_ok
proof
  fix r assume "lds_ok r"
  then show "bindE (encodeListDiscoveryResponse r) decodeListDiscoveryResponse = Inr r"
    unfolding encodeListDiscoveryResponse_def decodeListDiscoveryResponse_def lds_ok_def
    by (intro codec_roundtrip) (rule list.rel_intros writes_intros cand.writes_items | simp add: cand.decode_items)+
qed

record ScanDiscoveryRequest =
  scan_portId :: int
  scan_allowStateChanging :: "bool option"

definition encodeScanDiscoveryRequest :: "ScanDiscoveryRequest \<Rightarrow> codec_error + bytes" where
  "encodeScanDiscoveryRequest r = encodeFields
      ([u32Field 0 (scan_portId r)]
       @ optField (scan_allowStateChanging r) (\<lambda>b. u32Field 1 (if b then 1 else 0)))"

definition decodeScanDiscoveryRequest :: "bytes \<Rightarrow> codec_error + ScanDiscoveryRequest" where
  "decodeScanDiscoveryRequest bs =
     bindE (decodeMap bs ''ScanDiscoveryRequest'') (\<lambda>m.
     bindE (requireU32 m 0 ''ScanDiscoveryRequest'') (\<lambda>portId.
     bindE (optionalU32 m 1 0 ''ScanDiscoveryRequest'') (\<lambda>allow.
       Inr \<lparr>scan_portId = portId, scan_allowStateChanging = Some (allow \<noteq> 0)\<rparr>)))"

lemma ScanDiscoveryRequest_roundtrip:
  assumes "u32_ok (scan_portId r)"
  shows "bindE (encodeScanDiscoveryRequest r) decodeScanDiscoveryRequest =
           Inr (r\<lparr>scan_allowStateChanging := Some (scan_allowStateChanging r = Some True)\<rparr>)"
proof (cases "scan_allowStateChanging r")
  case None
  with assms show ?thesis
    unfolding encodeScanDiscoveryRequest_def decodeScanDiscoveryRequest_def
    by (simp, intro codec_roundtrip) (rule list.rel_intros writes_intros | simp)+
next
  case (Some b)
  have "u32_ok (if b then 1 else 0)" by simp
  with Some assms show ?thesis
    unfolding encodeScanDiscoveryRequest_def decodeScanDiscoveryRequest_def
    by (cases b; simp, intro codec_roundtrip) (rule list.rel_intros writes_intros | simp)+
qed

record AcceptDiscoveryRequest =
  adr_candidateId :: int
  adr_key :: int
  adr_generation :: int

definition encodeAcceptDiscoveryRequest :: "AcceptDiscoveryRequest \<Rightarrow> codec_error + bytes" where
  "encodeAcceptDiscoveryRequest r = encodeFields
      [u32Field 0 (adr_candidateId r), u32Field 1 (adr_key r), u32Field 2 (adr_generation r)]"

definition decodeAcceptDiscoveryRequest :: "bytes \<Rightarrow> codec_error + AcceptDiscoveryRequest" where
  "decodeAcceptDiscoveryRequest bs =
     bindE (decodeMap bs ''AcceptDiscoveryRequest'') (\<lambda>m.
     bindE (requireU32 m 0 ''AcceptDiscoveryRequest'') (\<lambda>candidateId.
     bindE (requireU32 m 1 ''AcceptDiscoveryRequest'') (\<lambda>key.
     bindE (requireU32 m 2 ''AcceptDiscoveryRequest'') (\<lambda>generation.
       Inr \<lparr>adr_candidateId = candidateId, adr_key = key,
          adr_generation = generation\<rparr>))))"

definition adr_ok :: "AcceptDiscoveryRequest \<Rightarrow> bool" where
  "adr_ok r \<longleftrightarrow> u32_ok (adr_candidateId r) \<and> u32_ok (adr_key r) \<and> u32_ok (adr_generation r)"

interpretation adr: value_codec encodeAcceptDiscoveryRequest decodeAcceptDiscoveryRequest adr_ok
proof
  fix r assume "adr_ok r"
  then show "bindE (encodeAcceptDiscoveryRequest r) decodeAcceptDiscoveryRequest = Inr r"
    unfolding encodeAcceptDiscoveryRequest_def decodeAcceptDiscoveryRequest_def adr_ok_def
    by (intro codec_roundtrip) (rule list.rel_intros writes_intros | simp)+
qed

record AcceptDiscoveryResponse =
  ads_generation :: int
  ads_moduleKey :: int

definition encodeAcceptDiscoveryResponse :: "AcceptDiscoveryResponse \<Rightarrow> codec_error + bytes" where
  "encodeAcceptDiscoveryResponse r = encodeFields
      [u32Field 0 (ads_generation r), u32Field 1 (ads_moduleKey r)]"

definition decodeAcceptDiscoveryResponse :: "bytes \<Rightarrow> codec_error + AcceptDiscoveryResponse" where
  "decodeAcceptDiscoveryResponse bs =
     bindE (decodeMap bs ''AcceptDiscoveryResponse'') (\<lambda>m.
     bindE (requireU32 m 0 ''AcceptDiscoveryResponse'') (\<lambda>generation.
     bindE (requireU32 m 1 ''AcceptDiscoveryResponse'') (\<lambda>moduleKey.
       Inr \<lparr>ads_generation = generation, ads_moduleKey = moduleKey\<rparr>)))"

definition ads_ok :: "AcceptDiscoveryResponse \<Rightarrow> bool" where
  "ads_ok r \<longleftrightarrow> u32_ok (ads_generation r) \<and> u32_ok (ads_moduleKey r)"

interpretation ads: value_codec encodeAcceptDiscoveryResponse decodeAcceptDiscoveryResponse ads_ok
proof
  fix r assume "ads_ok r"
  then show "bindE (encodeAcceptDiscoveryResponse r) decodeAcceptDiscoveryResponse = Inr r"
    unfolding encodeAcceptDiscoveryResponse_def decodeAcceptDiscoveryResponse_def ads_ok_def
    by (intro codec_roundtrip) (rule list.rel_intros writes_intros | simp)+
qed

section \<open>\<open>features.ts\<close>\<close>

record FeaturePack =
  pack_id :: jsstr
  pack_version :: jsstr
  pack_requiredHwCaps :: int
  pack_moduleTypeCount :: int

definition encodeFeaturePack :: "FeaturePack \<Rightarrow> codec_error + bytes" where
  "encodeFeaturePack r = encodeFields
      [textField 0 (pack_id r), textField 1 (pack_version r),
       u32Field 2 (pack_requiredHwCaps r), u32Field 3 (pack_moduleTypeCount r)]"

definition decodeFeaturePack :: "cbor \<Rightarrow> codec_error + FeaturePack" where
  "decodeFeaturePack entry =
     bindE (requireMap entry ''GetFeaturesResponse.packs[]'') (\<lambda>m.
     bindE (requireText m 0 ''FeaturePack'') (\<lambda>id.
     bindE (requireText m 1 ''FeaturePack'') (\<lambda>version.
     bindE (requireU32 m 2 ''FeaturePack'') (\<lambda>requiredHwCaps.
     bindE (requireU32 m 3 ''FeaturePack'') (\<lambda>moduleTypeCount.
       Inr \<lparr>pack_id = id, pack_version = version, pack_requiredHwCaps = requiredHwCaps,
          pack_moduleTypeCount = moduleTypeCount\<rparr>)))))"

definition pack_val :: "FeaturePack \<Rightarrow> cbor" where
  "pack_val r = CMap
     [(0, CText (pack_id r)), (1, CText (pack_version r)), (2, CUint (pack_requiredHwCaps r)),
      (3, CUint (pack_moduleTypeCount r))]"

definition pack_ok :: "FeaturePack \<Rightarrow> bool" where
  "pack_ok r \<longleftrightarrow> wtext_ok (pack_id r) \<and> wtext_ok (pack_version r) \<and>
     u32_ok (pack_requiredHwCaps r) \<and> u32_ok (pack_moduleTypeCount r)"

interpretation pack: item_codec encodeFeaturePack decodeFeaturePack pack_val pack_ok
proof
  fix r assume "pack_ok r"
  then show "gives (encodeFeaturePack r) (pack_val r)"
    unfolding encodeFeaturePack_def pack_val_def pack_ok_def
    by (intro gives_fields) (rule list.rel_intros writes_intros | simp)+
next
  fix r assume "pack_ok r"
  then show "decodeFeaturePack (pack_val r) = Inr r"
    by (simp add: decodeFeaturePack_def pack_val_def pack_ok_def)
qed

record GetFeaturesResponse =
  feat_featureSetHash :: bytes
  feat_packs :: "FeaturePack list"

definition encodeGetFeaturesResponse :: "GetFeaturesResponse \<Rightarrow> codec_error + bytes" where
  "encodeGetFeaturesResponse r = bindE (traverseE encodeFeaturePack (feat_packs r)) (\<lambda>packs. encodeFields
      [bytesField 0 (feat_featureSetHash r), rawField 1 (Inr (encodeArray packs))])"

definition decodeGetFeaturesResponse :: "bytes \<Rightarrow> codec_error + GetFeaturesResponse" where
  "decodeGetFeaturesResponse bs =
     bindE (decodeMap bs ''GetFeaturesResponse'') (\<lambda>m.
     bindE (requireArray m 1 ''GetFeaturesResponse'') (\<lambda>vs.
     bindE (traverseE decodeFeaturePack vs) (\<lambda>packs.
     bindE (requireBytes m 0 ''GetFeaturesResponse'') (\<lambda>featureSetHash.
       Inr \<lparr>feat_featureSetHash = featureSetHash, feat_packs = packs\<rparr>))))"

definition feat_ok :: "GetFeaturesResponse \<Rightarrow> bool" where
  "feat_ok r \<longleftrightarrow> bytes_ok (feat_featureSetHash r) \<and> (\<forall>x\<in>set (feat_packs r). pack_ok x)"

interpretation feat: value_codec encodeGetFeaturesResponse decodeGetFeaturesResponse feat_ok
proof
  fix r assume "feat_ok r"
  note ok = this [unfolded feat_ok_def]
  show "bindE (encodeGetFeaturesResponse r) decodeGetFeaturesResponse = Inr r"
    unfolding encodeGetFeaturesResponse_def decodeGetFeaturesResponse_def
    by (rule pack.items_first, use ok in blast, insert ok, intro codec_roundtrip)
       (assumption | rule list.rel_intros writes_encoded | rule writes_intros | simp add: pack.decode_items)+
qed

section \<open>\<open>connectivity.ts\<close>\<close>

record GetConnectivityStatusResponse =
  conn_policy :: int
  conn_activeServices :: int
  conn_leasedServices :: int
  conn_leaseExpiresAtMs :: int
  conn_lastError :: int

definition encodeGetConnectivityStatusResponse :: "GetConnectivityStatusResponse \<Rightarrow> codec_error + bytes" where
  "encodeGetConnectivityStatusResponse r = encodeFields
      [u32Field 0 (conn_policy r), u32Field 1 (conn_activeServices r),
       u32Field 2 (conn_leasedServices r), int64Field 3 (conn_leaseExpiresAtMs r),
       int64Field 4 (conn_lastError r)]"

definition decodeGetConnectivityStatusResponse :: "bytes \<Rightarrow> codec_error + GetConnectivityStatusResponse" where
  "decodeGetConnectivityStatusResponse bs =
     bindE (decodeMap bs ''GetConnectivityStatusResponse'') (\<lambda>m.
     bindE (requireU32 m 0 ''GetConnectivityStatusResponse'') (\<lambda>policy.
     bindE (requireU32 m 1 ''GetConnectivityStatusResponse'') (\<lambda>activeServices.
     bindE (requireU32 m 2 ''GetConnectivityStatusResponse'') (\<lambda>leasedServices.
     bindE (requireInt64 m 3 ''GetConnectivityStatusResponse'') (\<lambda>leaseExpiresAtMs.
     bindE (requireInt64 m 4 ''GetConnectivityStatusResponse'') (\<lambda>lastError.
       Inr \<lparr>conn_policy = policy, conn_activeServices = activeServices,
          conn_leasedServices = leasedServices, conn_leaseExpiresAtMs = leaseExpiresAtMs,
          conn_lastError = lastError\<rparr>))))))"

definition conn_ok :: "GetConnectivityStatusResponse \<Rightarrow> bool" where
  "conn_ok r \<longleftrightarrow> u32_ok (conn_policy r) \<and> u32_ok (conn_activeServices r) \<and>
     u32_ok (conn_leasedServices r) \<and> int_ok (conn_leaseExpiresAtMs r) \<and>
     int_ok (conn_lastError r)"

interpretation conn: value_codec encodeGetConnectivityStatusResponse decodeGetConnectivityStatusResponse conn_ok
proof
  fix r assume "conn_ok r"
  then show "bindE (encodeGetConnectivityStatusResponse r) decodeGetConnectivityStatusResponse = Inr r"
    unfolding encodeGetConnectivityStatusResponse_def decodeGetConnectivityStatusResponse_def conn_ok_def
    by (intro codec_roundtrip) (rule list.rel_intros writes_intros | simp)+
qed

record AcquireConnectivityLeaseRequest =
  lease_services :: int
  lease_durationMs :: int

definition encodeAcquireConnectivityLeaseRequest :: "AcquireConnectivityLeaseRequest \<Rightarrow> codec_error + bytes" where
  "encodeAcquireConnectivityLeaseRequest r = encodeFields
      [u32Field 0 (lease_services r), u32Field 1 (lease_durationMs r)]"

definition decodeAcquireConnectivityLeaseRequest :: "bytes \<Rightarrow> codec_error + AcquireConnectivityLeaseRequest" where
  "decodeAcquireConnectivityLeaseRequest bs =
     bindE (decodeMap bs ''AcquireConnectivityLeaseRequest'') (\<lambda>m.
     bindE (requireU32 m 0 ''AcquireConnectivityLeaseRequest'') (\<lambda>services.
     bindE (requireU32 m 1 ''AcquireConnectivityLeaseRequest'') (\<lambda>durationMs.
       Inr \<lparr>lease_services = services, lease_durationMs = durationMs\<rparr>)))"

definition lease_ok :: "AcquireConnectivityLeaseRequest \<Rightarrow> bool" where
  "lease_ok r \<longleftrightarrow> u32_ok (lease_services r) \<and> u32_ok (lease_durationMs r)"

interpretation lease: value_codec encodeAcquireConnectivityLeaseRequest decodeAcquireConnectivityLeaseRequest lease_ok
proof
  fix r assume "lease_ok r"
  then show "bindE (encodeAcquireConnectivityLeaseRequest r) decodeAcquireConnectivityLeaseRequest = Inr r"
    unfolding encodeAcquireConnectivityLeaseRequest_def decodeAcquireConnectivityLeaseRequest_def lease_ok_def
    by (intro codec_roundtrip) (rule list.rel_intros writes_intros | simp)+
qed

section \<open>\<open>audit.ts\<close>\<close>

definition encodeGetAuditLogRequest :: "PageRequest \<Rightarrow> codec_error + bytes" where
  "encodeGetAuditLogRequest r = encodeFields
      (optField (pg_cursor r) (u32Field 0) @ optField (pg_limit r) (u32Field 1))"

definition decodeGetAuditLogRequest :: "bytes \<Rightarrow> codec_error + PageRequest" where
  "decodeGetAuditLogRequest bs =
     bindE (decodeMap bs ''GetAuditLogRequest'') (\<lambda>m.
     bindE (optionalU32 m 0 1 ''GetAuditLogRequest'') (\<lambda>cursor.
     bindE (optionalU32 m 1 8 ''GetAuditLogRequest'') (\<lambda>limit.
       Inr \<lparr>pg_cursor = Some cursor, pg_limit = Some limit\<rparr>)))"

lemma GetAuditLogRequest_roundtrip:
  "page_ok r \<Longrightarrow> bindE (encodeGetAuditLogRequest r) decodeGetAuditLogRequest = Inr (with_defaults 1 8 r)"
  unfolding encodeGetAuditLogRequest_def decodeGetAuditLogRequest_def
  by (rule page_roundtrip)

record AuditLogEntry =
  audit_sequence :: int
  audit_principalId :: int
  audit_operationId :: int
  audit_internalResult :: int
  audit_uptimeMs :: int

definition encodeAuditLogEntry :: "AuditLogEntry \<Rightarrow> codec_error + bytes" where
  "encodeAuditLogEntry r = encodeFields
      [u32Field 0 (audit_sequence r), u32Field 1 (audit_principalId r),
       u32Field 2 (audit_operationId r), int64Field 3 (audit_internalResult r),
       int64Field 4 (audit_uptimeMs r)]"

definition decodeAuditLogEntry :: "cbor \<Rightarrow> codec_error + AuditLogEntry" where
  "decodeAuditLogEntry entry =
     bindE (requireMap entry ''GetAuditLogResponse.entries[]'') (\<lambda>m.
     bindE (requireU32 m 0 ''AuditLogEntry'') (\<lambda>sequence.
     bindE (requireU32 m 1 ''AuditLogEntry'') (\<lambda>principalId.
     bindE (requireU32 m 2 ''AuditLogEntry'') (\<lambda>operationId.
     bindE (requireInt64 m 3 ''AuditLogEntry'') (\<lambda>internalResult.
     bindE (requireInt64 m 4 ''AuditLogEntry'') (\<lambda>uptimeMs.
       Inr \<lparr>audit_sequence = sequence, audit_principalId = principalId,
          audit_operationId = operationId, audit_internalResult = internalResult,
          audit_uptimeMs = uptimeMs\<rparr>))))))"

definition audit_val :: "AuditLogEntry \<Rightarrow> cbor" where
  "audit_val r = CMap
     [(0, CUint (audit_sequence r)), (1, CUint (audit_principalId r)),
      (2, CUint (audit_operationId r)), (3, cbor_int (audit_internalResult r)),
      (4, cbor_int (audit_uptimeMs r))]"

definition audit_ok :: "AuditLogEntry \<Rightarrow> bool" where
  "audit_ok r \<longleftrightarrow> u32_ok (audit_sequence r) \<and> u32_ok (audit_principalId r) \<and>
     u32_ok (audit_operationId r) \<and> int_ok (audit_internalResult r) \<and>
     int_ok (audit_uptimeMs r)"

interpretation audit: item_codec encodeAuditLogEntry decodeAuditLogEntry audit_val audit_ok
proof
  fix r assume "audit_ok r"
  then show "gives (encodeAuditLogEntry r) (audit_val r)"
    unfolding encodeAuditLogEntry_def audit_val_def audit_ok_def
    by (intro gives_fields) (rule list.rel_intros writes_intros | simp)+
next
  fix r assume "audit_ok r"
  then show "decodeAuditLogEntry (audit_val r) = Inr r"
    by (simp add: decodeAuditLogEntry_def audit_val_def audit_ok_def)
qed

record GetAuditLogResponse =
  alog_entries :: "AuditLogEntry list"
  alog_nextCursor :: int

definition encodeGetAuditLogResponse :: "GetAuditLogResponse \<Rightarrow> codec_error + bytes" where
  "encodeGetAuditLogResponse r = encodeFields
      [arrayField 0 encodeAuditLogEntry (alog_entries r), u32Field 1 (alog_nextCursor r)]"

definition decodeGetAuditLogResponse :: "bytes \<Rightarrow> codec_error + GetAuditLogResponse" where
  "decodeGetAuditLogResponse bs =
     bindE (decodeMap bs ''GetAuditLogResponse'') (\<lambda>m.
     bindE (requireArray m 0 ''GetAuditLogResponse'') (\<lambda>vs.
     bindE (traverseE decodeAuditLogEntry vs) (\<lambda>entries.
     bindE (requireU32 m 1 ''GetAuditLogResponse'') (\<lambda>nextCursor.
       Inr \<lparr>alog_entries = entries, alog_nextCursor = nextCursor\<rparr>))))"

definition alog_ok :: "GetAuditLogResponse \<Rightarrow> bool" where
  "alog_ok r \<longleftrightarrow> (\<forall>x\<in>set (alog_entries r). audit_ok x) \<and> u32_ok (alog_nextCursor r)"

interpretation alog: value_codec encodeGetAuditLogResponse decodeGetAuditLogResponse alog_ok
proof
  fix r assume "alog_ok r"
  then show "bindE (encodeGetAuditLogResponse r) decodeGetAuditLogResponse = Inr r"
    unfolding encodeGetAuditLogResponse_def decodeGetAuditLogResponse_def alog_ok_def
    by (intro codec_roundtrip) (rule list.rel_intros writes_intros audit.writes_items | simp add: audit.decode_items)+
qed

section \<open>\<open>job.ts\<close> and \<open>reset.ts\<close>\<close>

type_synonym GetJobStatusRequest = int

definition encodeGetJobStatusRequest :: "GetJobStatusRequest \<Rightarrow> codec_error + bytes" where
  "encodeGetJobStatusRequest r = encodeFields
      [u32Field 0 r]"

definition decodeGetJobStatusRequest :: "bytes \<Rightarrow> codec_error + GetJobStatusRequest" where
  "decodeGetJobStatusRequest bs =
     bindE (decodeMap bs ''GetJobStatusRequest'') (\<lambda>m.
     bindE (requireU32 m 0 ''GetJobStatusRequest'') (\<lambda>jobId'.
       Inr jobId'))"

definition gjr_ok :: "GetJobStatusRequest \<Rightarrow> bool" where
  "gjr_ok r \<longleftrightarrow> u32_ok r"

interpretation gjr: value_codec encodeGetJobStatusRequest decodeGetJobStatusRequest gjr_ok
proof
  fix r assume "gjr_ok r"
  then show "bindE (encodeGetJobStatusRequest r) decodeGetJobStatusRequest = Inr r"
    unfolding encodeGetJobStatusRequest_def decodeGetJobStatusRequest_def gjr_ok_def
    by (intro codec_roundtrip) (rule list.rel_intros writes_intros | simp)+
qed

datatype JobState = FREE | PENDING | RUNNING | COMPLETED | FAILED | CANCELLED | EXPIRED

fun job_state_code :: "JobState \<Rightarrow> int" where
  "job_state_code FREE = 0"
| "job_state_code PENDING = 1"
| "job_state_code RUNNING = 2"
| "job_state_code COMPLETED = 3"
| "job_state_code FAILED = 4"
| "job_state_code CANCELLED = 5"
| "job_state_code EXPIRED = 6"

text \<open>The decoder casts the number to \<open>JobState\<close> without a check, so \<open>state\<close> stays a number.\<close>

record GetJobStatusResponse =
  job_jobId :: int
  job_state :: int
  job_progress :: int
  job_protocolStatus :: int
  job_operation :: int

definition encodeGetJobStatusResponse :: "GetJobStatusResponse \<Rightarrow> codec_error + bytes" where
  "encodeGetJobStatusResponse r = encodeFields
      [u32Field 0 (job_jobId r), u32Field 1 (job_state r), u32Field 2 (job_progress r),
       u32Field 3 (job_protocolStatus r), u32Field 4 (job_operation r)]"

definition decodeGetJobStatusResponse :: "bytes \<Rightarrow> codec_error + GetJobStatusResponse" where
  "decodeGetJobStatusResponse bs =
     bindE (decodeMap bs ''GetJobStatusResponse'') (\<lambda>m.
     bindE (requireU32 m 0 ''GetJobStatusResponse'') (\<lambda>jobId.
     bindE (requireU32 m 1 ''GetJobStatusResponse'') (\<lambda>state.
     bindE (requireU32 m 2 ''GetJobStatusResponse'') (\<lambda>progress.
     bindE (requireU32 m 3 ''GetJobStatusResponse'') (\<lambda>protocolStatus.
     bindE (requireU32 m 4 ''GetJobStatusResponse'') (\<lambda>operation.
       Inr \<lparr>job_jobId = jobId, job_state = state, job_progress = progress,
          job_protocolStatus = protocolStatus, job_operation = operation\<rparr>))))))"

definition job_ok :: "GetJobStatusResponse \<Rightarrow> bool" where
  "job_ok r \<longleftrightarrow> u32_ok (job_jobId r) \<and> u32_ok (job_state r) \<and> u32_ok (job_progress r) \<and>
     u32_ok (job_protocolStatus r) \<and> u32_ok (job_operation r)"

interpretation job: value_codec encodeGetJobStatusResponse decodeGetJobStatusResponse job_ok
proof
  fix r assume "job_ok r"
  then show "bindE (encodeGetJobStatusResponse r) decodeGetJobStatusResponse = Inr r"
    unfolding encodeGetJobStatusResponse_def decodeGetJobStatusResponse_def job_ok_def
    by (intro codec_roundtrip) (rule list.rel_intros writes_intros | simp)+
qed

type_synonym FactoryResetRequest = int

definition encodeFactoryResetRequest :: "FactoryResetRequest \<Rightarrow> codec_error + bytes" where
  "encodeFactoryResetRequest r = encodeFields
      [u32Field 0 r]"

definition decodeFactoryResetRequest :: "bytes \<Rightarrow> codec_error + FactoryResetRequest" where
  "decodeFactoryResetRequest bs =
     bindE (decodeMap bs ''FactoryResetRequest'') (\<lambda>m.
     bindE (requireU32 m 0 ''FactoryResetRequest'') (\<lambda>scope'.
       Inr scope'))"

definition reset_ok :: "FactoryResetRequest \<Rightarrow> bool" where
  "reset_ok r \<longleftrightarrow> u32_ok r"

interpretation reset: value_codec encodeFactoryResetRequest decodeFactoryResetRequest reset_ok
proof
  fix r assume "reset_ok r"
  then show "bindE (encodeFactoryResetRequest r) decodeFactoryResetRequest = Inr r"
    unfolding encodeFactoryResetRequest_def decodeFactoryResetRequest_def reset_ok_def
    by (intro codec_roundtrip) (rule list.rel_intros writes_intros | simp)+
qed

section \<open>\<open>ble-update.ts\<close>\<close>

record OpenBleUpdateRequest =
  oble_imageSize :: int
  oble_imageSha256 :: bytes
  oble_version :: jsstr

definition encodeOpenBleUpdateRequest :: "OpenBleUpdateRequest \<Rightarrow> codec_error + bytes" where
  "encodeOpenBleUpdateRequest r = encodeFields
      [u32Field 0 (oble_imageSize r), bytesField 1 (oble_imageSha256 r),
       textField 2 (oble_version r)]"

definition decodeOpenBleUpdateRequest :: "bytes \<Rightarrow> codec_error + OpenBleUpdateRequest" where
  "decodeOpenBleUpdateRequest bs =
     bindE (decodeMap bs ''OpenBleUpdateRequest'') (\<lambda>m.
     bindE (requireU32 m 0 ''OpenBleUpdateRequest'') (\<lambda>imageSize.
     bindE (requireBytes m 1 ''OpenBleUpdateRequest'') (\<lambda>imageSha256.
     bindE (requireText m 2 ''OpenBleUpdateRequest'') (\<lambda>version.
       Inr \<lparr>oble_imageSize = imageSize, oble_imageSha256 = imageSha256,
          oble_version = version\<rparr>))))"

definition oble_ok :: "OpenBleUpdateRequest \<Rightarrow> bool" where
  "oble_ok r \<longleftrightarrow> u32_ok (oble_imageSize r) \<and> bytes_ok (oble_imageSha256 r) \<and>
     wtext_ok (oble_version r)"

interpretation oble: value_codec encodeOpenBleUpdateRequest decodeOpenBleUpdateRequest oble_ok
proof
  fix r assume "oble_ok r"
  then show "bindE (encodeOpenBleUpdateRequest r) decodeOpenBleUpdateRequest = Inr r"
    unfolding encodeOpenBleUpdateRequest_def decodeOpenBleUpdateRequest_def oble_ok_def
    by (intro codec_roundtrip) (rule list.rel_intros writes_intros | simp)+
qed

type_synonym OpenBleUpdateResponse = int

definition encodeOpenBleUpdateResponse :: "OpenBleUpdateResponse \<Rightarrow> codec_error + bytes" where
  "encodeOpenBleUpdateResponse r = encodeFields
      [u32Field 0 r]"

definition decodeOpenBleUpdateResponse :: "bytes \<Rightarrow> codec_error + OpenBleUpdateResponse" where
  "decodeOpenBleUpdateResponse bs =
     bindE (decodeMap bs ''OpenBleUpdateResponse'') (\<lambda>m.
     bindE (requireU32 m 0 ''OpenBleUpdateResponse'') (\<lambda>sessionId'.
       Inr sessionId'))"

definition obles_ok :: "OpenBleUpdateResponse \<Rightarrow> bool" where
  "obles_ok r \<longleftrightarrow> u32_ok r"

interpretation obles: value_codec encodeOpenBleUpdateResponse decodeOpenBleUpdateResponse obles_ok
proof
  fix r assume "obles_ok r"
  then show "bindE (encodeOpenBleUpdateResponse r) decodeOpenBleUpdateResponse = Inr r"
    unfolding encodeOpenBleUpdateResponse_def decodeOpenBleUpdateResponse_def obles_ok_def
    by (intro codec_roundtrip) (rule list.rel_intros writes_intros | simp)+
qed

record WriteBleUpdateRequest =
  wble_sessionId :: int
  wble_offset :: int
  wble_bytes :: bytes

definition encodeWriteBleUpdateRequest :: "WriteBleUpdateRequest \<Rightarrow> codec_error + bytes" where
  "encodeWriteBleUpdateRequest r = encodeFields
      [u32Field 0 (wble_sessionId r), u32Field 1 (wble_offset r), bytesField 2 (wble_bytes r)]"

definition decodeWriteBleUpdateRequest :: "bytes \<Rightarrow> codec_error + WriteBleUpdateRequest" where
  "decodeWriteBleUpdateRequest bs =
     bindE (decodeMap bs ''WriteBleUpdateRequest'') (\<lambda>m.
     bindE (requireU32 m 0 ''WriteBleUpdateRequest'') (\<lambda>sessionId.
     bindE (requireU32 m 1 ''WriteBleUpdateRequest'') (\<lambda>offset.
     bindE (requireBytes m 2 ''WriteBleUpdateRequest'') (\<lambda>data.
       Inr \<lparr>wble_sessionId = sessionId, wble_offset = offset, wble_bytes = data\<rparr>))))"

definition wble_ok :: "WriteBleUpdateRequest \<Rightarrow> bool" where
  "wble_ok r \<longleftrightarrow> u32_ok (wble_sessionId r) \<and> u32_ok (wble_offset r) \<and> bytes_ok (wble_bytes r)"

interpretation wble: value_codec encodeWriteBleUpdateRequest decodeWriteBleUpdateRequest wble_ok
proof
  fix r assume "wble_ok r"
  then show "bindE (encodeWriteBleUpdateRequest r) decodeWriteBleUpdateRequest = Inr r"
    unfolding encodeWriteBleUpdateRequest_def decodeWriteBleUpdateRequest_def wble_ok_def
    by (intro codec_roundtrip) (rule list.rel_intros writes_intros | simp)+
qed

type_synonym BleUpdateSessionRequest = int

definition encodeBleUpdateSessionRequest :: "BleUpdateSessionRequest \<Rightarrow> codec_error + bytes" where
  "encodeBleUpdateSessionRequest r = encodeFields
      [u32Field 0 r]"

definition decodeBleUpdateSessionRequest :: "bytes \<Rightarrow> codec_error + BleUpdateSessionRequest" where
  "decodeBleUpdateSessionRequest bs =
     bindE (decodeMap bs ''BleUpdateSessionRequest'') (\<lambda>m.
     bindE (requireU32 m 0 ''BleUpdateSessionRequest'') (\<lambda>sessionId'.
       Inr sessionId'))"

definition bles_ok :: "BleUpdateSessionRequest \<Rightarrow> bool" where
  "bles_ok r \<longleftrightarrow> u32_ok r"

interpretation bles: value_codec encodeBleUpdateSessionRequest decodeBleUpdateSessionRequest bles_ok
proof
  fix r assume "bles_ok r"
  then show "bindE (encodeBleUpdateSessionRequest r) decodeBleUpdateSessionRequest = Inr r"
    unfolding encodeBleUpdateSessionRequest_def decodeBleUpdateSessionRequest_def bles_ok_def
    by (intro codec_roundtrip) (rule list.rel_intros writes_intros | simp)+
qed

section \<open>\<open>update.ts\<close>\<close>

record GetUpdateStatusResponse =
  upd_state :: int
  upd_transport :: int
  upd_timeoutRemainingMs :: int
  upd_activeSlot :: int
  upd_imageConfirmed :: bool

definition encodeGetUpdateStatusResponse :: "GetUpdateStatusResponse \<Rightarrow> codec_error + bytes" where
  "encodeGetUpdateStatusResponse r = encodeFields
      [u32Field 0 (upd_state r), u32Field 1 (upd_transport r),
       u32Field 2 (upd_timeoutRemainingMs r), u32Field 3 (upd_activeSlot r),
       boolField 4 (upd_imageConfirmed r)]"

definition decodeGetUpdateStatusResponse :: "bytes \<Rightarrow> codec_error + GetUpdateStatusResponse" where
  "decodeGetUpdateStatusResponse bs =
     bindE (decodeMap bs ''GetUpdateStatusResponse'') (\<lambda>m.
     bindE (requireU32 m 0 ''GetUpdateStatusResponse'') (\<lambda>state.
     bindE (requireU32 m 1 ''GetUpdateStatusResponse'') (\<lambda>transport.
     bindE (requireU32 m 2 ''GetUpdateStatusResponse'') (\<lambda>timeoutRemainingMs.
     bindE (requireU32 m 3 ''GetUpdateStatusResponse'') (\<lambda>activeSlot.
     bindE (requireBool m 4 ''GetUpdateStatusResponse'') (\<lambda>imageConfirmed.
       Inr \<lparr>upd_state = state, upd_transport = transport,
          upd_timeoutRemainingMs = timeoutRemainingMs, upd_activeSlot = activeSlot,
          upd_imageConfirmed = imageConfirmed\<rparr>))))))"

definition upd_ok :: "GetUpdateStatusResponse \<Rightarrow> bool" where
  "upd_ok r \<longleftrightarrow> u32_ok (upd_state r) \<and> u32_ok (upd_transport r) \<and>
     u32_ok (upd_timeoutRemainingMs r) \<and> u32_ok (upd_activeSlot r)"

interpretation upd: value_codec encodeGetUpdateStatusResponse decodeGetUpdateStatusResponse upd_ok
proof
  fix r assume "upd_ok r"
  then show "bindE (encodeGetUpdateStatusResponse r) decodeGetUpdateStatusResponse = Inr r"
    unfolding encodeGetUpdateStatusResponse_def decodeGetUpdateStatusResponse_def upd_ok_def
    by (intro codec_roundtrip) (rule list.rel_intros writes_intros | simp)+
qed

text \<open>\<open>{ timeoutMs? }\<close>; the decoder fills in one minute.\<close>

definition encodeOpenWifiUpdateRequest :: "int option \<Rightarrow> codec_error + bytes" where
  "encodeOpenWifiUpdateRequest timeoutMs = encodeFields (optField timeoutMs (u32Field 0))"

definition decodeOpenWifiUpdateRequest :: "bytes \<Rightarrow> codec_error + int" where
  "decodeOpenWifiUpdateRequest bs =
     bindE (decodeMap bs ''OpenWifiUpdateRequest'') (\<lambda>m.
       optionalU32 m 0 60000 ''OpenWifiUpdateRequest'')"

lemma OpenWifiUpdateRequest_roundtrip:
  assumes "\<forall>t. timeoutMs = Some t \<longrightarrow> u32_ok t"
  shows "bindE (encodeOpenWifiUpdateRequest timeoutMs) decodeOpenWifiUpdateRequest =
           Inr (case timeoutMs of None \<Rightarrow> 60000 | Some t \<Rightarrow> t)"
  unfolding encodeOpenWifiUpdateRequest_def decodeOpenWifiUpdateRequest_def
proof (rule codec_roundtrip)
  show "list_all2 writes (optField timeoutMs (u32Field 0)) (optField timeoutMs (\<lambda>v. (0, CUint v)))"
    using assms by (auto intro!: list_all2_optField writes_u32)
qed (use assms in \<open>cases timeoutMs; simp\<close>)+

section \<open>\<open>device-profile.ts\<close>, the list and the catalogue\<close>

definition encodeListDeviceProfilesRequest :: "PageRequest \<Rightarrow> codec_error + bytes" where
  "encodeListDeviceProfilesRequest r = encodeFields
      (optField (pg_cursor r) (u32Field 0) @ optField (pg_limit r) (u32Field 1))"

definition decodeListDeviceProfilesRequest :: "bytes \<Rightarrow> codec_error + PageRequest" where
  "decodeListDeviceProfilesRequest bs =
     bindE (decodeMap bs ''ListDeviceProfilesRequest'') (\<lambda>m.
     bindE (optionalU32 m 0 0 ''ListDeviceProfilesRequest'') (\<lambda>cursor.
     bindE (optionalU32 m 1 8 ''ListDeviceProfilesRequest'') (\<lambda>limit.
       Inr \<lparr>pg_cursor = Some cursor, pg_limit = Some limit\<rparr>)))"

lemma ListDeviceProfilesRequest_roundtrip:
  "page_ok r \<Longrightarrow> bindE (encodeListDeviceProfilesRequest r) decodeListDeviceProfilesRequest = Inr (with_defaults 0 8 r)"
  unfolding encodeListDeviceProfilesRequest_def decodeListDeviceProfilesRequest_def
  by (rule page_roundtrip)

record DeviceProfileSummary =
  dps_profileId :: jsstr
  dps_version :: int
  dps_hash :: bytes

definition encodeDeviceProfileSummary :: "DeviceProfileSummary \<Rightarrow> codec_error + bytes" where
  "encodeDeviceProfileSummary r = encodeFields
      [textField 0 (dps_profileId r), u32Field 1 (dps_version r), bytesField 2 (dps_hash r)]"

definition decodeDeviceProfileSummary :: "cbor \<Rightarrow> codec_error + DeviceProfileSummary" where
  "decodeDeviceProfileSummary entry =
     bindE (requireMap entry ''ListDeviceProfilesResponse.profiles[]'') (\<lambda>m.
     bindE (requireText m 0 ''DeviceProfileSummary'') (\<lambda>profileId.
     bindE (requireU32 m 1 ''DeviceProfileSummary'') (\<lambda>version.
     bindE (requireBytes m 2 ''DeviceProfileSummary'') (\<lambda>hash.
       Inr \<lparr>dps_profileId = profileId, dps_version = version, dps_hash = hash\<rparr>))))"

definition dps_val :: "DeviceProfileSummary \<Rightarrow> cbor" where
  "dps_val r = CMap
     [(0, CText (dps_profileId r)), (1, CUint (dps_version r)), (2, CBytes (dps_hash r))]"

definition dps_ok :: "DeviceProfileSummary \<Rightarrow> bool" where
  "dps_ok r \<longleftrightarrow> wtext_ok (dps_profileId r) \<and> u32_ok (dps_version r) \<and> bytes_ok (dps_hash r)"

interpretation dps: item_codec encodeDeviceProfileSummary decodeDeviceProfileSummary dps_val dps_ok
proof
  fix r assume "dps_ok r"
  then show "gives (encodeDeviceProfileSummary r) (dps_val r)"
    unfolding encodeDeviceProfileSummary_def dps_val_def dps_ok_def
    by (intro gives_fields) (rule list.rel_intros writes_intros | simp)+
next
  fix r assume "dps_ok r"
  then show "decodeDeviceProfileSummary (dps_val r) = Inr r"
    by (simp add: decodeDeviceProfileSummary_def dps_val_def dps_ok_def)
qed

record ListDeviceProfilesResponse =
  ldps_profiles :: "DeviceProfileSummary list"
  ldps_nextCursor :: int

definition encodeListDeviceProfilesResponse :: "ListDeviceProfilesResponse \<Rightarrow> codec_error + bytes" where
  "encodeListDeviceProfilesResponse r = encodeFields
      [arrayField 0 encodeDeviceProfileSummary (ldps_profiles r),
       u32Field 1 (ldps_nextCursor r)]"

definition decodeListDeviceProfilesResponse :: "bytes \<Rightarrow> codec_error + ListDeviceProfilesResponse" where
  "decodeListDeviceProfilesResponse bs =
     bindE (decodeMap bs ''ListDeviceProfilesResponse'') (\<lambda>m.
     bindE (requireArray m 0 ''ListDeviceProfilesResponse'') (\<lambda>vs.
     bindE (traverseE decodeDeviceProfileSummary vs) (\<lambda>profiles.
     bindE (requireU32 m 1 ''ListDeviceProfilesResponse'') (\<lambda>nextCursor.
       Inr \<lparr>ldps_profiles = profiles, ldps_nextCursor = nextCursor\<rparr>))))"

definition ldps_ok :: "ListDeviceProfilesResponse \<Rightarrow> bool" where
  "ldps_ok r \<longleftrightarrow> (\<forall>x\<in>set (ldps_profiles r). dps_ok x) \<and> u32_ok (ldps_nextCursor r)"

interpretation ldps: value_codec encodeListDeviceProfilesResponse decodeListDeviceProfilesResponse ldps_ok
proof
  fix r assume "ldps_ok r"
  then show "bindE (encodeListDeviceProfilesResponse r) decodeListDeviceProfilesResponse = Inr r"
    unfolding encodeListDeviceProfilesResponse_def decodeListDeviceProfilesResponse_def ldps_ok_def
    by (intro codec_roundtrip) (rule list.rel_intros writes_intros dps.writes_items | simp add: dps.decode_items)+
qed

type_synonym GetDeviceProfileRequest = int

definition encodeGetDeviceProfileRequest :: "GetDeviceProfileRequest \<Rightarrow> codec_error + bytes" where
  "encodeGetDeviceProfileRequest r = encodeFields
      [u32Field 0 r]"

definition decodeGetDeviceProfileRequest :: "bytes \<Rightarrow> codec_error + GetDeviceProfileRequest" where
  "decodeGetDeviceProfileRequest bs =
     bindE (decodeMap bs ''GetDeviceProfileRequest'') (\<lambda>m.
     bindE (requireU32 m 0 ''GetDeviceProfileRequest'') (\<lambda>index'.
       Inr index'))"

definition gdp_ok :: "GetDeviceProfileRequest \<Rightarrow> bool" where
  "gdp_ok r \<longleftrightarrow> u32_ok r"

interpretation gdp: value_codec encodeGetDeviceProfileRequest decodeGetDeviceProfileRequest gdp_ok
proof
  fix r assume "gdp_ok r"
  then show "bindE (encodeGetDeviceProfileRequest r) decodeGetDeviceProfileRequest = Inr r"
    unfolding encodeGetDeviceProfileRequest_def decodeGetDeviceProfileRequest_def gdp_ok_def
    by (intro codec_roundtrip) (rule list.rel_intros writes_intros | simp)+
qed

record GetDeviceProfileResponse =
  gdps_profileId :: jsstr
  gdps_version :: int
  gdps_hash :: bytes
  gdps_transport :: int
  gdps_requiredCapabilities :: int

definition encodeGetDeviceProfileResponse :: "GetDeviceProfileResponse \<Rightarrow> codec_error + bytes" where
  "encodeGetDeviceProfileResponse r = encodeFields
      [textField 0 (gdps_profileId r), u32Field 1 (gdps_version r), bytesField 2 (gdps_hash r),
       u32Field 3 (gdps_transport r), u32Field 4 (gdps_requiredCapabilities r)]"

definition decodeGetDeviceProfileResponse :: "bytes \<Rightarrow> codec_error + GetDeviceProfileResponse" where
  "decodeGetDeviceProfileResponse bs =
     bindE (decodeMap bs ''GetDeviceProfileResponse'') (\<lambda>m.
     bindE (requireText m 0 ''GetDeviceProfileResponse'') (\<lambda>profileId.
     bindE (requireU32 m 1 ''GetDeviceProfileResponse'') (\<lambda>version.
     bindE (requireBytes m 2 ''GetDeviceProfileResponse'') (\<lambda>hash.
     bindE (requireU32 m 3 ''GetDeviceProfileResponse'') (\<lambda>transport.
     bindE (requireU32 m 4 ''GetDeviceProfileResponse'') (\<lambda>requiredCapabilities.
       Inr \<lparr>gdps_profileId = profileId, gdps_version = version, gdps_hash = hash,
          gdps_transport = transport, gdps_requiredCapabilities = requiredCapabilities\<rparr>))))))"

definition gdps_ok :: "GetDeviceProfileResponse \<Rightarrow> bool" where
  "gdps_ok r \<longleftrightarrow> wtext_ok (gdps_profileId r) \<and> u32_ok (gdps_version r) \<and>
     bytes_ok (gdps_hash r) \<and> u32_ok (gdps_transport r) \<and>
     u32_ok (gdps_requiredCapabilities r)"

interpretation gdps: value_codec encodeGetDeviceProfileResponse decodeGetDeviceProfileResponse gdps_ok
proof
  fix r assume "gdps_ok r"
  then show "bindE (encodeGetDeviceProfileResponse r) decodeGetDeviceProfileResponse = Inr r"
    unfolding encodeGetDeviceProfileResponse_def decodeGetDeviceProfileResponse_def gdps_ok_def
    by (intro codec_roundtrip) (rule list.rel_intros writes_intros | simp)+
qed

record RemoveDeviceProfileRequest =
  rdp_idBytes :: bytes
  rdp_version :: int

definition encodeRemoveDeviceProfileRequest :: "RemoveDeviceProfileRequest \<Rightarrow> codec_error + bytes" where
  "encodeRemoveDeviceProfileRequest r = encodeFields
      [bytesField 0 (rdp_idBytes r), u32Field 1 (rdp_version r)]"

definition decodeRemoveDeviceProfileRequest :: "bytes \<Rightarrow> codec_error + RemoveDeviceProfileRequest" where
  "decodeRemoveDeviceProfileRequest bs =
     bindE (decodeMap bs ''RemoveDeviceProfileRequest'') (\<lambda>m.
     bindE (requireBytes m 0 ''RemoveDeviceProfileRequest'') (\<lambda>idBytes.
     bindE (requireU32 m 1 ''RemoveDeviceProfileRequest'') (\<lambda>version.
       Inr \<lparr>rdp_idBytes = idBytes, rdp_version = version\<rparr>)))"

definition rdp_ok :: "RemoveDeviceProfileRequest \<Rightarrow> bool" where
  "rdp_ok r \<longleftrightarrow> bytes_ok (rdp_idBytes r) \<and> u32_ok (rdp_version r)"

interpretation rdp: value_codec encodeRemoveDeviceProfileRequest decodeRemoveDeviceProfileRequest rdp_ok
proof
  fix r assume "rdp_ok r"
  then show "bindE (encodeRemoveDeviceProfileRequest r) decodeRemoveDeviceProfileRequest = Inr r"
    unfolding encodeRemoveDeviceProfileRequest_def decodeRemoveDeviceProfileRequest_def rdp_ok_def
    by (intro codec_roundtrip) (rule list.rel_intros writes_intros | simp)+
qed

section \<open>\<open>resources.ts\<close>\<close>

record ResourcePool =
  pool_capacity :: int
  pool_used :: int
  pool_peak :: int

definition encodePool :: "ResourcePool \<Rightarrow> codec_error + bytes" where
  "encodePool p = encodeFields
      [u32Field 0 (pool_capacity p), u32Field 1 (pool_used p), u32Field 2 (pool_peak p)]"

definition decodePool :: "field_map \<Rightarrow> int \<Rightarrow> string \<Rightarrow> codec_error + ResourcePool" where
  "decodePool m key ctx =
     bindE (requireMapField m key ctx) (\<lambda>inner.
     bindE (requireU32 inner 0 (ctx @ ''.pool'')) (\<lambda>capacity.
     bindE (requireU32 inner 1 (ctx @ ''.pool'')) (\<lambda>used.
     bindE (requireU32 inner 2 (ctx @ ''.pool'')) (\<lambda>peak.
       Inr \<lparr>pool_capacity = capacity, pool_used = used, pool_peak = peak\<rparr>))))"

definition pool_val :: "ResourcePool \<Rightarrow> cbor" where
  "pool_val p = CMap [(0, CUint (pool_capacity p)), (1, CUint (pool_used p)), (2, CUint (pool_peak p))]"

definition pool_ok :: "ResourcePool \<Rightarrow> bool" where
  "pool_ok p \<longleftrightarrow> u32_ok (pool_capacity p) \<and> u32_ok (pool_used p) \<and> u32_ok (pool_peak p)"

lemma pool_writes: "pool_ok p \<Longrightarrow> u32_ok k \<Longrightarrow> writes (rawField k (encodePool p)) (k, pool_val p)"
  unfolding encodePool_def pool_val_def pool_ok_def
  by (intro writes_given gives_fields) (assumption | rule list.rel_intros writes_intros | simp)+

lemma pool_decodes: "map_of m k = Some (pool_val p) \<Longrightarrow> pool_ok p \<Longrightarrow> decodePool m k c = Inr p"
  by (simp add: decodePool_def pool_val_def pool_ok_def)

record GetResourcesResponse =
  res_featureSetHash :: bytes
  res_modules :: ResourcePool
  res_rules :: ResourcePool
  res_blocks :: ResourcePool
  res_profiles :: ResourcePool
  res_records :: ResourcePool
  res_workspace :: ResourcePool
  res_allocationFailures :: int
  res_flashSlotBytes :: int
  res_flashImageBudgetBytes :: int
  res_flashHeadroomBytes :: int
  res_staticRamBudgetBytes :: int

definition encodeGetResourcesResponse :: "GetResourcesResponse \<Rightarrow> codec_error + bytes" where
  "encodeGetResourcesResponse r = encodeFields
      [bytesField 0 (res_featureSetHash r), rawField 1 (encodePool (res_modules r)),
       rawField 2 (encodePool (res_rules r)), rawField 3 (encodePool (res_blocks r)),
       rawField 4 (encodePool (res_profiles r)), rawField 5 (encodePool (res_records r)),
       rawField 6 (encodePool (res_workspace r)), u32Field 7 (res_allocationFailures r),
       u32Field 8 (res_flashSlotBytes r), u32Field 9 (res_flashImageBudgetBytes r),
       u32Field 10 (res_flashHeadroomBytes r), u32Field 11 (res_staticRamBudgetBytes r)]"

definition decodeGetResourcesResponse :: "bytes \<Rightarrow> codec_error + GetResourcesResponse" where
  "decodeGetResourcesResponse bs =
     bindE (decodeMap bs ''GetResourcesResponse'') (\<lambda>m.
     bindE (requireBytes m 0 ''GetResourcesResponse'') (\<lambda>featureSetHash.
     bindE (decodePool m 1 ''GetResourcesResponse.modules'') (\<lambda>modules.
     bindE (decodePool m 2 ''GetResourcesResponse.rules'') (\<lambda>rules.
     bindE (decodePool m 3 ''GetResourcesResponse.blocks'') (\<lambda>blocks.
     bindE (decodePool m 4 ''GetResourcesResponse.profiles'') (\<lambda>profiles.
     bindE (decodePool m 5 ''GetResourcesResponse.records'') (\<lambda>records.
     bindE (decodePool m 6 ''GetResourcesResponse.workspace'') (\<lambda>workspace.
     bindE (requireU32 m 7 ''GetResourcesResponse'') (\<lambda>allocationFailures.
     bindE (requireU32 m 8 ''GetResourcesResponse'') (\<lambda>flashSlotBytes.
     bindE (requireU32 m 9 ''GetResourcesResponse'') (\<lambda>flashImageBudgetBytes.
     bindE (requireU32 m 10 ''GetResourcesResponse'') (\<lambda>flashHeadroomBytes.
     bindE (requireU32 m 11 ''GetResourcesResponse'') (\<lambda>staticRamBudgetBytes.
       Inr \<lparr>res_featureSetHash = featureSetHash, res_modules = modules,
          res_rules = rules, res_blocks = blocks, res_profiles = profiles,
          res_records = records, res_workspace = workspace,
          res_allocationFailures = allocationFailures, res_flashSlotBytes = flashSlotBytes,
          res_flashImageBudgetBytes = flashImageBudgetBytes,
          res_flashHeadroomBytes = flashHeadroomBytes,
          res_staticRamBudgetBytes = staticRamBudgetBytes\<rparr>)))))))))))))"

definition res_ok :: "GetResourcesResponse \<Rightarrow> bool" where
  "res_ok r \<longleftrightarrow> bytes_ok (res_featureSetHash r) \<and> pool_ok (res_modules r) \<and>
     pool_ok (res_rules r) \<and> pool_ok (res_blocks r) \<and> pool_ok (res_profiles r) \<and>
     pool_ok (res_records r) \<and> pool_ok (res_workspace r) \<and>
     u32_ok (res_allocationFailures r) \<and> u32_ok (res_flashSlotBytes r) \<and>
     u32_ok (res_flashImageBudgetBytes r) \<and> u32_ok (res_flashHeadroomBytes r) \<and>
     u32_ok (res_staticRamBudgetBytes r)"

interpretation res: value_codec encodeGetResourcesResponse decodeGetResourcesResponse res_ok
proof
  fix r assume "res_ok r"
  then show "bindE (encodeGetResourcesResponse r) decodeGetResourcesResponse = Inr r"
    unfolding encodeGetResourcesResponse_def decodeGetResourcesResponse_def res_ok_def
    by (intro codec_roundtrip) (rule list.rel_intros writes_intros pool_writes | simp add: pool_decodes)+
qed

section \<open>\<open>topology.ts\<close>\<close>

definition encodeGetTopologyRequest :: "PageRequest \<Rightarrow> codec_error + bytes" where
  "encodeGetTopologyRequest r = encodeFields
      (optField (pg_cursor r) (u32Field 0) @ optField (pg_limit r) (u32Field 1))"

definition decodeGetTopologyRequest :: "bytes \<Rightarrow> codec_error + PageRequest" where
  "decodeGetTopologyRequest bs =
     bindE (decodeMap bs ''GetTopologyRequest'') (\<lambda>m.
     bindE (optionalU32 m 0 0 ''GetTopologyRequest'') (\<lambda>cursor.
     bindE (optionalU32 m 1 2 ''GetTopologyRequest'') (\<lambda>limit.
       Inr \<lparr>pg_cursor = Some cursor, pg_limit = Some limit\<rparr>)))"

lemma GetTopologyRequest_roundtrip:
  "page_ok r \<Longrightarrow> bindE (encodeGetTopologyRequest r) decodeGetTopologyRequest = Inr (with_defaults 0 2 r)"
  unfolding encodeGetTopologyRequest_def decodeGetTopologyRequest_def
  by (rule page_roundtrip)

record TopologyRail =
  rail_id :: int
  rail_assurance :: int
  rail_maxTotalMicroamps :: int

definition encodeRail :: "TopologyRail \<Rightarrow> codec_error + bytes" where
  "encodeRail r = encodeFields
      [u32Field 0 (rail_id r), u32Field 1 (rail_assurance r),
       u32Field 2 (rail_maxTotalMicroamps r)]"

definition decodeRail :: "cbor \<Rightarrow> codec_error + TopologyRail" where
  "decodeRail entry =
     bindE (requireMap entry ''TopologyRail'') (\<lambda>m.
     bindE (requireU32 m 0 ''TopologyRail'') (\<lambda>id.
     bindE (requireU32 m 1 ''TopologyRail'') (\<lambda>assurance.
     bindE (requireU32 m 2 ''TopologyRail'') (\<lambda>maxTotalMicroamps.
       Inr \<lparr>rail_id = id, rail_assurance = assurance,
          rail_maxTotalMicroamps = maxTotalMicroamps\<rparr>))))"

definition rail_val :: "TopologyRail \<Rightarrow> cbor" where
  "rail_val r = CMap
     [(0, CUint (rail_id r)), (1, CUint (rail_assurance r)),
      (2, CUint (rail_maxTotalMicroamps r))]"

definition rail_ok :: "TopologyRail \<Rightarrow> bool" where
  "rail_ok r \<longleftrightarrow> u32_ok (rail_id r) \<and> u32_ok (rail_assurance r) \<and>
     u32_ok (rail_maxTotalMicroamps r)"

interpretation rail: item_codec encodeRail decodeRail rail_val rail_ok
proof
  fix r assume "rail_ok r"
  then show "gives (encodeRail r) (rail_val r)"
    unfolding encodeRail_def rail_val_def rail_ok_def
    by (intro gives_fields) (rule list.rel_intros writes_intros | simp)+
next
  fix r assume "rail_ok r"
  then show "decodeRail (rail_val r) = Inr r"
    by (simp add: decodeRail_def rail_val_def rail_ok_def)
qed

record TopologyBay =
  bay_id :: int
  bay_ordinal :: int
  bay_railMask :: int
  bay_moduleKey :: int
  bay_admission :: int
  bay_rails :: "TopologyRail list"

definition encodeBay :: "TopologyBay \<Rightarrow> codec_error + bytes" where
  "encodeBay r = encodeFields
      [u32Field 0 (bay_id r), u32Field 1 (bay_ordinal r), u32Field 2 (bay_railMask r),
       u32Field 3 (bay_moduleKey r), u32Field 4 (bay_admission r),
       arrayField 5 encodeRail (bay_rails r)]"

definition decodeBay :: "cbor \<Rightarrow> codec_error + TopologyBay" where
  "decodeBay entry =
     bindE (requireMap entry ''TopologyBay'') (\<lambda>m.
     bindE (requireU32 m 0 ''TopologyBay'') (\<lambda>id.
     bindE (requireU32 m 1 ''TopologyBay'') (\<lambda>ordinal.
     bindE (requireU32 m 2 ''TopologyBay'') (\<lambda>railMask.
     bindE (requireU32 m 3 ''TopologyBay'') (\<lambda>moduleKey.
     bindE (requireU32 m 4 ''TopologyBay'') (\<lambda>admission.
     bindE (requireArray m 5 ''TopologyBay'') (\<lambda>vs.
     bindE (traverseE decodeRail vs) (\<lambda>rails.
       Inr \<lparr>bay_id = id, bay_ordinal = ordinal, bay_railMask = railMask,
          bay_moduleKey = moduleKey, bay_admission = admission, bay_rails = rails\<rparr>))))))))"

definition bay_val :: "TopologyBay \<Rightarrow> cbor" where
  "bay_val r = CMap
     [(0, CUint (bay_id r)), (1, CUint (bay_ordinal r)), (2, CUint (bay_railMask r)),
      (3, CUint (bay_moduleKey r)), (4, CUint (bay_admission r)),
      (5, CArray (map rail_val (bay_rails r)))]"

definition bay_ok :: "TopologyBay \<Rightarrow> bool" where
  "bay_ok r \<longleftrightarrow> u32_ok (bay_id r) \<and> u32_ok (bay_ordinal r) \<and> u32_ok (bay_railMask r) \<and>
     u32_ok (bay_moduleKey r) \<and> u32_ok (bay_admission r) \<and>
     (\<forall>x\<in>set (bay_rails r). rail_ok x)"

interpretation bay: item_codec encodeBay decodeBay bay_val bay_ok
proof
  fix r assume "bay_ok r"
  then show "gives (encodeBay r) (bay_val r)"
    unfolding encodeBay_def bay_val_def bay_ok_def
    by (intro gives_fields) (rule list.rel_intros writes_intros rail.writes_items | simp)+
next
  fix r assume "bay_ok r"
  then show "decodeBay (bay_val r) = Inr r"
    by (simp add: decodeBay_def bay_val_def bay_ok_def rail.decode_items)
qed

record TopologyFlow =
  flow_id :: int
  flow_portId :: int
  flow_direction :: int
  flow_signalCount :: int
  flow_bays :: "TopologyBay list"
  flow_capabilities :: "int option"

definition encodeFlow :: "TopologyFlow \<Rightarrow> codec_error + bytes" where
  "encodeFlow f = encodeFields
      ([u32Field 0 (flow_id f), u32Field 1 (flow_portId f), u32Field 2 (flow_direction f),
        u32Field 3 (flow_signalCount f), arrayField 4 encodeBay (flow_bays f)]
       @ optField (flow_capabilities f) (u32Field 5))"

definition decodeFlow :: "cbor \<Rightarrow> codec_error + TopologyFlow" where
  "decodeFlow entry =
     bindE (requireMap entry ''TopologyFlow'') (\<lambda>m.
     bindE (requireU32 m 0 ''TopologyFlow'') (\<lambda>id.
     bindE (requireU32 m 1 ''TopologyFlow'') (\<lambda>portId.
     bindE (requireU32 m 2 ''TopologyFlow'') (\<lambda>direction.
     bindE (requireU32 m 3 ''TopologyFlow'') (\<lambda>signalCount.
     bindE (requireArray m 4 ''TopologyFlow'') (\<lambda>vs.
     bindE (traverseE decodeBay vs) (\<lambda>bays.
     bindE (optE (jm_has m 5) (requireU32 m 5 ''TopologyFlow'')) (\<lambda>capabilities.
       Inr \<lparr>flow_id = id, flow_portId = portId, flow_direction = direction,
            flow_signalCount = signalCount, flow_bays = bays, flow_capabilities = capabilities\<rparr>))))))))"

definition flow_val :: "TopologyFlow \<Rightarrow> cbor" where
  "flow_val f = CMap
     ([(0, CUint (flow_id f)), (1, CUint (flow_portId f)), (2, CUint (flow_direction f)),
       (3, CUint (flow_signalCount f)), (4, CArray (map bay_val (flow_bays f)))]
      @ optField (flow_capabilities f) (\<lambda>c. (5, CUint c)))"

definition flow_ok :: "TopologyFlow \<Rightarrow> bool" where
  "flow_ok f \<longleftrightarrow> u32_ok (flow_id f) \<and> u32_ok (flow_portId f) \<and> u32_ok (flow_direction f) \<and>
     u32_ok (flow_signalCount f) \<and> (\<forall>x\<in>set (flow_bays f). bay_ok x) \<and>
     (\<forall>c. flow_capabilities f = Some c \<longrightarrow> u32_ok c)"

interpretation flow: item_codec encodeFlow decodeFlow flow_val flow_ok
proof
  fix f assume "flow_ok f"
  then show "gives (encodeFlow f) (flow_val f)"
    unfolding encodeFlow_def flow_val_def flow_ok_def
    by (cases "flow_capabilities f"; simp, intro gives_fields)
       (rule list.rel_intros writes_intros bay.writes_items | simp)+
next
  fix f assume "flow_ok f"
  then show "decodeFlow (flow_val f) = Inr f"
    by (cases "flow_capabilities f") (simp_all add: decodeFlow_def flow_val_def flow_ok_def bay.decode_items jm_has_def)
qed

record GetTopologyResponse =
  topo_flows :: "TopologyFlow list"
  topo_nextCursor :: int

definition encodeGetTopologyResponse :: "GetTopologyResponse \<Rightarrow> codec_error + bytes" where
  "encodeGetTopologyResponse r = encodeFields
      [arrayField 0 encodeFlow (topo_flows r), u32Field 1 (topo_nextCursor r)]"

definition decodeGetTopologyResponse :: "bytes \<Rightarrow> codec_error + GetTopologyResponse" where
  "decodeGetTopologyResponse bs =
     bindE (decodeMap bs ''GetTopologyResponse'') (\<lambda>m.
     bindE (requireArray m 0 ''GetTopologyResponse'') (\<lambda>vs.
     bindE (traverseE decodeFlow vs) (\<lambda>flows.
     bindE (requireU32 m 1 ''GetTopologyResponse'') (\<lambda>nextCursor.
       Inr \<lparr>topo_flows = flows, topo_nextCursor = nextCursor\<rparr>))))"

definition topo_ok :: "GetTopologyResponse \<Rightarrow> bool" where
  "topo_ok r \<longleftrightarrow> (\<forall>x\<in>set (topo_flows r). flow_ok x) \<and> u32_ok (topo_nextCursor r)"

interpretation topo: value_codec encodeGetTopologyResponse decodeGetTopologyResponse topo_ok
proof
  fix r assume "topo_ok r"
  then show "bindE (encodeGetTopologyResponse r) decodeGetTopologyResponse = Inr r"
    unfolding encodeGetTopologyResponse_def decodeGetTopologyResponse_def topo_ok_def
    by (intro codec_roundtrip) (rule list.rel_intros writes_intros flow.writes_items | simp add: flow.decode_items)+
qed

section \<open>Operations with an empty payload\<close>

text \<open>
  Their encoders are \<open>encodeEmptyPayload\<close> itself; each decoder names the operation in its errors.
\<close>

definition decodeGetStatusRequest :: "bytes \<Rightarrow> codec_error + unit" where
  "decodeGetStatusRequest bs = decodeEmptyPayload bs ''GetStatusRequest''"

definition decodeGetCapabilitiesRequest :: "bytes \<Rightarrow> codec_error + unit" where
  "decodeGetCapabilitiesRequest bs = decodeEmptyPayload bs ''GetCapabilitiesRequest''"

definition decodeGetConnectivityStatusRequest :: "bytes \<Rightarrow> codec_error + unit" where
  "decodeGetConnectivityStatusRequest bs = decodeEmptyPayload bs ''GetConnectivityStatusRequest''"

definition decodeOpenNetworkMaintenanceRequest :: "bytes \<Rightarrow> codec_error + unit" where
  "decodeOpenNetworkMaintenanceRequest bs = decodeEmptyPayload bs ''OpenNetworkMaintenanceRequest''"

definition decodeReleaseConnectivityLeaseRequest :: "bytes \<Rightarrow> codec_error + unit" where
  "decodeReleaseConnectivityLeaseRequest bs = decodeEmptyPayload bs ''ReleaseConnectivityLeaseRequest''"

definition decodeConnectivityLeaseResponse :: "bytes \<Rightarrow> codec_error + unit" where
  "decodeConnectivityLeaseResponse bs = decodeEmptyPayload bs ''ConnectivityLeaseResponse''"

definition decodeFactoryResetResponse :: "bytes \<Rightarrow> codec_error + unit" where
  "decodeFactoryResetResponse bs = decodeEmptyPayload bs ''FactoryResetResponse''"

definition decodeGetResourcesRequest :: "bytes \<Rightarrow> codec_error + unit" where
  "decodeGetResourcesRequest bs = decodeEmptyPayload bs ''GetResourcesRequest''"

definition decodeGetFeaturesRequest :: "bytes \<Rightarrow> codec_error + unit" where
  "decodeGetFeaturesRequest bs = decodeEmptyPayload bs ''GetFeaturesRequest''"

definition decodeGetUpdateStatusRequest :: "bytes \<Rightarrow> codec_error + unit" where
  "decodeGetUpdateStatusRequest bs = decodeEmptyPayload bs ''GetUpdateStatusRequest''"

definition decodeBleUpdateEmptyResponse :: "bytes \<Rightarrow> codec_error + unit" where
  "decodeBleUpdateEmptyResponse bs = decodeEmptyPayload bs ''BleUpdateEmptyResponse''"

definition decodeInstallDeviceProfileResponse :: "bytes \<Rightarrow> codec_error + unit" where
  "decodeInstallDeviceProfileResponse bs = decodeEmptyPayload bs ''InstallDeviceProfileResponse''"

definition decodeRemoveDeviceProfileResponse :: "bytes \<Rightarrow> codec_error + unit" where
  "decodeRemoveDeviceProfileResponse bs = decodeEmptyPayload bs ''RemoveDeviceProfileResponse''"

lemmas empty_decoders = decodeGetStatusRequest_def decodeGetCapabilitiesRequest_def
  decodeGetConnectivityStatusRequest_def decodeOpenNetworkMaintenanceRequest_def
  decodeReleaseConnectivityLeaseRequest_def decodeConnectivityLeaseResponse_def
  decodeFactoryResetResponse_def decodeGetResourcesRequest_def decodeGetFeaturesRequest_def
  decodeGetUpdateStatusRequest_def decodeBleUpdateEmptyResponse_def
  decodeInstallDeviceProfileResponse_def decodeRemoveDeviceProfileResponse_def

end
