(* ===== verification/StatusOperation.thy ===== *)
theory StatusOperation
  imports Operations
begin

text \<open>
  \<open>protocol-sdk/src/operations/status.ts\<close>: the \<open>GET_STATUS\<close> response, whose optional fields are
  present only on newer images. The decoder takes an optional field when it is there with the
  expected kind; the facts about \<open>optField\<close> here say what a map with optional entries holds.
\<close>

section \<open>Optional entries\<close>

fun kind_bytes :: "cbor option \<Rightarrow> bool" where
  "kind_bytes (Some (CBytes _)) = True" | "kind_bytes _ = False"

fun kind_text :: "cbor option \<Rightarrow> bool" where
  "kind_text (Some (CText _)) = True" | "kind_text _ = False"

fun kind_array :: "cbor option \<Rightarrow> bool" where
  "kind_array (Some (CArray _)) = True" | "kind_array _ = False"

fun kind_uint :: "cbor option \<Rightarrow> bool" where
  "kind_uint (Some (CUint _)) = True" | "kind_uint _ = False"

lemma map_of_optField:
  "map_of (optField x (\<lambda>v. (k, f v))) k' = (if k' = k then map_option f x else None)"
  by (cases x) auto

lemma keys_optField: "map fst (optField x (\<lambda>v. (k, f v))) = optField x (\<lambda>_. k)"
  by (cases x) auto

lemma set_optField: "set (optField x (\<lambda>_. k)) = (if x = None then {} else {k})"
  by (cases x) auto

lemma distinct_optField: "distinct (optField x f)"
  by (cases x) auto

lemmas opt_entries = map_add_def map_of_optField
lemmas opt_distinct = keys_optField set_optField distinct_optField

lemma opt_bytes:
  "map_of m k = map_option CBytes x \<Longrightarrow> optE (kind_bytes (map_of m k)) (requireBytes m k c) = Inr x"
  by (cases x) auto

lemma opt_text:
  "map_of m k = map_option CText x \<Longrightarrow> optE (kind_text (map_of m k)) (requireText m k c) = Inr x"
  by (cases x) auto

lemma opt_uint:
  "map_of m k = map_option CUint x \<Longrightarrow> (\<And>v. x = Some v \<Longrightarrow> u32_ok v) \<Longrightarrow>
   optE (kind_uint (map_of m k)) (requireU32 m k c) = Inr x"
  by (cases x) auto

lemma opt_has_bytes:
  "map_of m k = map_option CBytes x \<Longrightarrow> optE (jm_has m k) (requireBytes m k c) = Inr x"
  by (cases x) (auto simp: jm_has_def)

lemma writes_opt:
  "(\<And>v. x = Some v \<Longrightarrow> writes (f v) (k, g v)) \<Longrightarrow>
   list_all2 writes (optField x f) (optField x (\<lambda>v. (k, g v)))"
  by (rule list_all2_optField)

context item_codec begin

lemma opt_items:
  "map_of m k = map_option (\<lambda>xs. CArray (map val xs)) x \<Longrightarrow>
   (\<And>xs. x = Some xs \<Longrightarrow> \<forall>y\<in>set xs. ok y) \<Longrightarrow>
   optE (kind_array (map_of m k)) (bindE (requireArray m k c) (traverseE dec)) = Inr x"
  by (cases x) (auto simp: decode_items)

end

section \<open>Modules, chain peers and tags\<close>

record ModuleStatus =
  ms_key :: int
  ms_id :: int
  ms_portId :: int
  ms_state :: int
  ms_endpointKind :: int
  ms_endpointValueRaw :: int
  ms_typeId :: jsstr

definition encodeModuleStatus :: "ModuleStatus \<Rightarrow> codec_error + bytes" where
  "encodeModuleStatus r = encodeFields
      [u32Field 0 (ms_key r), u32Field 1 (ms_id r), u32Field 2 (ms_portId r),
       u32Field 3 (ms_state r), u32Field 4 (ms_endpointKind r),
       u32Field 5 (ms_endpointValueRaw r), textField 6 (ms_typeId r)]"

definition decodeModuleStatus :: "cbor \<Rightarrow> codec_error + ModuleStatus" where
  "decodeModuleStatus entry =
     bindE (requireMap entry ''GetStatusResponse.modules[]'') (\<lambda>m.
     bindE (requireU32 m 0 ''ModuleStatus'') (\<lambda>key.
     bindE (requireU32 m 1 ''ModuleStatus'') (\<lambda>id.
     bindE (requireU32 m 2 ''ModuleStatus'') (\<lambda>portId.
     bindE (requireU32 m 3 ''ModuleStatus'') (\<lambda>state.
     bindE (requireU32 m 4 ''ModuleStatus'') (\<lambda>endpointKind.
     bindE (requireU32 m 5 ''ModuleStatus'') (\<lambda>endpointValueRaw.
     bindE (requireText m 6 ''ModuleStatus'') (\<lambda>typeId.
       Inr \<lparr>ms_key = key, ms_id = id, ms_portId = portId, ms_state = state,
          ms_endpointKind = endpointKind, ms_endpointValueRaw = endpointValueRaw,
          ms_typeId = typeId\<rparr>))))))))"

definition ms_val :: "ModuleStatus \<Rightarrow> cbor" where
  "ms_val r = CMap
     [(0, CUint (ms_key r)), (1, CUint (ms_id r)), (2, CUint (ms_portId r)),
      (3, CUint (ms_state r)), (4, CUint (ms_endpointKind r)),
      (5, CUint (ms_endpointValueRaw r)), (6, CText (ms_typeId r))]"

definition ms_ok :: "ModuleStatus \<Rightarrow> bool" where
  "ms_ok r \<longleftrightarrow> u32_ok (ms_key r) \<and> u32_ok (ms_id r) \<and> u32_ok (ms_portId r) \<and>
     u32_ok (ms_state r) \<and> u32_ok (ms_endpointKind r) \<and>
     u32_ok (ms_endpointValueRaw r) \<and> wtext_ok (ms_typeId r)"

interpretation ms: item_codec encodeModuleStatus decodeModuleStatus ms_val ms_ok
proof
  fix r assume "ms_ok r"
  then show "gives (encodeModuleStatus r) (ms_val r)"
    unfolding encodeModuleStatus_def ms_val_def ms_ok_def
    by (intro gives_fields) (rule list.rel_intros writes_intros | simp)+
next
  fix r assume "ms_ok r"
  then show "decodeModuleStatus (ms_val r) = Inr r"
    by (simp add: decodeModuleStatus_def ms_val_def ms_ok_def)
qed

record ChainPeerStatus =
  peer_physical :: "bytes option"
  peer_nodeId :: int
  peer_mac :: bytes
  peer_flags :: int
  peer_local :: bool
  peer_version :: "jsstr option"

definition encodeChainPeer :: "ChainPeerStatus \<Rightarrow> codec_error + bytes" where
  "encodeChainPeer p = encodeFields
      ([u32Field 0 (peer_nodeId p), bytesField 1 (peer_mac p), u32Field 2 (peer_flags p),
        boolField 3 (peer_local p)]
       @ optField (peer_version p) (textField 4) @ optField (peer_physical p) (bytesField 5))"

definition decodeChainPeer :: "cbor \<Rightarrow> codec_error + ChainPeerStatus" where
  "decodeChainPeer entry =
     bindE (requireMap entry ''GetStatusResponse.chainPeers[]'') (\<lambda>m.
     bindE (requireU32 m 0 ''ChainPeerStatus'') (\<lambda>nodeId.
     bindE (requireBytes m 1 ''ChainPeerStatus'') (\<lambda>mac.
     bindE (requireU32 m 2 ''ChainPeerStatus'') (\<lambda>flags.
     bindE (requireBool m 3 ''ChainPeerStatus'') (\<lambda>local.
     bindE (optE (kind_text (map_of m 4)) (requireText m 4 ''ChainPeerStatus'')) (\<lambda>version.
     bindE (optE (jm_has m 5) (requireBytes m 5 ''ChainPeerStatus'')) (\<lambda>physical.
       Inr \<lparr>peer_physical = physical, peer_nodeId = nodeId, peer_mac = mac, peer_flags = flags,
            peer_local = local, peer_version = version\<rparr>)))))))"

definition peer_entries :: "ChainPeerStatus \<Rightarrow> field_map" where
  "peer_entries p =
     [(0, CUint (peer_nodeId p)), (1, CBytes (peer_mac p)), (2, CUint (peer_flags p)),
      (3, CBool (peer_local p))]
     @ optField (peer_version p) (\<lambda>v. (4, CText v)) @ optField (peer_physical p) (\<lambda>v. (5, CBytes v))"

definition peer_ok :: "ChainPeerStatus \<Rightarrow> bool" where
  "peer_ok p \<longleftrightarrow> u32_ok (peer_nodeId p) \<and> bytes_ok (peer_mac p) \<and> u32_ok (peer_flags p) \<and>
     (\<forall>v. peer_version p = Some v \<longrightarrow> wtext_ok v) \<and> (\<forall>v. peer_physical p = Some v \<longrightarrow> bytes_ok v)"

interpretation peer: item_codec encodeChainPeer decodeChainPeer "\<lambda>p. CMap (peer_entries p)" peer_ok
proof
  fix p assume "peer_ok p"
  then show "gives (encodeChainPeer p) (CMap (peer_entries p))"
    unfolding encodeChainPeer_def peer_entries_def peer_ok_def
    by (intro gives_fields list_all2_appendI writes_opt)
       (rule list.rel_intros writes_intros | simp add: opt_distinct)+
next
  fix p assume ok: "peer_ok p"
  let ?m = "peer_entries p"
  have "map_of ?m 4 = map_option CText (peer_version p)" "map_of ?m 5 = map_option CBytes (peer_physical p)"
    "map_of ?m 0 = Some (CUint (peer_nodeId p))" "map_of ?m 1 = Some (CBytes (peer_mac p))"
    "map_of ?m 2 = Some (CUint (peer_flags p))" "map_of ?m 3 = Some (CBool (peer_local p))"
    by (simp_all add: peer_entries_def opt_entries split: option.splits)
  note m = this
  show "decodeChainPeer (CMap ?m) = Inr p"
    using ok m(3-6) by (simp add: peer_ok_def decodeChainPeer_def opt_text [OF m(1)] opt_has_bytes [OF m(2)])
qed

record NfcTagStatus =
  tag_portId :: int
  tag_typeId :: jsstr
  tag_uid :: bytes
  tag_nodeId :: int
  tag_local :: bool
  tag_moduleTypeId :: "int option"
  tag_vendorId :: "int option"
  tag_fallbackClass :: "int option"
  tag_registryId :: "int option"

definition encodeNfcTag :: "NfcTagStatus \<Rightarrow> codec_error + bytes" where
  "encodeNfcTag t = encodeFields
      ([u32Field 0 (tag_portId t), textField 1 (tag_typeId t), bytesField 2 (tag_uid t),
        u32Field 3 (tag_nodeId t), boolField 4 (tag_local t)]
       @ optField (tag_moduleTypeId t) (u32Field 5) @ optField (tag_vendorId t) (u32Field 6)
       @ optField (tag_fallbackClass t) (u32Field 7) @ optField (tag_registryId t) (u32Field 8))"

definition decodeNfcTag :: "cbor \<Rightarrow> codec_error + NfcTagStatus" where
  "decodeNfcTag entry =
     bindE (requireMap entry ''GetStatusResponse.nfcTags[]'') (\<lambda>m.
     bindE (requireU32 m 0 ''NfcTagStatus'') (\<lambda>portId.
     bindE (requireText m 1 ''NfcTagStatus'') (\<lambda>typeId.
     bindE (requireBytes m 2 ''NfcTagStatus'') (\<lambda>uid.
     bindE (requireU32 m 3 ''NfcTagStatus'') (\<lambda>nodeId.
     bindE (requireBool m 4 ''NfcTagStatus'') (\<lambda>local.
     bindE (optE (kind_uint (map_of m 5)) (requireU32 m 5 ''NfcTagStatus'')) (\<lambda>moduleTypeId.
     bindE (optE (kind_uint (map_of m 6)) (requireU32 m 6 ''NfcTagStatus'')) (\<lambda>vendorId.
     bindE (optE (kind_uint (map_of m 7)) (requireU32 m 7 ''NfcTagStatus'')) (\<lambda>fallbackClass.
     bindE (optE (kind_uint (map_of m 8)) (requireU32 m 8 ''NfcTagStatus'')) (\<lambda>registryId.
       Inr \<lparr>tag_portId = portId, tag_typeId = typeId, tag_uid = uid, tag_nodeId = nodeId,
            tag_local = local, tag_moduleTypeId = moduleTypeId, tag_vendorId = vendorId,
            tag_fallbackClass = fallbackClass, tag_registryId = registryId\<rparr>))))))))))"

definition tag_entries :: "NfcTagStatus \<Rightarrow> field_map" where
  "tag_entries t =
     [(0, CUint (tag_portId t)), (1, CText (tag_typeId t)), (2, CBytes (tag_uid t)),
      (3, CUint (tag_nodeId t)), (4, CBool (tag_local t))]
     @ optField (tag_moduleTypeId t) (\<lambda>v. (5, CUint v)) @ optField (tag_vendorId t) (\<lambda>v. (6, CUint v))
     @ optField (tag_fallbackClass t) (\<lambda>v. (7, CUint v)) @ optField (tag_registryId t) (\<lambda>v. (8, CUint v))"

definition u32_opt_ok :: "int option \<Rightarrow> bool" where
  "u32_opt_ok x \<longleftrightarrow> (\<forall>v. x = Some v \<longrightarrow> u32_ok v)"

definition tag_ok :: "NfcTagStatus \<Rightarrow> bool" where
  "tag_ok t \<longleftrightarrow> u32_ok (tag_portId t) \<and> wtext_ok (tag_typeId t) \<and> bytes_ok (tag_uid t) \<and>
     u32_ok (tag_nodeId t) \<and> u32_opt_ok (tag_moduleTypeId t) \<and> u32_opt_ok (tag_vendorId t) \<and>
     u32_opt_ok (tag_fallbackClass t) \<and> u32_opt_ok (tag_registryId t)"

interpretation tag: item_codec encodeNfcTag decodeNfcTag "\<lambda>t. CMap (tag_entries t)" tag_ok
proof
  fix t assume "tag_ok t"
  then show "gives (encodeNfcTag t) (CMap (tag_entries t))"
    unfolding encodeNfcTag_def tag_entries_def tag_ok_def u32_opt_ok_def
    by (intro gives_fields list_all2_appendI writes_opt)
       (rule list.rel_intros writes_intros | simp add: opt_distinct)+
next
  fix t assume ok: "tag_ok t"
  let ?m = "tag_entries t"
  have m: "map_of ?m 5 = map_option CUint (tag_moduleTypeId t)" "map_of ?m 6 = map_option CUint (tag_vendorId t)"
    "map_of ?m 7 = map_option CUint (tag_fallbackClass t)" "map_of ?m 8 = map_option CUint (tag_registryId t)"
    "map_of ?m 0 = Some (CUint (tag_portId t))" "map_of ?m 1 = Some (CText (tag_typeId t))"
    "map_of ?m 2 = Some (CBytes (tag_uid t))" "map_of ?m 3 = Some (CUint (tag_nodeId t))"
    "map_of ?m 4 = Some (CBool (tag_local t))"
    by (simp_all add: tag_entries_def opt_entries split: option.splits)
  have o: "\<And>v. tag_moduleTypeId t = Some v \<Longrightarrow> u32_ok v" "\<And>v. tag_vendorId t = Some v \<Longrightarrow> u32_ok v"
    "\<And>v. tag_fallbackClass t = Some v \<Longrightarrow> u32_ok v" "\<And>v. tag_registryId t = Some v \<Longrightarrow> u32_ok v"
    using ok by (auto simp: tag_ok_def u32_opt_ok_def)
  show "decodeNfcTag (CMap ?m) = Inr t"
    using ok m(5-9) by (simp add: tag_ok_def decodeNfcTag_def opt_uint [OF m(1) o(1)]
        opt_uint [OF m(2) o(2)] opt_uint [OF m(3) o(3)] opt_uint [OF m(4) o(4)])
qed

section \<open>The response\<close>

record GetStatusResponse =
  st_physical :: "bytes option"
  st_state :: int
  st_mode :: int
  st_imageState :: int
  st_activeSlot :: int
  st_imageConfirmed :: bool
  st_version :: jsstr
  st_portCount :: int
  st_lastResetCause :: int
  st_healthState :: int
  st_modules :: "ModuleStatus list"
  st_deviceId :: "bytes option"
  st_deviceName :: "jsstr option"
  st_chainPeers :: "ChainPeerStatus list option"
  st_nfcTags :: "NfcTagStatus list option"

definition encodeGetStatusResponse :: "GetStatusResponse \<Rightarrow> codec_error + bytes" where
  "encodeGetStatusResponse r = bindE (traverseE encodeModuleStatus (st_modules r)) (\<lambda>modules. encodeFields
      ([u32Field 0 (st_state r), u32Field 1 (st_mode r), u32Field 2 (st_imageState r),
        u32Field 3 (st_activeSlot r), boolField 4 (st_imageConfirmed r), textField 5 (st_version r),
        u32Field 6 (st_portCount r), u32Field 7 (st_lastResetCause r), u32Field 8 (st_healthState r),
        rawField 9 (Inr (encodeArray modules))]
       @ optField (st_deviceId r) (bytesField 10)
       @ optField (st_deviceName r) (textField 11)
       @ optField (st_chainPeers r) (arrayField 12 encodeChainPeer)
       @ optField (st_nfcTags r) (arrayField 13 encodeNfcTag)
       @ optField (st_physical r) (bytesField 14)))"

definition decodeGetStatusResponse :: "bytes \<Rightarrow> codec_error + GetStatusResponse" where
  "decodeGetStatusResponse bs =
     bindE (decodeMap bs ''GetStatusResponse'') (\<lambda>m.
     bindE (requireArray m 9 ''GetStatusResponse'') (\<lambda>vs.
     bindE (traverseE decodeModuleStatus vs) (\<lambda>modules.
     bindE (requireU32 m 0 ''GetStatusResponse'') (\<lambda>state.
     bindE (requireU32 m 1 ''GetStatusResponse'') (\<lambda>mode.
     bindE (requireU32 m 2 ''GetStatusResponse'') (\<lambda>imageState.
     bindE (requireU32 m 3 ''GetStatusResponse'') (\<lambda>activeSlot.
     bindE (requireBool m 4 ''GetStatusResponse'') (\<lambda>imageConfirmed.
     bindE (requireText m 5 ''GetStatusResponse'') (\<lambda>version.
     bindE (requireU32 m 6 ''GetStatusResponse'') (\<lambda>portCount.
     bindE (requireU32 m 7 ''GetStatusResponse'') (\<lambda>lastResetCause.
     bindE (requireU32 m 8 ''GetStatusResponse'') (\<lambda>healthState.
     bindE (optE (jm_has m 14) (requireBytes m 14 ''GetStatusResponse'')) (\<lambda>physical.
     bindE (optE (kind_bytes (map_of m 10)) (requireBytes m 10 ''GetStatusResponse'')) (\<lambda>deviceId.
     bindE (optE (kind_text (map_of m 11)) (requireText m 11 ''GetStatusResponse'')) (\<lambda>deviceName.
     bindE (optE (kind_array (map_of m 12))
              (bindE (requireArray m 12 ''GetStatusResponse'') (traverseE decodeChainPeer))) (\<lambda>chainPeers.
     bindE (optE (kind_array (map_of m 13))
              (bindE (requireArray m 13 ''GetStatusResponse'') (traverseE decodeNfcTag))) (\<lambda>nfcTags.
       Inr \<lparr>st_physical = physical, st_state = state, st_mode = mode, st_imageState = imageState,
            st_activeSlot = activeSlot, st_imageConfirmed = imageConfirmed, st_version = version,
            st_portCount = portCount, st_lastResetCause = lastResetCause, st_healthState = healthState,
            st_modules = modules, st_deviceId = deviceId, st_deviceName = deviceName,
            st_chainPeers = chainPeers, st_nfcTags = nfcTags\<rparr>)))))))))))))))))"

definition status_entries :: "GetStatusResponse \<Rightarrow> field_map" where
  "status_entries r =
     [(0, CUint (st_state r)), (1, CUint (st_mode r)), (2, CUint (st_imageState r)),
      (3, CUint (st_activeSlot r)), (4, CBool (st_imageConfirmed r)), (5, CText (st_version r)),
      (6, CUint (st_portCount r)), (7, CUint (st_lastResetCause r)), (8, CUint (st_healthState r)),
      (9, CArray (map ms_val (st_modules r)))]
     @ optField (st_deviceId r) (\<lambda>v. (10, CBytes v))
     @ optField (st_deviceName r) (\<lambda>v. (11, CText v))
     @ optField (st_chainPeers r) (\<lambda>v. (12, CArray (map (\<lambda>p. CMap (peer_entries p)) v)))
     @ optField (st_nfcTags r) (\<lambda>v. (13, CArray (map (\<lambda>t. CMap (tag_entries t)) v)))
     @ optField (st_physical r) (\<lambda>v. (14, CBytes v))"

definition status_ok :: "GetStatusResponse \<Rightarrow> bool" where
  "status_ok r \<longleftrightarrow> u32_ok (st_state r) \<and> u32_ok (st_mode r) \<and> u32_ok (st_imageState r) \<and>
     u32_ok (st_activeSlot r) \<and> wtext_ok (st_version r) \<and> u32_ok (st_portCount r) \<and>
     u32_ok (st_lastResetCause r) \<and> u32_ok (st_healthState r) \<and> (\<forall>x\<in>set (st_modules r). ms_ok x) \<and>
     (\<forall>v. st_deviceId r = Some v \<longrightarrow> bytes_ok v) \<and> (\<forall>v. st_deviceName r = Some v \<longrightarrow> wtext_ok v) \<and>
     (\<forall>v. st_chainPeers r = Some v \<longrightarrow> (\<forall>p\<in>set v. peer_ok p)) \<and>
     (\<forall>v. st_nfcTags r = Some v \<longrightarrow> (\<forall>t\<in>set v. tag_ok t)) \<and>
     (\<forall>v. st_physical r = Some v \<longrightarrow> bytes_ok v)"

lemma status_entries_lookup:
  "map_of (status_entries r) 0 = Some (CUint (st_state r))"
  "map_of (status_entries r) 1 = Some (CUint (st_mode r))"
  "map_of (status_entries r) 2 = Some (CUint (st_imageState r))"
  "map_of (status_entries r) 3 = Some (CUint (st_activeSlot r))"
  "map_of (status_entries r) 4 = Some (CBool (st_imageConfirmed r))"
  "map_of (status_entries r) 5 = Some (CText (st_version r))"
  "map_of (status_entries r) 6 = Some (CUint (st_portCount r))"
  "map_of (status_entries r) 7 = Some (CUint (st_lastResetCause r))"
  "map_of (status_entries r) 8 = Some (CUint (st_healthState r))"
  "map_of (status_entries r) 9 = Some (CArray (map ms_val (st_modules r)))"
  by (simp_all add: status_entries_def)

lemma status_entries_optional:
  "map_of (status_entries r) 10 = map_option CBytes (st_deviceId r)"
  "map_of (status_entries r) 11 = map_option CText (st_deviceName r)"
  "map_of (status_entries r) 12 = map_option (\<lambda>v. CArray (map (\<lambda>p. CMap (peer_entries p)) v)) (st_chainPeers r)"
  "map_of (status_entries r) 13 = map_option (\<lambda>v. CArray (map (\<lambda>t. CMap (tag_entries t)) v)) (st_nfcTags r)"
  "map_of (status_entries r) 14 = map_option CBytes (st_physical r)"
  by (simp_all add: status_entries_def opt_entries split: option.splits)

lemma status_entries_distinct: "distinct (map fst (status_entries r))"
  by (simp add: status_entries_def opt_distinct)

lemma status_entries_written:
  assumes "status_ok r" and "encodes (encodeArray bss) (CArray (map ms_val (st_modules r)))"
  shows "list_all2 writes
      ([u32Field 0 (st_state r), u32Field 1 (st_mode r), u32Field 2 (st_imageState r),
        u32Field 3 (st_activeSlot r), boolField 4 (st_imageConfirmed r), textField 5 (st_version r),
        u32Field 6 (st_portCount r), u32Field 7 (st_lastResetCause r), u32Field 8 (st_healthState r),
        rawField 9 (Inr (encodeArray bss))]
       @ optField (st_deviceId r) (bytesField 10)
       @ optField (st_deviceName r) (textField 11)
       @ optField (st_chainPeers r) (arrayField 12 encodeChainPeer)
       @ optField (st_nfcTags r) (arrayField 13 encodeNfcTag)
       @ optField (st_physical r) (bytesField 14)) (status_entries r)"
  using assms unfolding status_entries_def status_ok_def
  by (intro list_all2_appendI writes_opt)
     (assumption | rule list.rel_intros writes_encoded peer.writes_items tag.writes_items
        | rule writes_intros | simp)+

interpretation status: value_codec encodeGetStatusResponse decodeGetStatusResponse status_ok
proof
  fix r assume ok: "status_ok r"
  let ?m = "status_entries r"
  from ok have items: "\<forall>x\<in>set (st_modules r). ms_ok x" by (simp add: status_ok_def)
  have peers: "\<And>v. st_chainPeers r = Some v \<Longrightarrow> \<forall>p\<in>set v. peer_ok p"
    and tags: "\<And>v. st_nfcTags r = Some v \<Longrightarrow> \<forall>t\<in>set v. tag_ok t"
    using ok by (auto simp: status_ok_def)
  show "bindE (encodeGetStatusResponse r) decodeGetStatusResponse = Inr r"
    unfolding encodeGetStatusResponse_def decodeGetStatusResponse_def
  proof (rule ms.items_first [OF items], rule codec_roundtrip
      [OF status_entries_written [OF ok] status_entries_distinct], goal_cases)
    case (2 bss)
    from ok show ?case
      by (simp add: status_entries_lookup status_ok_def ms.decode_items
          opt_has_bytes [OF status_entries_optional(5)] opt_bytes [OF status_entries_optional(1)]
          opt_text [OF status_entries_optional(2)] peer.opt_items [OF status_entries_optional(3) peers]
          tag.opt_items [OF status_entries_optional(4) tags])
  qed
qed

end
