(* ===== verification/Events.thy ===== *)
theory Events
  imports StatusOperation "HOL-Library.Multiset"
begin

text \<open>
  \<open>protocol-sdk/src/events.ts\<close>: the payloads of the four event types. The values of a record are a
  JavaScript object with numeric keys, represented by the list of its entries in the order
  \<open>Object.entries\<close> enumerates them: array-index keys ascending, then the others as inserted.
\<close>

section \<open>Objects with numeric keys\<close>

type_synonym 'v js_record = "(int \<times> 'v) list"

definition index_key :: "int \<Rightarrow> bool" where
  "index_key k \<longleftrightarrow> 0 \<le> k \<and> k < 0xffffffff"

definition object_entries :: "(int \<times> 'v) list \<Rightarrow> 'v js_record" where
  "object_entries xs = sort_key fst (filter (\<lambda>x. index_key (fst x)) xs) @ filter (\<lambda>x. \<not> index_key (fst x)) xs"

definition object_wf :: "'v js_record \<Rightarrow> bool" where
  "object_wf xs \<longleftrightarrow> distinct (map fst xs) \<and> object_entries xs = xs"

lemma sort_key_sorted: "sorted (map f xs) \<Longrightarrow> sort_key f xs = xs"
  by (induction xs) (auto intro: insort_is_Cons)

lemma sorted_object_wf:
  assumes "sorted (map fst xs)" and "distinct (map fst xs)" and "\<forall>x\<in>set xs. index_key (fst x)"
  shows "object_wf xs"
proof -
  from assms(3) have "filter (\<lambda>x. index_key (fst x)) xs = xs" "filter (\<lambda>x. \<not> index_key (fst x)) xs = []"
    by (simp_all add: filter_id_conv filter_empty_conv)
  with assms show ?thesis by (simp add: object_wf_def object_entries_def sort_key_sorted)
qed

lemma mset_object_entries: "mset (object_entries xs) = mset xs"
  by (simp add: object_entries_def flip: multiset_partition)

lemma object_entries_wf:
  assumes "distinct (map fst xs)"
  shows "object_wf (object_entries xs)"
proof -
  let ?I = "filter (\<lambda>x. index_key (fst x)) xs" and ?N = "filter (\<lambda>x. \<not> index_key (fst x)) xs"
  have f: "filter (\<lambda>x. index_key (fst x)) (sort_key fst ?I @ ?N) = sort_key fst ?I"
    "filter (\<lambda>x. \<not> index_key (fst x)) (sort_key fst ?I @ ?N) = ?N"
    by (auto simp: filter_id_conv filter_empty_conv)
  have "mset (map fst (object_entries xs)) = mset (map fst xs)"
    by (simp add: mset_object_entries)
  then have "distinct (map fst (object_entries xs))"
    using assms by (metis mset_eq_imp_distinct_iff)
  then show ?thesis
    unfolding object_wf_def by (simp add: object_entries_def f sort_key_sorted)
qed

text \<open>\<open>encodeMap(Object.entries(o).map(([id, value]) => [Number(id), encode(value)]))\<close>\<close>

definition encodeObject :: "('v \<Rightarrow> codec_error + bytes) \<Rightarrow> 'v js_record \<Rightarrow> codec_error + bytes" where
  "encodeObject enc xs = encodeFields (map (\<lambda>(k, v). rawField k (enc v)) xs)"

lemma gives_object:
  assumes "distinct (map fst xs)"
    and "\<And>k v. (k, v) \<in> set xs \<Longrightarrow> u32_ok k \<and> gives (enc v) (val v)"
  shows "gives (encodeObject enc xs) (CMap (map (\<lambda>(k, v). (k, val v)) xs))"
proof -
  have "list_all2 writes (map (\<lambda>(k, v). rawField k (enc v)) xs) (map (\<lambda>(k, v). (k, val v)) xs)"
    unfolding list.rel_map by (rule list.rel_refl_strong) (auto intro: writes_given dest: assms(2))
  moreover have "distinct (map fst (map (\<lambda>(k, v). (k, val v)) xs))"
    using assms(1) by (simp add: comp_def case_prod_unfold)
  ultimately show ?thesis unfolding encodeObject_def by (rule gives_fields)
qed

section \<open>\<open>EventType.RECORD\<close>\<close>

text \<open>\<open>bigint | number | string | boolean | Uint8Array\<close>\<close>

datatype field_value = VBigint int | VNumber float64 | VString jsstr | VBoolean bool | VBytes bytes

record RecordEventPayload =
  rec_sourceKey :: int
  rec_sequence :: int
  rec_schemaId :: jsstr
  rec_schemaVersion :: int
  rec_actionId :: "int option"
  rec_fields :: "field_value js_record option"

fun encodeFieldValue :: "field_value \<Rightarrow> codec_error + bytes" where
  "encodeFieldValue (VBigint n) = encodeInt n"
| "encodeFieldValue (VNumber w) = encodeFloat w"
| "encodeFieldValue (VString s) = encodeText s"
| "encodeFieldValue (VBoolean b) = Inr (encodeBool b)"
| "encodeFieldValue (VBytes b) = encodeBytes b"

definition encodeRecordEventPayload :: "RecordEventPayload \<Rightarrow> codec_error + bytes" where
  "encodeRecordEventPayload p = encodeFields
      ([u32Field 0 (rec_sourceKey p), u32Field 1 (rec_sequence p), textField 2 (rec_schemaId p),
        u32Field 3 (rec_schemaVersion p)]
       @ optField (rec_fields p) (\<lambda>fs. rawField 4 (encodeObject encodeFieldValue fs))
       @ optField (rec_actionId p) (u32Field 5))"

definition decodeRecordField :: "int \<times> cbor \<Rightarrow> codec_error + int \<times> field_value" where
  "decodeRecordField = (\<lambda>(id, value).
     if id < 1 \<or> id > 65535 then Inl (InvalidMessage ''Invalid record field'')
     else case value of
       CUint n \<Rightarrow> Inr (id, VBigint n)
     | CInt n \<Rightarrow> Inr (id, VBigint n)
     | CFloat w \<Rightarrow> Inr (id, VNumber w)
     | CText s \<Rightarrow> Inr (id, VString s)
     | CBool b \<Rightarrow> Inr (id, VBoolean b)
     | CBytes b \<Rightarrow> Inr (id, VBytes b)
     | _ \<Rightarrow> Inl (InvalidMessage ''Invalid record field''))"

definition decodeRecordFields :: "cbor \<Rightarrow> codec_error + field_value js_record" where
  "decodeRecordFields v =
     bindE (requireMap v ''Record fields'') (\<lambda>values.
     bindE (guardE (length values \<le> 8) (InvalidMessage ''Too many record fields'')) (\<lambda>_.
       mapE object_entries (traverseE decodeRecordField values)))"

definition decodeRecordEventPayload :: "bytes \<Rightarrow> codec_error + RecordEventPayload" where
  "decodeRecordEventPayload bs =
     bindE (decodeMap bs ''RecordEventPayload'') (\<lambda>m.
     bindE (optE (jm_has m 4) (bindE (get m 4 ''Record fields'') decodeRecordFields)) (\<lambda>fields.
     bindE (optE (jm_has m 5) (requireU32 m 5 ''RecordEventPayload'')) (\<lambda>actionId.
     bindE (requireU32 m 0 ''RecordEventPayload'') (\<lambda>sourceKey.
     bindE (requireU32 m 1 ''RecordEventPayload'') (\<lambda>sequence.
     bindE (requireText m 2 ''RecordEventPayload'') (\<lambda>schemaId.
     bindE (requireU32 m 3 ''RecordEventPayload'') (\<lambda>schemaVersion.
       Inr \<lparr>rec_sourceKey = sourceKey, rec_sequence = sequence, rec_schemaId = schemaId,
            rec_schemaVersion = schemaVersion, rec_actionId = actionId, rec_fields = fields\<rparr>)))))))"

fun field_val :: "field_value \<Rightarrow> cbor" where
  "field_val (VBigint n) = cbor_int n"
| "field_val (VNumber w) = CFloat w"
| "field_val (VString s) = CText s"
| "field_val (VBoolean b) = CBool b"
| "field_val (VBytes b) = CBytes b"

fun field_value_ok :: "field_value \<Rightarrow> bool" where
  "field_value_ok (VBigint n) = int_ok n"
| "field_value_ok (VNumber w) = float64_finite w"
| "field_value_ok (VString s) = wtext_ok s"
| "field_value_ok (VBoolean b) = True"
| "field_value_ok (VBytes b) = bytes_ok b"

definition record_fields_ok :: "field_value js_record \<Rightarrow> bool" where
  "record_fields_ok fs \<longleftrightarrow> object_wf fs \<and> length fs \<le> 8 \<and>
     (\<forall>(id, v) \<in> set fs. 1 \<le> id \<and> id \<le> 65535 \<and> field_value_ok v)"

definition record_ok :: "RecordEventPayload \<Rightarrow> bool" where
  "record_ok p \<longleftrightarrow> u32_ok (rec_sourceKey p) \<and> u32_ok (rec_sequence p) \<and> wtext_ok (rec_schemaId p) \<and>
     u32_ok (rec_schemaVersion p) \<and> (\<forall>v. rec_actionId p = Some v \<longrightarrow> u32_ok v) \<and>
     (\<forall>fs. rec_fields p = Some fs \<longrightarrow> record_fields_ok fs)"

lemma gives_field_value: "field_value_ok v \<Longrightarrow> gives (encodeFieldValue v) (field_val v)"
  by (cases v) (simp_all add: gives_leaf)

lemma gives_record_fields:
  "record_fields_ok fs \<Longrightarrow>
     gives (encodeObject encodeFieldValue fs) (CMap (map (\<lambda>(k, v). (k, field_val v)) fs))"
  by (rule gives_object)
     (auto simp: record_fields_ok_def object_wf_def u32_ok_def intro: gives_field_value)

lemma decodeRecordField_val:
  "1 \<le> k \<Longrightarrow> k \<le> 65535 \<Longrightarrow> decodeRecordField (k, field_val v) = Inr (k, v)"
  by (cases v) (auto simp: decodeRecordField_def cbor_int_def)

lemma decodeRecordFields_val:
  assumes "record_fields_ok fs"
  shows "decodeRecordFields (CMap (map (\<lambda>(k, v). (k, field_val v)) fs)) = Inr fs"
proof -
  have "traverseE decodeRecordField (map (\<lambda>(k, v). (k, field_val v)) fs) = Inr fs"
    using assms by (intro traverseE_map_val) (auto simp: record_fields_ok_def decodeRecordField_val)
  then show ?thesis using assms by (simp add: decodeRecordFields_def record_fields_ok_def object_wf_def)
qed

definition record_entries :: "RecordEventPayload \<Rightarrow> field_map" where
  "record_entries p =
     [(0, CUint (rec_sourceKey p)), (1, CUint (rec_sequence p)), (2, CText (rec_schemaId p)),
      (3, CUint (rec_schemaVersion p))]
     @ optField (rec_fields p) (\<lambda>fs. (4, CMap (map (\<lambda>(k, v). (k, field_val v)) fs)))
     @ optField (rec_actionId p) (\<lambda>v. (5, CUint v))"

lemma opt_has_u32:
  "map_of m k = map_option CUint x \<Longrightarrow> (\<And>v. x = Some v \<Longrightarrow> u32_ok v) \<Longrightarrow>
   optE (jm_has m k) (requireU32 m k c) = Inr x"
  by (cases x) (auto simp: jm_has_def)

interpretation recordEvent: value_codec encodeRecordEventPayload decodeRecordEventPayload record_ok
proof
  fix p assume ok: "record_ok p"
  let ?m = "record_entries p"
  have m: "map_of ?m 0 = Some (CUint (rec_sourceKey p))" "map_of ?m 1 = Some (CUint (rec_sequence p))"
    "map_of ?m 2 = Some (CText (rec_schemaId p))" "map_of ?m 3 = Some (CUint (rec_schemaVersion p))"
    by (simp_all add: record_entries_def)
  have m4: "map_of ?m 4 = map_option (\<lambda>fs. CMap (map (\<lambda>(k, v). (k, field_val v)) fs)) (rec_fields p)"
    and m5: "map_of ?m 5 = map_option CUint (rec_actionId p)"
    by (simp_all add: record_entries_def opt_entries split: option.splits)
  have fields: "optE (jm_has ?m 4) (bindE (get ?m 4 ''Record fields'') decodeRecordFields) = Inr (rec_fields p)"
    using ok m4 by (cases "rec_fields p") (auto simp: record_ok_def jm_has_def get_def decodeRecordFields_val)
  have action: "\<And>v. rec_actionId p = Some v \<Longrightarrow> u32_ok v" using ok by (simp add: record_ok_def)
  show "bindE (encodeRecordEventPayload p) decodeRecordEventPayload = Inr p"
    unfolding encodeRecordEventPayload_def decodeRecordEventPayload_def
  proof (rule codec_roundtrip [where kvs = ?m])
    show "list_all2 writes ([u32Field 0 (rec_sourceKey p), u32Field 1 (rec_sequence p),
            textField 2 (rec_schemaId p), u32Field 3 (rec_schemaVersion p)]
          @ optField (rec_fields p) (\<lambda>fs. rawField 4 (encodeObject encodeFieldValue fs))
          @ optField (rec_actionId p) (u32Field 5)) ?m"
      using ok unfolding record_entries_def record_ok_def
      by (intro list_all2_appendI writes_opt)
         (rule list.rel_intros writes_given gives_record_fields | rule writes_intros | simp)+
    show "distinct (map fst ?m)" by (simp add: record_entries_def opt_distinct)
  qed (use ok in \<open>simp add: fields opt_has_u32 [OF m5 action] m record_ok_def\<close>)
qed

text \<open>A decoded record has at most eight fields, with ids of 16 bits, each id once.\<close>

lemma decodeRecordFields_bounds:
  assumes "decodeRecordFields v = Inr fs"
  shows "length fs \<le> 8 \<and> (\<forall>(id, x) \<in> set fs. 1 \<le> id \<and> id \<le> 65535)"
proof -
  from assms obtain m gs where m: "length m \<le> 8" "traverseE decodeRecordField m = Inr gs" "fs = object_entries gs"
    by (auto simp: decodeRecordFields_def bindE_Inr_iff mapE_Inr_iff guardE_Inr_iff)
  from m(2) have g: "list_all2 (\<lambda>x y. decodeRecordField x = Inr y) m gs" by (simp add: traverseE_Inr_iff)
  have fs: "set fs = set gs" "length fs = length gs"
    using mset_object_entries [of gs] m(3) by (auto dest: mset_eq_setD mset_eq_length)
  have "1 \<le> k \<and> k \<le> 65535" if "(k, x) \<in> set gs" for k x
  proof -
    from g that obtain y where "decodeRecordField y = Inr (k, x)"
      unfolding list_all2_conv_all_nth in_set_conv_nth by metis
    then show ?thesis
      by (cases y) (auto simp: decodeRecordField_def split: if_splits cbor.splits)
  qed
  with m(1) fs list_all2_lengthD [OF g] show ?thesis by auto
qed

section \<open>The other events\<close>

record StatusEventPayload =
  sev_deviceId :: bytes
  sev_bootId :: int
  sev_queueDepth :: int
  sev_dropCount :: int

definition encodeStatusEventPayload :: "StatusEventPayload \<Rightarrow> codec_error + bytes" where
  "encodeStatusEventPayload r = encodeFields
      [bytesField 0 (sev_deviceId r), int64Field 1 (sev_bootId r),
       u32Field 2 (sev_queueDepth r), u32Field 3 (sev_dropCount r)]"

definition decodeStatusEventPayload :: "bytes \<Rightarrow> codec_error + StatusEventPayload" where
  "decodeStatusEventPayload bs =
     bindE (decodeMap bs ''StatusEventPayload'') (\<lambda>m.
     bindE (requireBytes m 0 ''StatusEventPayload'') (\<lambda>deviceId.
     bindE (requireInt64 m 1 ''StatusEventPayload'') (\<lambda>bootId.
     bindE (requireU32 m 2 ''StatusEventPayload'') (\<lambda>queueDepth.
     bindE (requireU32 m 3 ''StatusEventPayload'') (\<lambda>dropCount.
       Inr \<lparr>sev_deviceId = deviceId, sev_bootId = bootId, sev_queueDepth = queueDepth,
          sev_dropCount = dropCount\<rparr>)))))"

definition sev_ok :: "StatusEventPayload \<Rightarrow> bool" where
  "sev_ok r \<longleftrightarrow> bytes_ok (sev_deviceId r) \<and> int_ok (sev_bootId r) \<and>
     u32_ok (sev_queueDepth r) \<and> u32_ok (sev_dropCount r)"

interpretation sev: value_codec encodeStatusEventPayload decodeStatusEventPayload sev_ok
proof
  fix r assume "sev_ok r"
  then show "bindE (encodeStatusEventPayload r) decodeStatusEventPayload = Inr r"
    unfolding encodeStatusEventPayload_def decodeStatusEventPayload_def sev_ok_def
    by (intro codec_roundtrip) (rule list.rel_intros writes_intros | simp)+
qed

record DiscoveryEventPayload =
  dev_candidateId :: int
  dev_portId :: int
  dev_generation :: int

definition encodeDiscoveryEventPayload :: "DiscoveryEventPayload \<Rightarrow> codec_error + bytes" where
  "encodeDiscoveryEventPayload r = encodeFields
      [u32Field 0 (dev_candidateId r), u32Field 1 (dev_portId r), u32Field 2 (dev_generation r)]"

definition decodeDiscoveryEventPayload :: "bytes \<Rightarrow> codec_error + DiscoveryEventPayload" where
  "decodeDiscoveryEventPayload bs =
     bindE (decodeMap bs ''DiscoveryEventPayload'') (\<lambda>m.
     bindE (requireU32 m 0 ''DiscoveryEventPayload'') (\<lambda>candidateId.
     bindE (requireU32 m 1 ''DiscoveryEventPayload'') (\<lambda>portId.
     bindE (requireU32 m 2 ''DiscoveryEventPayload'') (\<lambda>generation.
       Inr \<lparr>dev_candidateId = candidateId, dev_portId = portId,
          dev_generation = generation\<rparr>))))"

definition dev_ok :: "DiscoveryEventPayload \<Rightarrow> bool" where
  "dev_ok r \<longleftrightarrow> u32_ok (dev_candidateId r) \<and> u32_ok (dev_portId r) \<and> u32_ok (dev_generation r)"

interpretation dev: value_codec encodeDiscoveryEventPayload decodeDiscoveryEventPayload dev_ok
proof
  fix r assume "dev_ok r"
  then show "bindE (encodeDiscoveryEventPayload r) decodeDiscoveryEventPayload = Inr r"
    unfolding encodeDiscoveryEventPayload_def decodeDiscoveryEventPayload_def dev_ok_def
    by (intro codec_roundtrip) (rule list.rel_intros writes_intros | simp)+
qed

record ConnectivityEventPayload =
  cev_policy :: int
  cev_activeServices :: int
  cev_lastError :: int

definition encodeConnectivityEventPayload :: "ConnectivityEventPayload \<Rightarrow> codec_error + bytes" where
  "encodeConnectivityEventPayload r = encodeFields
      [u32Field 0 (cev_policy r), u32Field 1 (cev_activeServices r),
       int64Field 2 (cev_lastError r)]"

definition decodeConnectivityEventPayload :: "bytes \<Rightarrow> codec_error + ConnectivityEventPayload" where
  "decodeConnectivityEventPayload bs =
     bindE (decodeMap bs ''ConnectivityEventPayload'') (\<lambda>m.
     bindE (requireU32 m 0 ''ConnectivityEventPayload'') (\<lambda>policy.
     bindE (requireU32 m 1 ''ConnectivityEventPayload'') (\<lambda>activeServices.
     bindE (requireInt64 m 2 ''ConnectivityEventPayload'') (\<lambda>lastError.
       Inr \<lparr>cev_policy = policy, cev_activeServices = activeServices,
          cev_lastError = lastError\<rparr>))))"

definition cev_ok :: "ConnectivityEventPayload \<Rightarrow> bool" where
  "cev_ok r \<longleftrightarrow> u32_ok (cev_policy r) \<and> u32_ok (cev_activeServices r) \<and> int_ok (cev_lastError r)"

interpretation cev: value_codec encodeConnectivityEventPayload decodeConnectivityEventPayload cev_ok
proof
  fix r assume "cev_ok r"
  then show "bindE (encodeConnectivityEventPayload r) decodeConnectivityEventPayload = Inr r"
    unfolding encodeConnectivityEventPayload_def decodeConnectivityEventPayload_def cev_ok_def
    by (intro codec_roundtrip) (rule list.rel_intros writes_intros | simp)+
qed

end
