(* ===== verification/CommandOperations.thy ===== *)
theory CommandOperations
  imports Events
begin

text \<open>
  The operations of \<open>protocol-sdk/src/operations\<close> whose decoders check more than the kinds of their
  fields: the configuration operations (\<open>config.ts\<close>), the profile uploads (\<open>device-profile.ts\<close>),
  \<open>module-command.ts\<close> and \<open>nfc.ts\<close>.
\<close>

section \<open>\<open>config.ts\<close>\<close>

definition encodeGetConfigRequest :: "int option \<Rightarrow> codec_error + bytes" where
  "encodeGetConfigRequest offset =
     (case offset of None \<Rightarrow> encodeEmptyPayload | Some v \<Rightarrow> encodeFields [u32Field 0 v])"

definition decodeGetConfigRequest :: "bytes \<Rightarrow> codec_error + int option" where
  "decodeGetConfigRequest bs =
     (if bs = [] then Inr None
      else bindE (decodeMap bs ''GetConfigRequest'') (\<lambda>m.
        if length m = 0 then Inr None
        else if length m \<noteq> 1 \<or> \<not> jm_has m 0 then Inl (InvalidMessage ''Invalid GetConfigRequest fields'')
        else mapE Some (requireU32 m 0 ''GetConfigRequest'')))"

record GetConfigResponse =
  gc_generation :: int
  gc_sha256 :: bytes
  gc_configBytes :: bytes
  gc_totalSize :: "int option"
  gc_offset :: "int option"

definition encodeGetConfigResponse :: "GetConfigResponse \<Rightarrow> codec_error + bytes" where
  "encodeGetConfigResponse r = encodeFields
      ([u32Field 0 (gc_generation r), bytesField 1 (gc_sha256 r), bytesField 2 (gc_configBytes r)]
       @ (case gc_totalSize r of
            None \<Rightarrow> []
          | Some totalSize \<Rightarrow> [u32Field 3 totalSize, u32Field 4 (case gc_offset r of None \<Rightarrow> 0 | Some v \<Rightarrow> v)]))"

definition decodeGetConfigResponse :: "bytes \<Rightarrow> codec_error + GetConfigResponse" where
  "decodeGetConfigResponse bs =
     bindE (decodeMap bs ''GetConfigResponse'') (\<lambda>m.
     bindE (requireU32 m 0 ''GetConfigResponse'') (\<lambda>generation.
     bindE (requireBytes m 1 ''GetConfigResponse'') (\<lambda>sha256.
     bindE (requireBytes m 2 ''GetConfigResponse'') (\<lambda>configBytes.
     bindE (optE (jm_has m 3) (requireU32 m 3 ''GetConfigResponse'')) (\<lambda>totalSize.
     bindE (optE (jm_has m 3) (requireU32 m 4 ''GetConfigResponse'')) (\<lambda>offset.
       Inr \<lparr>gc_generation = generation, gc_sha256 = sha256, gc_configBytes = configBytes,
            gc_totalSize = totalSize, gc_offset = offset\<rparr>))))))"

type_synonym ValidateConfigRequest = bytes

definition encodeValidateConfigRequest :: "ValidateConfigRequest \<Rightarrow> codec_error + bytes" where
  "encodeValidateConfigRequest r = encodeFields [bytesField 0 r]"

definition decodeValidateConfigRequest :: "bytes \<Rightarrow> codec_error + ValidateConfigRequest" where
  "decodeValidateConfigRequest bs = bindE (decodeMap bs ''ValidateConfigRequest'') (\<lambda>m.
     requireBytes m 0 ''ValidateConfigRequest'')"

datatype ValidateConfigResponse =
    ConfigValid
  | ConfigInvalid (failureField: int) (failureIndex: int) (failureReason: int)

fun encodeValidateConfigResponse :: "ValidateConfigResponse \<Rightarrow> codec_error + bytes" where
  "encodeValidateConfigResponse ConfigValid = encodeFields [boolField 0 True]"
| "encodeValidateConfigResponse (ConfigInvalid f i r) =
     encodeFields [boolField 0 False, u32Field 1 f, u32Field 2 i, u32Field 3 r]"

definition decodeValidateConfigResponse :: "bytes \<Rightarrow> codec_error + ValidateConfigResponse" where
  "decodeValidateConfigResponse bs =
     bindE (decodeMap bs ''ValidateConfigResponse'') (\<lambda>m.
     bindE (requireBool m 0 ''ValidateConfigResponse'') (\<lambda>valid.
       if valid then Inr ConfigValid
       else bindE (requireU32 m 1 ''ValidateConfigResponse'') (\<lambda>f.
            bindE (requireU32 m 2 ''ValidateConfigResponse'') (\<lambda>i.
            bindE (requireU32 m 3 ''ValidateConfigResponse'') (\<lambda>r.
              Inr (ConfigInvalid f i r))))))"

record ApplyConfigRequest =
  apply_expectedGeneration :: int
  apply_configBytes :: bytes

definition encodeApplyConfigRequest :: "ApplyConfigRequest \<Rightarrow> codec_error + bytes" where
  "encodeApplyConfigRequest r = encodeFields
     [u32Field 0 (apply_expectedGeneration r), bytesField 1 (apply_configBytes r)]"

definition decodeApplyConfigRequest :: "bytes \<Rightarrow> codec_error + ApplyConfigRequest" where
  "decodeApplyConfigRequest bs =
     bindE (decodeMap bs ''ApplyConfigRequest'') (\<lambda>m.
     bindE (requireU32 m 0 ''ApplyConfigRequest'') (\<lambda>g.
     bindE (requireBytes m 1 ''ApplyConfigRequest'') (\<lambda>b.
       Inr \<lparr>apply_expectedGeneration = g, apply_configBytes = b\<rparr>)))"

record ApplyConfigResponse =
  applied_rxReads :: "bytes list option"
  applied_rxTruncated :: "bool option"
  applied_changed :: bool
  applied_generation :: int
  applied_sha256 :: bytes

definition encodeApplyConfigResponse :: "ApplyConfigResponse \<Rightarrow> codec_error + bytes" where
  "encodeApplyConfigResponse r = encodeFields
      ([boolField 0 (applied_changed r), u32Field 1 (applied_generation r), bytesField 2 (applied_sha256 r)]
       @ (case applied_rxReads r of
            None \<Rightarrow> []
          | Some reads \<Rightarrow> [arrayField 3 encodeBytes reads,
                          boolField 4 (case applied_rxTruncated r of None \<Rightarrow> False | Some b \<Rightarrow> b)]))"

text \<open>A captured read: a byte string of at most \<open>limit\<close> bytes.\<close>

definition decodeRead :: "nat \<Rightarrow> string \<Rightarrow> cbor \<Rightarrow> codec_error + bytes" where
  "decodeRead limit msg entry =
     (case entry of
        CBytes b \<Rightarrow> if length b > limit then Inl (InvalidMessage msg) else Inr b
      | _ \<Rightarrow> Inl (InvalidMessage msg))"

definition decodeAppliedReads :: "cbor \<Rightarrow> codec_error + bytes list" where
  "decodeAppliedReads value =
     (case value of
        CArray vs \<Rightarrow>
          if length vs > 8 then Inl (InvalidMessage ''ApplyConfigResponse: invalid RX capture'')
          else traverseE (decodeRead 8 ''ApplyConfigResponse: invalid RX bytes'') vs
      | _ \<Rightarrow> Inl (InvalidMessage ''ApplyConfigResponse: invalid RX capture''))"

definition decodeApplyConfigResponse :: "bytes \<Rightarrow> codec_error + ApplyConfigResponse" where
  "decodeApplyConfigResponse bs =
     bindE (decodeMap bs ''ApplyConfigResponse'') (\<lambda>m.
     bindE (optE (jm_has m 3) (bindE (get m 3 ''ApplyConfigResponse'') decodeAppliedReads)) (\<lambda>rxReads.
     bindE (optE (jm_has m 3) (requireBool m 4 ''ApplyConfigResponse'')) (\<lambda>rxTruncated.
     bindE (requireBool m 0 ''ApplyConfigResponse'') (\<lambda>changed.
     bindE (requireU32 m 1 ''ApplyConfigResponse'') (\<lambda>generation.
     bindE (requireBytes m 2 ''ApplyConfigResponse'') (\<lambda>sha256.
       Inr \<lparr>applied_rxReads = rxReads, applied_rxTruncated = rxTruncated, applied_changed = changed,
            applied_generation = generation, applied_sha256 = sha256\<rparr>))))))"

datatype config_operation = OpValidate | OpApply

definition encodeConfigChunk ::
  "config_operation \<Rightarrow> bytes \<Rightarrow> int \<Rightarrow> int \<Rightarrow> int \<Rightarrow> int \<Rightarrow> codec_error + bytes" where
  "encodeConfigChunk operation configBytes token offset totalSize generation = encodeFields
      ((if operation = OpApply then [u32Field 0 generation] else [])
       @ [bytesField (if operation = OpApply then 1 else 0) configBytes,
          u32Field 10 token, u32Field 11 offset, u32Field 12 totalSize])"

subsection \<open>Round trips\<close>

definition offset_ok :: "int option \<Rightarrow> bool" where
  "offset_ok offset \<longleftrightarrow> u32_opt_ok offset"

interpretation getConfigRequest: value_codec encodeGetConfigRequest decodeGetConfigRequest offset_ok
proof
  fix offset assume ok: "offset_ok offset"
  show "bindE (encodeGetConfigRequest offset) decodeGetConfigRequest = Inr offset"
  proof (cases offset)
    case None
    have "encodeFields [] = encodeEmptyPayload" by (simp add: encodeFields_def encodeEmptyPayload_def)
    then have "gives encodeEmptyPayload (CMap [])" using gives_fields [of "[]" "[]"] by simp
    then have "decodeMap [0xbf, 0xff] ''GetConfigRequest'' = Inr []"
      by (simp add: gives_def emptyPayload_bytes decodeMap_def encodes_decodeOne)
    with None show ?thesis
      by (simp add: encodeGetConfigRequest_def decodeGetConfigRequest_def emptyPayload_bytes)
  next
    case (Some v)
    then have "gives (encodeFields [u32Field 0 v]) (CMap [(0, CUint v)])"
      using ok by (intro gives_fields) (auto simp: offset_ok_def u32_opt_ok_def intro: writes_u32)
    then obtain bs where bs: "encodeFields [u32Field 0 v] = Inr bs" "encodes bs (CMap [(0, CUint v)])"
      by (auto simp: gives_def)
    then have "decodeMap bs ''GetConfigRequest'' = Inr [(0, CUint v)]"
      by (simp add: decodeMap_def encodes_decodeOne)
    moreover from bs(2) have "bs \<noteq> []" using encodes_length [OF bs(2)] by auto
    ultimately show ?thesis using Some bs(1) ok
      by (simp add: encodeGetConfigRequest_def decodeGetConfigRequest_def jm_has_def offset_ok_def u32_opt_ok_def)
  qed
qed

definition getConfig_ok :: "GetConfigResponse \<Rightarrow> bool" where
  "getConfig_ok r \<longleftrightarrow> u32_ok (gc_generation r) \<and> bytes_ok (gc_sha256 r) \<and> bytes_ok (gc_configBytes r) \<and>
     u32_opt_ok (gc_totalSize r) \<and> u32_opt_ok (gc_offset r) \<and> (gc_totalSize r = None \<longleftrightarrow> gc_offset r = None)"

interpretation getConfig: value_codec encodeGetConfigResponse decodeGetConfigResponse getConfig_ok
proof
  fix r assume ok: "getConfig_ok r"
  show "bindE (encodeGetConfigResponse r) decodeGetConfigResponse = Inr r"
  proof (cases "gc_totalSize r")
    case None
    with ok show ?thesis
      unfolding encodeGetConfigResponse_def decodeGetConfigResponse_def getConfig_ok_def
      by (simp, intro codec_roundtrip) (rule list.rel_intros writes_intros | simp add: jm_has_def)+
  next
    case (Some t)
    with ok obtain v where "gc_offset r = Some v" by (auto simp: getConfig_ok_def)
    with Some ok show ?thesis
      unfolding encodeGetConfigResponse_def decodeGetConfigResponse_def getConfig_ok_def u32_opt_ok_def
      by (simp, intro codec_roundtrip) (rule list.rel_intros writes_intros | simp add: jm_has_def)+
  qed
qed

interpretation validateConfigRequest:
  value_codec encodeValidateConfigRequest decodeValidateConfigRequest bytes_ok
proof
  fix b assume "bytes_ok b"
  then show "bindE (encodeValidateConfigRequest b) decodeValidateConfigRequest = Inr b"
    unfolding encodeValidateConfigRequest_def decodeValidateConfigRequest_def
    by (intro codec_roundtrip) (rule list.rel_intros writes_intros | simp)+
qed

fun validation_ok :: "ValidateConfigResponse \<Rightarrow> bool" where
  "validation_ok ConfigValid = True"
| "validation_ok (ConfigInvalid f i r) = (u32_ok f \<and> u32_ok i \<and> u32_ok r)"

lemma requireBool_literal:
  "map_of m k = Some (CBool False) \<Longrightarrow> requireBool m k c = Inr False"
  "map_of m k = Some (CBool True) \<Longrightarrow> requireBool m k c = Inr True"
  by simp_all

interpretation validateConfig:
  value_codec encodeValidateConfigResponse decodeValidateConfigResponse validation_ok
proof
  fix r assume ok: "validation_ok r"
  show "bindE (encodeValidateConfigResponse r) decodeValidateConfigResponse = Inr r"
  proof (cases r)
    case ConfigValid
    then show ?thesis
      unfolding decodeValidateConfigResponse_def
      by (simp, intro codec_roundtrip) (rule list.rel_intros writes_intros | simp)+
  next
    case (ConfigInvalid f i x)
    with ok show ?thesis
      unfolding decodeValidateConfigResponse_def
      by (simp, intro codec_roundtrip)
         (rule list.rel_intros writes_intros | simp add: requireBool_literal)+
  qed
qed

definition applyRequest_ok :: "ApplyConfigRequest \<Rightarrow> bool" where
  "applyRequest_ok r \<longleftrightarrow> u32_ok (apply_expectedGeneration r) \<and> bytes_ok (apply_configBytes r)"

interpretation applyConfigRequest: value_codec encodeApplyConfigRequest decodeApplyConfigRequest applyRequest_ok
proof
  fix r assume "applyRequest_ok r"
  then show "bindE (encodeApplyConfigRequest r) decodeApplyConfigRequest = Inr r"
    unfolding encodeApplyConfigRequest_def decodeApplyConfigRequest_def applyRequest_ok_def
    by (intro codec_roundtrip) (rule list.rel_intros writes_intros | simp)+
qed

definition reads_ok :: "nat \<Rightarrow> bytes list \<Rightarrow> bool" where
  "reads_ok limit bss \<longleftrightarrow> length bss \<le> 8 \<and> (\<forall>b\<in>set bss. length b \<le> limit)"

lemma decodeRead_val:
  "reads_ok limit bss \<Longrightarrow> traverseE (decodeRead limit msg) (map CBytes bss) = Inr bss"
  by (rule traverseE_map_val) (auto simp: decodeRead_def reads_ok_def)

lemma writes_reads:
  assumes "u32_ok k" and "reads_ok limit bss" and "limit < 2 ^ 53"
  shows "writes (arrayField k encodeBytes bss) (k, CArray (map CBytes bss))"
proof (rule writes_array [OF assms(1)])
  fix b assume "b \<in> set bss"
  with assms(2,3) have "bytes_ok b" by (auto simp: reads_ok_def bytes_ok_def)
  then show "gives (encodeBytes b) (CBytes b)" by (rule gives_leaf(3))
qed

definition applied_ok :: "ApplyConfigResponse \<Rightarrow> bool" where
  "applied_ok r \<longleftrightarrow> u32_ok (applied_generation r) \<and> bytes_ok (applied_sha256 r) \<and>
     (\<forall>bss. applied_rxReads r = Some bss \<longrightarrow> reads_ok 8 bss) \<and>
     (applied_rxReads r = None \<longleftrightarrow> applied_rxTruncated r = None)"

interpretation applyConfig: value_codec encodeApplyConfigResponse decodeApplyConfigResponse applied_ok
proof
  fix r assume ok: "applied_ok r"
  show "bindE (encodeApplyConfigResponse r) decodeApplyConfigResponse = Inr r"
  proof (cases "applied_rxReads r")
    case None
    with ok show ?thesis
      unfolding encodeApplyConfigResponse_def decodeApplyConfigResponse_def applied_ok_def
      by (simp, intro codec_roundtrip) (rule list.rel_intros writes_intros | simp add: jm_has_def)+
  next
    case (Some bss)
    with ok obtain t where t: "applied_rxTruncated r = Some t" by (auto simp: applied_ok_def)
    from Some ok have reads: "reads_ok 8 bss" by (simp add: applied_ok_def)
    then have "length bss \<le> 8" by (simp add: reads_ok_def)
    with reads Some t ok show ?thesis
      unfolding encodeApplyConfigResponse_def decodeApplyConfigResponse_def applied_ok_def
      by (simp, intro codec_roundtrip)
         (rule list.rel_intros writes_reads [where limit = 8] | rule writes_intros
            | simp add: jm_has_def get_def decodeAppliedReads_def decodeRead_val)+
  qed
qed

section \<open>Profile uploads (\<open>device-profile.ts\<close>)\<close>

record ProfileUpload =
  up_offset :: int
  up_total :: int
  up_token :: int

record ValidateDeviceProfileRequest =
  vdp_profileCbor :: bytes
  vdp_upload :: "ProfileUpload option"

definition upload_fields :: "ProfileUpload option \<Rightarrow> field list" where
  "upload_fields u = (case u of
     None \<Rightarrow> []
   | Some x \<Rightarrow> [u32Field 1 (up_offset x), u32Field 2 (up_total x), u32Field 3 (up_token x)])"

definition encodeValidateDeviceProfileRequest :: "ValidateDeviceProfileRequest \<Rightarrow> codec_error + bytes" where
  "encodeValidateDeviceProfileRequest r = encodeFields
     ([bytesField 0 (vdp_profileCbor r)] @ upload_fields (vdp_upload r))"

definition decodeUpload :: "field_map \<Rightarrow> codec_error + ProfileUpload" where
  "decodeUpload m =
     bindE (requireU32 m 1 ''ProfileUpload'') (\<lambda>offset.
     bindE (requireU32 m 2 ''ProfileUpload'') (\<lambda>totalSize.
     bindE (requireU32 m 3 ''ProfileUpload'') (\<lambda>token.
       Inr \<lparr>up_offset = offset, up_total = totalSize, up_token = token\<rparr>)))"

definition decodeValidateDeviceProfileRequest :: "bytes \<Rightarrow> codec_error + ValidateDeviceProfileRequest" where
  "decodeValidateDeviceProfileRequest bs =
     bindE (decodeMap bs ''ValidateDeviceProfileRequest'') (\<lambda>m.
     bindE (requireBytes m 0 ''ValidateDeviceProfileRequest'') (\<lambda>profileCbor.
     bindE (optE (jm_has m 2) (decodeUpload m)) (\<lambda>upload.
       Inr \<lparr>vdp_profileCbor = profileCbor, vdp_upload = upload\<rparr>)))"

definition encodeInstallDeviceProfileRequest :: "ValidateDeviceProfileRequest \<Rightarrow> codec_error + bytes" where
  "encodeInstallDeviceProfileRequest r = encodeFields
     ([bytesField 0 (vdp_profileCbor r)] @ upload_fields (vdp_upload r))"

definition decodeInstallDeviceProfileRequest :: "bytes \<Rightarrow> codec_error + ValidateDeviceProfileRequest" where
  "decodeInstallDeviceProfileRequest bs =
     bindE (decodeMap bs ''InstallDeviceProfileRequest'') (\<lambda>m.
     bindE (requireBytes m 0 ''InstallDeviceProfileRequest'') (\<lambda>profileCbor.
     bindE (optE (jm_has m 2) (decodeUpload m)) (\<lambda>upload.
       Inr \<lparr>vdp_profileCbor = profileCbor, vdp_upload = upload\<rparr>)))"

definition encodeValidateDeviceProfileResponse :: "int \<Rightarrow> codec_error + bytes" where
  "encodeValidateDeviceProfileResponse valid = encodeFields [u32Field 0 valid]"

text \<open>Field 0 is a number on some images and a Boolean on others; it is read as a number.\<close>

definition decodeValidateDeviceProfileResponse :: "bytes \<Rightarrow> codec_error + int" where
  "decodeValidateDeviceProfileResponse bs =
     bindE (decodeMap bs ''ValidateDeviceProfileResponse'') (\<lambda>m.
       case map_of m 0 of
         None \<Rightarrow> Inl (MissingField ''ValidateDeviceProfileResponse'' 0)
       | Some (CUint n) \<Rightarrow>
           if n > 0xffffffff then Inl (ExceedsU32 ''ValidateDeviceProfileResponse'' 0) else Inr (js_number n)
       | Some (CBool b) \<Rightarrow> Inr (if b then 1 else 0)
       | Some _ \<Rightarrow> Inl (WrongKind ''ValidateDeviceProfileResponse'' 0))"

definition upload_ok :: "ValidateDeviceProfileRequest \<Rightarrow> bool" where
  "upload_ok r \<longleftrightarrow> bytes_ok (vdp_profileCbor r) \<and>
     (\<forall>u. vdp_upload r = Some u \<longrightarrow> u32_ok (up_offset u) \<and> u32_ok (up_total u) \<and> u32_ok (up_token u))"

lemma upload_entries:
  assumes "upload_ok r"
  obtains kvs where "list_all2 writes ([bytesField 0 (vdp_profileCbor r)] @ upload_fields (vdp_upload r)) kvs"
    and "distinct (map fst kvs)"
    and "map_of kvs 0 = Some (CBytes (vdp_profileCbor r))"
    and "optE (jm_has kvs 2) (decodeUpload kvs) = Inr (vdp_upload r)"
proof (cases "vdp_upload r")
  case None
  show ?thesis
    by (rule that [of "[(0, CBytes (vdp_profileCbor r))]"])
       (use None assms in \<open>auto simp: upload_fields_def upload_ok_def jm_has_def intro: writes_bytes\<close>)
next
  case (Some u)
  show ?thesis
    by (rule that [of "[(0, CBytes (vdp_profileCbor r)), (1, CUint (up_offset u)),
            (2, CUint (up_total u)), (3, CUint (up_token u))]"])
       (use Some assms in \<open>auto simp: upload_fields_def upload_ok_def jm_has_def decodeUpload_def
          intro: writes_bytes writes_u32\<close>)
qed

interpretation validateProfile:
  value_codec encodeValidateDeviceProfileRequest decodeValidateDeviceProfileRequest upload_ok
proof
  fix r assume "upload_ok r"
  then show "bindE (encodeValidateDeviceProfileRequest r) decodeValidateDeviceProfileRequest = Inr r"
    unfolding encodeValidateDeviceProfileRequest_def decodeValidateDeviceProfileRequest_def
    by (rule upload_entries) (rule codec_roundtrip, assumption+, simp)
qed

interpretation installProfile:
  value_codec encodeInstallDeviceProfileRequest decodeInstallDeviceProfileRequest upload_ok
proof
  fix r assume "upload_ok r"
  then show "bindE (encodeInstallDeviceProfileRequest r) decodeInstallDeviceProfileRequest = Inr r"
    unfolding encodeInstallDeviceProfileRequest_def decodeInstallDeviceProfileRequest_def
    by (rule upload_entries) (rule codec_roundtrip, assumption+, simp)
qed

interpretation profileValidity:
  value_codec encodeValidateDeviceProfileResponse decodeValidateDeviceProfileResponse u32_ok
proof
  fix n assume "u32_ok n"
  then show "bindE (encodeValidateDeviceProfileResponse n) decodeValidateDeviceProfileResponse = Inr n"
    unfolding encodeValidateDeviceProfileResponse_def decodeValidateDeviceProfileResponse_def
    by (intro codec_roundtrip) (rule list.rel_intros writes_intros | simp add: u32_ok_def)+
qed

section \<open>\<open>module-command.ts\<close>\<close>

datatype command_value = ArgInt int | ArgBool bool | ArgText jsstr | ArgBytes bytes

datatype result_value = ResInt int | ResNumber float64 | ResText jsstr

record ModuleCommandRequest =
  mc_key :: int
  mc_commandId :: int
  mc_arguments :: "command_value js_record option"

record ModuleCommandResponse =
  mr_fields :: "result_value js_record option"
  mr_rxReads :: "bytes list option"
  mr_rxTruncated :: "bool option"

fun encodeValue :: "command_value \<Rightarrow> codec_error + bytes" where
  "encodeValue (ArgInt n) = encodeInt n"
| "encodeValue (ArgBool b) = Inr (encodeBool b)"
| "encodeValue (ArgText s) = encodeText s"
| "encodeValue (ArgBytes b) = encodeBytes b"

definition encodeModuleCommandRequest :: "ModuleCommandRequest \<Rightarrow> codec_error + bytes" where
  "encodeModuleCommandRequest r = encodeFields
     ([u32Field 0 (mc_key r), u32Field 1 (mc_commandId r)]
      @ optField (mc_arguments r) (\<lambda>args. rawField 2 (encodeObject encodeValue args)))"

definition decodeArgument :: "int \<times> cbor \<Rightarrow> codec_error + int \<times> command_value" where
  "decodeArgument = (\<lambda>(id, value).
     if id < 1 \<or> id > 65535 then Inl (InvalidMessage ''Invalid argument ID'')
     else case value of
       CUint n \<Rightarrow> Inr (id, ArgInt n)
     | CInt n \<Rightarrow> Inr (id, ArgInt n)
     | CBool b \<Rightarrow> Inr (id, ArgBool b)
     | CText s \<Rightarrow> if length (utf8_encode s) \<le> 32 then Inr (id, ArgText s)
                  else Inl (InvalidMessage ''Invalid command argument'')
     | CBytes b \<Rightarrow> if length b \<le> 8 then Inr (id, ArgBytes b)
                   else Inl (InvalidMessage ''Invalid command argument'')
     | _ \<Rightarrow> Inl (InvalidMessage ''Invalid command argument''))"

definition decodeArguments :: "cbor \<Rightarrow> codec_error + command_value js_record" where
  "decodeArguments v =
     bindE (requireMap v ''ModuleCommand arguments'') (\<lambda>values.
     bindE (guardE (length values \<le> 8) (InvalidMessage ''Too many command arguments'')) (\<lambda>_.
       mapE object_entries (traverseE decodeArgument values)))"

definition decodeModuleCommandRequest :: "bytes \<Rightarrow> codec_error + ModuleCommandRequest" where
  "decodeModuleCommandRequest bs =
     bindE (decodeMap bs ''ModuleCommandRequest'') (\<lambda>m.
     bindE (optE (jm_has m 2) (bindE (get m 2 ''ModuleCommand arguments'') decodeArguments)) (\<lambda>args.
     bindE (requireU32 m 0 ''ModuleCommandRequest'') (\<lambda>key.
     bindE (requireU32 m 1 ''ModuleCommandRequest'') (\<lambda>commandId.
       Inr \<lparr>mc_key = key, mc_commandId = commandId, mc_arguments = args\<rparr>))))"

fun encodeResult :: "result_value \<Rightarrow> codec_error + bytes" where
  "encodeResult (ResNumber w) = encodeFloat w"
| "encodeResult (ResText s) = encodeText s"
| "encodeResult (ResInt n) = encodeInt n"

definition encodeModuleCommandResponse :: "ModuleCommandResponse \<Rightarrow> codec_error + bytes" where
  "encodeModuleCommandResponse r =
     (case mr_fields r of
        None \<Rightarrow> encodeMap []
      | Some results \<Rightarrow> encodeFields
          [rawField 0 (encodeObject encodeResult results),
           arrayField 1 encodeBytes (case mr_rxReads r of None \<Rightarrow> [] | Some reads \<Rightarrow> reads),
           boolField 2 (case mr_rxTruncated r of None \<Rightarrow> False | Some b \<Rightarrow> b)])"

definition decodeResult :: "int \<times> cbor \<Rightarrow> codec_error + int \<times> result_value" where
  "decodeResult = (\<lambda>(id, value).
     case value of
       CUint n \<Rightarrow> Inr (id, ResInt n)
     | CInt n \<Rightarrow> Inr (id, ResInt n)
     | CFloat w \<Rightarrow> Inr (id, ResNumber w)
     | CText s \<Rightarrow> Inr (id, ResText s)
     | _ \<Rightarrow> Inl (InvalidMessage ''Invalid result field''))"

definition decodeModuleCommandResponse :: "bytes \<Rightarrow> codec_error + ModuleCommandResponse" where
  "decodeModuleCommandResponse bs =
     bindE (decodeMap bs ''ModuleCommandResponse'') (\<lambda>m.
       case map_of m 0 of
         None \<Rightarrow> Inr \<lparr>mr_fields = None, mr_rxReads = None, mr_rxTruncated = None\<rparr>
       | Some v0 \<Rightarrow>
           bindE (requireMap v0 ''Command fields'') (\<lambda>values.
           bindE (guardE (length values \<le> 8) (InvalidMessage ''Too many result fields'')) (\<lambda>_.
           bindE (mapE object_entries (traverseE decodeResult values)) (\<lambda>results.
             case (map_of m 1, map_of m 2) of
               (Some (CArray rx), Some (CBool truncated)) \<Rightarrow>
                 if length rx > 8 then Inl (InvalidMessage ''Invalid command capture'')
                 else mapE (\<lambda>reads. \<lparr>mr_fields = Some results, mr_rxReads = Some reads,
                                    mr_rxTruncated = Some truncated\<rparr>)
                        (traverseE (decodeRead 32 ''Invalid command RX'') rx)
             | _ \<Rightarrow> Inl (InvalidMessage ''Invalid command capture'')))))"

fun argument_val :: "command_value \<Rightarrow> cbor" where
  "argument_val (ArgInt n) = cbor_int n"
| "argument_val (ArgBool b) = CBool b"
| "argument_val (ArgText s) = CText s"
| "argument_val (ArgBytes b) = CBytes b"

fun argument_ok :: "command_value \<Rightarrow> bool" where
  "argument_ok (ArgInt n) = int_ok n"
| "argument_ok (ArgBool b) = True"
| "argument_ok (ArgText s) = (wtext_ok s \<and> length (utf8_encode s) \<le> 32)"
| "argument_ok (ArgBytes b) = (length b \<le> 8)"

definition arguments_ok :: "command_value js_record \<Rightarrow> bool" where
  "arguments_ok xs \<longleftrightarrow> object_wf xs \<and> length xs \<le> 8 \<and>
     (\<forall>(k, v) \<in> set xs. 1 \<le> k \<and> k \<le> 65535 \<and> argument_ok v)"

lemma gives_arguments:
  "arguments_ok xs \<Longrightarrow>
     gives (encodeObject encodeValue xs) (CMap (map (\<lambda>(k, v). (k, argument_val v)) xs))"
proof (rule gives_object)
  fix k v assume "arguments_ok xs" "(k, v) \<in> set xs"
  then have "1 \<le> k \<and> k \<le> 65535 \<and> argument_ok v" by (auto simp: arguments_ok_def)
  then show "u32_ok k \<and> gives (encodeValue v) (argument_val v)"
    by (cases v) (simp_all add: u32_ok_def gives_leaf bytes_ok_def)
qed (simp add: arguments_ok_def object_wf_def)

lemma decodeArgument_val:
  "1 \<le> k \<Longrightarrow> k \<le> 65535 \<Longrightarrow> argument_ok v \<Longrightarrow> decodeArgument (k, argument_val v) = Inr (k, v)"
  by (cases v) (auto simp: decodeArgument_def cbor_int_def)

lemma decodeArguments_val:
  assumes "arguments_ok xs"
  shows "decodeArguments (CMap (map (\<lambda>(k, v). (k, argument_val v)) xs)) = Inr xs"
proof -
  have "traverseE decodeArgument (map (\<lambda>(k, v). (k, argument_val v)) xs) = Inr xs"
    using assms by (intro traverseE_map_val) (auto simp: arguments_ok_def decodeArgument_val)
  then show ?thesis using assms by (simp add: decodeArguments_def arguments_ok_def object_wf_def)
qed

definition command_ok :: "ModuleCommandRequest \<Rightarrow> bool" where
  "command_ok r \<longleftrightarrow> u32_ok (mc_key r) \<and> u32_ok (mc_commandId r) \<and>
     (\<forall>xs. mc_arguments r = Some xs \<longrightarrow> arguments_ok xs)"

interpretation moduleCommand: value_codec encodeModuleCommandRequest decodeModuleCommandRequest command_ok
proof
  fix r assume ok: "command_ok r"
  show "bindE (encodeModuleCommandRequest r) decodeModuleCommandRequest = Inr r"
  proof (cases "mc_arguments r")
    case None
    with ok show ?thesis
      unfolding encodeModuleCommandRequest_def decodeModuleCommandRequest_def command_ok_def
      by (simp, intro codec_roundtrip) (rule list.rel_intros writes_intros | simp add: jm_has_def)+
  next
    case (Some xs)
    with ok have "arguments_ok xs" by (simp add: command_ok_def)
    with Some ok show ?thesis
      unfolding encodeModuleCommandRequest_def decodeModuleCommandRequest_def command_ok_def
      by (simp, intro codec_roundtrip)
         (rule list.rel_intros writes_given gives_arguments | rule writes_intros
            | simp add: jm_has_def get_def decodeArguments_val)+
  qed
qed

fun result_val :: "result_value \<Rightarrow> cbor" where
  "result_val (ResInt n) = cbor_int n"
| "result_val (ResNumber w) = CFloat w"
| "result_val (ResText s) = CText s"

fun result_ok :: "result_value \<Rightarrow> bool" where
  "result_ok (ResInt n) = int_ok n"
| "result_ok (ResNumber w) = float64_finite w"
| "result_ok (ResText s) = wtext_ok s"

definition results_ok :: "result_value js_record \<Rightarrow> bool" where
  "results_ok xs \<longleftrightarrow> object_wf xs \<and> length xs \<le> 8 \<and> (\<forall>(k, v) \<in> set xs. u32_ok k \<and> result_ok v)"

lemma gives_results:
  "results_ok xs \<Longrightarrow> gives (encodeObject encodeResult xs) (CMap (map (\<lambda>(k, v). (k, result_val v)) xs))"
proof (rule gives_object)
  fix k v assume "results_ok xs" "(k, v) \<in> set xs"
  then have "u32_ok k \<and> result_ok v" by (auto simp: results_ok_def)
  then show "u32_ok k \<and> gives (encodeResult v) (result_val v)"
    by (cases v) (simp_all add: gives_leaf)
qed (simp add: results_ok_def object_wf_def)

lemma decodeResults_val:
  "traverseE decodeResult (map (\<lambda>(k, v). (k, result_val v)) xs) = Inr xs"
proof -
  have "decodeResult (k, result_val v) = Inr (k, v)" for k v
    by (cases v) (auto simp: decodeResult_def cbor_int_def)
  then show ?thesis by (intro traverseE_map_val) auto
qed

definition commandResponse_ok :: "ModuleCommandResponse \<Rightarrow> bool" where
  "commandResponse_ok r \<longleftrightarrow>
     (case mr_fields r of
        None \<Rightarrow> mr_rxReads r = None \<and> mr_rxTruncated r = None
      | Some xs \<Rightarrow> results_ok xs \<and> mr_rxTruncated r \<noteq> None \<and>
          (\<exists>reads. mr_rxReads r = Some reads \<and> reads_ok 32 reads))"

interpretation moduleCommandResponse:
  value_codec encodeModuleCommandResponse decodeModuleCommandResponse commandResponse_ok
proof
  fix r assume ok: "commandResponse_ok r"
  show "bindE (encodeModuleCommandResponse r) decodeModuleCommandResponse = Inr r"
  proof (cases "mr_fields r")
    case None
    have "encodeFields [] = encodeMap []" by (simp add: encodeFields_def)
    then have empty: "gives (encodeMap []) (CMap [])" using gives_fields [of "[]" "[]"] by simp
    from None ok show ?thesis
      unfolding encodeModuleCommandResponse_def decodeModuleCommandResponse_def commandResponse_ok_def
      by (simp add: gives_decodeMap [OF empty])
  next
    case (Some xs)
    with ok obtain reads t where rt: "results_ok xs" "mr_rxTruncated r = Some t"
      "mr_rxReads r = Some reads" "reads_ok 32 reads"
      by (auto simp: commandResponse_ok_def)
    then have "length reads \<le> 8" "length xs \<le> 8" "object_entries xs = xs"
      by (simp_all add: reads_ok_def results_ok_def object_wf_def)
    with Some rt show ?thesis
      unfolding encodeModuleCommandResponse_def decodeModuleCommandResponse_def
      by (simp, intro codec_roundtrip)
         (rule list.rel_intros writes_given gives_results writes_reads [where limit = 32]
            | rule writes_intros | simp add: decodeResults_val decodeRead_val)+
  qed
qed

section \<open>\<open>nfc.ts\<close>\<close>

record NfcPageRequest =
  nfc_nodeId :: int
  nfc_antenna :: int
  nfc_uid :: bytes
  nfc_page :: int
  nfc_data :: "bytes option"

text \<open>The numbers are integers here, so the \<open>Number.isInteger\<close> tests of the code hold.\<close>

definition nfc_target_ok :: "NfcPageRequest \<Rightarrow> bool" where
  "nfc_target_ok r \<longleftrightarrow>
     \<not> (length (nfc_uid r) \<noteq> 7 \<or> nfc_antenna r < 0 \<or> nfc_antenna r > 2 \<or>
        nfc_nodeId r < 0 \<or> nfc_nodeId r > 0xffffff \<or>
        \<not> ((nfc_page r \<ge> 4 \<and> nfc_page r \<le> 43) \<or> (nfc_data r = None \<and> nfc_page r \<in> {3, 45})) \<or>
        (case nfc_data r of None \<Rightarrow> False | Some d \<Rightarrow> length d \<noteq> 4))"

definition encodeNfcPageRequest :: "NfcPageRequest \<Rightarrow> codec_error + bytes" where
  "encodeNfcPageRequest r =
     (if \<not> nfc_target_ok r then Inl (InvalidMessage ''Invalid NFC page target'')
      else encodeFields
        ([u32Field 0 (nfc_nodeId r), u32Field 1 (nfc_antenna r), bytesField 2 (nfc_uid r),
          u32Field 3 (nfc_page r), u32Field 4 (if nfc_data r = None then 0 else 1)]
         @ optField (nfc_data r) (bytesField 5)))"

definition decodeNfcPageResponse :: "bytes \<Rightarrow> int \<Rightarrow> codec_error + bytes" where
  "decodeNfcPageResponse bs page =
     bindE (decodeMap bs ''NFC page'') (\<lambda>m.
     bindE (requireU32 m 0 ''NFC page'') (\<lambda>confirmed.
     bindE (requireBytes m 1 ''NFC page'') (\<lambda>data.
       if confirmed \<noteq> page \<or> length data \<noteq> 4
       then Inl (InvalidMessage ''NFC page acknowledgment mismatch'')
       else Inr data)))"

text \<open>
  A request that passes the guard is always encoded; a write can only address the user pages
  4..43, so the lock, configuration and UID pages are out of reach.
\<close>

lemma encodeNfcPageRequest_total:
  "(\<exists>bs. encodeNfcPageRequest r = Inr bs) \<longleftrightarrow> nfc_target_ok r"
proof
  assume ok: "nfc_target_ok r"
  have w: "u32_ok (nfc_nodeId r)" "u32_ok (nfc_antenna r)" "bytes_ok (nfc_uid r)" "u32_ok (nfc_page r)"
    "u32_ok (if nfc_data r = None then 0 else 1)"
    using ok by (auto simp: nfc_target_ok_def u32_ok_def bytes_ok_def)
  have data: "\<And>d. nfc_data r = Some d \<Longrightarrow> bytes_ok d"
    using ok by (auto simp: nfc_target_ok_def bytes_ok_def)
  have "list_all2 writes
        ([u32Field 0 (nfc_nodeId r), u32Field 1 (nfc_antenna r), bytesField 2 (nfc_uid r),
          u32Field 3 (nfc_page r), u32Field 4 (if nfc_data r = None then 0 else 1)]
         @ optField (nfc_data r) (bytesField 5))
        ([(0, CUint (nfc_nodeId r)), (1, CUint (nfc_antenna r)), (2, CBytes (nfc_uid r)),
          (3, CUint (nfc_page r)), (4, CUint (if nfc_data r = None then 0 else 1))]
         @ optField (nfc_data r) (\<lambda>v. (5, CBytes v)))"
    using w data by (intro list_all2_appendI writes_opt) (rule list.rel_intros writes_intros | simp)+
  then have "gives (encodeNfcPageRequest r) (CMap
        ([(0, CUint (nfc_nodeId r)), (1, CUint (nfc_antenna r)), (2, CBytes (nfc_uid r)),
          (3, CUint (nfc_page r)), (4, CUint (if nfc_data r = None then 0 else 1))]
         @ optField (nfc_data r) (\<lambda>v. (5, CBytes v))))"
    using ok by (simp only: encodeNfcPageRequest_def if_False not_not simp_thms)
      (rule gives_fields, assumption, simp add: opt_distinct)
  then show "\<exists>bs. encodeNfcPageRequest r = Inr bs" by (auto simp: gives_def)
qed (auto simp: encodeNfcPageRequest_def split: if_splits)

lemma nfc_write_pages: "nfc_target_ok r \<Longrightarrow> nfc_data r = Some d \<Longrightarrow> 4 \<le> nfc_page r \<and> nfc_page r \<le> 43 \<and> length d = 4"
  by (auto simp: nfc_target_ok_def)

text \<open>The acknowledgment returns four bytes, and only for the page that was asked for.\<close>

lemma decodeNfcPageResponse_page:
  assumes "decodeNfcPageResponse bs page = Inr d"
  shows "length d = 4 \<and> (\<forall>q. q \<noteq> page \<longrightarrow> (\<forall>d'. decodeNfcPageResponse bs q \<noteq> Inr d'))"
  using assms by (auto simp: decodeNfcPageResponse_def bindE_Inr_iff split: if_splits)

end
