(* ===== verification/Physical.thy ===== *)
theory Physical
  imports CommandOperations
begin

text \<open>
  \<open>protocol-sdk/src/operations/physical.ts\<close>: the packed interface settings and the physical
  configuration of a backbone. \<open>decodePhysicalSettings\<close> re-encodes what it decoded and compares, so
  it accepts exactly the images of the encoder.
\<close>

section \<open>Interface settings\<close>

record PhysicalInterfaceSettings =
  ps_baud :: int
  ps_dataBits :: int
  ps_parity :: jsstr
  ps_stopBits :: int
  ps_spiHz :: int
  ps_spiMode :: int
  ps_bitOrder :: jsstr
  ps_pwmHz :: int
  ps_pwmInverted :: bool

definition DEFAULT_PHYSICAL_SETTINGS :: PhysicalInterfaceSettings where
  "DEFAULT_PHYSICAL_SETTINGS =
     \<lparr>ps_baud = 115200, ps_dataBits = 8, ps_parity = js ''none'', ps_stopBits = 1, ps_spiHz = 1000000,
      ps_spiMode = 0, ps_bitOrder = js ''msb'', ps_pwmHz = 1000, ps_pwmInverted = False\<rparr>"

definition physical_settings_ok :: "PhysicalInterfaceSettings \<Rightarrow> bool" where
  "physical_settings_ok s \<longleftrightarrow>
     \<not> (ps_baud s < 1200 \<or> ps_baud s > 2000000 \<or> ps_spiHz s < 10000 \<or> ps_spiHz s > 20000000 \<or>
        ps_pwmHz s < 1 \<or> ps_pwmHz s > 20000 \<or> ps_dataBits s \<notin> {7, 8} \<or> ps_stopBits s \<notin> {1, 2} \<or>
        ps_spiMode s \<notin> {0, 1, 2, 3} \<or>
        ps_parity s \<notin> {js ''none'', js ''even'', js ''odd''} \<or> ps_bitOrder s \<notin> {js ''msb'', js ''lsb''})"

text \<open>\<open>DataView.setUint32(_, n, true)\<close> and \<open>getUint32(_, true)\<close>: little-endian.\<close>

definition le_bytes :: "nat \<Rightarrow> int \<Rightarrow> bytes" where
  "le_bytes k n = rev (be_bytes k n)"

definition le_int :: "bytes \<Rightarrow> int" where
  "le_int bs = be_int (rev bs)"

definition settings_bytes :: "PhysicalInterfaceSettings \<Rightarrow> bytes" where
  "settings_bytes s =
     [1] @ le_bytes 4 (ps_baud s) @ le_bytes 4 (ps_spiHz s) @ le_bytes 4 (ps_pwmHz s)
     @ [word_of_int (ps_dataBits s),
        if ps_parity s = js ''even'' then 1 else if ps_parity s = js ''odd'' then 2 else 0,
        word_of_int (ps_stopBits s), word_of_int (ps_spiMode s),
        if ps_bitOrder s = js ''lsb'' then 1 else 0,
        if ps_pwmInverted s then 1 else 0,
        0]"

definition encodePhysicalSettings :: "PhysicalInterfaceSettings \<Rightarrow> codec_error + bytes" where
  "encodePhysicalSettings s =
     (if \<not> physical_settings_ok s then Inl (InvalidMessage ''Invalid interface settings'')
      else Inr (settings_bytes s))"

definition parsePhysicalSettings :: "bytes \<Rightarrow> PhysicalInterfaceSettings" where
  "parsePhysicalSettings bs =
     \<lparr>ps_baud = le_int (take 4 (drop 1 bs)),
      ps_dataBits = uint (bs ! 13),
      ps_parity = (if bs ! 14 = 1 then js ''even'' else if bs ! 14 = 2 then js ''odd'' else js ''none''),
      ps_stopBits = uint (bs ! 15),
      ps_spiHz = le_int (take 4 (drop 5 bs)),
      ps_spiMode = uint (bs ! 16),
      ps_bitOrder = (if bs ! 17 = 1 then js ''lsb'' else js ''msb''),
      ps_pwmHz = le_int (take 4 (drop 9 bs)),
      ps_pwmInverted = (bs ! 18 \<noteq> 0)\<rparr>"

definition decodePhysicalSettings :: "bytes \<Rightarrow> codec_error + PhysicalInterfaceSettings" where
  "decodePhysicalSettings bs =
     (if length bs \<noteq> 20 \<or> bs ! 0 \<noteq> 1 \<or> bs ! 19 \<noteq> 0
      then Inl (InvalidMessage ''Invalid interface settings version'')
      else let result = parsePhysicalSettings bs in
        bindE (encodePhysicalSettings result) (\<lambda>encoded.
          if encoded \<noteq> bs then Inl (InvalidMessage ''Invalid interface flags'') else Inr result))"

lemma length_le_bytes [simp]: "length (le_bytes k n) = k"
  by (simp add: le_bytes_def)

lemma le_int_roundtrip: "0 \<le> n \<Longrightarrow> n < 256 ^ k \<Longrightarrow> le_int (le_bytes k n) = n"
  by (simp add: le_bytes_def le_int_def be_int_roundtrip)

lemma length_settings_bytes [simp]: "length (settings_bytes s) = 20"
  by (simp add: settings_bytes_def)

lemma js_ne [simp]:
  "js ''even'' \<noteq> js ''none''" "js ''odd'' \<noteq> js ''none''" "js ''even'' \<noteq> js ''odd''" "js ''lsb'' \<noteq> js ''msb''"
  "js ''odd'' \<noteq> js ''even''" "js ''none'' \<noteq> js ''even''" "js ''none'' \<noteq> js ''odd''" "js ''msb'' \<noteq> js ''lsb''"
  by (simp_all add: js_inj)

lemma uint_small: "0 \<le> n \<Longrightarrow> n < 256 \<Longrightarrow> uint (word_of_int n :: byte) = n"
  by (simp add: uint_byte_of_int)

lemma nth_after4: "length a = 4 \<Longrightarrow> length b = 4 \<Longrightarrow> length c = 4 \<Longrightarrow>
    ([x] @ a @ b @ c @ ys) ! (13 + i) = ys ! i"
  by (simp add: nth_append)

lemma settings_bytes_nth:
  "settings_bytes s ! 0 = 1" "settings_bytes s ! 19 = 0"
  "settings_bytes s ! 13 = word_of_int (ps_dataBits s)"
  "settings_bytes s ! 14 = (if ps_parity s = js ''even'' then 1 else if ps_parity s = js ''odd'' then 2 else 0)"
  "settings_bytes s ! 15 = word_of_int (ps_stopBits s)"
  "settings_bytes s ! 16 = word_of_int (ps_spiMode s)"
  "settings_bytes s ! 17 = (if ps_bitOrder s = js ''lsb'' then 1 else 0)"
  "settings_bytes s ! 18 = (if ps_pwmInverted s then 1 else 0)"
  unfolding settings_bytes_def
  using nth_after4 [of "le_bytes 4 (ps_baud s)" "le_bytes 4 (ps_spiHz s)" "le_bytes 4 (ps_pwmHz s)" 1 _ 0]
    nth_after4 [of "le_bytes 4 (ps_baud s)" "le_bytes 4 (ps_spiHz s)" "le_bytes 4 (ps_pwmHz s)" 1 _ 1]
    nth_after4 [of "le_bytes 4 (ps_baud s)" "le_bytes 4 (ps_spiHz s)" "le_bytes 4 (ps_pwmHz s)" 1 _ 2]
    nth_after4 [of "le_bytes 4 (ps_baud s)" "le_bytes 4 (ps_spiHz s)" "le_bytes 4 (ps_pwmHz s)" 1 _ 3]
    nth_after4 [of "le_bytes 4 (ps_baud s)" "le_bytes 4 (ps_spiHz s)" "le_bytes 4 (ps_pwmHz s)" 1 _ 4]
    nth_after4 [of "le_bytes 4 (ps_baud s)" "le_bytes 4 (ps_spiHz s)" "le_bytes 4 (ps_pwmHz s)" 1 _ 5]
    nth_after4 [of "le_bytes 4 (ps_baud s)" "le_bytes 4 (ps_spiHz s)" "le_bytes 4 (ps_pwmHz s)" 1 _ 6]
  by simp_all

lemma settings_bytes_words:
  "take 4 (drop 1 (settings_bytes s)) = le_bytes 4 (ps_baud s)"
  "take 4 (drop 5 (settings_bytes s)) = le_bytes 4 (ps_spiHz s)"
  "take 4 (drop 9 (settings_bytes s)) = le_bytes 4 (ps_pwmHz s)"
  by (simp_all add: settings_bytes_def)

lemma parse_settings_bytes:
  assumes "physical_settings_ok s"
  shows "parsePhysicalSettings (settings_bytes s) = s"
proof -
  from assms have "ps_dataBits s \<in> {7, 8}" "ps_stopBits s \<in> {1, 2}" "ps_spiMode s \<in> {0, 1, 2, 3}"
    by (simp_all add: physical_settings_ok_def)
  then have b: "uint (word_of_int (ps_dataBits s) :: byte) = ps_dataBits s"
    "uint (word_of_int (ps_stopBits s) :: byte) = ps_stopBits s"
    "uint (word_of_int (ps_spiMode s) :: byte) = ps_spiMode s"
    by (auto intro!: uint_small)
  have w: "le_int (le_bytes 4 (ps_baud s)) = ps_baud s" "le_int (le_bytes 4 (ps_spiHz s)) = ps_spiHz s"
    "le_int (le_bytes 4 (ps_pwmHz s)) = ps_pwmHz s"
    using assms by (auto intro!: le_int_roundtrip simp: physical_settings_ok_def)
  have p: "ps_parity s \<in> {js ''none'', js ''even'', js ''odd''}" "ps_bitOrder s \<in> {js ''msb'', js ''lsb''}"
    using assms by (simp_all add: physical_settings_ok_def)
  show ?thesis
    unfolding parsePhysicalSettings_def settings_bytes_nth settings_bytes_words b w
    using p by (cases s) auto
qed

text \<open>The decoder is the exact inverse of the encoder.\<close>

lemma decodePhysicalSettings_iff:
  "decodePhysicalSettings bs = Inr s \<longleftrightarrow> encodePhysicalSettings s = Inr bs"
proof
  assume "encodePhysicalSettings s = Inr bs"
  then have ok: "physical_settings_ok s" and bs: "bs = settings_bytes s"
    by (auto simp: encodePhysicalSettings_def split: if_splits)
  from ok show "decodePhysicalSettings bs = Inr s"
    by (simp add: decodePhysicalSettings_def bs parse_settings_bytes settings_bytes_nth encodePhysicalSettings_def)
qed (auto simp: decodePhysicalSettings_def Let_def bindE_Inr_iff split: if_splits)

interpretation physicalSettings: value_codec encodePhysicalSettings decodePhysicalSettings physical_settings_ok
  by unfold_locales
     (metis bindE_simps(2) decodePhysicalSettings_iff encodePhysicalSettings_def)

section \<open>Backbone description\<close>

datatype mcu = ESP32_S3 | ESP32_C3 | UnknownMcu

record PhysicalBackbone =
  pb_version :: int
  pb_settings :: "PhysicalInterfaceSettings option"
  pb_mcu :: mcu
  pb_antennas :: int
  pb_layout :: int
  pb_backendPortId :: int
  pb_capabilities :: int
  pb_modes :: "byte list"
  pb_i2cSpeed :: int
  pb_source :: int

definition decodePhysicalBackbone :: "bytes \<Rightarrow> codec_error + PhysicalBackbone option" where
  "decodePhysicalBackbone bs =
     (if \<not> ((length bs = 13 \<and> bs ! 0 = 1) \<or> (length bs = 33 \<and> bs ! 0 = 2) \<or> (length bs = 37 \<and> bs ! 0 = 3))
      then Inr None
      else bindE (optE (bs ! 0 \<ge> 2) (decodePhysicalSettings (take 20 (drop 13 bs)))) (\<lambda>settings.
        Inr (Some
          \<lparr>pb_version = uint (bs ! 0),
           pb_settings = settings,
           pb_mcu = (if bs ! 1 = 1 then ESP32_S3 else if bs ! 1 = 2 then ESP32_C3 else UnknownMcu),
           pb_antennas = uint (bs ! 2),
           pb_layout = uint (bs ! 3),
           pb_backendPortId = uint (bs ! 4),
           pb_capabilities = uint (bs ! 5) OR push_bit 8 (uint (bs ! 6)),
           pb_modes = take 4 (drop 7 bs) @ (if bs ! 0 = 3 \<and> bs ! 3 = 2 then take 4 (drop 33 bs) else []),
           pb_i2cSpeed = uint (bs ! 11),
           pb_source = uint (bs ! 12)\<rparr>)))"

section \<open>Applying a physical configuration\<close>

record ApplyPhysicalRequest =
  ap_nodeId :: int
  ap_modes :: "byte list"
  ap_i2cSpeed :: int
  ap_expectedTag :: "bytes option"
  ap_settings :: "PhysicalInterfaceSettings option"

definition invalid_pin_mode :: "byte \<Rightarrow> bool" where
  "invalid_pin_mode mode \<longleftrightarrow>
     (mode AND 15) > 12 \<or> (mode AND 0xc0) \<noteq> 0 \<or> (mode AND 0x30) = 0x30 \<or>
     ((mode AND 15) \<noteq> 1 \<and> (mode AND 0x30) \<noteq> 0)"

definition encodeApplyPhysicalRequest :: "ApplyPhysicalRequest \<Rightarrow> codec_error + bytes" where
  "encodeApplyPhysicalRequest r =
     (if ap_nodeId r < 0 \<or> ap_nodeId r > 0xffffff \<or> (length (ap_modes r) \<noteq> 4 \<and> length (ap_modes r) \<noteq> 8) \<or>
         (ap_i2cSpeed r \<noteq> 0 \<and> ap_i2cSpeed r \<noteq> 1)
      then Inl (InvalidMessage ''Invalid physical port configuration'')
      else if list_ex invalid_pin_mode (ap_modes r) then Inl (InvalidMessage ''Invalid physical pin mode'')
      else let expected = (case ap_expectedTag r of None \<Rightarrow> replicate 20 0 | Some t \<Rightarrow> t) in
        if length expected \<noteq> 20 \<or> expected ! 8 > 10 \<or> expected ! 19 > 1
        then Inl (InvalidMessage ''Invalid NFC snapshot'')
        else encodeFields
          ([u32Field 0 (ap_nodeId r), bytesField 1 (ap_modes r), u32Field 2 (ap_i2cSpeed r), bytesField 3 expected]
           @ optField (ap_settings r) (\<lambda>s. bindE (encodePhysicalSettings s) (bytesField 4))))"

definition decodeApplyPhysicalResponse :: "bytes \<Rightarrow> codec_error + ApplyPhysicalRequest" where
  "decodeApplyPhysicalResponse bs =
     bindE (decodeMap bs ''ApplyPhysicalResponse'') (\<lambda>m.
     bindE (requireU32 m 0 ''ApplyPhysicalResponse'') (\<lambda>nodeId.
     bindE (requireBytes m 1 ''ApplyPhysicalResponse'') (\<lambda>modes.
     bindE (requireU32 m 2 ''ApplyPhysicalResponse'') (\<lambda>i2cSpeed.
       let result = \<lparr>ap_nodeId = nodeId, ap_modes = modes, ap_i2cSpeed = i2cSpeed,
                     ap_expectedTag = None, ap_settings = None\<rparr> in
       bindE (encodeApplyPhysicalRequest result) (\<lambda>_. Inr result)))))"

definition encodeIdentifyBackboneRequest :: "int \<Rightarrow> codec_error + bytes" where
  "encodeIdentifyBackboneRequest nodeId = encodeFields [u32Field 0 nodeId]"

text \<open>
  The pin modes the encoder lets through: the low four bits are a function number up to 12, and
  only function 1 (the general-purpose input) carries a pull, up or down but not both.
\<close>

lemma pin_mode_table:
  "list_all (\<lambda>n. \<not> invalid_pin_mode (word_of_int n :: byte) \<longleftrightarrow> n \<in> set ([0..12] @ [17, 33])) [0..255]"
  by code_simp

lemma pin_modes: "\<not> invalid_pin_mode m \<longleftrightarrow> uint m \<le> 12 \<or> uint m = 17 \<or> uint m = 33"
proof -
  have "uint m \<in> set [0..255]" using uint_bounded [of m] by simp
  with pin_mode_table have "\<not> invalid_pin_mode (word_of_int (uint m) :: byte) \<longleftrightarrow> uint m \<in> set ([0..12] @ [17, 33])"
    by (simp only: list_all_iff)
  also have "\<dots> \<longleftrightarrow> uint m \<le> 12 \<or> uint m = 17 \<or> uint m = 33"
    by auto
  finally show ?thesis by simp
qed

lemma decodeApplyPhysicalResponse_valid:
  assumes "decodeApplyPhysicalResponse bs = Inr r"
  shows "0 \<le> ap_nodeId r \<and> ap_nodeId r \<le> 0xffffff \<and> length (ap_modes r) \<in> {4, 8} \<and>
     ap_i2cSpeed r \<in> {0, 1} \<and> (\<forall>m\<in>set (ap_modes r). uint m \<le> 12 \<or> uint m = 17 \<or> uint m = 33)"
proof -
  from assms obtain bs' where e: "encodeApplyPhysicalRequest r = Inr bs'"
    by (auto simp: decodeApplyPhysicalResponse_def bindE_Inr_iff Let_def)
  then have "\<not> list_ex invalid_pin_mode (ap_modes r)"
    by (auto simp: encodeApplyPhysicalRequest_def split: if_splits)
  then have "\<forall>m\<in>set (ap_modes r). uint m \<le> 12 \<or> uint m = 17 \<or> uint m = 33"
    by (auto simp: list_ex_iff simp flip: pin_modes)
  with e show ?thesis by (auto simp: encodeApplyPhysicalRequest_def split: if_splits)
qed

lemma decodePhysicalBackbone_version:
  assumes "decodePhysicalBackbone bs = Inr (Some b)"
  shows "pb_version b \<in> {1, 2, 3} \<and> (pb_settings b = None \<longleftrightarrow> pb_version b = 1) \<and> length (pb_modes b) \<in> {4, 8}"
proof -
  have image: "(length bs = 13 \<and> bs ! 0 = 1) \<or> (length bs = 33 \<and> bs ! 0 = 2) \<or> (length bs = 37 \<and> bs ! 0 = 3)"
    using assms by (simp add: decodePhysicalBackbone_def split: if_splits)
  then obtain s where s: "optE (bs ! 0 \<ge> 2) (decodePhysicalSettings (take 20 (drop 13 bs))) = Inr s"
    and b: "pb_version b = uint (bs ! 0)" "pb_settings b = s"
      "pb_modes b = take 4 (drop 7 bs) @ (if bs ! 0 = 3 \<and> bs ! 3 = 2 then take 4 (drop 33 bs) else [])"
    using assms by (auto simp only: decodePhysicalBackbone_def bindE_Inr_iff not_True_eq_False if_False
        sum.inject option.inject PhysicalBackbone.simps simp_thms)
  have le: "\<not> 2 \<le> (1 :: byte)" "2 \<le> (2 :: byte)" "2 \<le> (3 :: byte)" by code_simp+
  from image consider "length bs = 13" "bs ! 0 = 1" | "length bs = 33" "bs ! 0 = 2" | "length bs = 37" "bs ! 0 = 3"
    by blast
  then show ?thesis
  proof cases
    case 1
    with s b le show ?thesis by simp
  next
    case 2
    with s b le show ?thesis by (auto simp: mapE_Inr_iff)
  next
    case 3
    with s b le show ?thesis by (auto simp: mapE_Inr_iff)
  qed
qed

end
