(* ===== verification/Int64.thy ===== *)
theory Int64
  imports PayloadFields
begin

text \<open>
  \<open>protocol-sdk/src/int64.ts\<close>: the lossless JSON form of the 64-bit fields. The decimal printer of
  \<open>bigint.toString()\<close> and the reader of \<open>BigInt(string)\<close> are here too; other components print numbers
  with them.
\<close>

section \<open>Decimal strings\<close>

definition digit_char :: "nat \<Rightarrow> 16 word" where
  "digit_char d = of_nat (48 + d)"

definition is_digit_char :: "16 word \<Rightarrow> bool" where
  "is_digit_char c \<longleftrightarrow> 48 \<le> c \<and> c \<le> 57"

definition char_digit :: "16 word \<Rightarrow> nat" where
  "char_digit c = unat c - 48"

fun digits_acc :: "nat \<Rightarrow> jsstr \<Rightarrow> jsstr" where
  "digits_acc n acc =
     (if n < 10 then digit_char n # acc else digits_acc (n div 10) (digit_char (n mod 10) # acc))"

declare digits_acc.simps [simp del]

definition nat_decimal :: "nat \<Rightarrow> jsstr" where
  "nat_decimal n = digits_acc n []"

definition minus_char :: "16 word" where "minus_char = 45"

definition decimal :: "int \<Rightarrow> jsstr" where
  "decimal n = (if n < 0 then minus_char # nat_decimal (nat (- n)) else nat_decimal (nat n))"

definition parse_nat :: "jsstr \<Rightarrow> nat" where
  "parse_nat s = foldl (\<lambda>n c. 10 * n + char_digit c) 0 s"

lemma digit_char_digit: "d < 10 \<Longrightarrow> is_digit_char (digit_char d) \<and> char_digit (digit_char d) = d"
proof -
  assume "d < 10"
  then have "d \<in> set [0..<10]" by simp
  moreover have "list_all (\<lambda>d. is_digit_char (digit_char d) \<and> char_digit (digit_char d) = d) [0..<10]"
    by code_simp
  ultimately show ?thesis by (simp only: list_all_iff)
qed

lemma digits_acc_append: "digits_acc n (xs @ acc) = digits_acc n xs @ acc"
proof (induction n xs rule: digits_acc.induct)
  case (1 n xs)
  then show ?case by (cases "n < 10") (simp_all add: digits_acc.simps [of n])
qed

lemma nat_decimal_rec:
  "nat_decimal n = (if n < 10 then [digit_char n] else nat_decimal (n div 10) @ [digit_char (n mod 10)])"
  using digits_acc_append [of "n div 10" "[]" "[digit_char (n mod 10)]"]
  by (simp add: nat_decimal_def digits_acc.simps [of n])

lemma parse_nat_snoc: "parse_nat (s @ [c]) = 10 * parse_nat s + char_digit c"
  by (simp add: parse_nat_def)

lemma nat_decimal_props:
  "parse_nat (nat_decimal n) = n \<and> list_all is_digit_char (nat_decimal n) \<and> nat_decimal n \<noteq> []"
proof (induction n rule: less_induct)
  case (less n)
  show ?case
  proof (cases "n < 10")
    case True
    then show ?thesis
      using digit_char_digit [OF True] by (simp add: nat_decimal_rec [of n] parse_nat_def)
  next
    case False
    then have "n div 10 < n" by simp
    note ih = less.IH [OF this]
    have "n mod 10 < 10" by simp
    note d = digit_char_digit [OF this]
    from False have rec: "nat_decimal n = nat_decimal (n div 10) @ [digit_char (n mod 10)]"
      by (simp add: nat_decimal_rec [of n])
    show ?thesis unfolding rec parse_nat_snoc using ih d by simp
  qed
qed

lemma nat_decimal_inj: "nat_decimal a = nat_decimal b \<longleftrightarrow> a = b"
  by (metis nat_decimal_props)

section \<open>\<open>int64ToJson\<close> and \<open>int64FromJson\<close>\<close>

text \<open>The JSON values the reader tells apart with \<open>typeof\<close>.\<close>

datatype json_scalar = JsonString jsstr | JsonNumber float64 | JsonOther

text \<open>The integer a finite double is, if it is one.\<close>

definition float64_int :: "float64 \<Rightarrow> int option" where
  "float64_int w =
     (let e = unat (drop_bit 52 w AND 0x7ff);
          m = 2 ^ 52 + uint (w AND 0xfffffffffffff);
          s = (if bit w 63 then -1 else 1 :: int)
      in if e = 0x7ff then None
         else if e = 0 then (if w AND 0xfffffffffffff = 0 then Some 0 else None)
         else if e \<ge> 1075 then Some (s * m * 2 ^ (e - 1075))
         else if m mod 2 ^ (1075 - e) = 0 then Some (s * (m div 2 ^ (1075 - e)))
         else None)"

definition isSafeInteger :: "float64 \<Rightarrow> bool" where
  "isSafeInteger w = (case float64_int w of None \<Rightarrow> False | Some n \<Rightarrow> \<bar>n\<bar> \<le> 2 ^ 53 - 1)"

definition int64ToJson :: "int \<Rightarrow> jsstr" where
  "int64ToJson value = decimal value"

text \<open>\<open>/^-?\d+$/\<close>\<close>

definition integer_string :: "jsstr \<Rightarrow> bool" where
  "integer_string s =
     (let body = (case s of c # r \<Rightarrow> if c = minus_char then r else s | [] \<Rightarrow> [])
      in body \<noteq> [] \<and> list_all is_digit_char body)"

text \<open>\<open>BigInt(s)\<close> of such a string.\<close>

definition bigint_of :: "jsstr \<Rightarrow> int" where
  "bigint_of s =
     (case s of
        c # r \<Rightarrow> if c = minus_char then - int (parse_nat r) else int (parse_nat s)
      | [] \<Rightarrow> 0)"

definition int64FromJson :: "json_scalar \<Rightarrow> codec_error + int" where
  "int64FromJson value =
     (case value of
        JsonString s \<Rightarrow>
          if \<not> integer_string s then Inl (InvalidMessage ''not a valid integer string'') else Inr (bigint_of s)
      | JsonNumber w \<Rightarrow>
          (if \<not> isSafeInteger w then Inl (InvalidMessage ''cannot be represented losslessly'')
           else case float64_int w of Some n \<Rightarrow> Inr n | None \<Rightarrow> Inl (InvalidMessage ''unreachable''))
      | JsonOther \<Rightarrow> Inl (InvalidMessage ''expected a decimal string or a safe-integer number''))"

lemma minus_not_digit: "is_digit_char c \<Longrightarrow> c \<noteq> minus_char"
  by (auto simp: is_digit_char_def minus_char_def)

lemma decimal_parse: "integer_string (decimal n) \<and> bigint_of (decimal n) = n"
proof (cases "n < 0")
  case True
  then show ?thesis
    using nat_decimal_props [of "nat (- n)"] by (simp add: decimal_def integer_string_def bigint_of_def Let_def)
next
  case False
  obtain c r where cr: "nat_decimal (nat n) = c # r" "is_digit_char c" "list_all is_digit_char r"
    using nat_decimal_props [of "nat n"] by (cases "nat_decimal (nat n)") auto
  then have "c \<noteq> minus_char" by (blast dest: minus_not_digit)
  with cr False nat_decimal_props [of "nat n"] show ?thesis
    by (simp add: decimal_def integer_string_def bigint_of_def Let_def)
qed

lemma decimal_inj: "decimal a = decimal b \<longleftrightarrow> a = b"
  by (metis decimal_parse)

text \<open>The JSON form of a 64-bit value is read back exactly, whatever its size.\<close>

lemma int64_json_roundtrip: "int64FromJson (JsonString (int64ToJson n)) = Inr n"
  using decimal_parse [of n] by (simp add: int64FromJson_def int64ToJson_def)

text \<open>A number is accepted only when it is a safe integer, and then it is that integer.\<close>

lemma int64FromJson_number:
  "int64FromJson (JsonNumber w) = Inr n \<longleftrightarrow> float64_int w = Some n \<and> \<bar>n\<bar> < 2 ^ 53"
  by (auto simp: int64FromJson_def isSafeInteger_def split: option.splits)

end
