(* ===== verification/Framing.thy ===== *)
theory Framing
  imports Envelope "HOL-Library.Sublist"
begin

text \<open>
  \<open>protocol-sdk/src/client/transports/framing.ts\<close>: the one-byte framing of message transports and
  the length-prefixed framing of byte streams. \<open>drain\<close> is the loop of
  \<open>StreamFrameDecoder.push\<close>; the decoder's state is its buffer.
\<close>

definition FRAME_KIND_RESPONSE :: int where "FRAME_KIND_RESPONSE = 0x00"
definition FRAME_KIND_EVENT :: int where "FRAME_KIND_EVENT = 0x01"
definition FRAME_KIND_REQUEST :: int where "FRAME_KIND_REQUEST = 0x02"

lemmas frame_kinds = FRAME_KIND_RESPONSE_def FRAME_KIND_EVENT_def FRAME_KIND_REQUEST_def

type_synonym frame = "int \<times> bytes"

definition frameMessage :: "int \<Rightarrow> bytes \<Rightarrow> bytes" where
  "frameMessage kind bs = word_of_int kind # bs"

definition unframeMessage :: "bytes \<Rightarrow> frame" where
  "unframeMessage frame = (case frame of [] \<Rightarrow> (-1, []) | k # r \<Rightarrow> (uint k, r))"

text \<open>\<open>DataView.setUint32(1, bytes.length, false)\<close> keeps the low 32 bits of the length.\<close>

definition frameStreamMessage :: "int \<Rightarrow> bytes \<Rightarrow> bytes" where
  "frameStreamMessage kind bs = word_of_int kind # be_bytes 4 (int (length bs)) @ bs"

definition MAX_FRAME :: nat where "MAX_FRAME = 2112"

definition frame_length :: "bytes \<Rightarrow> nat" where
  "frame_length buf = nat (be_int (take 4 (drop 1 buf)))"

text \<open>
  One turn of the loop: the byte at the front is skipped, or a frame is cut off, or more bytes
  are needed.
\<close>

datatype turn = Skip | Need | Frame frame bytes

definition frame_turn :: "bytes \<Rightarrow> turn" where
  "frame_turn buf =
     (if length buf < 1 then Need
      else let kind = uint (hd buf) in
        if kind \<noteq> FRAME_KIND_RESPONSE \<and> kind \<noteq> FRAME_KIND_EVENT then Skip
        else if length buf < 5 then Need
        else if frame_length buf > MAX_FRAME then Skip
        else if length buf < 5 + frame_length buf then Need
        else Frame (kind, take (frame_length buf) (drop 5 buf)) (drop (5 + frame_length buf) buf))"

lemma frame_turn_Frame_shrinks: "frame_turn buf = Frame f rest \<Longrightarrow> length rest < length buf"
  by (auto simp: frame_turn_def Let_def split: if_splits)

lemma frame_turn_Skip_nonempty: "frame_turn buf = Skip \<Longrightarrow> buf \<noteq> []"
  by (auto simp: frame_turn_def)

function drain :: "bytes \<Rightarrow> frame list \<times> bytes" where
  "drain buf =
     (case frame_turn buf of
        Need \<Rightarrow> ([], buf)
      | Skip \<Rightarrow> drain (tl buf)
      | Frame f rest \<Rightarrow> (let (fs, r) = drain rest in (f # fs, r)))"
  by pat_completeness auto

termination drain
  by (relation "measure length") (auto dest: frame_turn_Frame_shrinks frame_turn_Skip_nonempty)

declare drain.simps [simp del]

definition StreamFrameDecoder_push :: "bytes \<Rightarrow> bytes \<Rightarrow> frame list \<times> bytes" where
  "StreamFrameDecoder_push buffer chunk = drain (buffer @ chunk)"

fun push_all :: "bytes \<Rightarrow> bytes list \<Rightarrow> frame list \<times> bytes" where
  "push_all buffer [] = ([], buffer)"
| "push_all buffer (c # cs) =
     (let (fs, b) = StreamFrameDecoder_push buffer c; (gs, b') = push_all b cs in (fs @ gs, b'))"

section \<open>What is buffered, and that chunking does not matter\<close>

lemma drain_Need: "frame_turn buf = Need \<Longrightarrow> drain buf = ([], buf)"
  by (subst drain.simps) simp

lemma drain_Skip: "frame_turn buf = Skip \<Longrightarrow> drain buf = drain (tl buf)"
  by (subst drain.simps) simp

lemma drain_Frame: "frame_turn buf = Frame f rest \<Longrightarrow> drain buf = (f # fst (drain rest), snd (drain rest))"
  by (subst drain.simps) (simp add: case_prod_unfold Let_def)

lemma drain_rest_needs: "frame_turn (snd (drain buf)) = Need"
  by (induction buf rule: drain.induct)
    (subst drain.simps, auto split: turn.splits simp: case_prod_unfold Let_def)

lemma frame_turn_Need_bound: "frame_turn buf = Need \<Longrightarrow> length buf < 5 + MAX_FRAME"
  by (auto simp: frame_turn_def Let_def MAX_FRAME_def split: if_splits)

text \<open>The decoder never keeps more than an incomplete frame of the largest size.\<close>

lemma push_buffer_bounded: "length (snd (StreamFrameDecoder_push buffer chunk)) < 5 + MAX_FRAME"
  unfolding StreamFrameDecoder_push_def by (rule frame_turn_Need_bound [OF drain_rest_needs])

lemma frame_length_append: "5 \<le> length buf \<Longrightarrow> frame_length (buf @ x) = frame_length buf"
  by (simp add: frame_length_def)

lemma frame_turn_append:
  "frame_turn buf \<noteq> Need \<Longrightarrow>
   frame_turn (buf @ x) = (case frame_turn buf of Frame f rest \<Rightarrow> Frame f (rest @ x) | t \<Rightarrow> t)"
proof -
  assume "frame_turn buf \<noteq> Need"
  moreover from this have "buf \<noteq> []" by (auto simp: frame_turn_def)
  ultimately show ?thesis
    by (auto simp: frame_turn_def Let_def frame_length_append split: if_splits)
qed

text \<open>Draining in two parts is draining the whole.\<close>

lemma drain_append:
  "drain (buf @ x) = (fst (drain buf) @ fst (drain (snd (drain buf) @ x)), snd (drain (snd (drain buf) @ x)))"
proof (induction buf rule: drain.induct)
  case (1 buf)
  show ?case
  proof (cases "frame_turn buf")
    case Need
    then show ?thesis by (simp add: drain_Need)
  next
    case Skip
    then have "frame_turn (buf @ x) = Skip" by (simp add: frame_turn_append)
    moreover from Skip have "buf \<noteq> []" by (rule frame_turn_Skip_nonempty)
    ultimately have "drain (buf @ x) = drain (tl buf @ x)" by (simp add: drain_Skip)
    with 1(1) [OF Skip] show ?thesis by (simp add: drain_Skip [OF Skip])
  next
    case (Frame f rest)
    then have "frame_turn (buf @ x) = Frame f (rest @ x)" by (simp add: frame_turn_append)
    with 1(2) [OF Frame] show ?thesis by (simp add: drain_Frame [OF Frame] drain_Frame)
  qed
qed

lemma push_all_concat: "frame_turn buffer = Need \<Longrightarrow> push_all buffer cs = drain (buffer @ concat cs)"
proof (induction cs arbitrary: buffer)
  case Nil
  then show ?case by (simp add: drain_Need)
next
  case (Cons c cs)
  show ?case
    using Cons.IH [OF drain_rest_needs, of "buffer @ c"] drain_append [of "buffer @ c" "concat cs"]
    by (simp add: StreamFrameDecoder_push_def case_prod_unfold Let_def)
qed

text \<open>However the stream is cut into chunks, the same frames come out.\<close>

lemma chunking_irrelevant:
  assumes "concat cs = concat ds"
  shows "push_all [] cs = push_all [] ds"
  using push_all_concat [of "[]" cs] push_all_concat [of "[]" ds] assms
  by (simp add: frame_turn_def)

section \<open>Round trips\<close>

definition sendable :: "frame \<Rightarrow> bool" where
  "sendable f \<longleftrightarrow> fst f \<in> {FRAME_KIND_RESPONSE, FRAME_KIND_EVENT} \<and> length (snd f) \<le> MAX_FRAME"

lemma frame_turn_message:
  assumes "sendable (kind, bs)"
  shows "frame_turn (frameStreamMessage kind bs @ x) = Frame (kind, bs) x"
proof -
  have k: "uint (word_of_int kind :: byte) = kind" "kind = 0 \<or> kind = 1"
    using assms by (auto simp: sendable_def frame_kinds)
  have len: "length bs \<le> 2112" using assms by (simp add: sendable_def MAX_FRAME_def)
  have "frame_length (frameStreamMessage kind bs @ x) = length bs"
    using len be_int_roundtrip [of "int (length bs)" 4]
    by (simp add: frame_length_def frameStreamMessage_def)
  moreover have "drop (5 + length bs) (b # be_bytes 4 (int (length bs)) @ bs @ x) = x" for b
    by (simp add: drop_Cons')
  ultimately show ?thesis using k len
    by (auto simp: frame_turn_def frameStreamMessage_def Let_def frame_kinds MAX_FRAME_def)
qed

lemma drain_messages:
  "list_all sendable fs \<Longrightarrow>
   drain (concat (map (\<lambda>(k, bs). frameStreamMessage k bs) fs) @ x) = (fs @ fst (drain x), snd (drain x))"
  by (induction fs) (auto simp: drain_Frame [OF frame_turn_message])

text \<open>Bytes that cannot start a frame are skipped one by one.\<close>

lemma drain_garbage:
  "list_all (\<lambda>b. uint b > 1) g \<Longrightarrow> drain (g @ x) = drain x"
proof (induction g)
  case (Cons b g)
  then have "frame_turn (b # g @ x) = Skip" by (simp add: frame_turn_def Let_def frame_kinds)
  then have "drain (b # g @ x) = drain (g @ x)" by (simp add: drain_Skip)
  with Cons show ?case by simp
qed simp

text \<open>
  The frames of a stream, in any chunking and after any prefix of bytes that are no frame kind,
  are exactly the messages that were sent.
\<close>

lemma stream_roundtrip:
  assumes "list_all sendable fs" and "list_all (\<lambda>b. uint b > 1) g"
    and "concat chunks = g @ concat (map (\<lambda>(k, bs). frameStreamMessage k bs) fs)"
  shows "push_all [] chunks = (fs, [])"
proof -
  have "push_all [] chunks = drain (concat chunks)"
    using push_all_concat [of "[]" chunks] by (simp add: frame_turn_def)
  also have "\<dots> = drain (concat (map (\<lambda>(k, bs). frameStreamMessage k bs) fs) @ [])"
    using drain_garbage [OF assms(2)] by (simp add: assms(3))
  also have "\<dots> = (fs, [])"
    unfolding drain_messages [OF assms(1)] by (simp add: drain_Need frame_turn_def)
  finally show ?thesis .
qed

lemma unframe_frame: "0 \<le> kind \<Longrightarrow> kind < 256 \<Longrightarrow> unframeMessage (frameMessage kind bs) = (kind, bs)"
  by (simp add: unframeMessage_def frameMessage_def uint_byte_of_int)

text \<open>Every envelope the protocol encodes fits in a frame.\<close>

lemma encodeHead_length: "encodeHead mt n = Inr bs \<Longrightarrow> length bs \<le> 9"
  by (auto simp: encodeHead_def split: if_splits)

lemma encodeEnvelope_length:
  assumes "encodeEnvelope a b p = Inr bs"
  shows "length bs \<le> 2112"
proof -
  from assms have p: "length p \<le> 2048" by (simp add: encodeEnvelope_def PAYLOAD_ABSOLUTE_MAX_def split: if_splits)
  from assms obtain v x y h k0 k1 k2 k3 where
    e: "encodeUint 1 = Inr v" "encodeUint a = Inr x" "encodeUint b = Inr y"
      "encodeHead MAJOR_BYTES (int (length p)) = Inr h"
    and k: "encodeUint 0 = Inr k0" "encodeUint 1 = Inr k1" "encodeUint 2 = Inr k2" "encodeUint 3 = Inr k3"
    and bs: "bs = encodeMapHeader @ k0 @ v @ k1 @ x @ k2 @ y @ k3 @ (h @ p) @ encodeBreak"
    by (auto simp: encodeEnvelope_def envelope_consts encodeFields_def rawField_def encodeMap_def
        concatBytes_def encodeBytes_def bindE_Inr_iff mapE_Inr_iff split: if_splits)
  from k have "length k0 = 1" "length k1 = 1" "length k2 = 1" "length k3 = 1"
    by (auto simp: encodeUint_def encodeHead_def)
  moreover have "length v \<le> 9" "length x \<le> 9" "length y \<le> 9" "length h \<le> 9"
    using e by (auto simp: encodeUint_def dest: encodeHead_length)
  ultimately show ?thesis
    using p by (simp add: bs encodeMapHeader_def encodeBreak_def)
qed

end
