(* ===== verification/EventStream.thy ===== *)
theory EventStream
  imports Events Envelope "HOL-Library.Sublist"
begin

text \<open>
  \<open>protocol-sdk/src/client/event-stream.ts\<close>: the bounded, gap-signalling stream of Core events. A
  promise returned by \<open>next\<close> is a ticket; \<open>es_delivered\<close> is the list of the tickets resolved so
  far with their events, in the order of resolution, and \<open>es_pushed\<close> the list of all events pushed
  (a history the code does not keep). The interface \<open>bounded_ring\<close>, what a buffer that drops its
  oldest element promises, is shared with the telemetry buffer.
\<close>

section \<open>Buffers that drop their oldest element\<close>

locale bounded_ring =
  fixes items :: "'s \<Rightarrow> 'e list"
    and dropped :: "'s \<Rightarrow> nat"
    and cap :: "'s \<Rightarrow> nat"
    and add :: "'e \<Rightarrow> 's \<Rightarrow> 's"
  assumes cap_add: "cap (add e s) = cap s"
    and items_add: "items (add e s) = (if length (items s) \<ge> cap s then tl (items s) else items s) @ [e]"
    and dropped_add: "dropped (add e s) = (if length (items s) \<ge> cap s then dropped s + 1 else dropped s)"
begin

definition within :: "'s \<Rightarrow> bool" where
  "within s \<longleftrightarrow> 0 < cap s \<and> length (items s) \<le> cap s"

lemma within_add: "within s \<Longrightarrow> within (add e s)"
  by (cases "items s") (auto simp: within_def cap_add items_add)

definition add_list :: "'e list \<Rightarrow> 's \<Rightarrow> 's" where
  "add_list es s = fold add es s"

lemma within_add_list: "within s \<Longrightarrow> within (add_list es s)"
  unfolding add_list_def by (induction es arbitrary: s) (auto intro: within_add)

lemma cap_add_list: "cap (add_list es s) = cap s"
  unfolding add_list_def by (induction es arbitrary: s) (auto simp: cap_add)

text \<open>What is left is a suffix of all that was added, and the drops count what is missing.\<close>

lemma add_list_suffix: "suffix (items (add_list es s)) (items s @ es)"
proof (induction es arbitrary: s)
  case (Cons e es)
  have "suffix (items (add e s) @ es) (items s @ e # es)"
    by (cases "items s") (auto simp: items_add suffix_def)
  with Cons [of "add e s"] show ?case
    unfolding add_list_def by simp
qed (simp add: add_list_def)

lemma add_list_conserves:
  assumes "within s"
  shows "length (items (add_list es s)) + dropped (add_list es s) = length (items s) + dropped s + length es"
  using assms
proof (induction es arbitrary: s)
  case (Cons e es)
  have "length (items (add e s)) + dropped (add e s) = length (items s) + dropped s + 1"
    using Cons.prems by (cases "items s") (auto simp: items_add dropped_add within_def)
  with Cons.IH [OF within_add [OF Cons.prems, of e]] show ?case
    by (simp add: add_list_def)
qed (simp add: add_list_def)

text \<open>Nothing is dropped before the buffer is full.\<close>

lemma add_list_no_drop:
  "length (items s) + length es \<le> cap s \<Longrightarrow>
     items (add_list es s) = items s @ es \<and> dropped (add_list es s) = dropped s"
  unfolding add_list_def
proof (induction es arbitrary: s)
  case (Cons e es)
  have "items (add e s) = items s @ [e]" "dropped (add e s) = dropped s" "cap (add e s) = cap s"
    using Cons.prems by (auto simp: items_add dropped_add cap_add)
  with Cons show ?case by simp
qed simp

end

section \<open>The stream\<close>

datatype gap_reason = BootIdChanged | SequenceDiscontinuity

datatype streamed_event =
    StreamedRecord RecordEventPayload
  | StreamedStatus StatusEventPayload
  | StreamedDiscovery DiscoveryEventPayload
  | StreamedConnectivity ConnectivityEventPayload
  | StreamedGap gap_reason int int

text \<open>
  A gap carries the two numbers its message names: the old and the new boot ID, or the expected
  and the received sequence number.
\<close>

record event_stream =
  es_capacity :: nat
  es_buffer :: "streamed_event list"
  es_waiting :: "nat list"
  es_lastKnownBootId :: "int option"
  es_lastSequence :: "(int, int) jsmap"
  es_dropCount :: nat
  es_tickets :: nat
  es_delivered :: "(nat \<times> streamed_event) list"
  es_pushed :: "streamed_event list"

definition new_stream :: "nat option \<Rightarrow> event_stream" where
  "new_stream capacity =
     \<lparr>es_capacity = (case capacity of None \<Rightarrow> 256 | Some c \<Rightarrow> c), es_buffer = [], es_waiting = [],
      es_lastKnownBootId = None, es_lastSequence = [], es_dropCount = 0, es_tickets = 0,
      es_delivered = [], es_pushed = []\<rparr>"

definition buffer_push :: "streamed_event \<Rightarrow> event_stream \<Rightarrow> event_stream" where
  "buffer_push e s =
     (let s' = (if length (es_buffer s) \<ge> es_capacity s
                then s\<lparr>es_buffer := tl (es_buffer s), es_dropCount := es_dropCount s + 1\<rparr> else s)
      in s'\<lparr>es_buffer := es_buffer s' @ [e]\<rparr>)"

definition stream_push :: "streamed_event \<Rightarrow> event_stream \<Rightarrow> event_stream" where
  "stream_push e s0 =
     (let s = s0\<lparr>es_pushed := es_pushed s0 @ [e]\<rparr> in
      case es_waiting s of
        w # ws \<Rightarrow> s\<lparr>es_waiting := ws, es_delivered := es_delivered s @ [(w, e)]\<rparr>
      | [] \<Rightarrow> buffer_push e s)"

definition checkBootIdGap :: "int \<Rightarrow> event_stream \<Rightarrow> event_stream" where
  "checkBootIdGap bootId s =
     (let s' = (case es_lastKnownBootId s of
                  Some old \<Rightarrow>
                    if bootId \<noteq> old
                    then (stream_push (StreamedGap BootIdChanged old bootId) s)\<lparr>es_lastSequence := []\<rparr>
                    else s
                | None \<Rightarrow> s)
      in s'\<lparr>es_lastKnownBootId := Some bootId\<rparr>)"

definition checkSequenceGap :: "int \<Rightarrow> int \<Rightarrow> event_stream \<Rightarrow> event_stream" where
  "checkSequenceGap sourceKey sequence s =
     (let s' = (case jm_get (es_lastSequence s) sourceKey of
                  Some prev \<Rightarrow>
                    if sequence \<noteq> prev + 1
                    then stream_push (StreamedGap SequenceDiscontinuity (prev + 1) sequence) s else s
                | None \<Rightarrow> s)
      in s'\<lparr>es_lastSequence := jm_put sourceKey sequence (es_lastSequence s')\<rparr>)"

definition handleIncoming :: "bytes \<Rightarrow> event_stream \<Rightarrow> event_stream" where
  "handleIncoming bs s =
     (case decodeEvent bs of
        Inl _ \<Rightarrow> s
      | Inr event \<Rightarrow>
          if ev_type event = event_code RECORD then
            (case decodeRecordEventPayload (ev_payload event) of
               Inl _ \<Rightarrow> s
             | Inr p \<Rightarrow> stream_push (StreamedRecord p) (checkSequenceGap (rec_sourceKey p) (rec_sequence p) s))
          else if ev_type event = event_code STATUS then
            (case decodeStatusEventPayload (ev_payload event) of
               Inl _ \<Rightarrow> s
             | Inr p \<Rightarrow> stream_push (StreamedStatus p) (checkBootIdGap (sev_bootId p) s))
          else if ev_type event = event_code DISCOVERY then
            (case decodeDiscoveryEventPayload (ev_payload event) of
               Inl _ \<Rightarrow> s
             | Inr p \<Rightarrow> stream_push (StreamedDiscovery p) s)
          else if ev_type event = event_code CONNECTIVITY then
            (case decodeConnectivityEventPayload (ev_payload event) of
               Inl _ \<Rightarrow> s
             | Inr p \<Rightarrow> stream_push (StreamedConnectivity p) s)
          else s)"

text \<open>\<open>next()\<close>: the ticket of the promise; it is resolved at once when an event is buffered.\<close>

definition stream_next :: "event_stream \<Rightarrow> nat \<times> event_stream" where
  "stream_next s =
     (let t = es_tickets s; s' = s\<lparr>es_tickets := t + 1\<rparr> in
      case es_buffer s of
        e # r \<Rightarrow> (t, s'\<lparr>es_buffer := r, es_delivered := es_delivered s @ [(t, e)]\<rparr>)
      | [] \<Rightarrow> (t, s'\<lparr>es_waiting := es_waiting s @ [t]\<rparr>))"

interpretation stream_ring: bounded_ring es_buffer es_dropCount es_capacity buffer_push
  by unfold_locales (auto simp: buffer_push_def Let_def)

section \<open>Invariant\<close>

text \<open>
  No consumer waits while an event is buffered, the buffer stays within its capacity, every event
  pushed was delivered, is buffered or was counted as dropped, and consumers see the events in the
  order they were pushed.
\<close>

definition stream_inv :: "event_stream \<Rightarrow> bool" where
  "stream_inv s \<longleftrightarrow>
     stream_ring.within s \<and>
     (es_waiting s \<noteq> [] \<longrightarrow> es_buffer s = []) \<and>
     length (es_pushed s) = length (es_delivered s) + length (es_buffer s) + es_dropCount s \<and>
     subseq (map snd (es_delivered s) @ es_buffer s) (es_pushed s) \<and>
     suffix (es_buffer s) (es_pushed s)"

lemma stream_inv_new: "0 < c \<Longrightarrow> stream_inv (new_stream (Some c))"
  by (simp add: stream_inv_def new_stream_def stream_ring.within_def)

lemma stream_inv_push:
  assumes "stream_inv s"
  shows "stream_inv (stream_push e s)"
proof (cases "es_waiting s")
  case (Cons w ws)
  with assms have "es_buffer s = []" by (simp add: stream_inv_def)
  with Cons assms show ?thesis
    by (auto simp: stream_inv_def stream_push_def stream_ring.within_def intro: list_emb_append_mono)
next
  case Nil
  let ?s = "s\<lparr>es_pushed := es_pushed s @ [e]\<rparr>"
  have push: "stream_push e s = buffer_push e ?s" by (simp add: stream_push_def Nil)
  have w: "stream_ring.within ?s" using assms by (simp add: stream_inv_def stream_ring.within_def)
  let ?b = "if length (es_buffer s) \<ge> es_capacity s then tl (es_buffer s) else es_buffer s"
  have b: "es_buffer (stream_push e s) = ?b @ [e]" "es_waiting (stream_push e s) = []"
    "es_pushed (stream_push e s) = es_pushed s @ [e]" "es_delivered (stream_push e s) = es_delivered s"
    by (simp_all add: push stream_ring.items_add) (simp_all add: buffer_push_def Let_def Nil)
  have sub: "subseq ?b (es_buffer s)" by (cases "es_buffer s") auto
  have suf: "suffix ?b (es_buffer s)" by (cases "es_buffer s") (auto simp: suffix_def)
  have c: "length (es_buffer (stream_push e s)) + es_dropCount (stream_push e s)
      = length (es_buffer s) + es_dropCount s + 1"
    using stream_ring.add_list_conserves [OF w, of "[e]"] by (simp add: push stream_ring.add_list_def)
  have "subseq (map snd (es_delivered s) @ ?b) (map snd (es_delivered s) @ es_buffer s)"
    using sub by (simp only: subseq_append')
  also have "subseq \<dots> (es_pushed s)" using assms by (simp add: stream_inv_def)
  finally have "subseq ((map snd (es_delivered s) @ ?b) @ [e]) (es_pushed s @ [e])"
    by (simp only: subseq_append)
  moreover have "suffix ?b (es_pushed s)"
    using assms by (intro suffix_order.trans [OF suf]) (simp add: stream_inv_def)
  then have "suffix (?b @ [e]) (es_pushed s @ [e])" by simp
  moreover have "stream_ring.within (stream_push e s)"
    unfolding push by (rule stream_ring.within_add [OF w])
  ultimately show ?thesis
    using assms c unfolding stream_inv_def b by simp
qed

lemma stream_inv_trackers:
  "stream_inv (s\<lparr>es_lastKnownBootId := x\<rparr>) = stream_inv s"
  "stream_inv (s\<lparr>es_lastSequence := y\<rparr>) = stream_inv s"
  by (simp_all add: stream_inv_def stream_ring.within_def)

lemma stream_inv_checks:
  "stream_inv s \<Longrightarrow> stream_inv (checkBootIdGap b s)"
  "stream_inv s \<Longrightarrow> stream_inv (checkSequenceGap k q s)"
  by (auto simp: checkBootIdGap_def checkSequenceGap_def Let_def stream_inv_trackers stream_inv_push
      split: option.split)

lemma stream_inv_incoming: "stream_inv s \<Longrightarrow> stream_inv (handleIncoming bs s)"
  by (auto simp: handleIncoming_def stream_inv_push stream_inv_checks split: sum.split)

lemma stream_inv_next: "stream_inv s \<Longrightarrow> stream_inv (snd (stream_next s))"
  by (auto simp: stream_next_def stream_inv_def stream_ring.within_def Let_def split: list.split
      dest: suffix_ConsD)

text \<open>A run of the stream: arriving messages and calls of \<open>next\<close>, in any order.\<close>

datatype stream_action = Arrive bytes | Next

fun stream_step :: "stream_action \<Rightarrow> event_stream \<Rightarrow> event_stream" where
  "stream_step (Arrive bs) s = handleIncoming bs s"
| "stream_step Next s = snd (stream_next s)"

lemma stream_run_inv: "stream_inv s \<Longrightarrow> stream_inv (fold stream_step as s)"
proof (induction as arbitrary: s)
  case (Cons a as)
  then show ?case by (cases a) (simp_all add: stream_inv_incoming stream_inv_next)
qed simp

section \<open>Gaps\<close>

lemma pushed_push [simp]: "es_pushed (stream_push e s) = es_pushed s @ [e]"
  by (simp add: stream_push_def buffer_push_def Let_def split: list.split)

lemma trackers_push [simp]:
  "es_lastSequence (stream_push e s) = es_lastSequence s"
  "es_lastKnownBootId (stream_push e s) = es_lastKnownBootId s"
  by (simp_all add: stream_push_def buffer_push_def Let_def split: list.split)

text \<open>
  A record that does not follow the last one of its source is preceded by a gap, and a record that
  does is not; a status with a new boot ID is preceded by a gap that forgets all sequences.
\<close>

lemma handle_record:
  assumes "decodeEvent bs = Inr \<lparr>ev_sequence = n, ev_type = 1, ev_payload = pl\<rparr>"
    and "decodeRecordEventPayload pl = Inr p"
  shows "es_pushed (handleIncoming bs s) = es_pushed s @
      (case jm_get (es_lastSequence s) (rec_sourceKey p) of
         Some prev \<Rightarrow> if rec_sequence p = prev + 1 then []
                      else [StreamedGap SequenceDiscontinuity (prev + 1) (rec_sequence p)]
       | None \<Rightarrow> []) @ [StreamedRecord p]"
    and "jm_get (es_lastSequence (handleIncoming bs s)) (rec_sourceKey p) = Some (rec_sequence p)"
  using assms
  by (auto simp: handleIncoming_def checkSequenceGap_def Let_def jm.get_put split: option.split)

lemma handle_status:
  assumes "decodeEvent bs = Inr \<lparr>ev_sequence = n, ev_type = 2, ev_payload = pl\<rparr>"
    and "decodeStatusEventPayload pl = Inr p"
  shows "es_pushed (handleIncoming bs s) = es_pushed s @
      (case es_lastKnownBootId s of
         Some old \<Rightarrow> if sev_bootId p = old then [] else [StreamedGap BootIdChanged old (sev_bootId p)]
       | None \<Rightarrow> []) @ [StreamedStatus p]"
    and "es_lastKnownBootId (handleIncoming bs s) = Some (sev_bootId p)"
    and "(\<exists>old. es_lastKnownBootId s = Some old \<and> old \<noteq> sev_bootId p) \<Longrightarrow>
           es_lastSequence (handleIncoming bs s) = []"
  using assms by (auto simp: handleIncoming_def checkBootIdGap_def Let_def split: option.split)

lemma handle_malformed: "decodeEvent bs = Inl e \<Longrightarrow> handleIncoming bs s = s"
  by (simp add: handleIncoming_def)

text \<open>With capacity 0 the bound is not kept: the one slot that is always used counts as a drop.\<close>

lemma capacity_zero:
  "es_buffer (stream_push e (new_stream (Some 0))) = [e] \<and> es_dropCount (stream_push e (new_stream (Some 0))) = 1"
  by (simp add: stream_push_def buffer_push_def new_stream_def Let_def)

end
