(* ===== verification/Client.thy ===== *)
theory Client
  imports Events Envelope
begin

text \<open>
  \<open>protocol-sdk/src/client/spaghetti-client.ts\<close> and \<open>errors.ts\<close>: the pending table of
  \<open>SpaghettiClient\<close>, its response and event handlers, and \<open>request\<close> as a state machine. A label
  of the machine is one task of the event loop (a call, a message, a timer, an abort); what the
  code does until it awaits again, including the reactions of the promises it settles, is one
  step. Times are the values of \<open>Date.now()\<close>.
\<close>

section \<open>Errors\<close>

record ConfigApplyFailure =
  cf_errno :: int
  cf_phase :: jsstr
  cf_rollbackErrno :: int

text \<open>\<open>decodeConfigApplyFailure\<close>: any malformed payload is \<open>undefined\<close>.\<close>

definition decodeConfigApplyFailure :: "bytes \<Rightarrow> ConfigApplyFailure option" where
  "decodeConfigApplyFailure payload =
     (case decodeOne payload of
        Inr (CMap m) \<Rightarrow>
          (case (jm_get m 0, jm_get m 1, jm_get m 2) of
             (Some (CInt errno), Some (CText phase), Some rollback) \<Rightarrow>
               (case (case rollback of CInt n \<Rightarrow> Some n | CUint n \<Rightarrow> Some n | _ \<Rightarrow> None) of
                  Some r \<Rightarrow>
                    if errno < -2147483648 \<or> phase = [] \<or> r < -2147483648 \<or> r > 2147483647 then None
                    else Some \<lparr>cf_errno = js_number errno, cf_phase = phase, cf_rollbackErrno = js_number r\<rparr>
                | None \<Rightarrow> None)
           | _ \<Rightarrow> None)
      | _ \<Rightarrow> None)"

datatype client_error_code =
  ErrTimeout | ErrCancelled | ErrCorrelationConflict | ErrRebootDuringRequest | ErrProtocol

record client_error =
  ce_code :: client_error_code
  ce_operation :: "int option"
  ce_correlationId :: "int option"
  ce_status :: "int option"
  ce_configFailure :: "ConfigApplyFailure option"

definition client_error :: "client_error_code \<Rightarrow> int \<Rightarrow> int \<Rightarrow> client_error" where
  "client_error code operation cid =
     \<lparr>ce_code = code, ce_operation = Some operation, ce_correlationId = Some cid, ce_status = None,
      ce_configFailure = None\<rparr>"

section \<open>The client object\<close>

text \<open>
  A pending entry names the call whose promise it settles; the table maps correlation identifiers
  to entries.
\<close>

record pending_entry =
  pe_operation :: int
  pe_call :: nat

record spaghetti_client =
  sc_pending :: "(int, pending_entry) jsmap"
  sc_nextCorrelationId :: int
  sc_lastKnownBootId :: "int option"
  sc_subscribed :: bool

type_synonym settlement = "nat \<times> (client_error + bytes)"

text \<open>\<open>for (let i = 0; i < 0xffffffff; i++)\<close>, \<open>n\<close> turns left.\<close>

function allocate_loop :: "nat \<Rightarrow> spaghetti_client \<Rightarrow> client_error + (int \<times> spaghetti_client)" where
  "allocate_loop n c =
     (if n = 0 then
        Inl \<lparr>ce_code = ErrCorrelationConflict, ce_operation = None, ce_correlationId = None,
             ce_status = None, ce_configFailure = None\<rparr>
      else
        let next = (if sc_nextCorrelationId c = 0xffffffff then 1 else sc_nextCorrelationId c + 1);
            c' = c\<lparr>sc_nextCorrelationId := next\<rparr>
        in if \<not> jm_has (sc_pending c') next then Inr (next, c') else allocate_loop (n - 1) c')"
  by pat_completeness auto

termination allocate_loop
  by (relation "measure fst") auto

declare allocate_loop.simps [simp del]

definition allocateCorrelationId :: "spaghetti_client \<Rightarrow> client_error + (int \<times> spaghetti_client)" where
  "allocateCorrelationId c = allocate_loop 0xffffffff c"

definition handleResponse :: "bytes \<Rightarrow> spaghetti_client \<Rightarrow> spaghetti_client \<times> settlement list" where
  "handleResponse bs c =
     (case decodeResponse bs of
        Inl _ \<Rightarrow> (c, [])
      | Inr r \<Rightarrow>
          (case jm_get (sc_pending c) (rs_correlationId r) of
             None \<Rightarrow> (c, [])
           | Some entry \<Rightarrow>
               (c\<lparr>sc_pending := jm_del (rs_correlationId r) (sc_pending c)\<rparr>,
                [(pe_call entry,
                  if rs_status r = status_code StatusOK then Inr (rs_payload r)
                  else Inl \<lparr>ce_code = ErrProtocol, ce_operation = Some (pe_operation entry),
                            ce_correlationId = Some (rs_correlationId r), ce_status = Some (rs_status r),
                            ce_configFailure =
                              (if pe_operation entry = operation_code APPLY_CONFIG
                               then decodeConfigApplyFailure (rs_payload r) else None)\<rparr>)])))"

definition reject_all :: "client_error_code \<Rightarrow> spaghetti_client \<Rightarrow> settlement list" where
  "reject_all code c =
     map (\<lambda>(cid, entry). (pe_call entry, Inl (client_error code (pe_operation entry) cid))) (sc_pending c)"

definition handleEvent :: "bytes \<Rightarrow> spaghetti_client \<Rightarrow> spaghetti_client \<times> settlement list" where
  "handleEvent bs c =
     (case decodeEvent bs of
        Inl _ \<Rightarrow> (c, [])
      | Inr e \<Rightarrow>
          if ev_type e \<noteq> event_code STATUS then (c, [])
          else (case decodeStatusEventPayload (ev_payload e) of
                  Inl _ \<Rightarrow> (c, [])
                | Inr p \<Rightarrow>
                    (let rebooted = (sc_lastKnownBootId c \<noteq> None \<and> Some (sev_bootId p) \<noteq> sc_lastKnownBootId c);
                         c' = c\<lparr>sc_lastKnownBootId := Some (sev_bootId p)\<rparr>
                     in if \<not> rebooted then (c', [])
                        else (c'\<lparr>sc_pending := []\<rparr>, reject_all ErrRebootDuringRequest c'))))"

definition dispose :: "spaghetti_client \<Rightarrow> spaghetti_client \<times> settlement list" where
  "dispose c = (c\<lparr>sc_subscribed := False, sc_pending := []\<rparr>, reject_all ErrCancelled c)"

section \<open>Requests\<close>

record request_options =
  ro_timeoutMs :: int
  ro_maxRetries :: nat
  ro_retryDelayMs :: int
  ro_attemptTimeoutMs :: int

definition default_options :: request_options where
  "default_options = \<lparr>ro_timeoutMs = 5000, ro_maxRetries = 2, ro_retryDelayMs = 200, ro_attemptTimeoutMs = 2000\<rparr>"

text \<open>
  Why a call ended without a payload: a client error, an envelope that cannot be encoded, or the
  error of the transport.
\<close>

datatype call_failure = ClientFailure client_error | CodecFailure codec_error | TransportFailure

text \<open>
  Where \<open>request\<close> awaits: the transport write, the reply (until a time), the retry delay (until a
  time); or it has returned or thrown.
\<close>

datatype call_phase = Sending | Waiting int | Delaying int | Returned "call_failure + bytes"

record call =
  k_operation :: int
  k_payload :: bytes
  k_correlationId :: int
  k_attempt :: nat
  k_deadline :: int
  k_aborted :: bool
  k_reply :: "(client_error + bytes) option"
  k_phase :: call_phase

record client_system =
  sy_now :: int
  sy_client :: spaghetti_client
  sy_calls :: "(nat, call) jsmap"
  sy_sent :: "(nat \<times> RequestEnvelope) list"

definition put_call :: "nat \<Rightarrow> call \<Rightarrow> client_system \<Rightarrow> client_system" where
  "put_call i k s = s\<lparr>sy_calls := jm_put i k (sy_calls s)\<rparr>"

definition set_pending :: "((int, pending_entry) jsmap \<Rightarrow> (int, pending_entry) jsmap) \<Rightarrow> client_system \<Rightarrow> client_system" where
  "set_pending f s = s\<lparr>sy_client := (sy_client s)\<lparr>sc_pending := f (sc_pending (sy_client s))\<rparr>\<rparr>"

text \<open>\<open>this.pending.delete(correlationId)\<close>, then return or throw.\<close>

definition finish :: "nat \<Rightarrow> call \<Rightarrow> call_failure + bytes \<Rightarrow> client_system \<Rightarrow> client_system" where
  "finish i k r s = put_call i (k\<lparr>k_phase := Returned r\<rparr>) (set_pending (jm_del (k_correlationId k)) s)"

definition give_up :: "nat \<Rightarrow> call \<Rightarrow> client_error_code \<Rightarrow> client_system \<Rightarrow> client_system" where
  "give_up i k code s = finish i k (Inl (ClientFailure (client_error code (k_operation k) (k_correlationId k)))) s"

definition call_envelope :: "call \<Rightarrow> RequestEnvelope" where
  "call_envelope k = \<lparr>rq_correlationId = k_correlationId k, rq_operation = k_operation k, rq_payload = k_payload k\<rparr>"

text \<open>The head of the loop: a new promise, the pending entry, and the write.\<close>

definition start_attempt :: "nat \<Rightarrow> call \<Rightarrow> client_system \<Rightarrow> client_system" where
  "start_attempt i k0 s0 =
     (let k = k0\<lparr>k_reply := None, k_phase := Sending\<rparr>;
          s = set_pending (jm_put (k_correlationId k) \<lparr>pe_operation = k_operation k, pe_call = i\<rparr>) s0
      in case encodeRequest (call_envelope k) of
           Inl e \<Rightarrow> finish i k (Inl (CodecFailure e)) s
         | Inr bs \<Rightarrow>
             (let s' = s\<lparr>sy_sent := sy_sent s @ [(i, call_envelope k)]\<rparr>
              in if k_aborted k then give_up i k ErrCancelled s' else put_call i k s'))"

text \<open>A settled promise: the race of a waiting call is decided; a call still writing sees it later.\<close>

definition as_result :: "client_error + bytes \<Rightarrow> call_failure + bytes" where
  "as_result r = (case r of Inl e \<Rightarrow> Inl (ClientFailure e) | Inr b \<Rightarrow> Inr b)"

definition settle :: "settlement \<Rightarrow> client_system \<Rightarrow> client_system" where
  "settle x s =
     (case jm_get (sy_calls s) (fst x) of
        None \<Rightarrow> s
      | Some k \<Rightarrow>
          (case k_phase k of
             Waiting _ \<Rightarrow> finish (fst x) (k\<lparr>k_reply := Some (snd x)\<rparr>) (as_result (snd x)) s
           | Sending \<Rightarrow> put_call (fst x) (k\<lparr>k_reply := Some (snd x)\<rparr>) s
           | _ \<Rightarrow> s))"

definition with_client :: "spaghetti_client \<times> settlement list \<Rightarrow> client_system \<Rightarrow> client_system" where
  "with_client r s = fold settle (snd r) (s\<lparr>sy_client := fst r\<rparr>)"

datatype label =
    Call nat int bytes bool
  | SendResolves nat | SendRejects nat | SendTimer nat
  | AttemptTimer nat | RetryTimer nat | Abort nat
  | ResponseArrives bytes | EventArrives bytes | Dispose | Tick nat

text \<open>After the write: the checks before the race.\<close>

definition after_send :: "request_options \<Rightarrow> nat \<Rightarrow> call \<Rightarrow> client_system \<Rightarrow> client_system" where
  "after_send opts i k s =
     (if k_aborted k then give_up i k ErrCancelled s
      else let remaining = k_deadline k - sy_now s in
        if remaining \<le> 0 then give_up i k ErrTimeout s
        else case k_reply k of
               Some r \<Rightarrow> finish i k (as_result r) s
             | None \<Rightarrow> put_call i (k\<lparr>k_phase := Waiting (sy_now s + min (ro_attemptTimeoutMs opts) remaining)\<rparr>) s)"

fun step :: "request_options \<Rightarrow> label \<Rightarrow> client_system \<Rightarrow> client_system option" where
  "step opts (Call i op payload aborted) s =
     (if jm_has (sy_calls s) i then None
      else let k0 = \<lparr>k_operation = op, k_payload = payload, k_correlationId = 0, k_attempt = 0,
                     k_deadline = sy_now s + ro_timeoutMs opts, k_aborted = aborted, k_reply = None,
                     k_phase = Sending\<rparr> in
        if aborted then
          Some (put_call i (k0\<lparr>k_phase := Returned (Inl (ClientFailure
            \<lparr>ce_code = ErrCancelled, ce_operation = Some op, ce_correlationId = None, ce_status = None,
             ce_configFailure = None\<rparr>))\<rparr>) s)
        else case allocateCorrelationId (sy_client s) of
               Inl e \<Rightarrow> Some (put_call i (k0\<lparr>k_phase := Returned (Inl (ClientFailure e))\<rparr>) s)
             | Inr (cid, c) \<Rightarrow> Some (start_attempt i (k0\<lparr>k_correlationId := cid\<rparr>) (s\<lparr>sy_client := c\<rparr>)))"
| "step opts (SendResolves i) s =
     (case jm_get (sy_calls s) i of
        Some k \<Rightarrow> if k_phase k = Sending then Some (after_send opts i k s) else None
      | None \<Rightarrow> None)"
| "step opts (SendRejects i) s =
     (case jm_get (sy_calls s) i of
        Some k \<Rightarrow> if k_phase k = Sending then Some (finish i k (Inl TransportFailure) s) else None
      | None \<Rightarrow> None)"
| "step opts (SendTimer i) s =
     (case jm_get (sy_calls s) i of
        Some k \<Rightarrow> if k_phase k = Sending \<and> k_deadline k \<le> sy_now s then Some (give_up i k ErrTimeout s) else None
      | None \<Rightarrow> None)"
| "step opts (AttemptTimer i) s =
     (case jm_get (sy_calls s) i of
        Some k \<Rightarrow>
          (case k_phase k of
             Waiting w \<Rightarrow>
               if sy_now s < w then None
               else if ro_maxRetries opts \<le> k_attempt k \<or> k_deadline k \<le> sy_now s then Some (give_up i k ErrTimeout s)
               else Some (put_call i (k\<lparr>k_phase := Delaying (sy_now s + max 0 (ro_retryDelayMs opts))\<rparr>)
                      (set_pending (jm_del (k_correlationId k)) s))
           | _ \<Rightarrow> None)
      | None \<Rightarrow> None)"
| "step opts (RetryTimer i) s =
     (case jm_get (sy_calls s) i of
        Some k \<Rightarrow>
          (case k_phase k of
             Delaying u \<Rightarrow>
               if sy_now s < u then None
               else Some (start_attempt i (k\<lparr>k_attempt := k_attempt k + 1\<rparr>) s)
           | _ \<Rightarrow> None)
      | None \<Rightarrow> None)"
| "step opts (Abort i) s =
     (case jm_get (sy_calls s) i of
        Some k \<Rightarrow>
          (let k' = k\<lparr>k_aborted := True\<rparr> in
           case k_phase k of
             Sending \<Rightarrow> Some (give_up i k' ErrCancelled s)
           | Waiting _ \<Rightarrow> Some (give_up i k' ErrCancelled s)
           | _ \<Rightarrow> Some (put_call i k' s))
      | None \<Rightarrow> None)"
| "step opts (ResponseArrives bs) s =
     (if sc_subscribed (sy_client s) then Some (with_client (handleResponse bs (sy_client s)) s) else None)"
| "step opts (EventArrives bs) s =
     (if sc_subscribed (sy_client s) then Some (with_client (handleEvent bs (sy_client s)) s) else None)"
| "step opts Dispose s = Some (with_client (dispose (sy_client s)) s)"
| "step opts (Tick d) s = Some (s\<lparr>sy_now := sy_now s + int d\<rparr>)"

declare step.simps [simp del]

fun run :: "request_options \<Rightarrow> label list \<Rightarrow> client_system \<Rightarrow> client_system option" where
  "run opts [] s = Some s"
| "run opts (l # ls) s = (case step opts l s of None \<Rightarrow> None | Some s' \<Rightarrow> run opts ls s')"

definition new_client :: "int \<Rightarrow> spaghetti_client" where
  "new_client first = \<lparr>sc_pending = [], sc_nextCorrelationId = first, sc_lastKnownBootId = None, sc_subscribed = True\<rparr>"

definition new_system :: "int \<Rightarrow> int \<Rightarrow> client_system" where
  "new_system now first = \<lparr>sy_now = now, sy_client = new_client first, sy_calls = [], sy_sent = []\<rparr>"

text \<open>
  Reachable states: as relation, for rule induction. \<open>reachable opts s0 s\<close> is reached from \<open>s0\<close> by
  some run.
\<close>

inductive reachable :: "request_options \<Rightarrow> client_system \<Rightarrow> client_system \<Rightarrow> bool"
  for opts :: request_options and s0 :: client_system where
  init: "reachable opts s0 s0"
| more: "reachable opts s0 s \<Longrightarrow> step opts l s = Some s' \<Longrightarrow> reachable opts s0 s'"

inductive_cases reachableE: "reachable opts s0 s"

lemma run_reachable: "run opts ls s = Some s' \<Longrightarrow> reachable opts s0 s \<Longrightarrow> reachable opts s0 s'"
  by (induction ls arbitrary: s) (auto split: option.splits intro: reachable.more)

end
