(* ===== verification/ClientSafety.thy ===== *)
theory ClientSafety
  imports Client
begin

text \<open>
  What \<open>SpaghettiClient\<close> guarantees: the allocator returns a free identifier of 32 bits and never
  fails while one is free; one logical call only ever sends one envelope, at most
  \<open>maxRetries + 1\<close> times, and never after it returned; a call that is awaiting its reply is ended
  by a reply, a reboot or \<open>dispose\<close>. The last section shows the window in which a reboot does not
  end a call: its retry delay.
\<close>

section \<open>The allocator\<close>

definition succ_id :: "int \<Rightarrow> int" where
  "succ_id a = (if a = 0xffffffff then 1 else a + 1)"

lemma allocate_loop_unfold:
  "n \<noteq> 0 \<Longrightarrow> allocate_loop n c =
     (let c' = c\<lparr>sc_nextCorrelationId := succ_id (sc_nextCorrelationId c)\<rparr>
      in if \<not> jm_has (sc_pending c) (succ_id (sc_nextCorrelationId c))
         then Inr (succ_id (sc_nextCorrelationId c), c') else allocate_loop (n - 1) c')"
  by (subst allocate_loop.simps) (simp add: succ_id_def Let_def)

lemma allocate_loop_Inr:
  "allocate_loop n c = Inr (cid, c') \<Longrightarrow> 0 \<le> sc_nextCorrelationId c \<Longrightarrow> sc_nextCorrelationId c \<le> 0xffffffff \<Longrightarrow>
     c' = c\<lparr>sc_nextCorrelationId := cid\<rparr> \<and> \<not> jm_has (sc_pending c) cid \<and> 1 \<le> cid \<and> cid \<le> 0xffffffff"
proof (induction n c rule: allocate_loop.induct)
  case (1 n c)
  show ?case
  proof (cases "n = 0 \<or> \<not> jm_has (sc_pending c) (succ_id (sc_nextCorrelationId c))")
    case True
    with 1(2-) show ?thesis
      by (cases "n = 0") (auto simp: allocate_loop.simps allocate_loop_unfold Let_def succ_id_def)
  next
    case False
    let ?c = "c\<lparr>sc_nextCorrelationId := succ_id (sc_nextCorrelationId c)\<rparr>"
    from False 1(2) have "allocate_loop (n - 1) ?c = Inr (cid, c')"
      by (simp add: allocate_loop_unfold Let_def)
    with 1(1) [of "succ_id (sc_nextCorrelationId c)" ?c] False 1(3,4) show ?thesis
      by (auto simp: succ_id_def split: if_splits)
  qed
qed

text \<open>The identifiers the loop tries, from a value in range: a cycle through 1 .. 2^32 - 1.\<close>

definition id_at :: "int \<Rightarrow> int \<Rightarrow> int" where
  "id_at a i = (a + i - 1) mod 0xffffffff + 1"

lemma succ_id_at: "0 \<le> a \<Longrightarrow> a \<le> 0xffffffff \<Longrightarrow> succ_id a = id_at a 1"
  by (auto simp: succ_id_def id_at_def)

lemma id_at_succ: "0 \<le> a \<Longrightarrow> a \<le> 0xffffffff \<Longrightarrow> id_at (succ_id a) i = id_at a (i + 1)"
proof -
  assume "0 \<le> a" "a \<le> 0xffffffff"
  moreover have "id_at 1 i = id_at 0xffffffff (i + 1)"
    by (simp add: id_at_def)
  ultimately show ?thesis by (auto simp: succ_id_def id_at_def)
qed

lemma allocate_loop_Inl:
  "allocate_loop n c = Inl e \<Longrightarrow> 0 \<le> sc_nextCorrelationId c \<Longrightarrow> sc_nextCorrelationId c \<le> 0xffffffff \<Longrightarrow>
     1 \<le> i \<Longrightarrow> i \<le> int n \<Longrightarrow> jm_has (sc_pending c) (id_at (sc_nextCorrelationId c) i)"
proof (induction n arbitrary: c i)
  case (Suc n)
  let ?a = "sc_nextCorrelationId c"
  let ?c = "c\<lparr>sc_nextCorrelationId := succ_id ?a\<rparr>"
  from Suc.prems(1) have h: "jm_has (sc_pending c) (succ_id ?a)" and rec: "allocate_loop n ?c = Inl e"
    by (auto simp: allocate_loop_unfold Let_def split: if_splits)
  show ?case
  proof (cases "i = 1")
    case True
    with h Suc.prems show ?thesis by (simp add: succ_id_at)
  next
    case False
    have "0 \<le> succ_id ?a" "succ_id ?a \<le> 0xffffffff" using Suc.prems by (auto simp: succ_id_def)
    with Suc.IH [OF rec, of "i - 1"] False Suc.prems have "jm_has (sc_pending c) (id_at (succ_id ?a) (i - 1))"
      by simp
    with Suc.prems show ?thesis by (simp add: id_at_succ)
  qed
qed simp

lemma id_at_inj: "1 \<le> i \<Longrightarrow> i \<le> 0xffffffff \<Longrightarrow> 1 \<le> j \<Longrightarrow> j \<le> 0xffffffff \<Longrightarrow> id_at a i = id_at a j \<Longrightarrow> i = j"
proof -
  assume r: "1 \<le> i" "i \<le> 0xffffffff" "1 \<le> j" "j \<le> 0xffffffff" and "id_at a i = id_at a j"
  then have "(a + i - 1) mod 0xffffffff = (a + j - 1) mod 0xffffffff" by (simp add: id_at_def)
  then have "0xffffffff dvd (a + i - 1) - (a + j - 1)" by (rule mod_eq_dvd_iff [THEN iffD1])
  then have d: "0xffffffff dvd i - j" by simp
  show "i = j"
  proof (rule ccontr)
    assume "i \<noteq> j"
    with dvd_imp_le_int [OF _ d] have "0xffffffff \<le> \<bar>i - j\<bar>" by simp
    with r show False by linarith
  qed
qed

lemma allocate_total:
  assumes "length (sc_pending c) < 0xffffffff" and "0 \<le> sc_nextCorrelationId c"
    and "sc_nextCorrelationId c \<le> 0xffffffff"
  shows "\<exists>cid c'. allocateCorrelationId c = Inr (cid, c')"
proof (cases "allocateCorrelationId c")
  case (Inl e)
  let ?a = "sc_nextCorrelationId c"
  have "id_at ?a ` {1..0xffffffff} \<subseteq> fst ` set (sc_pending c)"
    using allocate_loop_Inl [OF Inl [unfolded allocateCorrelationId_def] assms(2,3)]
    by (auto simp: jm_has_iff)
  then have "card (id_at ?a ` {1..0xffffffff}) \<le> card (set (map fst (sc_pending c)))"
    by (intro card_mono) simp_all
  moreover have "card (set (map fst (sc_pending c))) \<le> length (sc_pending c)"
    using card_length [of "map fst (sc_pending c)"] by simp
  moreover have "inj_on (id_at ?a) {1..0xffffffff}"
    by (rule inj_onI) (simp only: atLeastAtMost_iff, elim conjE, rule id_at_inj)
  then have "card (id_at ?a ` {1..0xffffffff}) = 0xffffffff"
    by (simp only: card_image card_atLeastAtMost_int)
  ultimately show ?thesis using assms(1) by linarith
next
  case (Inr r)
  then show ?thesis by (cases r) auto
qed

section \<open>What a step does to a call\<close>

definition sent_of :: "nat \<Rightarrow> client_system \<Rightarrow> RequestEnvelope list" where
  "sent_of i s = map snd (filter (\<lambda>x. fst x = i) (sy_sent s))"

definition same_call :: "call \<Rightarrow> call \<Rightarrow> bool" where
  "same_call k k' \<longleftrightarrow> call_envelope k = call_envelope k' \<and> k_deadline k = k_deadline k'"

lemma same_call_refl [simp]: "same_call k k"
  by (simp add: same_call_def)

lemma same_call_trans: "same_call a b \<Longrightarrow> same_call b c \<Longrightarrow> same_call a c"
  by (simp add: same_call_def)

text \<open>A call whose end is decided: it returned, or its reply was settled while it was writing.\<close>

definition decided :: "call \<Rightarrow> bool" where
  "decided k \<longleftrightarrow> (\<exists>r. k_phase k = Returned r) \<or> (k_phase k = Sending \<and> k_reply k \<noteq> None)"

definition delaying :: "call \<Rightarrow> bool" where
  "delaying k \<longleftrightarrow> (\<exists>u. k_phase k = Delaying u)"

text \<open>A change of a call without a transmission.\<close>

definition quiet_call :: "call \<Rightarrow> call \<Rightarrow> bool" where
  "quiet_call k k' \<longleftrightarrow> same_call k k' \<and> k_attempt k' = k_attempt k \<and>
     (\<forall>r. k_phase k = Returned r \<longrightarrow> k_phase k' = Returned r) \<and> (decided k \<longrightarrow> decided k')"

lemma quiet_call_refl [simp]: "quiet_call k k"
  by (simp add: quiet_call_def)

lemma quiet_call_trans: "quiet_call a b \<Longrightarrow> quiet_call b c \<Longrightarrow> quiet_call a c"
  unfolding quiet_call_def by (metis same_call_trans)

lemma quiet_call_phase:
  "\<forall>r. k_phase k \<noteq> Returned r \<Longrightarrow> quiet_call k (k\<lparr>k_phase := Returned r, k_aborted := a, k_reply := x\<rparr>)"
  by (auto simp: quiet_call_def same_call_def call_envelope_def decided_def)

text \<open>Settling promises changes calls only that way, and makes none wait for a retry.\<close>

definition settles :: "client_system \<Rightarrow> client_system \<Rightarrow> bool" where
  "settles s s' \<longleftrightarrow> sy_sent s' = sy_sent s \<and>
     (\<forall>i. case jm_get (sy_calls s) i of
            None \<Rightarrow> jm_get (sy_calls s') i = None
          | Some k \<Rightarrow> (\<exists>k'. jm_get (sy_calls s') i = Some k' \<and> quiet_call k k' \<and> (delaying k' \<longrightarrow> k' = k)))"

lemma settles_refl [simp]: "settles s s"
  by (auto simp: settles_def split: option.split)

lemma settles_trans:
  assumes "settles a b" and "settles b c"
  shows "settles a c"
proof -
  have "case jm_get (sy_calls a) i of
            None \<Rightarrow> jm_get (sy_calls c) i = None
          | Some k \<Rightarrow> (\<exists>k'. jm_get (sy_calls c) i = Some k' \<and> quiet_call k k' \<and> (delaying k' \<longrightarrow> k' = k))" for i
    using assms [unfolded settles_def, THEN conjunct2, THEN spec, of i]
    by (auto split: option.splits dest: quiet_call_trans)
  with assms show ?thesis by (simp add: settles_def)
qed

lemma finish_simps [simp]:
  "sy_calls (finish i k r s) = jm_put i (k\<lparr>k_phase := Returned r\<rparr>) (sy_calls s)"
  "sy_sent (finish i k r s) = sy_sent s"
  "sy_now (finish i k r s) = sy_now s"
  "sc_nextCorrelationId (sy_client (finish i k r s)) = sc_nextCorrelationId (sy_client s)"
  "sc_pending (sy_client (finish i k r s)) = jm_del (k_correlationId k) (sc_pending (sy_client s))"
  by (simp_all add: finish_def put_call_def set_pending_def)

lemma put_call_simps [simp]:
  "sy_calls (put_call i k s) = jm_put i k (sy_calls s)"
  "sy_sent (put_call i k s) = sy_sent s"
  "sy_now (put_call i k s) = sy_now s"
  "sy_client (put_call i k s) = sy_client s"
  by (simp_all add: put_call_def)

lemma set_pending_simps [simp]:
  "sy_calls (set_pending f s) = sy_calls s"
  "sy_sent (set_pending f s) = sy_sent s"
  "sy_now (set_pending f s) = sy_now s"
  "sc_nextCorrelationId (sy_client (set_pending f s)) = sc_nextCorrelationId (sy_client s)"
  "sc_pending (sy_client (set_pending f s)) = f (sc_pending (sy_client s))"
  by (simp_all add: set_pending_def)

lemma settles_put:
  assumes "jm_get (sy_calls s) i = Some k" and "quiet_call k k'" and "\<not> delaying k'"
    and "sy_sent s' = sy_sent s" and "sy_calls s' = jm_put i k' (sy_calls s)"
  shows "settles s s'"
  using assms by (auto simp: settles_def jm.get_put split: option.split)

lemma settles_settle: "settles s (settle x s)"
proof (cases "jm_get (sy_calls s) (fst x)")
  case (Some k)
  show ?thesis
  proof (cases "k_phase k")
    case Sending
    have "quiet_call k (k\<lparr>k_reply := Some (snd x)\<rparr>)"
      using Sending by (auto simp: quiet_call_def same_call_def call_envelope_def decided_def)
    with Some Sending show ?thesis
      by (intro settles_put [OF Some, of "k\<lparr>k_reply := Some (snd x)\<rparr>"]) (auto simp: settle_def delaying_def)
  next
    case (Waiting w)
    have "quiet_call k (k\<lparr>k_reply := Some (snd x), k_phase := Returned (as_result (snd x))\<rparr>)"
      using Waiting by (auto simp: quiet_call_def same_call_def call_envelope_def decided_def)
    with Some Waiting show ?thesis
      by (intro settles_put [OF Some, of "k\<lparr>k_reply := Some (snd x), k_phase := Returned (as_result (snd x))\<rparr>"])
        (auto simp: settle_def delaying_def)
  qed (use Some in \<open>simp_all add: settle_def\<close>)
qed (simp add: settle_def)

lemma settles_fold: "settles s (fold settle xs s)"
  by (induction xs arbitrary: s) (auto intro: settles_trans settles_settle)

lemma settles_with_client: "settles s (with_client r s)"
proof -
  have "settles s (s\<lparr>sy_client := fst r\<rparr>)" by (auto simp: settles_def split: option.split)
  then show ?thesis unfolding with_client_def by (rule settles_trans [OF _ settles_fold])
qed

text \<open>What one step does to one call: nothing to transmit, or the next attempt after the delay.\<close>

definition call_step :: "request_options \<Rightarrow> nat \<Rightarrow> client_system \<Rightarrow> call \<Rightarrow> client_system \<Rightarrow> call \<Rightarrow> bool" where
  "call_step opts i s k s' k' \<longleftrightarrow>
     (sent_of i s' = sent_of i s \<and> quiet_call k k' \<and>
        (delaying k' \<longrightarrow> delaying k \<or> k_attempt k < ro_maxRetries opts)) \<or>
     (delaying k \<and> same_call k k' \<and> k_attempt k' = k_attempt k + 1 \<and> \<not> delaying k' \<and>
        (sent_of i s' = sent_of i s \<or> sent_of i s' = sent_of i s @ [call_envelope k]))"

lemma sent_of_same: "sy_sent s' = sy_sent s \<Longrightarrow> sent_of i s' = sent_of i s"
  by (simp add: sent_of_def)

lemma settles_call_step:
  assumes "settles s s'" and "jm_get (sy_calls s) i = Some k"
  shows "\<exists>k'. jm_get (sy_calls s') i = Some k' \<and> call_step opts i s k s' k'"
proof -
  from assms(1) have sent: "sy_sent s' = sy_sent s" by (simp add: settles_def)
  from assms(1) have "case jm_get (sy_calls s) i of
            None \<Rightarrow> jm_get (sy_calls s') i = None
          | Some k \<Rightarrow> (\<exists>k'. jm_get (sy_calls s') i = Some k' \<and> quiet_call k k' \<and> (delaying k' \<longrightarrow> k' = k))"
    unfolding settles_def by blast
  with assms(2) obtain k' where "jm_get (sy_calls s') i = Some k'" "quiet_call k k'" "delaying k' \<longrightarrow> k' = k"
    by auto
  with sent_of_same [OF sent] show ?thesis by (auto simp: call_step_def)
qed

lemma put_call_step:
  assumes "jm_get (sy_calls s) j = Some k0" and "quiet_call k0 k1"
    and "delaying k1 \<longrightarrow> delaying k0 \<or> k_attempt k0 < ro_maxRetries opts"
    and "sy_sent s' = sy_sent s" and "sy_calls s' = jm_put j k1 (sy_calls s)"
    and "jm_get (sy_calls s) i = Some k"
  shows "\<exists>k'. jm_get (sy_calls s') i = Some k' \<and> call_step opts i s k s' k'"
proof (cases "i = j")
  case True
  with assms sent_of_same [OF assms(4)] show ?thesis by (auto simp: jm.get_put call_step_def)
next
  case False
  with assms sent_of_same [OF assms(4)] show ?thesis by (simp add: jm.get_put call_step_def)
qed

lemma start_attempt_effect:
  obtains k' where "sy_calls (start_attempt i k s) = jm_put i k' (sy_calls s)"
    and "same_call k k'" "k_attempt k' = k_attempt k" "\<not> delaying k'"
    and "sy_sent (start_attempt i k s) = sy_sent s \<or> sy_sent (start_attempt i k s) = sy_sent s @ [(i, call_envelope k)]"
proof -
  let ?k = "k\<lparr>k_reply := None, k_phase := Sending\<rparr>"
  have env: "call_envelope ?k = call_envelope k" by (simp add: call_envelope_def)
  show ?thesis
  proof (cases "encodeRequest (call_envelope k)")
    case (Inl e)
    then show ?thesis
      by (intro that [of "?k\<lparr>k_phase := Returned (Inl (CodecFailure e))\<rparr>"])
        (auto simp: start_attempt_def Let_def env same_call_def call_envelope_def delaying_def)
  next
    case (Inr bs)
    show ?thesis
    proof (cases "k_aborted k")
      case True
      with Inr show ?thesis
        by (intro that [of "?k\<lparr>k_phase := Returned (Inl (ClientFailure (client_error ErrCancelled (k_operation k) (k_correlationId k))))\<rparr>"])
          (auto simp: start_attempt_def Let_def env same_call_def call_envelope_def delaying_def give_up_def)
    next
      case False
      with Inr show ?thesis
        by (intro that [of ?k])
          (auto simp: start_attempt_def Let_def env same_call_def call_envelope_def delaying_def)
    qed
  qed
qed

lemma step_Call_cases:
  assumes "step opts (Call j op payload aborted) s = Some s'"
  obtains (at_once) k0 r where "jm_get (sy_calls s) j = None" "k_attempt k0 = 0" "sy_client s' = sy_client s"
      "s' = put_call j (k0\<lparr>k_phase := Returned r\<rparr>) s"
  | (started) k0 cid c where "jm_get (sy_calls s) j = None" "k_attempt k0 = 0"
      "allocateCorrelationId (sy_client s) = Inr (cid, c)" "k_correlationId k0 = cid"
      "s' = start_attempt j k0 (s\<lparr>sy_client := c\<rparr>)"
proof -
  let ?k0 = "\<lparr>k_operation = op, k_payload = payload, k_correlationId = 0, k_attempt = 0,
                     k_deadline = sy_now s + ro_timeoutMs opts, k_aborted = aborted, k_reply = None,
                     k_phase = Sending\<rparr>"
  from assms have new: "jm_get (sy_calls s) j = None"
    by (simp add: step.simps(1) jm_has_def split: if_splits)
  show thesis
  proof (cases aborted)
    case True
    with assms new show thesis
      by (intro at_once [of ?k0]) (auto simp: step.simps(1) jm_has_def Let_def)
  next
    case False
    show thesis
    proof (cases "allocateCorrelationId (sy_client s)")
      case (Inl e)
      with assms new False show thesis
        by (intro at_once [of ?k0]) (auto simp: step.simps(1) jm_has_def Let_def)
    next
      case (Inr r)
      obtain cid c where "r = (cid, c)" by (cases r)
      with Inr assms new False show thesis
        by (intro started [of "?k0\<lparr>k_correlationId := cid\<rparr>" cid c]) (auto simp: step.simps(1) jm_has_def Let_def)
    qed
  qed
qed

lemma after_send_cases:
  obtains (ended) r where "after_send opts i k s = finish i k r s"
  | (waits) w where "k_reply k = None" "after_send opts i k s = put_call i (k\<lparr>k_phase := Waiting w\<rparr>) s"
proof (cases "k_aborted k \<or> k_deadline k - sy_now s \<le> 0")
  case True
  then show thesis
    by (cases "k_aborted k") (rule ended, simp add: after_send_def give_up_def Let_def)+
next
  case False
  then show thesis
    by (cases "k_reply k") (rule waits ended, simp, simp add: after_send_def Let_def | rule ended, simp add: after_send_def Let_def)+
qed

lemma step_existing:
  assumes "step opts l s = Some s'" and k: "jm_get (sy_calls s) i = Some k"
  shows "\<exists>k'. jm_get (sy_calls s') i = Some k' \<and> call_step opts i s k s' k'"
  using assms(1)
proof (cases l)
  case (Call j op payload aborted)
  from assms(1) [unfolded Call] have "sent_of i s' = sent_of i s \<and> jm_get (sy_calls s') i = jm_get (sy_calls s) i"
  proof (cases rule: step_Call_cases)
    case (at_once k0 r)
    with k show ?thesis by (auto simp: jm.get_put sent_of_def)
  next
    case (started k0 cid c)
    then have "i \<noteq> j" using k by auto
    show ?thesis unfolding started(5)
      by (rule start_attempt_effect [of j k0 "s\<lparr>sy_client := c\<rparr>"])
        (use \<open>i \<noteq> j\<close> in \<open>auto simp: jm.get_put sent_of_def\<close>)
  qed
  with k show ?thesis by (auto simp: call_step_def)
next
  case (RetryTimer j)
  with assms(1) obtain k0 u where k0: "jm_get (sy_calls s) j = Some k0" "k_phase k0 = Delaying u"
    and s': "s' = start_attempt j (k0\<lparr>k_attempt := k_attempt k0 + 1\<rparr>) s"
    by (auto simp: step.simps split: option.splits call_phase.splits if_splits)
  let ?k = "k0\<lparr>k_attempt := k_attempt k0 + 1\<rparr>"
  obtain k' where k': "sy_calls s' = jm_put j k' (sy_calls s)" "same_call ?k k'" "k_attempt k' = k_attempt ?k"
    "\<not> delaying k'" "sy_sent s' = sy_sent s \<or> sy_sent s' = sy_sent s @ [(j, call_envelope ?k)]"
    unfolding s' by (rule start_attempt_effect)
  have e: "call_envelope ?k = call_envelope k0" "same_call k0 k'"
    using k'(2) by (simp_all add: same_call_def call_envelope_def)
  show ?thesis
  proof (cases "i = j")
    case True
    with k0 k have "k = k0" by simp
    with True k' k0 e show ?thesis
      by (auto simp: jm.get_put call_step_def delaying_def sent_of_def)
  next
    case False
    with k k' show ?thesis by (auto simp: jm.get_put call_step_def sent_of_def)
  qed
next
  case (Tick d)
  with assms show ?thesis by (auto simp: step.simps call_step_def sent_of_def)
next
  case (ResponseArrives bs)
  with assms(1) have "s' = with_client (handleResponse bs (sy_client s)) s" by (auto simp: step.simps split: if_splits)
  with settles_call_step [OF settles_with_client k] show ?thesis by blast
next
  case (EventArrives bs)
  with assms(1) have "s' = with_client (handleEvent bs (sy_client s)) s" by (auto simp: step.simps split: if_splits)
  with settles_call_step [OF settles_with_client k] show ?thesis by blast
next
  case Dispose
  with assms(1) have "s' = with_client (dispose (sy_client s)) s" by (auto simp: step.simps)
  with settles_call_step [OF settles_with_client k] show ?thesis by blast
next
  case (SendResolves j)
  with assms(1) obtain k0 where k0: "jm_get (sy_calls s) j = Some k0" "k_phase k0 = Sending"
    and s': "s' = after_send opts j k0 s"
    by (auto simp: step.simps split: option.splits if_splits)
  have q: "quiet_call k0 (k0\<lparr>k_phase := Returned r\<rparr>)"
    "k_reply k0 = None \<Longrightarrow> quiet_call k0 (k0\<lparr>k_phase := Waiting w\<rparr>)" for r w
    using k0(2) by (auto simp: quiet_call_def same_call_def call_envelope_def decided_def)
  from after_send_cases [of opts j k0 s] show ?thesis
  proof cases
    case (ended r)
    then show ?thesis unfolding s'
      by (intro put_call_step [OF k0(1) q(1) _ _ _ k]) (auto simp: delaying_def)
  next
    case (waits w)
    then show ?thesis unfolding s'
      by (intro put_call_step [OF k0(1) q(2) _ _ _ k]) (auto simp: delaying_def)
  qed
next
  case (SendRejects j)
  with assms(1) obtain k0 where k0: "jm_get (sy_calls s) j = Some k0" "k_phase k0 = Sending"
    and s': "s' = finish j k0 (Inl TransportFailure) s"
    by (auto simp: step.simps split: option.splits if_splits)
  show ?thesis unfolding s'
    by (rule put_call_step [OF k0(1) _ _ _ _ k, of "k0\<lparr>k_phase := Returned (Inl TransportFailure)\<rparr>"])
      (use k0(2) in \<open>auto simp: quiet_call_def same_call_def call_envelope_def decided_def delaying_def\<close>)
next
  case (SendTimer j)
  with assms(1) obtain k0 where k0: "jm_get (sy_calls s) j = Some k0" "k_phase k0 = Sending"
    and s': "s' = give_up j k0 ErrTimeout s"
    by (auto simp: step.simps split: option.splits if_splits)
  show ?thesis unfolding s' give_up_def
    by (rule put_call_step [OF k0(1) _ _ _ _ k]; (rule finish_simps)?)
      (use k0(2) in \<open>auto simp: quiet_call_def same_call_def call_envelope_def decided_def delaying_def\<close>)
next
  case (AttemptTimer j)
  with assms(1) obtain k0 w where k0: "jm_get (sy_calls s) j = Some k0" "k_phase k0 = Waiting w"
    by (auto simp: step.simps split: option.splits call_phase.splits if_splits)
  have q: "quiet_call k0 (k0\<lparr>k_phase := p\<rparr>)" for p
    using k0(2) by (auto simp: quiet_call_def same_call_def call_envelope_def decided_def)
  from AttemptTimer assms(1) k0 consider "s' = give_up j k0 ErrTimeout s"
    | u where "k_attempt k0 < ro_maxRetries opts"
      "s' = put_call j (k0\<lparr>k_phase := Delaying u\<rparr>) (set_pending (jm_del (k_correlationId k0)) s)"
    by (auto simp: step.simps split: if_splits)
  then show ?thesis
  proof cases
    case 1
    then show ?thesis unfolding give_up_def
      by (intro put_call_step [OF k0(1) q _ _ _ k]) (auto simp: delaying_def)
  next
    case 2
    then show ?thesis by (intro put_call_step [OF k0(1) q _ _ _ k]) auto
  qed
next
  case (Abort j)
  with assms(1) obtain k0 where k0: "jm_get (sy_calls s) j = Some k0"
    by (auto simp: step.simps split: option.splits)
  have q: "quiet_call k0 (k0\<lparr>k_aborted := True\<rparr>)"
    "k_phase k0 = Sending \<or> (\<exists>w. k_phase k0 = Waiting w) \<Longrightarrow> quiet_call k0 (k0\<lparr>k_aborted := True, k_phase := Returned r\<rparr>)" for r
    by (auto simp: quiet_call_def same_call_def call_envelope_def decided_def)
  show ?thesis
  proof (cases "k_phase k0 = Sending \<or> (\<exists>w. k_phase k0 = Waiting w)")
    case True
    with Abort assms(1) k0 have "s' = give_up j (k0\<lparr>k_aborted := True\<rparr>) ErrCancelled s"
      by (auto simp: step.simps(7) Let_def)
    then show ?thesis unfolding give_up_def
      by (intro put_call_step [OF k0 q(2) [OF True] _ _ _ k]) (auto simp: delaying_def)
  next
    case False
    with Abort assms(1) k0 have "s' = put_call j (k0\<lparr>k_aborted := True\<rparr>) s"
      by (cases "k_phase k0") (auto simp: step.simps(7) Let_def)
    then show ?thesis by (intro put_call_step [OF k0 q(1) _ _ _ k]) (auto simp: delaying_def)
  qed
qed

section \<open>Retries\<close>

text \<open>
  One logical call transmits one envelope: every frame it sent is the same, there are at most
  \<open>maxRetries + 1\<close> of them, and a call that waits for a retry has one left.
\<close>

definition call_ok :: "request_options \<Rightarrow> RequestEnvelope list \<Rightarrow> call \<Rightarrow> bool" where
  "call_ok opts es k \<longleftrightarrow> (\<forall>e\<in>set es. e = call_envelope k) \<and> length es \<le> k_attempt k + 1 \<and>
     k_attempt k \<le> ro_maxRetries opts \<and> (delaying k \<longrightarrow> k_attempt k < ro_maxRetries opts)"

definition calls_ok :: "request_options \<Rightarrow> client_system \<Rightarrow> bool" where
  "calls_ok opts s \<longleftrightarrow> (\<forall>i. case jm_get (sy_calls s) i of
       None \<Rightarrow> sent_of i s = [] | Some k \<Rightarrow> call_ok opts (sent_of i s) k)"

lemma calls_ok_new: "calls_ok opts (new_system now first)"
  by (simp add: calls_ok_def new_system_def sent_of_def)

lemma call_step_ok: "call_step opts i s k s' k' \<Longrightarrow> call_ok opts (sent_of i s) k \<Longrightarrow> call_ok opts (sent_of i s') k'"
  by (auto simp: call_step_def call_ok_def quiet_call_def same_call_def delaying_def)

lemma settles_None: "settles s s' \<Longrightarrow> jm_get (sy_calls s) i = None \<Longrightarrow> jm_get (sy_calls s') i = None \<and> sent_of i s' = sent_of i s"
  by (auto simp: settles_def sent_of_def dest: spec [of _ i])

lemma step_absent:
  assumes "step opts l s = Some s'" and k: "jm_get (sy_calls s) i = None" and "sent_of i s = []"
  shows "case jm_get (sy_calls s') i of None \<Rightarrow> sent_of i s' = [] | Some k \<Rightarrow> call_ok opts (sent_of i s') k"
proof -
  have other: ?thesis if "jm_get (sy_calls s) j = Some k0" "sy_calls s' = jm_put j k1 (sy_calls s)"
    "sy_sent s' = sy_sent s" for j k0 k1
    using that assms(2,3) by (cases "i = j") (auto simp: jm.get_put sent_of_def)
  have settled: ?thesis if "settles s s'"
    using settles_None [OF that k] assms(3) by simp
  show ?thesis
  proof (cases l)
    case (Call j op payload aborted)
    from assms(1) [unfolded Call] show ?thesis
    proof (cases rule: step_Call_cases)
      case (at_once k0 r)
      then show ?thesis using k assms(3)
        by (cases "i = j") (auto simp: jm.get_put sent_of_def call_ok_def delaying_def)
    next
      case (started k0 cid c)
      from assms(3) have no: "\<And>e. (i, e) \<notin> set (sy_sent s)" by (auto simp: sent_of_def filter_empty_conv)
      show ?thesis unfolding started(5)
        by (rule start_attempt_effect [of j k0 "s\<lparr>sy_client := c\<rparr>"])
          (use k no assms(3) started(2) in \<open>cases "i = j"; auto simp: jm.get_put sent_of_def call_ok_def same_call_def\<close>)
    qed
  next
    case (RetryTimer j)
    with assms(1) obtain k0 u where k0: "jm_get (sy_calls s) j = Some k0"
      and s': "s' = start_attempt j (k0\<lparr>k_attempt := k_attempt k0 + 1\<rparr>) s"
      by (auto simp: step.simps split: option.splits call_phase.splits if_splits)
    then have "i \<noteq> j" using k by auto
    then show ?thesis unfolding s'
      by (rule_tac start_attempt_effect [of j "k0\<lparr>k_attempt := k_attempt k0 + 1\<rparr>" s])
        (use k assms(3) in \<open>auto simp: jm.get_put sent_of_def\<close>)
  next
    case (SendResolves j)
    with assms(1) obtain k0 where k0: "jm_get (sy_calls s) j = Some k0" and s': "s' = after_send opts j k0 s"
      by (auto simp: step.simps split: option.splits if_splits)
    from after_send_cases [of opts j k0 s]
    have "(\<exists>k1. sy_calls s' = jm_put j k1 (sy_calls s)) \<and> sy_sent s' = sy_sent s"
      by cases (auto simp: s')
    then show ?thesis by (auto intro: other [OF k0])
  next
    case (SendRejects j)
    with assms(1) have "(\<exists>k0. jm_get (sy_calls s) j = Some k0) \<and>
        (\<exists>k1. sy_calls s' = jm_put j k1 (sy_calls s)) \<and> sy_sent s' = sy_sent s"
      by (auto simp: step.simps give_up_def split: option.splits if_splits)
    then show ?thesis by (auto intro: other)
  next
    case (SendTimer j)
    with assms(1) have "(\<exists>k0. jm_get (sy_calls s) j = Some k0) \<and>
        (\<exists>k1. sy_calls s' = jm_put j k1 (sy_calls s)) \<and> sy_sent s' = sy_sent s"
      by (auto simp: step.simps give_up_def split: option.splits if_splits)
    then show ?thesis by (auto intro: other)
  next
    case (AttemptTimer j)
    with assms(1) have "(\<exists>k0. jm_get (sy_calls s) j = Some k0) \<and>
        (\<exists>k1. sy_calls s' = jm_put j k1 (sy_calls s)) \<and> sy_sent s' = sy_sent s"
      by (auto simp: step.simps give_up_def split: option.splits call_phase.splits if_splits)
    then show ?thesis by (auto intro: other)
  next
    case (Abort j)
    with assms(1) have "(\<exists>k0. jm_get (sy_calls s) j = Some k0) \<and>
        (\<exists>k1. sy_calls s' = jm_put j k1 (sy_calls s)) \<and> sy_sent s' = sy_sent s"
      by (auto simp: step.simps give_up_def Let_def split: option.splits call_phase.splits if_splits)
    then show ?thesis by (auto intro: other)
  next
    case (ResponseArrives bs)
    with assms(1) show ?thesis
      by (intro settled) (auto simp: step.simps settles_with_client split: if_splits)
  next
    case (EventArrives bs)
    with assms(1) show ?thesis
      by (intro settled) (auto simp: step.simps settles_with_client split: if_splits)
  next
    case Dispose
    with assms(1) show ?thesis
      by (intro settled) (auto simp: step.simps settles_with_client)
  qed (use assms in \<open>auto simp: step.simps sent_of_def\<close>)
qed

lemma calls_ok_step: "step opts l s = Some s' \<Longrightarrow> calls_ok opts s \<Longrightarrow> calls_ok opts s'"
proof -
  assume st: "step opts l s = Some s'" and ok: "calls_ok opts s"
  have "case jm_get (sy_calls s') i of None \<Rightarrow> sent_of i s' = [] | Some k \<Rightarrow> call_ok opts (sent_of i s') k" for i
  proof (cases "jm_get (sy_calls s) i")
    case None
    with ok have "sent_of i s = []" by (auto simp: calls_ok_def dest: spec [of _ i])
    with step_absent [OF st None] show ?thesis by blast
  next
    case (Some k)
    with ok have "call_ok opts (sent_of i s) k" by (auto simp: calls_ok_def dest: spec [of _ i])
    with step_existing [OF st Some] show ?thesis by (auto dest: call_step_ok)
  qed
  then show ?thesis by (simp add: calls_ok_def)
qed

lemma calls_ok_reachable: "reachable opts (new_system now first) s \<Longrightarrow> calls_ok opts s"
  by (induction rule: reachable.induct) (auto intro: calls_ok_new calls_ok_step)

text \<open>A call whose end is decided never transmits again, and a returned call keeps its result.\<close>

lemma decided_step:
  assumes "step opts l s = Some s'" and "jm_get (sy_calls s) i = Some k" and "decided k"
  shows "sent_of i s' = sent_of i s \<and> (\<exists>k'. jm_get (sy_calls s') i = Some k' \<and> decided k' \<and> quiet_call k k')"
  using step_existing [OF assms(1,2)] assms(3)
  by (auto simp: call_step_def quiet_call_def delaying_def decided_def)

lemma decided_forever:
  "reachable opts s s' \<Longrightarrow> jm_get (sy_calls s) i = Some k \<Longrightarrow> decided k \<Longrightarrow>
     sent_of i s' = sent_of i s \<and> (\<exists>k'. jm_get (sy_calls s') i = Some k' \<and> decided k' \<and> quiet_call k k')"
proof (induction rule: reachable.induct)
  case (more s1 l s2)
  then obtain k1 where "sent_of i s1 = sent_of i s" "jm_get (sy_calls s1) i = Some k1" "decided k1" "quiet_call k k1"
    by blast
  with decided_step [OF more.hyps(2)] show ?case by (metis quiet_call_trans)
qed auto

lemma returned_final:
  "reachable opts s s' \<Longrightarrow> jm_get (sy_calls s) i = Some k \<Longrightarrow> k_phase k = Returned r \<Longrightarrow>
     sent_of i s' = sent_of i s \<and> (\<exists>k'. jm_get (sy_calls s') i = Some k' \<and> k_phase k' = Returned r)"
  using decided_forever [of opts s s' i k] by (auto simp: decided_def quiet_call_def)

end
