(* ===== verification/ClientReboot.thy ===== *)
theory ClientReboot
  imports ClientSafety
begin

text \<open>
  The pending table of \<open>SpaghettiClient\<close> against its calls: while the correlation counter has not
  wrapped around, the calls that await a reply are exactly the entries of the table, under
  distinct identifiers. Hence a reboot ends every call that awaits its reply, and such a call is
  never sent again; a call that is between two attempts is not in the table and survives the
  reboot, so its retry is sent to the rebooted Core.
\<close>

definition returned :: "call \<Rightarrow> bool" where
  "returned k \<longleftrightarrow> (\<exists>r. k_phase k = Returned r)"

definition awaiting :: "call \<Rightarrow> bool" where
  "awaiting k \<longleftrightarrow> \<not> returned k \<and> \<not> delaying k \<and> k_reply k = None"

definition entry_of :: "nat \<Rightarrow> call \<Rightarrow> pending_entry" where
  "entry_of i k = \<lparr>pe_operation = k_operation k, pe_call = i\<rparr>"

text \<open>The invariant, where the calls of \<open>X\<close> may have lost their entries.\<close>

definition ids_inv :: "nat set \<Rightarrow> int \<Rightarrow> client_system \<Rightarrow> bool" where
  "ids_inv X first s \<longleftrightarrow>
     (let calls = jm_get (sy_calls s); pending = jm_get (sc_pending (sy_client s));
          next = sc_nextCorrelationId (sy_client s) in
      first \<le> next \<and> next \<le> first + int (length (sy_calls s)) \<and>
      (\<forall>i k. calls i = Some k \<and> \<not> returned k \<longrightarrow> first < k_correlationId k \<and> k_correlationId k \<le> next) \<and>
      (\<forall>i j k k'. calls i = Some k \<and> calls j = Some k' \<and> \<not> returned k \<and> \<not> returned k' \<and>
          k_correlationId k = k_correlationId k' \<longrightarrow> i = j) \<and>
      (\<forall>i k. calls i = Some k \<and> awaiting k \<and> i \<notin> X \<longrightarrow> pending (k_correlationId k) = Some (entry_of i k)) \<and>
      (\<forall>cid e. pending cid = Some e \<longrightarrow> pe_call e \<notin> X \<and>
          (\<exists>k. calls (pe_call e) = Some k \<and> awaiting k \<and> k_correlationId k = cid)) \<and>
      (\<forall>i k w. calls i = Some k \<and> k_phase k = Waiting w \<longrightarrow> k_reply k = None))"

lemma ids_invD:
  assumes "ids_inv X first s"
  shows "first \<le> sc_nextCorrelationId (sy_client s)"
    and "sc_nextCorrelationId (sy_client s) \<le> first + int (length (sy_calls s))"
    and "jm_get (sy_calls s) i = Some k \<Longrightarrow> \<not> returned k \<Longrightarrow>
           first < k_correlationId k \<and> k_correlationId k \<le> sc_nextCorrelationId (sy_client s)"
    and "jm_get (sy_calls s) i = Some k \<Longrightarrow> jm_get (sy_calls s) j = Some k' \<Longrightarrow> \<not> returned k \<Longrightarrow>
           \<not> returned k' \<Longrightarrow> k_correlationId k = k_correlationId k' \<Longrightarrow> i = j"
    and "jm_get (sy_calls s) i = Some k \<Longrightarrow> awaiting k \<Longrightarrow> i \<notin> X \<Longrightarrow>
           jm_get (sc_pending (sy_client s)) (k_correlationId k) = Some (entry_of i k)"
    and "jm_get (sc_pending (sy_client s)) cid = Some e \<Longrightarrow> pe_call e \<notin> X \<and>
           (\<exists>k. jm_get (sy_calls s) (pe_call e) = Some k \<and> awaiting k \<and> k_correlationId k = cid)"
    and "jm_get (sy_calls s) i = Some k \<Longrightarrow> k_phase k = Waiting w \<Longrightarrow> k_reply k = None"
  using assms unfolding ids_inv_def Let_def by blast+

lemma ids_invI:
  assumes "first \<le> sc_nextCorrelationId (sy_client s)"
    and "sc_nextCorrelationId (sy_client s) \<le> first + int (length (sy_calls s))"
    and "\<And>i k. jm_get (sy_calls s) i = Some k \<Longrightarrow> \<not> returned k \<Longrightarrow>
           first < k_correlationId k \<and> k_correlationId k \<le> sc_nextCorrelationId (sy_client s)"
    and "\<And>i k j k'. jm_get (sy_calls s) i = Some k \<Longrightarrow> jm_get (sy_calls s) j = Some k' \<Longrightarrow> \<not> returned k \<Longrightarrow>
           \<not> returned k' \<Longrightarrow> k_correlationId k = k_correlationId k' \<Longrightarrow> i = j"
    and "\<And>i k. jm_get (sy_calls s) i = Some k \<Longrightarrow> awaiting k \<Longrightarrow> i \<notin> X \<Longrightarrow>
           jm_get (sc_pending (sy_client s)) (k_correlationId k) = Some (entry_of i k)"
    and "\<And>cid e. jm_get (sc_pending (sy_client s)) cid = Some e \<Longrightarrow> pe_call e \<notin> X \<and>
           (\<exists>k. jm_get (sy_calls s) (pe_call e) = Some k \<and> awaiting k \<and> k_correlationId k = cid)"
    and "\<And>i k w. jm_get (sy_calls s) i = Some k \<Longrightarrow> k_phase k = Waiting w \<Longrightarrow> k_reply k = None"
  shows "ids_inv X first s"
  unfolding ids_inv_def Let_def
  by (intro conjI allI impI; (elim conjE)?; (rule assms(1,2))?; (drule (4) assms(4) | drule (1) assms(3,7)
      | drule (2) assms(5) | drule assms(6)); (simp | blast))

lemma awaiting_not_returned: "awaiting k \<Longrightarrow> \<not> returned k"
  by (simp add: awaiting_def)

lemma length_put_present: "jm_get m j \<noteq> None \<Longrightarrow> length (jm_put j v m) = length m"
  using jm.size_put_present [of m j v] by (metis length_map)

lemma length_put_new: "jm_get m j = None \<Longrightarrow> length (jm_put j v m) = Suc (length m)"
proof -
  assume "jm_get m j = None"
  then have "j \<notin> fst ` set m" by (simp add: map_of_eq_None_iff)
  then show ?thesis by (simp add: update_new)
qed

text \<open>The entry under the identifier of a call that has not returned.\<close>

lemma pending_at:
  assumes inv: "ids_inv X first s" and j: "jm_get (sy_calls s) j = Some k" and "\<not> returned k"
  shows "jm_get (sc_pending (sy_client s)) (k_correlationId k) =
     (if awaiting k \<and> j \<notin> X then Some (entry_of j k) else None)"
proof (cases "awaiting k \<and> j \<notin> X")
  case True
  then show ?thesis using ids_invD(5) [OF inv j] by simp
next
  case False
  have "jm_get (sc_pending (sy_client s)) (k_correlationId k) \<noteq> Some e" for e
  proof
    assume e: "jm_get (sc_pending (sy_client s)) (k_correlationId k) = Some e"
    from ids_invD(6) [OF inv e] obtain k' where k': "pe_call e \<notin> X"
      "jm_get (sy_calls s) (pe_call e) = Some k'" "awaiting k'" "k_correlationId k' = k_correlationId k"
      by blast
    then have "pe_call e = j"
      using ids_invD(4) [OF inv k'(2) j] assms(3) by (simp add: awaiting_not_returned)
    with k' j False show False by simp
  qed
  with False show ?thesis by (cases "jm_get (sc_pending (sy_client s)) (k_correlationId k)") auto
qed

text \<open>A change of one call, its entry following.\<close>

lemma ids_change:
  assumes inv: "ids_inv X first s" and j: "jm_get (sy_calls s) j = Some k0"
    and calls: "sy_calls s' = jm_put j k1 (sy_calls s)"
    and same: "k_correlationId k1 = k_correlationId k0"
    and grow: "returned k0 \<longrightarrow> returned k1"
    and nxt: "sc_nextCorrelationId (sy_client s') = sc_nextCorrelationId (sy_client s)"
    and waits: "\<And>w. k_phase k1 = Waiting w \<Longrightarrow> k_reply k1 = None"
    and pend: "\<And>cid. jm_get (sc_pending (sy_client s')) cid =
      (if cid = k_correlationId k0 \<and> \<not> returned k0
       then if awaiting k1 \<and> j \<notin> X then Some (entry_of j k1) else None
       else jm_get (sc_pending (sy_client s)) cid)"
  shows "ids_inv X first s'"
proof -
  note d = ids_invD [OF inv]
  have c': "jm_get (sy_calls s') i = (if i = j then Some k1 else jm_get (sy_calls s) i)" for i
    by (simp add: calls jm.get_put)
  have len: "length (sy_calls s') = length (sy_calls s)"
    unfolding calls using j by (intro length_put_present) simp
  have live: "awaiting k1 \<Longrightarrow> \<not> returned k0"
    using grow by (auto simp: awaiting_def)
  have rng: "first < k_correlationId k \<and> k_correlationId k \<le> sc_nextCorrelationId (sy_client s)"
    if "jm_get (sy_calls s') i = Some k" "\<not> returned k" for i k
  proof (cases "i = j")
    case True
    then show ?thesis using that grow d(3) [OF j] same by (simp add: c')
  next
    case False
    then show ?thesis using that d(3) [of i k] by (simp add: c')
  qed
  have old: "\<exists>k2. jm_get (sy_calls s) i = Some k2 \<and> \<not> returned k2 \<and> k_correlationId k2 = k_correlationId k"
    if "jm_get (sy_calls s') i = Some k" "\<not> returned k" for i k
    using that j grow same by (cases "i = j") (simp_all add: c')
  have uniq: "i = i'" if "jm_get (sy_calls s') i = Some k" "jm_get (sy_calls s') i' = Some k'"
    "\<not> returned k" "\<not> returned k'" "k_correlationId k = k_correlationId k'" for i i' k k'
    using old [OF that(1,3)] old [OF that(2,4)] that(5) d(4) by metis
  have await: "jm_get (sc_pending (sy_client s')) (k_correlationId k) = Some (entry_of i k)"
    if "jm_get (sy_calls s') i = Some k" "awaiting k" "i \<notin> X" for i k
  proof (cases "i = j")
    case True
    with that same live show ?thesis by (simp add: c' pend)
  next
    case False
    with that(1) have i: "jm_get (sy_calls s) i = Some k" by (simp add: c')
    then have "\<not> (k_correlationId k = k_correlationId k0 \<and> \<not> returned k0)"
      using d(4) [OF i j awaiting_not_returned [OF that(2)]] False by blast
    then show ?thesis using d(5) [OF i that(2,3)] by (simp add: pend del: de_Morgan_conj)
  qed
  have entries: "pe_call e \<notin> X \<and> (\<exists>k. jm_get (sy_calls s') (pe_call e) = Some k \<and> awaiting k \<and> k_correlationId k = cid)"
    if e: "jm_get (sc_pending (sy_client s')) cid = Some e" for cid e
  proof (cases "cid = k_correlationId k0 \<and> \<not> returned k0")
    case True
    with e show ?thesis by (auto simp: pend c' entry_of_def same split: if_splits)
  next
    case False
    with e have "jm_get (sc_pending (sy_client s)) cid = Some e" by (simp add: pend del: de_Morgan_conj)
    with d(6) obtain k where k: "pe_call e \<notin> X" "jm_get (sy_calls s) (pe_call e) = Some k" "awaiting k"
      "k_correlationId k = cid" by blast
    with False j have "pe_call e \<noteq> j" by (auto simp: awaiting_not_returned)
    with k show ?thesis by (simp add: c')
  qed
  have replies: "k_reply k = None" if "jm_get (sy_calls s') i = Some k" "k_phase k = Waiting w" for i k w
    using that d(7) [of i k w] waits by (cases "i = j") (simp_all add: c')
  show ?thesis
    unfolding ids_inv_def Let_def nxt len
    by (intro conjI allI impI) (use d(1,2) rng uniq await entries replies in blast)+
qed

text \<open>The changes of the client: the entry goes, stays, or is entered.\<close>

lemma ids_del:
  assumes "ids_inv X first s" and "jm_get (sy_calls s) j = Some k0" and "\<not> returned k0"
    and "sy_calls s' = jm_put j k1 (sy_calls s)" and "k_correlationId k1 = k_correlationId k0"
    and "sc_nextCorrelationId (sy_client s') = sc_nextCorrelationId (sy_client s)"
    and "\<not> awaiting k1" and "\<And>w. k_phase k1 \<noteq> Waiting w"
    and "sc_pending (sy_client s') = jm_del (k_correlationId k0) (sc_pending (sy_client s))"
  shows "ids_inv X first s'"
  by (rule ids_change [OF assms(1,2,4,5)]) (use assms in \<open>simp_all add: jm.get_del\<close>)

lemma ids_keep:
  assumes "ids_inv X first s" and "jm_get (sy_calls s) j = Some k0"
    and "sy_calls s' = jm_put j k1 (sy_calls s)" and "k_correlationId k1 = k_correlationId k0"
    and "k_operation k1 = k_operation k0" and "returned k0 \<longrightarrow> returned k1"
    and "sc_nextCorrelationId (sy_client s') = sc_nextCorrelationId (sy_client s)"
    and "awaiting k0 = awaiting k1 \<or> j \<in> X" and "\<And>w. k_phase k1 = Waiting w \<Longrightarrow> k_reply k1 = None"
    and "sc_pending (sy_client s') = sc_pending (sy_client s)"
  shows "ids_inv X first s'"
proof (rule ids_change [OF assms(1,2,3,4,6,7,9)], assumption)
  fix cid
  have "entry_of j k1 = entry_of j k0" using assms(5) by (simp add: entry_of_def)
  moreover have "(awaiting k1 \<and> j \<notin> X) = (awaiting k0 \<and> j \<notin> X)" using assms(8) by blast
  ultimately show "jm_get (sc_pending (sy_client s')) cid =
      (if cid = k_correlationId k0 \<and> \<not> returned k0
       then if awaiting k1 \<and> j \<notin> X then Some (entry_of j k1) else None
       else jm_get (sc_pending (sy_client s)) cid)"
    using pending_at [OF assms(1,2)] by (simp add: assms(10))
qed

lemma ids_enter:
  assumes "ids_inv {} first s" and "jm_get (sy_calls s) j = Some k0" and "\<not> returned k0"
    and "sy_calls s' = jm_put j k1 (sy_calls s)" and "k_correlationId k1 = k_correlationId k0"
    and "sc_nextCorrelationId (sy_client s') = sc_nextCorrelationId (sy_client s)"
    and "awaiting k1" and "\<And>w. k_phase k1 \<noteq> Waiting w"
    and "sc_pending (sy_client s') = jm_put (k_correlationId k0) (entry_of j k1) (sc_pending (sy_client s))"
  shows "ids_inv {} first s'"
  by (rule ids_change [OF assms(1,2,4,5)]) (use assms in \<open>simp_all add: jm.get_put\<close>)

section \<open>Settling\<close>

lemma settle_awaiting:
  "jm_get (sy_calls (settle x s)) i = Some k \<Longrightarrow> awaiting k \<Longrightarrow> jm_get (sy_calls s) i = Some k \<and> i \<noteq> fst x"
  by (auto simp: settle_def jm.get_put awaiting_def returned_def delaying_def
      split: option.splits call_phase.splits if_splits)

lemma fold_settle_awaiting:
  "jm_get (sy_calls (fold settle xs s)) i = Some k \<Longrightarrow> awaiting k \<Longrightarrow>
     jm_get (sy_calls s) i = Some k \<and> i \<notin> fst ` set xs"
proof (induction xs arbitrary: s)
  case (Cons x xs)
  then show ?case using settle_awaiting [of x s i k] by fastforce
qed simp

lemma settle_ids:
  assumes inv: "ids_inv X first s" and x: "fst x \<in> X"
  shows "ids_inv X first (settle x s)"
proof (cases "jm_get (sy_calls s) (fst x)")
  case (Some k)
  show ?thesis
  proof (cases "k_phase k")
    case Sending
    show ?thesis
      by (rule ids_keep [OF inv Some, where ?k1.0 = "k\<lparr>k_reply := Some (snd x)\<rparr>"])
        (use Some Sending x in \<open>simp_all add: settle_def returned_def\<close>)
  next
    case (Waiting w)
    show ?thesis
      by (rule ids_del [OF inv Some, where ?k1.0 = "k\<lparr>k_reply := Some (snd x), k_phase := Returned (as_result (snd x))\<rparr>"])
        (use Some Waiting in \<open>simp_all add: settle_def awaiting_def returned_def\<close>)
  qed (use Some inv in \<open>simp_all add: settle_def\<close>)
qed (use inv in \<open>simp add: settle_def\<close>)

lemma fold_settle_ids:
  "ids_inv X first s \<Longrightarrow> fst ` set xs \<subseteq> X \<Longrightarrow> ids_inv X first (fold settle xs s)"
  by (induction xs arbitrary: s) (auto intro: settle_ids)

lemma ids_weaken:
  assumes "ids_inv X first s" and "\<And>i k. jm_get (sy_calls s) i = Some k \<Longrightarrow> awaiting k \<Longrightarrow> i \<notin> X"
  shows "ids_inv {} first s"
proof -
  note d = ids_invD [OF assms(1)]
  show ?thesis
    unfolding ids_inv_def Let_def
    by (intro conjI allI impI) (use d assms(2) in blast)+
qed

lemma settle_all_ids:
  assumes inv: "ids_inv {} first s"
    and nxt: "sc_nextCorrelationId c = sc_nextCorrelationId (sy_client s)"
    and kept: "\<And>cid e. jm_get (sc_pending c) cid = Some e \<Longrightarrow>
        jm_get (sc_pending (sy_client s)) cid = Some e \<and> pe_call e \<notin> fst ` set xs"
    and lost: "\<And>cid e. jm_get (sc_pending (sy_client s)) cid = Some e \<Longrightarrow> pe_call e \<notin> fst ` set xs \<Longrightarrow>
        jm_get (sc_pending c) cid = Some e"
  shows "ids_inv {} first (with_client (c, xs) s)"
proof -
  note d = ids_invD [OF inv]
  have await: "jm_get (sc_pending c) (k_correlationId k) = Some (entry_of i k)"
    if "jm_get (sy_calls s) i = Some k" "awaiting k" "i \<notin> fst ` set xs" for i k
    using lost [OF d(5) [OF that(1,2)]] that(3) by (simp add: entry_of_def)
  have entries: "pe_call e \<notin> fst ` set xs \<and>
      (\<exists>k. jm_get (sy_calls s) (pe_call e) = Some k \<and> awaiting k \<and> k_correlationId k = cid)"
    if "jm_get (sc_pending c) cid = Some e" for cid e
    using kept [OF that] d(6) by blast
  have upd: "sy_calls (s\<lparr>sy_client := c\<rparr>) = sy_calls s" "sy_client (s\<lparr>sy_client := c\<rparr>) = c"
    by simp_all
  have "ids_inv (fst ` set xs) first (s\<lparr>sy_client := c\<rparr>)"
    unfolding ids_inv_def Let_def upd nxt
    by (intro conjI allI impI) (use d(1-4,7) await entries in blast)+
  then have "ids_inv (fst ` set xs) first (with_client (c, xs) s)"
    unfolding with_client_def by (auto intro: fold_settle_ids)
  then show ?thesis
    by (rule ids_weaken) (auto simp: with_client_def dest: fold_settle_awaiting)
qed

lemma handleResponse_ids: "ids_inv {} first s \<Longrightarrow> ids_inv {} first (with_client (handleResponse bs (sy_client s)) s)"
proof -
  assume inv: "ids_inv {} first s"
  show ?thesis
  proof (cases "decodeResponse bs")
    case (Inl e)
    then show ?thesis using inv by (simp add: handleResponse_def with_client_def)
  next
    case (Inr r)
    show ?thesis
    proof (cases "jm_get (sc_pending (sy_client s)) (rs_correlationId r)")
      case None
      then show ?thesis using inv Inr by (simp add: handleResponse_def with_client_def)
    next
      case (Some e)
      have other: "cid = rs_correlationId r"
        if "jm_get (sc_pending (sy_client s)) cid = Some e'" "pe_call e' = pe_call e" for cid e'
        using ids_invD(6) [OF inv Some] ids_invD(6) [OF inv that(1)] that(2) by auto
      have h: "handleResponse bs (sy_client s) =
          ((sy_client s)\<lparr>sc_pending := jm_del (rs_correlationId r) (sc_pending (sy_client s))\<rparr>,
           snd (handleResponse bs (sy_client s)))"
        "fst ` set (snd (handleResponse bs (sy_client s))) = {pe_call e}"
        by (simp_all add: handleResponse_def Inr Some)
      show ?thesis
        by (subst h(1), rule settle_all_ids [OF inv]; (unfold h(2))?)
          (auto simp: jm.get_del Some dest: other split: if_splits)
    qed
  qed
qed

lemma reject_all_calls: "fst ` set (reject_all code c) = pe_call ` snd ` set (sc_pending c)"
  by (force simp: reject_all_def image_iff)

lemma reject_all_ids:
  assumes inv: "ids_inv {} first s" and "sc_pending c = []"
    and "sc_nextCorrelationId c = sc_nextCorrelationId (sy_client s)"
    and "sc_pending c' = sc_pending (sy_client s)"
  shows "ids_inv {} first (with_client (c, reject_all code c') s)"
proof (rule settle_all_ids [OF inv assms(3)])
  fix cid e
  assume "jm_get (sc_pending (sy_client s)) cid = Some e" and "pe_call e \<notin> fst ` set (reject_all code c')"
  then show "jm_get (sc_pending c) cid = Some e"
    using map_of_SomeD [of "sc_pending (sy_client s)" cid e] by (force simp: reject_all_calls assms(4))
qed (simp add: assms(2))

lemma handleEvent_ids: "ids_inv {} first s \<Longrightarrow> ids_inv {} first (with_client (handleEvent bs (sy_client s)) s)"
proof -
  assume inv: "ids_inv {} first s"
  have upd: "ids_inv {} first (with_client ((sy_client s)\<lparr>sc_lastKnownBootId := b\<rparr>, []) s)" for b
    by (rule settle_all_ids [OF inv]) simp_all
  have same: "with_client (sy_client s, []) s = s" by (simp add: with_client_def)
  show ?thesis
    using inv upd reject_all_ids [OF inv, of "(sy_client s)\<lparr>sc_lastKnownBootId := b, sc_pending := []\<rparr>"
        "(sy_client s)\<lparr>sc_lastKnownBootId := b\<rparr>" for b]
    by (auto simp: handleEvent_def Let_def same split: sum.split)
qed

lemma dispose_ids: "ids_inv {} first s \<Longrightarrow> ids_inv {} first (with_client (dispose (sy_client s)) s)"
  unfolding dispose_def by (rule reject_all_ids) simp_all

section \<open>Every step\<close>

lemma start_attempt_cases:
  obtains (fails) r where "start_attempt i k s = finish i (k\<lparr>k_reply := None, k_phase := Sending\<rparr>) r
      (set_pending (jm_put (k_correlationId k) (entry_of i k)) s)"
  | (cancelled) r where "start_attempt i k s = finish i (k\<lparr>k_reply := None, k_phase := Sending\<rparr>) r
      ((set_pending (jm_put (k_correlationId k) (entry_of i k)) s)\<lparr>sy_sent := sy_sent s @ [(i, call_envelope k)]\<rparr>)"
  | (sends) "start_attempt i k s = put_call i (k\<lparr>k_reply := None, k_phase := Sending\<rparr>)
      ((set_pending (jm_put (k_correlationId k) (entry_of i k)) s)\<lparr>sy_sent := sy_sent s @ [(i, call_envelope k)]\<rparr>)"
proof -
  have env: "call_envelope (k\<lparr>k_reply := None, k_phase := Sending\<rparr>) = call_envelope k"
    by (simp add: call_envelope_def)
  show thesis
  proof (cases "encodeRequest (call_envelope k)")
    case (Inl e)
    then show thesis by (intro fails) (simp add: start_attempt_def Let_def env entry_of_def)
  next
    case (Inr bs)
    then show thesis
      by (cases "k_aborted k") (rule cancelled sends, simp add: start_attempt_def Let_def env entry_of_def give_up_def
          | rule sends, simp add: start_attempt_def Let_def env entry_of_def)+
  qed
qed

lemma del_put_pending:
  "jm_get (jm_del c (jm_put c e m)) cid = jm_get (jm_del c m) cid"
  by (rule jm.get_put_del)

lemma ids_get_cong:
  assumes "ids_inv X first s" and "length (sy_calls s') = length (sy_calls s)"
    and "\<And>i. jm_get (sy_calls s') i = jm_get (sy_calls s) i"
    and "sc_nextCorrelationId (sy_client s') = sc_nextCorrelationId (sy_client s)"
    and "\<And>cid. jm_get (sc_pending (sy_client s')) cid = jm_get (sc_pending (sy_client s)) cid"
  shows "ids_inv X first s'"
  using assms(1) unfolding ids_inv_def Let_def assms(2-5) .

lemma start_attempt_ids:
  assumes inv: "ids_inv {} first s" and i: "jm_get (sy_calls s) i = Some k0" and "\<not> returned k0"
    and same: "k_correlationId k = k_correlationId k0" "k_operation k = k_operation k0"
  shows "ids_inv {} first (start_attempt i k s)"
  using start_attempt_cases [of i k s]
proof cases
  case (fails r)
  let ?s = "finish i (k\<lparr>k_reply := None, k_phase := Sending\<rparr>) r s"
  have "ids_inv {} first ?s"
    by (rule ids_del [OF inv i assms(3) finish_simps(1)])
      (use assms in \<open>simp_all add: awaiting_def returned_def\<close>)
  then show ?thesis
    by (rule ids_get_cong) (simp_all add: fails del_put_pending)
next
  case (cancelled r)
  let ?s = "finish i (k\<lparr>k_reply := None, k_phase := Sending\<rparr>) r s"
  have "ids_inv {} first ?s"
    by (rule ids_del [OF inv i assms(3) finish_simps(1)])
      (use assms in \<open>simp_all add: awaiting_def returned_def\<close>)
  then show ?thesis
    by (rule ids_get_cong) (simp_all add: cancelled del_put_pending)
next
  case sends
  show ?thesis unfolding sends
    by (rule ids_enter [OF inv i assms(3), where ?k1.0 = "k\<lparr>k_reply := None, k_phase := Sending\<rparr>"])
      (use assms in \<open>simp_all add: awaiting_def returned_def delaying_def entry_of_def\<close>)
qed

text \<open>A new call takes the next identifier.\<close>

lemma allocate_next:
  assumes inv: "ids_inv {} first s" and "sc_nextCorrelationId (sy_client s) < 0xffffffff"
  shows "allocateCorrelationId (sy_client s) =
    Inr (sc_nextCorrelationId (sy_client s) + 1,
         (sy_client s)\<lparr>sc_nextCorrelationId := sc_nextCorrelationId (sy_client s) + 1\<rparr>)"
proof -
  let ?n = "sc_nextCorrelationId (sy_client s)"
  have "jm_get (sc_pending (sy_client s)) (?n + 1) \<noteq> Some e" for e
  proof
    assume e: "jm_get (sc_pending (sy_client s)) (?n + 1) = Some e"
    from ids_invD(6) [OF inv e] obtain k where "jm_get (sy_calls s) (pe_call e) = Some k"
      "awaiting k" "k_correlationId k = ?n + 1" by blast
    with ids_invD(3) [OF inv this(1)] show False by (simp add: awaiting_not_returned)
  qed
  then have "\<not> jm_has (sc_pending (sy_client s)) (?n + 1)"
    by (simp add: jm_has_def)
  with assms(2) show ?thesis
    unfolding allocateCorrelationId_def
    by (subst allocate_loop_unfold) (simp_all add: succ_id_def Let_def)
qed

lemma ids_new_call:
  assumes inv: "ids_inv {} first s" and new: "jm_get (sy_calls s) i = None"
    and calls: "sy_calls s' = jm_put i k (sy_calls s)" and quiet: "\<not> awaiting k" "\<And>w. k_phase k \<noteq> Waiting w"
    and pend: "sc_pending (sy_client s') = sc_pending (sy_client s)"
    and nxt: "returned k \<and> sc_nextCorrelationId (sy_client s') = sc_nextCorrelationId (sy_client s) \<or>
      k_correlationId k = sc_nextCorrelationId (sy_client s) + 1 \<and>
      sc_nextCorrelationId (sy_client s') = sc_nextCorrelationId (sy_client s) + 1"
  shows "ids_inv {} first s'"
proof -
  note d = ids_invD [OF inv]
  have c': "jm_get (sy_calls s') j = (if j = i then Some k else jm_get (sy_calls s) j)" for j
    by (simp add: calls jm.get_put)
  have len: "length (sy_calls s') = Suc (length (sy_calls s))"
    unfolding calls by (rule length_put_new [OF new])
  have bounds: "first \<le> sc_nextCorrelationId (sy_client s')"
    "sc_nextCorrelationId (sy_client s') \<le> first + int (length (sy_calls s'))"
    using d(1,2) nxt len by auto
  have rng: "first < k_correlationId k' \<and> k_correlationId k' \<le> sc_nextCorrelationId (sy_client s')"
    if "jm_get (sy_calls s') j = Some k'" "\<not> returned k'" for j k'
    using that d(1) d(3) [of j k'] nxt by (cases "j = i") (auto simp: c')
  have fresh: "k_correlationId k' \<noteq> k_correlationId k"
    if "jm_get (sy_calls s) j = Some k'" "\<not> returned k'" "\<not> returned k" for j k'
    using d(3) [OF that(1,2)] nxt that(3) by auto
  have uniq: "j = j'" if "jm_get (sy_calls s') j = Some k1" "jm_get (sy_calls s') j' = Some k2"
    "\<not> returned k1" "\<not> returned k2" "k_correlationId k1 = k_correlationId k2" for j j' k1 k2
  proof (rule ccontr)
    assume ne: "j \<noteq> j'"
    consider "j = i" "j' \<noteq> i" | "j \<noteq> i" "j' = i" | "j \<noteq> i" "j' \<noteq> i" using ne by blast
    then show False
    proof cases
      case 1
      then have "k1 = k" "jm_get (sy_calls s) j' = Some k2" using that(1,2) by (simp_all add: c')
      then show False using fresh [OF _ that(4)] that(3,5) by metis
    next
      case 2
      then have "k2 = k" "jm_get (sy_calls s) j = Some k1" using that(1,2) by (simp_all add: c')
      then show False using fresh [OF _ that(3)] that(4,5) by metis
    next
      case 3
      then have "jm_get (sy_calls s) j = Some k1" "jm_get (sy_calls s) j' = Some k2" using that(1,2) by (simp_all add: c')
      then show False using d(4) [OF _ _ that(3,4,5)] ne by blast
    qed
  qed
  have await: "jm_get (sc_pending (sy_client s')) (k_correlationId k') = Some (entry_of j k')"
    if "jm_get (sy_calls s') j = Some k'" "awaiting k'" "j \<notin> {}" for j k'
    using that d(5) [of j k'] quiet by (cases "j = i") (auto simp: c' pend)
  have entries: "pe_call e \<notin> {} \<and> (\<exists>k. jm_get (sy_calls s') (pe_call e) = Some k \<and> awaiting k \<and> k_correlationId k = cid)"
    if e: "jm_get (sc_pending (sy_client s')) cid = Some e" for cid e
    using d(6) [of cid e] e new by (auto simp: c' pend)
  have replies: "k_reply k' = None" if "jm_get (sy_calls s') j = Some k'" "k_phase k' = Waiting w" for j k' w
    using that d(7) [of j k' w] quiet by (cases "j = i") (auto simp: c')
  show ?thesis
    by (rule ids_invI) (fact bounds rng uniq await entries replies)+
qed

lemma ids_finish:
  assumes "ids_inv {} first s" and "jm_get (sy_calls s) j = Some k0" and "\<not> returned k0"
    and "k_correlationId k = k_correlationId k0"
  shows "ids_inv {} first (finish j k r s)"
  by (rule ids_del [OF assms(1-3) finish_simps(1)])
    (use assms(4) in \<open>simp_all add: awaiting_def returned_def\<close>)

lemma call_ids:
  assumes inv: "ids_inv {} first s" and st: "step opts (Call j op payload aborted) s = Some s'"
    and "sc_nextCorrelationId (sy_client s) < 0xffffffff"
  shows "ids_inv {} first s'"
  using st
proof (cases rule: step_Call_cases)
  case (at_once k0 r)
  then show ?thesis
    by (intro ids_new_call [OF inv at_once(1), of s' "k0\<lparr>k_phase := Returned r\<rparr>"])
      (simp_all add: awaiting_def returned_def)
next
  case (started k0 cid c)
  let ?k = "k0\<lparr>k_phase := Delaying 0\<rparr>" and ?s0 = "s\<lparr>sy_client := c\<rparr>"
  let ?s1 = "put_call j ?k ?s0"
  from started(3) allocate_next [OF inv assms(3)]
  have c: "cid = sc_nextCorrelationId (sy_client s) + 1" "c = (sy_client s)\<lparr>sc_nextCorrelationId := cid\<rparr>"
    by auto
  have "ids_inv {} first ?s1"
    by (rule ids_new_call [OF inv started(1), of _ ?k]) (use c started(4) in \<open>simp_all add: awaiting_def delaying_def\<close>)
  moreover have "jm_get (sy_calls ?s1) j = Some ?k" "\<not> returned ?k"
    by (simp_all add: jm.get_put returned_def)
  ultimately have i1: "ids_inv {} first (start_attempt j k0 ?s1)"
    by (rule start_attempt_ids) simp_all
  obtain k' where k': "sy_calls (start_attempt j k0 ?s1) = jm_put j k' (sy_calls ?s1)"
    "sy_calls (start_attempt j k0 ?s0) = jm_put j k' (sy_calls ?s0)"
    "sy_client (start_attempt j k0 ?s1) = sy_client (start_attempt j k0 ?s0)"
    by (cases "encodeRequest (call_envelope (k0\<lparr>k_reply := None, k_phase := Sending\<rparr>))"; cases "k_aborted k0")
      (auto simp: start_attempt_def Let_def give_up_def finish_def set_pending_def put_call_def)
  have "jm_get (sy_calls ?s1) j \<noteq> None" "jm_get (sy_calls s) j = None"
    using started(1) by (simp_all add: jm.get_put)
  then show ?thesis unfolding started(5)
    by (intro ids_get_cong [OF i1]) (simp_all add: k' jm.get_put length_put_present length_put_new)
qed

lemma settled_ids:
  assumes inv: "ids_inv {} first s" and st: "step opts l s = Some s'"
    and l: "(\<exists>bs. l = ResponseArrives bs \<or> l = EventArrives bs) \<or> l = Dispose"
  shows "ids_inv {} first s'"
  using st l handleResponse_ids [OF inv] handleEvent_ids [OF inv] dispose_ids [OF inv]
  by (auto simp: step.simps split: if_splits)

lemma ids_step:
  assumes inv: "ids_inv {} first s" and st: "step opts l s = Some s'"
    and bound: "sc_nextCorrelationId (sy_client s) < 0xffffffff"
  shows "ids_inv {} first s'"
proof (cases l)
  case (Call j op payload aborted)
  with call_ids [OF inv _ bound] st show ?thesis by simp
next
  case (SendResolves j)
  with st obtain k0 where k0: "jm_get (sy_calls s) j = Some k0" "k_phase k0 = Sending"
    and s': "s' = after_send opts j k0 s"
    by (auto simp: step.simps split: option.splits if_splits)
  from k0(2) have live: "\<not> returned k0" by (simp add: returned_def)
  from after_send_cases [of opts j k0 s] show ?thesis
  proof cases
    case (ended r)
    with s' ids_finish [OF inv k0(1) live] show ?thesis by simp
  next
    case (waits w)
    then show ?thesis unfolding s'
      by (intro ids_keep [OF inv k0(1), of _ "k0\<lparr>k_phase := Waiting w\<rparr>"])
        (use k0(2) in \<open>simp_all add: returned_def awaiting_def delaying_def\<close>)
  qed
next
  case (SendRejects j)
  with st obtain k0 r where "jm_get (sy_calls s) j = Some k0" "k_phase k0 = Sending" "s' = finish j k0 r s"
    by (auto simp: step.simps split: option.splits if_splits)
  with ids_finish [OF inv, of j k0] show ?thesis by (simp add: returned_def)
next
  case (SendTimer j)
  with st obtain k0 r where "jm_get (sy_calls s) j = Some k0" "k_phase k0 = Sending" "s' = finish j k0 r s"
    by (auto simp: step.simps give_up_def split: option.splits if_splits)
  with ids_finish [OF inv, of j k0] show ?thesis by (simp add: returned_def)
next
  case (AttemptTimer j)
  with st obtain k0 w where k0: "jm_get (sy_calls s) j = Some k0" "k_phase k0 = Waiting w"
    by (auto simp: step.simps split: option.splits call_phase.splits if_splits)
  then have live: "\<not> returned k0" by (simp add: returned_def)
  from AttemptTimer st k0 consider r where "s' = finish j k0 r s"
    | u where "s' = put_call j (k0\<lparr>k_phase := Delaying u\<rparr>) (set_pending (jm_del (k_correlationId k0)) s)"
    by (auto simp: step.simps give_up_def split: if_splits)
  then show ?thesis
  proof cases
    case 1
    with ids_finish [OF inv k0(1) live] show ?thesis by simp
  next
    case 2
    then show ?thesis
      by (intro ids_del [OF inv k0(1) live, of s' "k0\<lparr>k_phase := Delaying u\<rparr>"])
        (simp_all add: awaiting_def delaying_def)
  qed
next
  case (RetryTimer j)
  with st obtain k0 u where k0: "jm_get (sy_calls s) j = Some k0" "k_phase k0 = Delaying u"
    and s': "s' = start_attempt j (k0\<lparr>k_attempt := k_attempt k0 + 1\<rparr>) s"
    by (auto simp: step.simps split: option.splits call_phase.splits if_splits)
  show ?thesis unfolding s'
    by (rule start_attempt_ids [OF inv k0(1)]) (use k0(2) in \<open>simp_all add: returned_def\<close>)
next
  case (Abort j)
  with st obtain k0 where k0: "jm_get (sy_calls s) j = Some k0"
    by (auto simp: step.simps split: option.splits)
  from Abort st k0 consider r where "\<not> returned k0" "s' = finish j (k0\<lparr>k_aborted := True\<rparr>) r s"
    | "s' = put_call j (k0\<lparr>k_aborted := True\<rparr>) s"
    by (cases "k_phase k0") (auto simp: step.simps(7) Let_def give_up_def returned_def)
  then show ?thesis
  proof cases
    case 1
    with ids_finish [OF inv k0] show ?thesis by simp
  next
    case 2
    then show ?thesis
      by (intro ids_keep [OF inv k0, of _ "k0\<lparr>k_aborted := True\<rparr>"])
        (use ids_invD(7) [OF inv k0] in \<open>simp_all add: awaiting_def returned_def delaying_def\<close>)
  qed
next
  case (Tick d)
  with st have "s' = s\<lparr>sy_now := sy_now s + int d\<rparr>" by (simp add: step.simps)
  then show ?thesis by (intro ids_get_cong [OF inv]) simp_all
qed (use settled_ids [OF inv st] in simp_all)

text \<open>Calls are never removed, so a bound on the calls at the end bounds every state before.\<close>

lemma with_client_length: "length (sy_calls (with_client r s)) = length (sy_calls s)"
proof -
  have "length (sy_calls (settle x s)) = length (sy_calls s)" for x s
    by (cases "jm_get (sy_calls s) (fst x)")
      (auto simp: settle_def length_put_present split: call_phase.split)
  then have "length (sy_calls (fold settle xs s)) = length (sy_calls s)" for xs s
    by (induction xs arbitrary: s) simp_all
  then show ?thesis by (simp add: with_client_def)
qed

lemma length_put: "length m \<le> length (jm_put j v m)"
  by (cases "jm_get m j") (simp_all add: length_put_new length_put_present)

lemma start_attempt_length: "length (sy_calls s) \<le> length (sy_calls (start_attempt i k s))"
  by (rule start_attempt_effect [of i k s]) (simp add: length_put)

lemma step_length: "step opts l s = Some s' \<Longrightarrow> length (sy_calls s) \<le> length (sy_calls s')"
proof (induction opts l s rule: step.induct)
  case (1 opts i op payload aborted s)
  then show ?case
  proof (cases rule: step_Call_cases)
    case (started k0 cid c)
    then show ?thesis using start_attempt_length [of "s\<lparr>sy_client := c\<rparr>" i k0] by simp
  qed (simp add: length_put)
next
  case (2 opts i s)
  then obtain k0 where "s' = after_send opts i k0 s"
    by (auto simp: step.simps split: option.splits if_splits)
  then show ?case using after_send_cases [of opts i k0 s] by (metis finish_simps(1) put_call_simps(1) length_put)
qed (auto simp: step.simps give_up_def with_client_length length_put Let_def start_attempt_length
    split: option.splits if_splits call_phase.splits)

lemma ids_new_system: "ids_inv {} first (new_system now first)"
  by (simp add: ids_inv_def new_system_def new_client_def)

lemma ids_reachable:
  "reachable opts (new_system now first) s \<Longrightarrow> first + int (length (sy_calls s)) < 0xffffffff \<Longrightarrow>
     ids_inv {} first s"
proof (induction rule: reachable.induct)
  case init
  show ?case by (rule ids_new_system)
next
  case (more s l s')
  from step_length [OF more.hyps(2)] more.prems have b: "first + int (length (sy_calls s)) < 0xffffffff" by linarith
  with more.IH have inv: "ids_inv {} first s" by blast
  with ids_invD(2) [OF inv] b show ?case by (intro ids_step [OF inv more.hyps(2)]) linarith
qed

end
