(* ===== verification/Reboots.thy ===== *)
theory Reboots
  imports ClientReboot
begin

text \<open>
  What a reboot of the Core does to the calls of \<open>SpaghettiClient\<close>
  (\<open>protocol-sdk/src/client/spaghetti-client.ts\<close>): calls that await a reply end with
  \<open>RebootDuringRequest\<close>; a call in its retry delay is not in the pending table, so it is left
  alone and sends its envelope again to the rebooted Core.
\<close>

text \<open>A status event that tells another boot.\<close>

definition reboot_event :: "client_system \<Rightarrow> bytes \<Rightarrow> int \<Rightarrow> bool" where
  "reboot_event s bs boot \<longleftrightarrow>
     (case decodeEvent bs of
        Inl _ \<Rightarrow> False
      | Inr e \<Rightarrow> ev_type e = event_code STATUS \<and>
          (case decodeStatusEventPayload (ev_payload e) of Inl _ \<Rightarrow> False | Inr p \<Rightarrow> sev_bootId p = boot)) \<and>
     sc_lastKnownBootId (sy_client s) \<noteq> None \<and> sc_lastKnownBootId (sy_client s) \<noteq> Some boot"

lemma handle_reboot:
  "reboot_event s bs boot \<Longrightarrow> handleEvent bs (sy_client s) =
     ((sy_client s)\<lparr>sc_lastKnownBootId := Some boot, sc_pending := []\<rparr>,
      reject_all ErrRebootDuringRequest (sy_client s))"
  by (auto simp: reboot_event_def handleEvent_def reject_all_def split: sum.splits)

definition reboot_reply :: "call \<Rightarrow> bool" where
  "reboot_reply k \<longleftrightarrow> (\<exists>e. ce_code e = ErrRebootDuringRequest \<and>
     (k_phase k = Returned (Inl (ClientFailure e)) \<or> k_phase k = Sending \<and> k_reply k = Some (Inl e)))"

lemma settle_reboot:
  assumes "\<exists>e. snd x = Inl e \<and> ce_code e = ErrRebootDuringRequest" and "jm_get (sy_calls s) i = Some k"
    and "reboot_reply k \<or> awaiting k"
  shows "\<exists>k'. jm_get (sy_calls (settle x s)) i = Some k' \<and>
     (if fst x = i then reboot_reply k' else k' = k)"
  using assms
  by (cases "fst x = i"; cases "k_phase k")
    (auto simp: settle_def jm.get_put reboot_reply_def awaiting_def returned_def delaying_def as_result_def
      split: option.splits call_phase.splits)

lemma fold_settle_reboot:
  "(\<forall>x\<in>set xs. \<exists>e. snd x = Inl e \<and> ce_code e = ErrRebootDuringRequest) \<Longrightarrow> jm_get (sy_calls s) i = Some k \<Longrightarrow>
     reboot_reply k \<or> awaiting k \<and> i \<in> fst ` set xs \<Longrightarrow>
     \<exists>k'. jm_get (sy_calls (fold settle xs s)) i = Some k' \<and> reboot_reply k'"
proof (induction xs arbitrary: s k)
  case (Cons x xs)
  from Cons.prems settle_reboot [of x s i k] obtain k1 where k1: "jm_get (sy_calls (settle x s)) i = Some k1"
    "if fst x = i then reboot_reply k1 else k1 = k" by auto
  have "reboot_reply k1 \<or> awaiting k1 \<and> i \<in> fst ` set xs"
    using k1(2) Cons.prems(3) by (auto split: if_splits)
  with Cons.IH [OF _ k1(1)] Cons.prems(1) show ?case by simp
qed auto

lemma reject_all_codes: "\<forall>x\<in>set (reject_all code c). \<exists>e. snd x = Inl e \<and> ce_code e = code"
  by (auto simp: reject_all_def client_error_def)

lemma reboot_ends_awaiting:
  assumes "ids_inv {} first s" and "reboot_event s bs boot" and "step opts (EventArrives bs) s = Some s'"
    and "jm_get (sy_calls s) i = Some k" and "awaiting k"
  shows "\<exists>k'. jm_get (sy_calls s') i = Some k' \<and> reboot_reply k'"
proof -
  let ?c = "(sy_client s)\<lparr>sc_lastKnownBootId := Some boot, sc_pending := []\<rparr>"
  have s': "s' = fold settle (reject_all ErrRebootDuringRequest (sy_client s)) (s\<lparr>sy_client := ?c\<rparr>)"
    using assms(3) handle_reboot [OF assms(2)] by (auto simp: step.simps with_client_def split: if_splits)
  have "i \<in> fst ` set (reject_all ErrRebootDuringRequest (sy_client s))"
    using ids_invD(5) [OF assms(1,4,5)] unfolding reject_all_calls
    by (force dest: map_of_SomeD simp: entry_of_def)
  then show ?thesis unfolding s'
    by (intro fold_settle_reboot [OF reject_all_codes]) (use assms(4,5) in auto)
qed

lemma reboot_reply_decided: "reboot_reply k \<Longrightarrow> decided k"
  by (auto simp: reboot_reply_def decided_def)

text \<open>A call in its retry delay is not touched.\<close>

lemma fold_settle_delaying:
  "jm_get (sy_calls s) i = Some k \<Longrightarrow> k_phase k = Delaying u \<Longrightarrow> jm_get (sy_calls (fold settle xs s)) i = Some k"
proof (induction xs arbitrary: s)
  case (Cons x xs)
  have "jm_get (sy_calls (settle x s)) i = Some k"
    using Cons.prems by (auto simp: settle_def jm.get_put split: option.splits call_phase.splits)
  with Cons show ?case by simp
qed simp

lemma fold_settle_same:
  "sy_sent (fold settle xs s) = sy_sent s \<and> sy_now (fold settle xs s) = sy_now s \<and>
   sc_lastKnownBootId (sy_client (fold settle xs s)) = sc_lastKnownBootId (sy_client s)"
proof (induction xs arbitrary: s)
  case (Cons x xs)
  have "sy_sent (settle x s) = sy_sent s \<and> sy_now (settle x s) = sy_now s \<and>
      sc_lastKnownBootId (sy_client (settle x s)) = sc_lastKnownBootId (sy_client s)"
    by (auto simp: settle_def finish_def put_call_def set_pending_def split: option.split call_phase.split)
  with Cons show ?case by simp
qed simp

lemma start_attempt_sends:
  assumes "encodeRequest (call_envelope k) = Inr bs"
  shows "sent_of i (start_attempt i k s) = sent_of i s @ [call_envelope k]"
    and "sc_lastKnownBootId (sy_client (start_attempt i k s)) = sc_lastKnownBootId (sy_client s)"
proof -
  have "call_envelope (k\<lparr>k_reply := None, k_phase := Sending\<rparr>) = call_envelope k"
    by (simp add: call_envelope_def)
  with assms show "sent_of i (start_attempt i k s) = sent_of i s @ [call_envelope k]"
    and "sc_lastKnownBootId (sy_client (start_attempt i k s)) = sc_lastKnownBootId (sy_client s)"
    by (simp_all add: start_attempt_def Let_def sent_of_def give_up_def finish_def put_call_def set_pending_def)
qed

lemma retry_survives:
  assumes "reboot_event s bs boot" and "sc_subscribed (sy_client s)"
    and k: "jm_get (sy_calls s) i = Some k" "k_phase k = Delaying u"
    and enc: "encodeRequest (call_envelope k) = Inr frame" and d: "u \<le> sy_now s + int d"
  shows "\<exists>s'. run opts [EventArrives bs, Tick d, RetryTimer i] s = Some s' \<and>
     sc_lastKnownBootId (sy_client s') = Some boot \<and> sent_of i s' = sent_of i s @ [call_envelope k]"
proof -
  let ?c = "(sy_client s)\<lparr>sc_lastKnownBootId := Some boot, sc_pending := []\<rparr>"
  let ?s1 = "fold settle (reject_all ErrRebootDuringRequest (sy_client s)) (s\<lparr>sy_client := ?c\<rparr>)"
  let ?s2 = "?s1\<lparr>sy_now := sy_now ?s1 + int d\<rparr>"
  let ?k = "k\<lparr>k_attempt := k_attempt k + 1\<rparr>"
  have e: "step opts (EventArrives bs) s = Some ?s1"
    using assms(2) by (simp add: step.simps with_client_def handle_reboot [OF assms(1)])
  have k1: "jm_get (sy_calls ?s1) i = Some k"
    by (rule fold_settle_delaying [OF _ k(2)]) (simp add: k(1))
  have env: "call_envelope ?k = call_envelope k" by (simp add: call_envelope_def)
  have "step opts (RetryTimer i) ?s2 = Some (start_attempt i ?k ?s2)"
    using k1 k(2) d fold_settle_same [of "reject_all ErrRebootDuringRequest (sy_client s)" "s\<lparr>sy_client := ?c\<rparr>"]
    by (simp add: step.simps)
  then have "run opts [EventArrives bs, Tick d, RetryTimer i] s = Some (start_attempt i ?k ?s2)"
    using e by (simp add: step.simps(11))
  moreover have "sent_of i (start_attempt i ?k ?s2) = sent_of i s @ [call_envelope k]"
    using start_attempt_sends(1) [of ?k frame i ?s2] enc env
      fold_settle_same [of "reject_all ErrRebootDuringRequest (sy_client s)" "s\<lparr>sy_client := ?c\<rparr>"]
    by (simp add: sent_of_def)
  moreover have "sc_lastKnownBootId (sy_client (start_attempt i ?k ?s2)) = Some boot"
    using start_attempt_sends(2) [of ?k frame i ?s2] enc env
      fold_settle_same [of "reject_all ErrRebootDuringRequest (sy_client s)" "s\<lparr>sy_client := ?c\<rparr>"]
    by simp
  ultimately show ?thesis by blast
qed

section \<open>A run\<close>

text \<open>
  A status event of boot 1, a call, its first attempt times out, and during the retry delay the
  status event of boot 2 arrives.
\<close>

definition boot_frame :: "byte \<Rightarrow> bytes" where
  "boot_frame b = [191, 0, 1, 1, 1, 2, 2, 3, 74, 191, 0, 64, 1, b, 2, 0, 3, 0, 255, 255]"

lemma boot_frame_decodes:
  "decodeEvent (boot_frame 1) = Inr \<lparr>ev_sequence = 1, ev_type = 2, ev_payload = [191, 0, 64, 1, 1, 2, 0, 3, 0, 255]\<rparr>"
  "decodeEvent (boot_frame 2) = Inr \<lparr>ev_sequence = 1, ev_type = 2, ev_payload = [191, 0, 64, 1, 2, 2, 0, 3, 0, 255]\<rparr>"
  "decodeStatusEventPayload [191, 0, 64, 1, 1, 2, 0, 3, 0, 255] =
     Inr \<lparr>sev_deviceId = [], sev_bootId = 1, sev_queueDepth = 0, sev_dropCount = 0\<rparr>"
  "decodeStatusEventPayload [191, 0, 64, 1, 2, 2, 0, 3, 0, 255] =
     Inr \<lparr>sev_deviceId = [], sev_bootId = 2, sev_queueDepth = 0, sev_dropCount = 0\<rparr>"
  by code_simp+

definition delayed_call :: call where
  "delayed_call = \<lparr>k_operation = 1, k_payload = [], k_correlationId = 1, k_attempt = 0, k_deadline = 5000,
     k_aborted = False, k_reply = None, k_phase = Delaying 2200\<rparr>"

definition delayed_system :: client_system where
  "delayed_system = \<lparr>sy_now = 2000,
     sy_client = \<lparr>sc_pending = [], sc_nextCorrelationId = 1, sc_lastKnownBootId = Some 1, sc_subscribed = True\<rparr>,
     sy_calls = [(0, delayed_call)], sy_sent = [(0, call_envelope delayed_call)]\<rparr>"

lemma delayed_frame: "\<exists>frame. encodeRequest (call_envelope delayed_call) = Inr frame"
  by (rule request.enc_total) code_simp

definition waiting_system :: client_system where
  "waiting_system = \<lparr>sy_now = 0,
     sy_client = \<lparr>sc_pending = [(1, \<lparr>pe_operation = 1, pe_call = 0\<rparr>)], sc_nextCorrelationId = 1,
       sc_lastKnownBootId = Some 1, sc_subscribed = True\<rparr>,
     sy_calls = [(0, delayed_call\<lparr>k_phase := Waiting 2000\<rparr>)], sy_sent = [(0, call_envelope delayed_call)]\<rparr>"

lemma waiting_reached:
  "run default_options [EventArrives (boot_frame 1), Call 0 1 [] False, SendResolves 0]
     (new_system 0 0) = Some waiting_system"
proof -
  obtain frame where "encodeRequest \<lparr>rq_correlationId = 1, rq_operation = 1, rq_payload = []\<rparr> = Inr frame"
    using delayed_frame by (auto simp: call_envelope_def delayed_call_def)
  then show ?thesis
    by (simp add: step.simps new_system_def new_client_def with_client_def handleEvent_def boot_frame_decodes
        jm_has_def allocateCorrelationId_def allocate_loop_unfold succ_id_def default_options_def
        start_attempt_def call_envelope_def set_pending_def put_call_def after_send_def Let_def
        waiting_system_def delayed_call_def)
qed

lemma run_append: "run opts (xs @ ys) s = (case run opts xs s of None \<Rightarrow> None | Some t \<Rightarrow> run opts ys t)"
  by (induction xs arbitrary: s) (auto split: option.split)

lemma boot_frame_reboots:
  "sc_lastKnownBootId (sy_client s) = Some 1 \<Longrightarrow> reboot_event s (boot_frame 2) 2"
  by (simp add: reboot_event_def boot_frame_decodes)

lemma delayed_reached:
  "run default_options [EventArrives (boot_frame 1), Call 0 1 [] False, SendResolves 0, Tick 2000, AttemptTimer 0]
     (new_system 0 0) = Some delayed_system"
proof -
  have "run default_options [Tick 2000, AttemptTimer 0] waiting_system = Some delayed_system"
    by (simp add: step.simps waiting_system_def delayed_system_def delayed_call_def default_options_def
        put_call_def set_pending_def call_envelope_def)
  with waiting_reached run_append
      [of default_options "[EventArrives (boot_frame 1), Call 0 1 [] False, SendResolves 0]" "[Tick 2000, AttemptTimer 0]"]
  show ?thesis by (simp del: run.simps)
qed

end
