(* ===== verification/JsValue.thy ===== *)
theory JsValue
  imports Numbers JsMap "HOL-Library.Multiset"
begin

text \<open>
  Plain JavaScript values of unknown shape (\<open>unknown\<close> in the sources): what
  \<open>JSON.parse\<close> returns, what the nodes of a graph carry, and what the content hash of
  \<open>domain/src/hash.ts\<close> is taken of. An object is the list of its own enumerable entries in the
  order \<open>Object.entries\<close> gives them: the keys that are array indices first, ascending, then the
  others in order of insertion. The text \<open>String(n)\<close> of a number is a parameter, \<open>num\<close>.
\<close>

datatype js_value =
    JUndefined | JNull | JBool bool | JNumber float64 | JBigint int | JString jsstr
  | JArray "js_value list" | JObject "(jsstr \<times> js_value) list"

section \<open>Enumeration order\<close>

definition digit_unit :: "16 word \<Rightarrow> bool" where
  "digit_unit u \<longleftrightarrow> 48 \<le> u \<and> u \<le> 57"

definition index_value :: "jsstr \<Rightarrow> nat" where
  "index_value s = fold (\<lambda>u n. 10 * n + (unat u - 48)) s 0"

definition index_of_key :: "jsstr \<Rightarrow> nat option" where
  "index_of_key s =
     (if s \<noteq> [] \<and> list_all digit_unit s \<and> (hd s \<noteq> 48 \<or> length s = 1) \<and> index_value s < 2 ^ 32 - 1
      then Some (index_value s) else None)"

text \<open>\<open>Object.fromEntries\<close> of entries with distinct keys.\<close>

definition from_entries :: "(jsstr \<times> 'v) list \<Rightarrow> (jsstr \<times> 'v) list" where
  "from_entries kvs =
     sort_key (\<lambda>kv. the (index_of_key (fst kv))) (filter (\<lambda>kv. index_of_key (fst kv) \<noteq> None) kvs) @
     filter (\<lambda>kv. index_of_key (fst kv) = None) kvs"

lemma from_entries_mset [simp]: "mset (from_entries kvs) = mset kvs"
  by (induction kvs) (auto simp: from_entries_def)

lemma set_from_entries [simp]: "set (from_entries kvs) = set kvs"
  by (rule mset_eq_setD) simp

lemma keys_from_entries [simp]: "set (map fst (from_entries kvs)) = set (map fst kvs)"
  by simp

lemma distinct_from_entries: "distinct (map fst (from_entries kvs)) = distinct (map fst kvs)"
proof -
  have "mset (map fst (from_entries kvs)) = mset (map fst kvs)" by simp
  then show ?thesis by (metis mset_eq_imp_distinct_iff)
qed

section \<open>Sorting by a key\<close>

lemma sort_key_unique:
  assumes "mset xs = mset ys" and "inj_on f (set xs)"
  shows "sort_key f xs = sort_key f ys"
  using assms by (intro sort_key_inj_key_eq) simp_all

lemma distinct_inj_fst: "distinct (map fst kvs) \<Longrightarrow> inj_on fst (set kvs)"
  by (simp add: distinct_map)

text \<open>Entries sorted by key: one list for all orders of the same entries.\<close>

definition by_key :: "(jsstr \<times> 'v) list \<Rightarrow> (jsstr \<times> 'v) list" where
  "by_key kvs = sort_key fst kvs"

lemma by_key_perm: "mset kvs = mset kvs' \<Longrightarrow> distinct (map fst kvs) \<Longrightarrow> by_key kvs = by_key kvs'"
  unfolding by_key_def by (rule sort_key_unique) (simp_all add: distinct_inj_fst)

lemma set_by_key [simp]: "set (by_key kvs) = set kvs"
  by (simp add: by_key_def)

lemma insort_map:
  "insort_key fst (k, f v) (map (\<lambda>(k, v). (k, f v)) l) = map (\<lambda>(k, v). (k, f v)) (insort_key fst (k, v) l)"
  by (induction l) auto

lemma by_key_map: "by_key (map (\<lambda>(k, v). (k, f v)) kvs) = map (\<lambda>(k, v). (k, f v)) (by_key kvs)"
  unfolding by_key_def sort_key_def by (induction kvs) (auto simp: insort_map)

section \<open>The canonical form\<close>

text \<open>\<open>hash.ts\<close>: \<open>canonicalize\<close>. A bigint becomes its decimal text.\<close>

definition digit_text :: "nat \<Rightarrow> 16 word" where
  "digit_text d = of_nat (48 + d)"

fun nat_text :: "nat \<Rightarrow> jsstr" where
  "nat_text n = (if n < 10 then [digit_text n] else nat_text (n div 10) @ [digit_text (n mod 10)])"

declare nat_text.simps [simp del]

definition bigint_text :: "int \<Rightarrow> jsstr" where
  "bigint_text n = (if n < 0 then 45 # nat_text (nat (- n)) else nat_text (nat n))"

fun canonicalize :: "js_value \<Rightarrow> js_value" where
  "canonicalize (JBigint n) = JString (bigint_text n)"
| "canonicalize (JArray vs) = JArray (map canonicalize vs)"
| "canonicalize (JObject kvs) = JObject (from_entries (map (\<lambda>(k, v). (k, canonicalize v)) (by_key kvs)))"
| "canonicalize v = v"

text \<open>Objects have one entry per key, everywhere in the value.\<close>

fun js_wf :: "js_value \<Rightarrow> bool" where
  "js_wf (JArray vs) = list_all js_wf vs"
| "js_wf (JObject kvs) = (distinct (map fst kvs) \<and> list_all (\<lambda>kv. js_wf (snd kv)) kvs)"
| "js_wf v = True"

text \<open>Two values that differ only in the order of the entries of their objects.\<close>

inductive same_value :: "js_value \<Rightarrow> js_value \<Rightarrow> bool" where
  refl: "same_value v v"
| arr: "list_all2 same_value vs ws \<Longrightarrow> same_value (JArray vs) (JArray ws)"
| obj: "list_all2 (\<lambda>kv lw. fst kv = fst lw \<and> same_value (snd kv) (snd lw)) kvs lws \<Longrightarrow>
     mset lws = mset lws' \<Longrightarrow> same_value (JObject kvs) (JObject lws')"

lemma canonicalize_same: "same_value v w \<Longrightarrow> js_wf v \<Longrightarrow> canonicalize v = canonicalize w"
proof (induction rule: same_value.induct)
  case (arr vs ws)
  then have "map canonicalize vs = map canonicalize ws"
    by (induction rule: list_all2_induct) auto
  then show ?case by simp
next
  case (obj kvs lws lws')
  let ?c = "\<lambda>(k, v). (k, canonicalize v)"
  have "list_all2 (\<lambda>kv lw. fst kv = fst lw \<and> (js_wf (snd kv) \<longrightarrow> canonicalize (snd kv) = canonicalize (snd lw))) kvs lws"
    using obj.IH by (rule list_all2_mono) blast
  then have "list_all (\<lambda>kv. js_wf (snd kv)) kvs \<Longrightarrow> map ?c kvs = map ?c lws"
    by (induction rule: list_all2_induct) (simp_all add: case_prod_unfold)
  with obj.prems have c: "map ?c kvs = map ?c lws" by simp
  have "map fst (map ?c kvs) = map fst kvs"
    by (simp add: case_prod_unfold comp_def)
  then have "distinct (map fst (map ?c kvs))"
    using obj.prems by (simp only: js_wf.simps)
  moreover have "mset (map ?c kvs) = mset (map ?c lws')"
    unfolding c using obj.hyps by (simp only: mset_map)
  ultimately have "by_key (map ?c kvs) = by_key (map ?c lws')"
    by (rule by_key_perm [rotated])
  then show ?case by (simp add: by_key_map)
qed simp

text \<open>The canonical form has no bigint and no object entry out of order; it is its own canonical form.\<close>

fun has_bigint :: "js_value \<Rightarrow> bool" where
  "has_bigint (JBigint n) = True"
| "has_bigint (JArray vs) = list_ex has_bigint vs"
| "has_bigint (JObject kvs) = list_ex (\<lambda>kv. has_bigint (snd kv)) kvs"
| "has_bigint v = False"

lemma canonicalize_no_bigint: "\<not> has_bigint (canonicalize v)"
  by (induction v rule: canonicalize.induct) (auto simp: list_ex_iff)

lemma distinct_canonical: "distinct (map fst (map (\<lambda>(k, v). (k, f v)) (by_key kvs))) = distinct (map fst kvs)"
proof -
  have "mset (map fst (map (\<lambda>(k, v). (k, f v)) (by_key kvs))) = mset (map fst kvs)"
    by (simp add: by_key_def case_prod_unfold comp_def)
  then show ?thesis by (rule mset_eq_imp_distinct_iff)
qed

lemma canonicalize_wf: "js_wf v \<Longrightarrow> js_wf (canonicalize v)"
proof (induction v rule: canonicalize.induct)
  case (3 kvs)
  let ?c = "\<lambda>(k, v). (k, canonicalize v)"
  have "distinct (map fst (map ?c (by_key kvs)))"
    unfolding distinct_canonical using 3 by simp
  with 3 show ?case by (auto simp: distinct_from_entries list_all_iff)
qed (auto simp: list_all_iff)

lemma canonicalize_idem: "js_wf v \<Longrightarrow> canonicalize (canonicalize v) = canonicalize v"
proof (induction v rule: canonicalize.induct)
  case (3 kvs)
  let ?c = "\<lambda>(k, v). (k, canonicalize v)"
  let ?l = "from_entries (map ?c (by_key kvs))"
  have d: "distinct (map fst (map ?c (by_key kvs)))"
    unfolding distinct_canonical using 3 by simp
  have "by_key ?l = by_key (map ?c (by_key kvs))"
    by (rule by_key_perm [OF from_entries_mset]) (unfold distinct_from_entries, rule d)
  also have "\<dots> = map ?c (by_key kvs)"
    unfolding by_key_map by (simp add: by_key_def sort_key_id_if_sorted)
  finally have l: "by_key ?l = map ?c (by_key kvs)" .
  have "map ?c (map ?c (by_key kvs)) = map ?c (by_key kvs)"
    using 3 by (auto simp: list_all_iff)
  then show ?case by (simp only: canonicalize.simps l)
qed (auto simp: list_all_iff)

section \<open>JSON text\<close>

definition hex_unit :: "nat \<Rightarrow> 16 word" where
  "hex_unit d = of_nat (if d < 10 then 48 + d else 87 + d)"

text \<open>\<open>JSON.stringify\<close> of a string: the escapes, and lone surrogates as \<open>\uXXXX\<close>.\<close>

definition unicode_escape :: "16 word \<Rightarrow> jsstr" where
  "unicode_escape u =
     [92, 117, hex_unit (unat u div 4096), hex_unit (unat u div 256 mod 16),
      hex_unit (unat u div 16 mod 16), hex_unit (unat u mod 16)]"

fun quote_units :: "jsstr \<Rightarrow> jsstr" where
  "quote_units [] = []"
| "quote_units (u # us) =
     (if u = 8 then [92, 98] @ quote_units us
      else if u = 9 then [92, 116] @ quote_units us
      else if u = 10 then [92, 110] @ quote_units us
      else if u = 12 then [92, 102] @ quote_units us
      else if u = 13 then [92, 114] @ quote_units us
      else if u = 34 then [92, 34] @ quote_units us
      else if u = 92 then [92, 92] @ quote_units us
      else if u < 32 \<or> (0xDC00 \<le> u \<and> u \<le> 0xDFFF) then unicode_escape u @ quote_units us
      else if 0xD800 \<le> u \<and> u \<le> 0xDBFF then
        (case us of
           v # vs \<Rightarrow> if 0xDC00 \<le> v \<and> v \<le> 0xDFFF then u # v # quote_units vs
                     else unicode_escape u @ quote_units us
         | [] \<Rightarrow> unicode_escape u)
      else u # quote_units us)"

definition quote_text :: "jsstr \<Rightarrow> jsstr" where
  "quote_text s = 34 # quote_units s @ [34]"

fun join_with :: "16 word \<Rightarrow> jsstr list \<Rightarrow> jsstr" where
  "join_with c [] = []"
| "join_with c [s] = s"
| "join_with c (s # t # ss) = s @ c # join_with c (t # ss)"

text \<open>\<open>JSON.stringify(v)\<close> without indentation; \<open>None\<close> where it throws (a bigint), and at the root also
  where it returns \<open>undefined\<close>.\<close>

fun json_text :: "(float64 \<Rightarrow> jsstr) \<Rightarrow> js_value \<Rightarrow> jsstr option" where
  "json_text num JUndefined = None"
| "json_text num JNull = Some (js ''null'')"
| "json_text num (JBool b) = Some (if b then js ''true'' else js ''false'')"
| "json_text num (JNumber w) = Some (if float64_finite w then num w else js ''null'')"
| "json_text num (JBigint n) = None"
| "json_text num (JString s) = Some (quote_text s)"
| "json_text num (JArray vs) =
     map_option (\<lambda>ts. 91 # join_with 44 ts @ [93])
       (those (map (\<lambda>v. if v = JUndefined then Some (js ''null'') else json_text num v) vs))"
| "json_text num (JObject kvs) =
     map_option (\<lambda>ts. 123 # join_with 44 ts @ [125])
       (those (map (\<lambda>kv. map_option (\<lambda>t. quote_text (fst kv) @ 58 # t) (json_text num (snd kv)))
          (filter (\<lambda>kv. snd kv \<noteq> JUndefined) kvs)))"

definition canonicalJson :: "(float64 \<Rightarrow> jsstr) \<Rightarrow> js_value \<Rightarrow> jsstr option" where
  "canonicalJson num v = json_text num (canonicalize v)"

lemma those_all: "(\<And>x. x \<in> set xs \<Longrightarrow> \<exists>y. x = Some y) \<Longrightarrow> \<exists>ys. those xs = Some ys"
proof (induction xs)
  case (Cons x xs)
  then obtain y ys where "x = Some y" "those xs = Some ys" by (metis list.set_intros)
  then show ?case by simp
qed simp

lemma json_text_total: "\<not> has_bigint v \<Longrightarrow> v \<noteq> JUndefined \<Longrightarrow> \<exists>t. json_text num v = Some t"
proof (induction num v rule: json_text.induct)
  case (7 num vs)
  have "\<exists>ts. those (map (\<lambda>v. if v = JUndefined then Some (js ''null'') else json_text num v) vs) = Some ts"
    using 7 by (intro those_all) (auto simp: list_ex_iff)
  then show ?case by auto
next
  case (8 num kvs)
  have "\<exists>ts. those (map (\<lambda>kv. map_option (\<lambda>t. quote_text (fst kv) @ 58 # t) (json_text num (snd kv)))
          (filter (\<lambda>kv. snd kv \<noteq> JUndefined) kvs)) = Some ts"
    using 8 by (intro those_all) (force simp: list_ex_iff)
  then show ?case by auto
qed auto

lemma canonicalJson_total: "v \<noteq> JUndefined \<Longrightarrow> \<exists>t. canonicalJson num v = Some t"
  unfolding canonicalJson_def
  by (rule json_text_total) (rule canonicalize_no_bigint, cases v, simp_all)

section \<open>The fingerprint\<close>

text \<open>32-bit FNV-1a: \<open>hash ^= charCode\<close>, then \<open>Math.imul\<close>; eight hexadecimal digits.\<close>

definition fnv_round :: "16 word \<Rightarrow> 32 word \<Rightarrow> 32 word" where
  "fnv_round u h = (h XOR ucast u) * 0x01000193"

definition hex8 :: "32 word \<Rightarrow> jsstr" where
  "hex8 h = map (\<lambda>i. hex_unit (unat h div 16 ^ i mod 16)) [7, 6, 5, 4, 3, 2, 1, 0]"

definition fnv1a :: "jsstr \<Rightarrow> jsstr" where
  "fnv1a s = hex8 (fold fnv_round s 0x811c9dc5)"

definition contentHash :: "(float64 \<Rightarrow> jsstr) \<Rightarrow> js_value \<Rightarrow> jsstr option" where
  "contentHash num v = map_option fnv1a (canonicalJson num v)"

lemma contentHash_same: "same_value v w \<Longrightarrow> js_wf v \<Longrightarrow> contentHash num v = contentHash num w"
  by (simp add: contentHash_def canonicalJson_def canonicalize_same)

lemma contentHash_some: "v \<noteq> JUndefined \<Longrightarrow> \<exists>h. contentHash num v = Some h \<and> length h = 8"
  using canonicalJson_total [of v num] by (auto simp: contentHash_def fnv1a_def hex8_def)

text \<open>One round is a bijection of the hash, so strings that differ in one unit have different hashes.\<close>

lemma fnv_round_inj: "fnv_round u g = fnv_round u h \<Longrightarrow> g = h"
proof -
  assume "fnv_round u g = fnv_round u h"
  moreover have one: "0x01000193 * 0x359c449b = (1 :: 32 word)" by simp
  have inv: "a * 0x01000193 * 0x359c449b = a" for a :: "32 word"
    by (simp only: mult.assoc one mult_1_right)
  ultimately have "g XOR ucast u = h XOR ucast u"
    unfolding fnv_round_def by (metis inv)
  then have "(g XOR ucast u) XOR ucast u = (h XOR ucast u) XOR (ucast u :: 32 word)" by simp
  then show "g = h" by (simp add: xor.assoc)
qed

end
