(* ===== verification/Secrets.thy ===== *)
theory Secrets
  imports JsValue
begin

text \<open>
  Secrets in exported projects and in the audit log: \<open>SECRET_LIKE_KEY_PATTERN\<close> and
  \<open>findSuspiciousSecretLikeKeys\<close> of \<open>domain/src/project-import-export.ts\<close>, and \<open>scrub\<close> of
  \<open>domain/src/audit-guard.ts\<close>.
\<close>

text \<open>The pattern ignores the case of ASCII letters and matches anywhere in the key.\<close>

definition lower_unit :: "16 word \<Rightarrow> 16 word" where
  "lower_unit u = (if 65 \<le> u \<and> u \<le> 90 then u + 32 else u)"

fun starts_with :: "jsstr \<Rightarrow> jsstr \<Rightarrow> bool" where
  "starts_with [] s = True"
| "starts_with (p # ps) [] = False"
| "starts_with (p # ps) (u # us) = (p = u \<and> starts_with ps us)"

fun contains :: "jsstr \<Rightarrow> jsstr \<Rightarrow> bool" where
  "contains p [] = (p = [])"
| "contains p (u # us) = (starts_with p (u # us) \<or> contains p us)"

definition SECRET_LIKE_KEY_PATTERN :: "jsstr \<Rightarrow> bool" where
  "SECRET_LIKE_KEY_PATTERN key =
     (let k = map lower_unit key in
      list_ex (\<lambda>p. contains (js p) k)
        [''secret'', ''password'', ''token'', ''api_key'', ''api-key'', ''apikey'',
         ''private_key'', ''private-key'', ''privatekey''])"

definition REDACTED :: js_value where
  "REDACTED = JString (js ''[REDACTED]'')"

text \<open>Assigning \<open>out.__proto__\<close> sets no own property, so such an entry is lost.\<close>

fun scrub :: "js_value \<Rightarrow> js_value" where
  "scrub (JArray vs) = JArray (map scrub vs)"
| "scrub (JObject kvs) =
     JObject (from_entries (map (\<lambda>(key, child). (key, if SECRET_LIKE_KEY_PATTERN key then REDACTED else scrub child))
       (filter (\<lambda>kv. fst kv \<noteq> js ''__proto__'') kvs)))"
| "scrub v = v"

lemma size_enumerate [termination_simp]: "(i, v) \<in> set (enumerate n vs) \<Longrightarrow> size v < Suc (size_list size vs)"
proof -
  assume "(i, v) \<in> set (enumerate n vs)"
  then have "v \<in> set vs" by (auto simp: enumerate_eq_zip dest: set_zip_rightD)
  then show ?thesis using size_list_estimation' [of v vs "size v" size] by simp
qed

text \<open>The paths, joined by dots; the index of an array element is its decimal text.\<close>

fun findSuspicious :: "jsstr list \<Rightarrow> js_value \<Rightarrow> jsstr list" where
  "findSuspicious path (JArray vs) =
     concat (map (\<lambda>(i, v). findSuspicious (path @ [nat_text i]) v) (enumerate 0 vs))"
| "findSuspicious path (JObject kvs) =
     concat (map (\<lambda>(key, child).
       (if SECRET_LIKE_KEY_PATTERN key then [join_with 46 (path @ [key])] else []) @
       findSuspicious (path @ [key]) child) kvs)"
| "findSuspicious path v = []"

text \<open>A value in which every secret-like key, at any depth, holds the redaction mark.\<close>

fun redacted :: "js_value \<Rightarrow> bool" where
  "redacted (JArray vs) = list_all redacted vs"
| "redacted (JObject kvs) =
     list_all (\<lambda>(key, child). if SECRET_LIKE_KEY_PATTERN key then child = REDACTED else redacted child) kvs"
| "redacted v = True"

lemma scrub_redacted: "redacted (scrub v)"
proof (induction v rule: scrub.induct)
  case (2 kvs)
  then show ?case by (auto simp: list_all_iff REDACTED_def)
qed (auto simp: list_all_iff)

text \<open>A clean value is not changed, up to the order of its entries.\<close>

fun secret_free :: "js_value \<Rightarrow> bool" where
  "secret_free (JArray vs) = list_all secret_free vs"
| "secret_free (JObject kvs) =
     list_all (\<lambda>(key, child). \<not> SECRET_LIKE_KEY_PATTERN key \<and> key \<noteq> js ''__proto__'' \<and> secret_free child) kvs"
| "secret_free v = True"

lemma scrub_clean: "secret_free v \<Longrightarrow> same_value (scrub v) v"
proof (induction v rule: scrub.induct)
  case (1 vs)
  then show ?case by (auto intro!: same_value.arr simp: list_all2_map1 list_all_iff list.rel_refl_strong)
next
  case (2 kvs)
  let ?s = "\<lambda>(key, child). (key, if SECRET_LIKE_KEY_PATTERN key then REDACTED else scrub child)"
  from 2 have f: "filter (\<lambda>kv. fst kv \<noteq> js ''__proto__'') kvs = kvs"
    by (auto simp: list_all_iff filter_id_conv)
  have r: "\<And>kv. kv \<in> set kvs \<Longrightarrow> fst (?s kv) = fst kv \<and> same_value (snd (?s kv)) (snd kv)"
    using 2 by (auto simp: list_all_iff)
  have "list_all2 (\<lambda>kv lw. fst kv = fst lw \<and> same_value (snd kv) (snd lw)) (map ?s kvs) kvs"
    unfolding list_all2_map1 using r by (intro list.rel_refl_strong) blast
  then obtain lws where "mset lws = mset kvs"
    "list_all2 (\<lambda>kv lw. fst kv = fst lw \<and> same_value (snd kv) (snd lw)) (from_entries (map ?s kvs)) lws"
    using list_all2_reorder_left_invariance [of _ "map ?s kvs" kvs "from_entries (map ?s kvs)"] by auto
  then have "same_value (JObject (from_entries (map ?s kvs))) (JObject kvs)"
    by (intro same_value.obj)
  then show ?case by (simp only: scrub.simps f)
qed (auto intro: same_value.refl)

text \<open>The scan finds nothing exactly where no key looks like a secret.\<close>

fun no_secret_key :: "js_value \<Rightarrow> bool" where
  "no_secret_key (JArray vs) = list_all no_secret_key vs"
| "no_secret_key (JObject kvs) =
     list_all (\<lambda>(key, child). \<not> SECRET_LIKE_KEY_PATTERN key \<and> no_secret_key child) kvs"
| "no_secret_key v = True"

lemma findSuspicious_empty: "findSuspicious path v = [] \<longleftrightarrow> no_secret_key v"
proof (induction path v rule: findSuspicious.induct)
  case (1 path vs)
  have "findSuspicious path (JArray vs) = [] \<longleftrightarrow> (\<forall>(i, v) \<in> set (enumerate 0 vs). no_secret_key v)"
    using 1 by auto
  also have "\<dots> \<longleftrightarrow> (\<forall>v\<in>set (map snd (enumerate 0 vs)). no_secret_key v)"
    by (auto simp del: map_snd_enumerate)
  finally show ?case by (simp add: list_all_iff)
next
  case (2 path kvs)
  then show ?case by (auto simp: list_all_iff split: if_splits)
qed auto

end
