(* ===== verification/Graph.thy ===== *)
theory Graph
  imports JsMap JsValue
begin

text \<open>
  \<open>domain/src\<close>: the errors of the domain (\<open>errors.ts\<close>), the registry of identifiers
  (\<open>id-registry.ts\<close>) and the layered graph (\<open>graph.ts\<close>). An error keeps its code, its path and its
  target; the text of the remediation is not modelled. The class \<open>Graph\<close> is a record passed
  from operation to operation; an operation that fails returns the error and leaves the graph as
  it was.
\<close>

section \<open>Errors and identifiers\<close>

record DomainError =
  de_code :: string
  de_path :: "jsstr list"
  de_target :: jsstr

definition domainError :: "string \<Rightarrow> jsstr list \<Rightarrow> jsstr \<Rightarrow> DomainError" where
  "domainError code path target = \<lparr>de_code = code, de_path = path, de_target = target\<rparr>"

text \<open>\<open>IdRegistry\<close>: a set of identifiers and the name of the entity.\<close>

record id_registry =
  ir_ids :: "jsstr set"
  ir_entityName :: jsstr

definition register :: "jsstr \<Rightarrow> id_registry \<Rightarrow> DomainError + (jsstr \<times> id_registry)" where
  "register i r =
     (if i \<in> ir_ids r then Inl (domainError ''domain.id.duplicate'' [ir_entityName r] i)
      else Inr (i, r\<lparr>ir_ids := insert i (ir_ids r)\<rparr>))"

definition resolve :: "jsstr \<Rightarrow> id_registry \<Rightarrow> DomainError + jsstr" where
  "resolve i r =
     (if i \<in> ir_ids r then Inr i
      else Inl (domainError ''domain.id.dangling_reference'' [ir_entityName r] i))"

definition unregister :: "jsstr \<Rightarrow> id_registry \<Rightarrow> id_registry" where
  "unregister i r = r\<lparr>ir_ids := ir_ids r - {i}\<rparr>"

section \<open>The graph\<close>

datatype GraphLayer = PhysicalComposition | DeviceProcessing | SystemAutomation

fun layer_text :: "GraphLayer \<Rightarrow> jsstr" where
  "layer_text PhysicalComposition = js ''physical-composition''"
| "layer_text DeviceProcessing = js ''device-processing''"
| "layer_text SystemAutomation = js ''system-automation''"

record 'd GraphNode =
  gn_layer :: GraphLayer
  gn_id :: jsstr
  gn_data :: 'd

record GraphEdge =
  ge_layer :: GraphLayer
  ge_id :: jsstr
  ge_source :: jsstr
  ge_target :: jsstr
  ge_sourceHandle :: "jsstr option"
  ge_targetHandle :: "jsstr option"

record 'd graph =
  g_layer :: GraphLayer
  g_nodes :: "(jsstr, 'd GraphNode) jsmap"
  g_edges :: "GraphEdge list"

definition new_graph :: "GraphLayer \<Rightarrow> 'd graph" where
  "new_graph l = \<lparr>g_layer = l, g_nodes = [], g_edges = []\<rparr>"

definition graph_error :: "string \<Rightarrow> string \<Rightarrow> jsstr \<Rightarrow> jsstr \<Rightarrow> 'd graph \<Rightarrow> DomainError" where
  "graph_error code what i target g = domainError code [layer_text (g_layer g), js what, i] target"

definition addNode :: "'d GraphNode \<Rightarrow> 'd graph \<Rightarrow> DomainError + ('d GraphNode \<times> 'd graph)" where
  "addNode n g =
     (if gn_layer n \<noteq> g_layer g then
        Inl (graph_error ''domain.graph.cross_layer_reference'' ''nodes'' (gn_id n) (gn_id n) g)
      else if jm_has (g_nodes g) (gn_id n) then
        Inl (graph_error ''domain.graph.duplicate_node'' ''nodes'' (gn_id n) (gn_id n) g)
      else Inr (n, g\<lparr>g_nodes := jm_put (gn_id n) n (g_nodes g)\<rparr>))"

definition addEdge :: "GraphEdge \<Rightarrow> 'd graph \<Rightarrow> DomainError + (GraphEdge \<times> 'd graph)" where
  "addEdge e g =
     (if ge_layer e \<noteq> g_layer g then
        Inl (graph_error ''domain.graph.cross_layer_reference'' ''edges'' (ge_id e) (ge_id e) g)
      else case find (\<lambda>endpoint. \<not> jm_has (g_nodes g) endpoint) [ge_source e, ge_target e] of
             Some endpoint \<Rightarrow>
               Inl (graph_error ''domain.graph.dangling_edge_endpoint'' ''edges'' (ge_id e) endpoint g)
           | None \<Rightarrow> Inr (e, g\<lparr>g_edges := g_edges g @ [e]\<rparr>))"

definition getNode :: "jsstr \<Rightarrow> 'd graph \<Rightarrow> 'd GraphNode option" where
  "getNode i g = jm_get (g_nodes g) i"

definition updateNode :: "'d GraphNode \<Rightarrow> 'd graph \<Rightarrow> DomainError + ('d GraphNode \<times> 'd graph)" where
  "updateNode n g =
     (if gn_layer n \<noteq> g_layer g then
        Inl (graph_error ''domain.graph.cross_layer_reference'' ''nodes'' (gn_id n) (gn_id n) g)
      else if \<not> jm_has (g_nodes g) (gn_id n) then
        Inl (graph_error ''domain.graph.node_not_found'' ''nodes'' (gn_id n) (gn_id n) g)
      else Inr (n, g\<lparr>g_nodes := jm_put (gn_id n) n (g_nodes g)\<rparr>))"

definition getNodes :: "'d graph \<Rightarrow> 'd GraphNode list" where
  "getNodes g = map snd (g_nodes g)"

definition getEdges :: "'d graph \<Rightarrow> GraphEdge list" where
  "getEdges g = g_edges g"

definition touches :: "jsstr \<Rightarrow> GraphEdge \<Rightarrow> bool" where
  "touches i e \<longleftrightarrow> ge_source e = i \<or> ge_target e = i"

definition removeNode :: "jsstr \<Rightarrow> 'd graph \<Rightarrow> DomainError + 'd graph" where
  "removeNode i g =
     (if \<not> jm_has (g_nodes g) i then
        Inl (graph_error ''domain.graph.node_not_found'' ''nodes'' i i g)
      else if length (filter (touches i) (g_edges g)) > 0 then
        Inl (graph_error ''domain.graph.node_has_dependent_edges'' ''nodes'' i i g)
      else Inr (g\<lparr>g_nodes := jm_del i (g_nodes g)\<rparr>))"

text \<open>The loop of \<open>removeNodeCascade\<close>, from the last index down: \<open>splice(i, 1)\<close> on a match.\<close>

fun cascade_loop :: "jsstr \<Rightarrow> nat \<Rightarrow> GraphEdge list \<Rightarrow> jsstr list \<Rightarrow> GraphEdge list \<times> jsstr list" where
  "cascade_loop i 0 es removed = (es, removed)"
| "cascade_loop i (Suc n) es removed =
     (if touches i (es ! n)
      then cascade_loop i n (take n es @ drop (Suc n) es) (removed @ [ge_id (es ! n)])
      else cascade_loop i n es removed)"

definition removeNodeCascade :: "jsstr \<Rightarrow> 'd graph \<Rightarrow> DomainError + (jsstr list \<times> 'd graph)" where
  "removeNodeCascade i g =
     (if \<not> jm_has (g_nodes g) i then
        Inl (graph_error ''domain.graph.node_not_found'' ''nodes'' i i g)
      else let (es, removed) = cascade_loop i (length (g_edges g)) (g_edges g) []
           in Inr (removed, g\<lparr>g_edges := es, g_nodes := jm_del i (g_nodes g)\<rparr>))"

definition find_index :: "('a \<Rightarrow> bool) \<Rightarrow> 'a list \<Rightarrow> nat option" where
  "find_index P xs = find (\<lambda>i. P (xs ! i)) [0..<length xs]"

definition removeEdge :: "jsstr \<Rightarrow> 'd graph \<Rightarrow> DomainError + 'd graph" where
  "removeEdge i g =
     (case find_index (\<lambda>e. ge_id e = i) (g_edges g) of
        None \<Rightarrow> Inl (graph_error ''domain.graph.edge_not_found'' ''edges'' i i g)
      | Some n \<Rightarrow> Inr (g\<lparr>g_edges := take n (g_edges g) @ drop (Suc n) (g_edges g)\<rparr>))"

text \<open>\<open>deployableSnapshot\<close>: what is given to \<open>JSON.stringify\<close>.\<close>

type_synonym 'd snapshot =
  "GraphLayer \<times> (jsstr \<times> 'd) list \<times> (jsstr \<times> jsstr \<times> jsstr \<times> jsstr option \<times> jsstr option) list"

definition deployableSnapshot :: "'d graph \<Rightarrow> 'd snapshot" where
  "deployableSnapshot g =
     (g_layer g,
      map (\<lambda>n. (gn_id n, gn_data n)) (sort_key gn_id (getNodes g)),
      map (\<lambda>e. (ge_id e, ge_source e, ge_target e, ge_sourceHandle e, ge_targetHandle e))
        (sort_key ge_id (getEdges g)))"

section \<open>The invariant\<close>

text \<open>
  Every node is stored under its identifier and has the layer of the graph; every edge has that
  layer and both of its endpoints are nodes.
\<close>

definition graph_inv :: "'d graph \<Rightarrow> bool" where
  "graph_inv g \<longleftrightarrow> jm_wf (g_nodes g) \<and>
     (\<forall>i n. jm_get (g_nodes g) i = Some n \<longrightarrow> gn_id n = i \<and> gn_layer n = g_layer g) \<and>
     (\<forall>e\<in>set (g_edges g). ge_layer e = g_layer g \<and>
        jm_get (g_nodes g) (ge_source e) \<noteq> None \<and> jm_get (g_nodes g) (ge_target e) \<noteq> None)"

lemma graph_inv_new: "graph_inv (new_graph l)"
  by (simp add: graph_inv_def new_graph_def)

lemma graph_inv_nodes:
  assumes "graph_inv g" and "gn_layer n = g_layer g"
  shows "graph_inv (g\<lparr>g_nodes := jm_put (gn_id n) n (g_nodes g)\<rparr>)"
  using assms by (auto simp: graph_inv_def jm.get_put jm.wf_put)

lemma graph_inv_edges:
  assumes "graph_inv g" and "set es \<subseteq> set (g_edges g)"
  shows "graph_inv (g\<lparr>g_edges := es\<rparr>)"
  using assms by (auto simp: graph_inv_def)

lemma graph_inv_addNode: "graph_inv g \<Longrightarrow> addNode n g = Inr (m, g') \<Longrightarrow> graph_inv g'"
  by (auto simp: addNode_def graph_inv_nodes split: if_splits)

lemma graph_inv_updateNode: "graph_inv g \<Longrightarrow> updateNode n g = Inr (m, g') \<Longrightarrow> graph_inv g'"
  by (auto simp: updateNode_def graph_inv_nodes split: if_splits)

lemma addEdge_Inr:
  "addEdge e g = Inr (e', g') \<longleftrightarrow>
     e' = e \<and> ge_layer e = g_layer g \<and> jm_has (g_nodes g) (ge_source e) \<and> jm_has (g_nodes g) (ge_target e) \<and>
     g' = g\<lparr>g_edges := g_edges g @ [e]\<rparr>"
  by (auto simp: addEdge_def split: if_splits)

lemma graph_inv_addEdge: "graph_inv g \<Longrightarrow> addEdge e g = Inr (e', g') \<Longrightarrow> graph_inv g'"
  by (auto simp: addEdge_Inr graph_inv_def jm_has_def)

lemma graph_inv_delNode:
  assumes "graph_inv g" and "\<forall>e\<in>set es. \<not> touches i e" and "set es \<subseteq> set (g_edges g)"
  shows "graph_inv (g\<lparr>g_edges := es, g_nodes := jm_del i (g_nodes g)\<rparr>)"
  using assms unfolding graph_inv_def touches_def
  by (auto simp: jm.get_del jm.wf_del subset_iff split: if_splits)

lemma graph_inv_removeNode: "graph_inv g \<Longrightarrow> removeNode i g = Inr g' \<Longrightarrow> graph_inv g'"
  using graph_inv_delNode [of g "g_edges g" i] by (auto simp: removeNode_def filter_empty_conv split: if_splits)

text \<open>The cascade removes exactly the edges of the node, and reports them last first.\<close>

lemma cascade_loop_spec:
  "n \<le> length es \<Longrightarrow> cascade_loop i n es removed =
     (filter (\<lambda>e. \<not> touches i e) (take n es) @ drop n es,
      removed @ rev (map ge_id (filter (touches i) (take n es))))"
proof (induction i n es removed rule: cascade_loop.induct)
  case (2 i n es removed)
  then have t: "take (Suc n) es = take n es @ [es ! n]" and d: "drop n es = es ! n # drop (Suc n) es"
    by (simp_all add: take_Suc_conv_app_nth Cons_nth_drop_Suc)
  show ?case
  proof (cases "touches i (es ! n)")
    case True
    have "n \<le> length (take n es @ drop (Suc n) es)" using 2 by simp
    from 2(1) [OF True this] True t 2(3) show ?thesis by (simp add: min_def)
  next
    case False
    with 2 t d show ?thesis by simp
  qed
qed simp

lemma removeNodeCascade_Inr:
  "removeNodeCascade i g = Inr (removed, g') \<longleftrightarrow>
     jm_has (g_nodes g) i \<and> removed = rev (map ge_id (filter (touches i) (g_edges g))) \<and>
     g' = g\<lparr>g_edges := filter (\<lambda>e. \<not> touches i e) (g_edges g), g_nodes := jm_del i (g_nodes g)\<rparr>"
  by (auto simp: removeNodeCascade_def cascade_loop_spec)

lemma graph_inv_removeNodeCascade: "graph_inv g \<Longrightarrow> removeNodeCascade i g = Inr (removed, g') \<Longrightarrow> graph_inv g'"
  using graph_inv_delNode [of g "filter (\<lambda>e. \<not> touches i e) (g_edges g)" i]
  by (auto simp: removeNodeCascade_Inr)

lemma find_index_Some: "find_index P xs = Some n \<Longrightarrow> n < length xs \<and> P (xs ! n) \<and> (\<forall>m<n. \<not> P (xs ! m))"
  by (auto simp: find_index_def find_Some_iff)

lemma find_index_None: "find_index P xs = None \<longleftrightarrow> (\<forall>x\<in>set xs. \<not> P x)"
  unfolding find_index_def find_None_iff by (auto simp: all_set_conv_all_nth)

lemma graph_inv_removeEdge: "graph_inv g \<Longrightarrow> removeEdge i g = Inr g' \<Longrightarrow> graph_inv g'"
  by (auto simp: removeEdge_def split: option.splits intro!: graph_inv_edges dest: in_set_takeD in_set_dropD)

text \<open>An operation of the editor, and a run of operations; a failing one leaves the graph as it was.\<close>

datatype 'd graph_op =
    AddNode "'d GraphNode" | AddEdge GraphEdge | UpdateNode "'d GraphNode"
  | RemoveNode jsstr | RemoveNodeCascade jsstr | RemoveEdge jsstr

definition keep_on_error :: "'d graph \<Rightarrow> DomainError + 'd graph \<Rightarrow> 'd graph" where
  "keep_on_error g r = (case r of Inl _ \<Rightarrow> g | Inr g' \<Rightarrow> g')"

fun graph_step :: "'d graph_op \<Rightarrow> 'd graph \<Rightarrow> 'd graph" where
  "graph_step (AddNode n) g = keep_on_error g (mapE snd (addNode n g))"
| "graph_step (AddEdge e) g = keep_on_error g (mapE snd (addEdge e g))"
| "graph_step (UpdateNode n) g = keep_on_error g (mapE snd (updateNode n g))"
| "graph_step (RemoveNode i) g = keep_on_error g (removeNode i g)"
| "graph_step (RemoveNodeCascade i) g = keep_on_error g (mapE snd (removeNodeCascade i g))"
| "graph_step (RemoveEdge i) g = keep_on_error g (removeEdge i g)"

lemma graph_inv_step: "graph_inv g \<Longrightarrow> graph_inv (graph_step a g)"
proof (cases a)
  case (AddNode n)
  assume "graph_inv g"
  with AddNode graph_inv_addNode [of g n] show ?thesis
    by (cases "addNode n g") (auto simp: keep_on_error_def)
next
  case (AddEdge e)
  assume "graph_inv g"
  with AddEdge graph_inv_addEdge [of g e] show ?thesis
    by (cases "addEdge e g") (auto simp: keep_on_error_def)
next
  case (UpdateNode n)
  assume "graph_inv g"
  with UpdateNode graph_inv_updateNode [of g n] show ?thesis
    by (cases "updateNode n g") (auto simp: keep_on_error_def)
next
  case (RemoveNode i)
  assume "graph_inv g"
  with RemoveNode graph_inv_removeNode [of g i] show ?thesis
    by (cases "removeNode i g") (auto simp: keep_on_error_def)
next
  case (RemoveNodeCascade i)
  assume "graph_inv g"
  with RemoveNodeCascade graph_inv_removeNodeCascade [of g i] show ?thesis
    by (cases "removeNodeCascade i g") (auto simp: keep_on_error_def)
next
  case (RemoveEdge i)
  assume "graph_inv g"
  with RemoveEdge graph_inv_removeEdge [of g i] show ?thesis
    by (cases "removeEdge i g") (auto simp: keep_on_error_def)
qed

lemma graph_inv_run: "graph_inv g \<Longrightarrow> graph_inv (fold graph_step ops g)"
  by (induction ops arbitrary: g) (auto intro: graph_inv_step)

section \<open>The snapshot\<close>

lemma snapshot_order:
  assumes "g_layer g = g_layer h" and "mset (getNodes g) = mset (getNodes h)"
    and "mset (g_edges g) = mset (g_edges h)"
    and "graph_inv g" and "distinct (map ge_id (g_edges g))"
  shows "deployableSnapshot g = deployableSnapshot h"
proof -
  have "map gn_id (getNodes g) = map fst (g_nodes g)"
    using assms(4) by (auto simp: graph_inv_def getNodes_def jm_get_in)
  then have "distinct (map gn_id (getNodes g))"
    using assms(4) by (simp add: graph_inv_def jm_wf_def)
  then have "sort_key gn_id (getNodes g) = sort_key gn_id (getNodes h)"
    using assms(2) by (intro sort_key_unique) (simp_all add: distinct_map)
  moreover have "sort_key ge_id (g_edges g) = sort_key ge_id (g_edges h)"
    using assms(3,5) by (intro sort_key_unique) (simp_all add: distinct_map)
  ultimately show ?thesis by (simp add: deployableSnapshot_def getEdges_def assms(1))
qed

end
