(* ===== verification/Project.thy ===== *)
theory Project
  imports Graph
begin

text \<open>
  \<open>domain/src/project.ts\<close> and \<open>commands.ts\<close>: the persisted project, the commands that change it,
  the fingerprint of its deployable content, and the undo history. Values whose shape the domain
  does not know (the data of a node, the authoring metadata) are \<open>js_value\<close>.
\<close>

section \<open>The project\<close>

record GraphState =
  gs_layer :: GraphLayer
  gs_nodes :: "js_value GraphNode list"
  gs_edges :: "GraphEdge list"

record CoreBindingRecord =
  cb_bindingId :: jsstr
  cb_expectedDeviceId :: jsstr
  cb_connectionProfileId :: jsstr
  cb_lastKnownVariant :: "jsstr option"
  cb_lastKnownProfile :: "jsstr option"
  cb_lastKnownFeatureSet :: "jsstr list option"

record RequiredArtifact =
  ra_profileId :: "jsstr option"
  ra_packId :: "jsstr option"
  ra_version :: jsstr
  ra_hash :: jsstr

record DeploymentRecordV1 =
  dr_deploymentId :: jsstr
  dr_target :: jsstr
  dr_timestamp :: jsstr
  dr_sourceProjectHash :: jsstr
  dr_configGeneration :: "float64 option"
  dr_configHash :: "jsstr option"
  dr_nodeRedRevision :: "jsstr option"
  dr_catalogFingerprint :: "jsstr option"
  dr_featureSetHash :: "jsstr option"
  dr_outcome :: jsstr

record ProjectV1 =
  pj_projectId :: jsstr
  pj_name :: jsstr
  pj_coreBindings :: "CoreBindingRecord list"
  pj_physicalGraphs :: "GraphState list"
  pj_deviceGraphs :: "GraphState list"
  pj_systemAutomationGraph :: GraphState
  pj_requiredArtifacts :: "RequiredArtifact list"
  pj_deploymentRecords :: "DeploymentRecordV1 list"
  pj_authoringMetadata :: "(jsstr, js_value) jsmap"
  pj_deviceProfilePackages :: "jsstr list"

definition emptyGraph :: "GraphLayer \<Rightarrow> GraphState" where
  "emptyGraph l = \<lparr>gs_layer = l, gs_nodes = [], gs_edges = []\<rparr>"

definition createEmptyProject :: "jsstr \<Rightarrow> jsstr \<Rightarrow> ProjectV1" where
  "createEmptyProject i name =
     \<lparr>pj_projectId = i, pj_name = name, pj_coreBindings = [], pj_physicalGraphs = [], pj_deviceGraphs = [],
      pj_systemAutomationGraph = emptyGraph SystemAutomation, pj_requiredArtifacts = [],
      pj_deploymentRecords = [], pj_authoringMetadata = [], pj_deviceProfilePackages = []\<rparr>"

section \<open>Commands\<close>

text \<open>A \<open>ProjectCommand\<close> has a kind and a function from a project to a project or an error.\<close>

record ProjectCommand =
  pc_kind :: jsstr
  pc_apply :: "ProjectV1 \<Rightarrow> DomainError + ProjectV1"

definition renameProject :: "jsstr \<Rightarrow> ProjectCommand" where
  "renameProject name = \<lparr>pc_kind = js ''RenameProject'', pc_apply = (\<lambda>p. Inr (p\<lparr>pj_name := name\<rparr>))\<rparr>"

definition addCoreBinding :: "CoreBindingRecord \<Rightarrow> ProjectCommand" where
  "addCoreBinding b = \<lparr>pc_kind = js ''AddCoreBinding'', pc_apply = (\<lambda>p.
     if list_ex (\<lambda>c. cb_bindingId c = cb_bindingId b) (pj_coreBindings p)
     then Inl (domainError ''domain.id.duplicate'' [js ''coreBindings''] (cb_bindingId b))
     else Inr (p\<lparr>pj_coreBindings := pj_coreBindings p @ [b],
                 pj_physicalGraphs := pj_physicalGraphs p @ [emptyGraph PhysicalComposition],
                 pj_deviceGraphs := pj_deviceGraphs p @ [emptyGraph DeviceProcessing]\<rparr>))\<rparr>"

text \<open>\<open>filter((_, i) => i !== index)\<close>.\<close>

definition without_index :: "nat \<Rightarrow> 'a list \<Rightarrow> 'a list" where
  "without_index n xs = map snd (filter (\<lambda>(i, x). i \<noteq> n) (enumerate 0 xs))"

definition removeCoreBinding :: "jsstr \<Rightarrow> ProjectCommand" where
  "removeCoreBinding bid = \<lparr>pc_kind = js ''RemoveCoreBinding'', pc_apply = (\<lambda>p.
     case find_index (\<lambda>c. cb_bindingId c = bid) (pj_coreBindings p) of
       None \<Rightarrow> Inl (domainError ''domain.id.dangling_reference'' [js ''coreBindings''] bid)
     | Some n \<Rightarrow> Inr (p\<lparr>pj_coreBindings := without_index n (pj_coreBindings p),
                        pj_physicalGraphs := without_index n (pj_physicalGraphs p),
                        pj_deviceGraphs := without_index n (pj_deviceGraphs p)\<rparr>))\<rparr>"

definition setDeviceProfilePackages :: "jsstr list \<Rightarrow> ProjectCommand" where
  "setDeviceProfilePackages packages = \<lparr>pc_kind = js ''SetDeviceProfilePackages'',
     pc_apply = (\<lambda>p. Inr (p\<lparr>pj_deviceProfilePackages := packages\<rparr>))\<rparr>"

definition appendDeploymentRecord :: "DeploymentRecordV1 \<Rightarrow> ProjectCommand" where
  "appendDeploymentRecord r = \<lparr>pc_kind = js ''AppendDeploymentRecord'',
     pc_apply = (\<lambda>p. Inr (p\<lparr>pj_deploymentRecords := pj_deploymentRecords p @ [r]\<rparr>))\<rparr>"

text \<open>The commands of the module.\<close>

inductive domain_command :: "ProjectCommand \<Rightarrow> bool" where
  rename: "domain_command (renameProject n)"
| add: "domain_command (addCoreBinding b)"
| remove: "domain_command (removeCoreBinding i)"
| packages: "domain_command (setDeviceProfilePackages ps)"
| record_deployment: "domain_command (appendDeploymentRecord r)"

section \<open>Alignment\<close>

text \<open>The graphs of a Core are found by the position of its binding; binding identifiers are distinct.\<close>

definition project_inv :: "ProjectV1 \<Rightarrow> bool" where
  "project_inv p \<longleftrightarrow>
     length (pj_physicalGraphs p) = length (pj_coreBindings p) \<and>
     length (pj_deviceGraphs p) = length (pj_coreBindings p) \<and>
     distinct (map cb_bindingId (pj_coreBindings p)) \<and>
     list_all (\<lambda>g. gs_layer g = PhysicalComposition) (pj_physicalGraphs p) \<and>
     list_all (\<lambda>g. gs_layer g = DeviceProcessing) (pj_deviceGraphs p)"

text \<open>The graphs of one Core: what \<open>physicalGraphLens\<close> and \<open>deviceGraphLens\<close> read.\<close>

definition graphs_of :: "jsstr \<Rightarrow> ProjectV1 \<Rightarrow> (GraphState \<times> GraphState) option" where
  "graphs_of bid p =
     map_option (\<lambda>n. (pj_physicalGraphs p ! n, pj_deviceGraphs p ! n))
       (find_index (\<lambda>c. cb_bindingId c = bid) (pj_coreBindings p))"

lemma without_index_take_drop: "without_index n xs = take n xs @ drop (Suc n) xs"
proof -
  have "map snd (filter (\<lambda>(i, x). i \<noteq> n + k) (enumerate k xs)) = take n xs @ drop (Suc n) xs" for k
  proof (induction xs arbitrary: n k)
    case (Cons x xs)
    have all: "map snd (filter (\<lambda>(i, x). i \<noteq> k) (enumerate (Suc k) xs)) = xs"
    proof -
      have "filter (\<lambda>(i, x). i \<noteq> k) (enumerate (Suc k) xs) = enumerate (Suc k) xs"
        by (auto simp: filter_id_conv enumerate_eq_zip dest: set_zip_leftD)
      then show ?thesis by simp
    qed
    show ?case
    proof (cases n)
      case 0
      with all show ?thesis by simp
    next
      case (Suc m)
      with Cons.IH [of m "Suc k"] show ?thesis by simp
    qed
  qed simp
  from this [of 0] show ?thesis by (simp add: without_index_def)
qed

lemma length_without_index: "n < length xs \<Longrightarrow> Suc (length (without_index n xs)) = length xs"
  by (simp add: without_index_take_drop)

lemma set_without_index: "set (without_index n xs) \<subseteq> set xs"
  by (auto simp: without_index_take_drop dest: in_set_takeD in_set_dropD)

lemma map_without_index: "map f (without_index n xs) = without_index n (map f xs)"
  by (simp add: without_index_take_drop take_map drop_map)

lemma distinct_without_index: "distinct xs \<Longrightarrow> distinct (without_index n xs)"
  by (simp add: without_index_take_drop set_take_disj_set_drop_if_distinct)

lemma project_inv_empty: "project_inv (createEmptyProject i n)"
  by (simp add: project_inv_def createEmptyProject_def)

lemma project_inv_command:
  assumes "domain_command c" and "project_inv p" and "pc_apply c p = Inr p'"
  shows "project_inv p'"
  using assms(1)
proof cases
  case (remove i)
  with assms(3) obtain n where n: "find_index (\<lambda>c. cb_bindingId c = i) (pj_coreBindings p) = Some n"
    and p': "p' = p\<lparr>pj_coreBindings := without_index n (pj_coreBindings p),
                        pj_physicalGraphs := without_index n (pj_physicalGraphs p),
                        pj_deviceGraphs := without_index n (pj_deviceGraphs p)\<rparr>"
    by (auto simp: removeCoreBinding_def split: option.splits)
  from find_index_Some [OF n] have "n < length (pj_coreBindings p)" by simp
  with assms(2) length_without_index [of n "pj_coreBindings p"] length_without_index [of n "pj_physicalGraphs p"]
    length_without_index [of n "pj_deviceGraphs p"] set_without_index [of n "pj_physicalGraphs p"]
    set_without_index [of n "pj_deviceGraphs p"]
  show ?thesis
    unfolding p' project_inv_def list_all_iff
    by (auto simp: map_without_index distinct_without_index subset_iff)
next
  case (add b)
  with assms(3) have new: "cb_bindingId b \<notin> set (map cb_bindingId (pj_coreBindings p))"
    by (auto simp: addCoreBinding_def list_ex_iff split: if_splits)
  from add assms(3) have "p' = p\<lparr>pj_coreBindings := pj_coreBindings p @ [b],
                 pj_physicalGraphs := pj_physicalGraphs p @ [emptyGraph PhysicalComposition],
                 pj_deviceGraphs := pj_deviceGraphs p @ [emptyGraph DeviceProcessing]\<rparr>"
    by (auto simp: addCoreBinding_def split: if_splits)
  with assms(2) new show ?thesis by (simp add: project_inv_def emptyGraph_def)
qed (use assms(2,3) in \<open>auto simp: project_inv_def renameProject_def
      setDeviceProfilePackages_def appendDeploymentRecord_def\<close>)

text \<open>Removing a Core removes its graphs and leaves those of every other Core where they were.\<close>

lemma find_index_unique:
  assumes "distinct (map f xs)" and "n < length xs"
  shows "find_index (\<lambda>x. f x = f (xs ! n)) xs = Some n"
proof (cases "find_index (\<lambda>x. f x = f (xs ! n)) xs")
  case None
  then show ?thesis using assms(2) by (auto simp: find_index_None)
next
  case (Some m)
  with find_index_Some [OF Some] assms show ?thesis
    by (metis length_map nth_eq_iff_index_eq nth_map)
qed

lemma nth_without_index:
  "n < length xs \<Longrightarrow> m < length xs \<Longrightarrow> m \<noteq> n \<Longrightarrow>
     without_index n xs ! (if m < n then m else m - 1) = xs ! m"
  by (auto simp: without_index_take_drop nth_append min_def)

lemma in_without_index:
  assumes "x \<in> set (without_index n xs)"
  obtains m where "m < length xs" and "m \<noteq> n" and "xs ! m = x"
proof -
  from assms have "x \<in> set (take n xs) \<or> x \<in> set (drop (Suc n) xs)"
    by (simp add: without_index_take_drop)
  then show thesis
  proof
    assume "x \<in> set (take n xs)"
    then obtain m where "m < length (take n xs)" "take n xs ! m = x" by (auto simp: in_set_conv_nth)
    then show thesis by (intro that [of m]) auto
  next
    assume "x \<in> set (drop (Suc n) xs)"
    then obtain m where "m < length (drop (Suc n) xs)" "drop (Suc n) xs ! m = x" by (auto simp: in_set_conv_nth)
    then show thesis by (intro that [of "Suc n + m"]) auto
  qed
qed

lemma remove_keeps_others:
  assumes inv: "project_inv p" and r: "pc_apply (removeCoreBinding i) p = Inr p'" and other: "j \<noteq> i"
  shows "graphs_of j p' = graphs_of j p" and "graphs_of i p' = None"
proof -
  let ?bs = "pj_coreBindings p"
  from r obtain n where n: "find_index (\<lambda>c. cb_bindingId c = i) ?bs = Some n"
    and p': "p' = p\<lparr>pj_coreBindings := without_index n ?bs,
                        pj_physicalGraphs := without_index n (pj_physicalGraphs p),
                        pj_deviceGraphs := without_index n (pj_deviceGraphs p)\<rparr>"
    by (auto simp: removeCoreBinding_def split: option.splits)
  from find_index_Some [OF n] have nl: "n < length ?bs" and ni: "cb_bindingId (?bs ! n) = i" by auto
  from inv have d: "distinct (map cb_bindingId ?bs)" and lens: "length (pj_physicalGraphs p) = length ?bs"
    "length (pj_deviceGraphs p) = length ?bs" by (simp_all add: project_inv_def)
  from d have d': "distinct (map cb_bindingId (without_index n ?bs))"
    by (simp add: map_without_index distinct_without_index)
  have gone: "\<forall>c\<in>set (without_index n ?bs). cb_bindingId c \<noteq> i"
  proof
    fix c assume "c \<in> set (without_index n ?bs)"
    then obtain m where m: "m < length ?bs" "m \<noteq> n" "?bs ! m = c" by (rule in_without_index)
    with nth_eq_iff_index_eq [OF d, of m n] nl ni show "cb_bindingId c \<noteq> i" by auto
  qed
  then show "graphs_of i p' = None"
    by (auto simp: graphs_of_def p' find_index_None)
  show "graphs_of j p' = graphs_of j p"
  proof (cases "find_index (\<lambda>c. cb_bindingId c = j) ?bs")
    case None
    then have "find_index (\<lambda>c. cb_bindingId c = j) (without_index n ?bs) = None"
      using set_without_index [of n ?bs] by (auto simp: find_index_None)
    with None show ?thesis by (simp add: graphs_of_def p')
  next
    case (Some m)
    from find_index_Some [OF Some] have m: "m < length ?bs" "cb_bindingId (?bs ! m) = j" by auto
    with ni other have mn: "m \<noteq> n" by auto
    let ?m = "if m < n then m else m - 1"
    have at: "without_index n ?bs ! ?m = ?bs ! m" by (rule nth_without_index [OF nl m(1) mn])
    have "?m < length (without_index n ?bs)"
      using length_without_index [OF nl] m(1) mn nl by auto
    from find_index_unique [OF d' this] have "find_index (\<lambda>c. cb_bindingId c = j) (without_index n ?bs) = Some ?m"
      by (simp add: at m(2) split del: if_split)
    moreover have "without_index n (pj_physicalGraphs p) ! ?m = pj_physicalGraphs p ! m"
      "without_index n (pj_deviceGraphs p) ! ?m = pj_deviceGraphs p ! m"
      by (rule nth_without_index; use nl m(1) mn lens in simp)+
    ultimately show ?thesis using Some by (simp add: graphs_of_def p' split del: if_split)
  qed
qed

section \<open>The fingerprint\<close>

text \<open>The object whose content hash \<open>canonicalProjectHash\<close> takes. An absent optional field is
  \<open>JUndefined\<close>, which JSON leaves out.\<close>

definition opt_value :: "('a \<Rightarrow> js_value) \<Rightarrow> 'a option \<Rightarrow> js_value" where
  "opt_value f x = (case x of None \<Rightarrow> JUndefined | Some v \<Rightarrow> f v)"

definition binding_value :: "CoreBindingRecord \<Rightarrow> js_value" where
  "binding_value b = JObject
     [(js ''bindingId'', JString (cb_bindingId b)), (js ''expectedDeviceId'', JString (cb_expectedDeviceId b)),
      (js ''connectionProfileId'', JString (cb_connectionProfileId b)),
      (js ''lastKnownVariant'', opt_value JString (cb_lastKnownVariant b)),
      (js ''lastKnownProfile'', opt_value JString (cb_lastKnownProfile b)),
      (js ''lastKnownFeatureSet'', opt_value (\<lambda>fs. JArray (map JString fs)) (cb_lastKnownFeatureSet b))]"

definition artifact_value :: "RequiredArtifact \<Rightarrow> js_value" where
  "artifact_value a = JObject
     [(js ''profileId'', opt_value JString (ra_profileId a)), (js ''packId'', opt_value JString (ra_packId a)),
      (js ''version'', JString (ra_version a)), (js ''hash'', JString (ra_hash a))]"

definition deployment_value :: "DeploymentRecordV1 \<Rightarrow> js_value" where
  "deployment_value r = JObject
     [(js ''deploymentId'', JString (dr_deploymentId r)), (js ''target'', JString (dr_target r)),
      (js ''timestamp'', JString (dr_timestamp r)), (js ''sourceProjectHash'', JString (dr_sourceProjectHash r)),
      (js ''configGeneration'', opt_value JNumber (dr_configGeneration r)),
      (js ''configHash'', opt_value JString (dr_configHash r)),
      (js ''nodeRedRevision'', opt_value JString (dr_nodeRedRevision r)),
      (js ''catalogFingerprint'', opt_value JString (dr_catalogFingerprint r)),
      (js ''featureSetHash'', opt_value JString (dr_featureSetHash r)), (js ''outcome'', JString (dr_outcome r))]"

text \<open>\<open>normalizeGraph\<close>: the handles of an edge are not among the fields it keeps.\<close>

definition normalizeGraph :: "GraphState \<Rightarrow> js_value" where
  "normalizeGraph g = JObject
     [(js ''layer'', JString (layer_text (gs_layer g))),
      (js ''nodes'', JArray (map (\<lambda>n. JObject [(js ''id'', JString (gn_id n)), (js ''data'', gn_data n)])
         (sort_key gn_id (gs_nodes g)))),
      (js ''edges'', JArray (map (\<lambda>e. JObject [(js ''id'', JString (ge_id e)), (js ''source'', JString (ge_source e)),
           (js ''target'', JString (ge_target e))])
         (sort_key ge_id (gs_edges g))))]"

definition hashed_value :: "ProjectV1 \<Rightarrow> js_value" where
  "hashed_value p = JObject
     [(js ''schemaVersion'', JNumber 0x3FF0000000000000),
      (js ''projectId'', JString (pj_projectId p)), (js ''name'', JString (pj_name p)),
      (js ''coreBindings'', JArray (map binding_value (sort_key cb_bindingId (pj_coreBindings p)))),
      (js ''physicalGraphs'', JArray (map normalizeGraph (pj_physicalGraphs p))),
      (js ''deviceGraphs'', JArray (map normalizeGraph (pj_deviceGraphs p))),
      (js ''systemAutomationGraph'', normalizeGraph (pj_systemAutomationGraph p)),
      (js ''requiredArtifacts'', JArray (map artifact_value (sort_key ra_hash (pj_requiredArtifacts p)))),
      (js ''deploymentRecords'', JArray (map deployment_value (sort_key dr_deploymentId (pj_deploymentRecords p))))]"

definition canonicalProjectHash :: "(float64 \<Rightarrow> jsstr) \<Rightarrow> ProjectV1 \<Rightarrow> jsstr option" where
  "canonicalProjectHash num p = contentHash num (hashed_value p)"

lemma project_hash_total: "\<exists>h. canonicalProjectHash num p = Some h \<and> length h = 8"
  unfolding canonicalProjectHash_def by (rule contentHash_some) (simp add: hashed_value_def)

text \<open>Two graphs that hold the same nodes and edges in another order.\<close>

definition same_graph :: "GraphState \<Rightarrow> GraphState \<Rightarrow> bool" where
  "same_graph g h \<longleftrightarrow> gs_layer g = gs_layer h \<and> mset (gs_nodes g) = mset (gs_nodes h) \<and>
     mset (gs_edges g) = mset (gs_edges h) \<and> distinct (map gn_id (gs_nodes g)) \<and> distinct (map ge_id (gs_edges g))"

definition same_project :: "ProjectV1 \<Rightarrow> ProjectV1 \<Rightarrow> bool" where
  "same_project p q \<longleftrightarrow> pj_projectId p = pj_projectId q \<and> pj_name p = pj_name q \<and>
     mset (pj_coreBindings p) = mset (pj_coreBindings q) \<and> distinct (map cb_bindingId (pj_coreBindings p)) \<and>
     list_all2 same_graph (pj_physicalGraphs p) (pj_physicalGraphs q) \<and>
     list_all2 same_graph (pj_deviceGraphs p) (pj_deviceGraphs q) \<and>
     same_graph (pj_systemAutomationGraph p) (pj_systemAutomationGraph q) \<and>
     mset (pj_requiredArtifacts p) = mset (pj_requiredArtifacts q) \<and> distinct (map ra_hash (pj_requiredArtifacts p)) \<and>
     mset (pj_deploymentRecords p) = mset (pj_deploymentRecords q) \<and>
     distinct (map dr_deploymentId (pj_deploymentRecords p))"

lemma sort_same: "mset xs = mset ys \<Longrightarrow> distinct (map f xs) \<Longrightarrow> sort_key f xs = sort_key f ys"
  by (rule sort_key_unique) (simp_all add: distinct_map)

lemma normalize_same: "same_graph g h \<Longrightarrow> normalizeGraph g = normalizeGraph h"
  unfolding same_graph_def normalizeGraph_def
  using sort_same [of "gs_nodes g" "gs_nodes h" gn_id] sort_same [of "gs_edges g" "gs_edges h" ge_id] by simp

lemma normalize_all_same: "list_all2 same_graph gs hs \<Longrightarrow> map normalizeGraph gs = map normalizeGraph hs"
  by (induction rule: list_all2_induct) (simp_all add: normalize_same)

lemma hash_same: "same_project p q \<Longrightarrow> hashed_value p = hashed_value q"
  unfolding same_project_def hashed_value_def
  using sort_same [of "pj_coreBindings p" "pj_coreBindings q" cb_bindingId]
    sort_same [of "pj_requiredArtifacts p" "pj_requiredArtifacts q" ra_hash]
    sort_same [of "pj_deploymentRecords p" "pj_deploymentRecords q" dr_deploymentId]
    normalize_all_same [of "pj_physicalGraphs p" "pj_physicalGraphs q"]
    normalize_all_same [of "pj_deviceGraphs p" "pj_deviceGraphs q"]
    normalize_same [of "pj_systemAutomationGraph p" "pj_systemAutomationGraph q"] by simp

text \<open>The handles of the edges do not reach the hash.\<close>

definition without_handles :: "GraphState \<Rightarrow> GraphState" where
  "without_handles g = g\<lparr>gs_edges := map (\<lambda>e. e\<lparr>ge_sourceHandle := None, ge_targetHandle := None\<rparr>) (gs_edges g)\<rparr>"

lemma sort_key_map_same: "(\<And>x. f (h x) = f x) \<Longrightarrow> sort_key f (map h xs) = map h (sort_key f xs)"
proof (induction xs)
  case (Cons x xs)
  have "insort_key f (h x) (map h ys) = map h (insort_key f x ys)" for ys
    by (induction ys) (simp_all add: Cons.prems)
  with Cons show ?case by (simp add: sort_key_def)
qed simp

lemma normalize_without_handles: "normalizeGraph (without_handles g) = normalizeGraph g"
proof -
  let ?h = "\<lambda>e. e\<lparr>ge_sourceHandle := None, ge_targetHandle := None\<rparr>"
  have s: "sort_key ge_id (map ?h (gs_edges g)) = map ?h (sort_key ge_id (gs_edges g))"
    by (rule sort_key_map_same) simp
  show ?thesis by (simp add: normalizeGraph_def without_handles_def s comp_def)
qed

lemma hash_without_handles:
  "canonicalProjectHash num (p\<lparr>pj_deviceGraphs := map without_handles (pj_deviceGraphs p)\<rparr>) = canonicalProjectHash num p"
  by (simp add: canonicalProjectHash_def hashed_value_def comp_def normalize_without_handles)

end
