(* ===== verification/History.thy ===== *)
theory History
  imports Project
begin

text \<open>
  The undo history of \<open>domain/src/commands.ts\<close>. The class \<open>CommandStack\<close> keeps the current
  project and two stacks of snapshots; its abstract specification is a timeline of states with a
  cursor, in which undo and redo move the cursor and a command cuts off what was to be redone. The
  interface \<open>undo_history\<close> says what a client of undo and redo relies on.
\<close>

section \<open>The interface\<close>

text \<open>An operation repeated \<open>n\<close> times, up to its first failure.\<close>

fun times :: "nat \<Rightarrow> ('s \<Rightarrow> 'e + 's) \<Rightarrow> 's \<Rightarrow> 'e + 's" where
  "times 0 f s = Inr s"
| "times (Suc n) f s = bindE (f s) (times n f)"

lemma times_snoc: "times (Suc n) f s = bindE (times n f s) f"
proof (induction n arbitrary: s)
  case 0
  then show ?case by (cases "f s") auto
next
  case (Suc n)
  show ?case by (cases "f s") (use Suc in auto)
qed

locale undo_history =
  fixes cur :: "'s \<Rightarrow> 'p"
    and exec :: "'c \<Rightarrow> 's \<Rightarrow> 'e + 's"
    and un :: "'s \<Rightarrow> 'e + 's"
    and re :: "'s \<Rightarrow> 'e + 's"
    and undoable :: "'s \<Rightarrow> nat"
  assumes undoable_exec: "exec c s = Inr t \<Longrightarrow> undoable t = Suc (undoable s)"
    and undo_exec: "exec c s = Inr t \<Longrightarrow> \<exists>u. un t = Inr u \<and> cur u = cur s \<and> undoable u = undoable s \<and>
          (\<forall>v w. un s = Inr v \<and> un u = Inr w \<longrightarrow> cur v = cur w)"
    and redo_undo: "un s = Inr t \<Longrightarrow> re t = Inr s"
    and undo_redo: "re s = Inr t \<Longrightarrow> un t = Inr s"
    and undo_possible: "0 < undoable s \<longleftrightarrow> (\<exists>t. un s = Inr t)"
    and undoable_undo: "un s = Inr t \<Longrightarrow> undoable s = Suc (undoable t)"
begin

text \<open>Undoing as often as possible and redoing as often comes back to the very same history.\<close>

lemma redo_all: "times n un s = Inr t \<Longrightarrow> times n re t = Inr s"
proof (induction n arbitrary: t)
  case (Suc n)
  from Suc.prems obtain u where u: "times n un s = Inr u" "un u = Inr t"
    by (auto simp only: times_snoc bindE_Inr_iff)
  from redo_undo [OF u(2)] Suc.IH [OF u(1)] show ?case by simp
qed simp

lemma undo_all: "n \<le> undoable s \<Longrightarrow> \<exists>t. times n un s = Inr t \<and> undoable t = undoable s - n"
proof (induction n arbitrary: s)
  case (Suc n)
  then have "0 < undoable s" by simp
  then obtain t where t: "un s = Inr t" using undo_possible by blast
  with undoable_undo [OF t] Suc.IH [of t] Suc.prems show ?case by auto
qed simp

end

section \<open>The stack\<close>

record command_stack =
  cs_state :: ProjectV1
  cs_past :: "(ProjectV1 \<times> jsstr) list"
  cs_future :: "(ProjectV1 \<times> jsstr) list"

definition new_stack :: "ProjectV1 \<Rightarrow> command_stack" where
  "new_stack p = \<lparr>cs_state = p, cs_past = [], cs_future = []\<rparr>"

definition canUndo :: "command_stack \<Rightarrow> bool" where
  "canUndo s \<longleftrightarrow> length (cs_past s) > 0"

definition canRedo :: "command_stack \<Rightarrow> bool" where
  "canRedo s \<longleftrightarrow> length (cs_future s) > 0"

definition peekUndoKind :: "command_stack \<Rightarrow> jsstr option" where
  "peekUndoKind s = (if cs_past s = [] then None else Some (snd (List.last (cs_past s))))"

definition peekRedoKind :: "command_stack \<Rightarrow> jsstr option" where
  "peekRedoKind s = (if cs_future s = [] then None else Some (snd (List.last (cs_future s))))"

definition execute :: "ProjectCommand \<Rightarrow> command_stack \<Rightarrow> DomainError + command_stack" where
  "execute c s =
     (case pc_apply c (cs_state s) of
        Inl e \<Rightarrow> Inl e
      | Inr p \<Rightarrow> Inr \<lparr>cs_state = p, cs_past = cs_past s @ [(cs_state s, pc_kind c)], cs_future = []\<rparr>)"

definition undo :: "command_stack \<Rightarrow> DomainError + command_stack" where
  "undo s =
     (if cs_past s = [] then Inl (domainError ''domain.command.nothing_to_undo'' [js ''commandStack''] (js ''undo''))
      else let previous = List.last (cs_past s) in
        Inr \<lparr>cs_state = fst previous, cs_past = butlast (cs_past s),
             cs_future = cs_future s @ [(cs_state s, snd previous)]\<rparr>)"

definition redo :: "command_stack \<Rightarrow> DomainError + command_stack" where
  "redo s =
     (if cs_future s = [] then Inl (domainError ''domain.command.nothing_to_redo'' [js ''commandStack''] (js ''redo''))
      else let following = List.last (cs_future s) in
        Inr \<lparr>cs_state = fst following, cs_past = cs_past s @ [(cs_state s, snd following)],
             cs_future = butlast (cs_future s)\<rparr>)"

lemma undo_Inr: "undo s = Inr t \<longleftrightarrow> (\<exists>ps p k. cs_past s = ps @ [(p, k)] \<and>
    t = \<lparr>cs_state = p, cs_past = ps, cs_future = cs_future s @ [(cs_state s, k)]\<rparr>)"
  by (cases "cs_past s" rule: rev_cases) (auto simp: undo_def Let_def)

lemma redo_Inr: "redo s = Inr t \<longleftrightarrow> (\<exists>fs p k. cs_future s = fs @ [(p, k)] \<and>
    t = \<lparr>cs_state = p, cs_past = cs_past s @ [(cs_state s, k)], cs_future = fs\<rparr>)"
  by (cases "cs_future s" rule: rev_cases) (auto simp: redo_def Let_def)

lemma execute_Inr: "execute c s = Inr t \<longleftrightarrow> (\<exists>p. pc_apply c (cs_state s) = Inr p \<and>
    t = \<lparr>cs_state = p, cs_past = cs_past s @ [(cs_state s, pc_kind c)], cs_future = []\<rparr>)"
  by (auto simp: execute_def split: sum.split)

interpretation stack: undo_history cs_state execute undo redo "\<lambda>s. length (cs_past s)"
proof unfold_locales
  fix s t :: command_stack and c
  show "redo t = Inr s" if "undo s = Inr t" using that by (cases s) (auto simp: undo_Inr redo_Inr)
  show "undo t = Inr s" if "redo s = Inr t" using that by (cases s) (auto simp: undo_Inr redo_Inr)
  show "0 < length (cs_past s) \<longleftrightarrow> (\<exists>t. undo s = Inr t)"
    by (auto simp: undo_def Let_def)
  show "\<exists>u. undo t = Inr u \<and> cs_state u = cs_state s \<and> length (cs_past u) = length (cs_past s) \<and>
          (\<forall>v w. undo s = Inr v \<and> undo u = Inr w \<longrightarrow> cs_state v = cs_state w)"
    if "execute c s = Inr t"
    using that by (auto simp: execute_Inr undo_Inr)
qed (auto simp: execute_Inr undo_Inr)

section \<open>The specification\<close>

text \<open>A timeline: the states, the kinds of the commands between them, and the position.\<close>

record timeline =
  tl_states :: "ProjectV1 list"
  tl_kinds :: "jsstr list"
  tl_at :: nat

definition tl_ok :: "timeline \<Rightarrow> bool" where
  "tl_ok a \<longleftrightarrow> length (tl_states a) = Suc (length (tl_kinds a)) \<and> tl_at a < length (tl_states a)"

definition tl_execute :: "ProjectCommand \<Rightarrow> timeline \<Rightarrow> timeline option" where
  "tl_execute c a =
     (case pc_apply c (tl_states a ! tl_at a) of
        Inl _ \<Rightarrow> None
      | Inr p \<Rightarrow> Some \<lparr>tl_states = take (Suc (tl_at a)) (tl_states a) @ [p],
                       tl_kinds = take (tl_at a) (tl_kinds a) @ [pc_kind c], tl_at = Suc (tl_at a)\<rparr>)"

definition tl_undo :: "timeline \<Rightarrow> timeline option" where
  "tl_undo a = (if tl_at a = 0 then None else Some (a\<lparr>tl_at := tl_at a - 1\<rparr>))"

definition tl_redo :: "timeline \<Rightarrow> timeline option" where
  "tl_redo a = (if Suc (tl_at a) < length (tl_states a) then Some (a\<lparr>tl_at := Suc (tl_at a)\<rparr>) else None)"

definition abs_stack :: "command_stack \<Rightarrow> timeline" where
  "abs_stack s =
     \<lparr>tl_states = map fst (cs_past s) @ cs_state s # rev (map fst (cs_future s)),
      tl_kinds = map snd (cs_past s) @ rev (map snd (cs_future s)), tl_at = length (cs_past s)\<rparr>"

definition returned_stack :: "DomainError + command_stack \<Rightarrow> command_stack option" where
  "returned_stack r = (case r of Inl _ \<Rightarrow> None | Inr s \<Rightarrow> Some s)"

lemma abs_ok: "tl_ok (abs_stack s)"
  by (simp add: tl_ok_def abs_stack_def)

lemma abs_execute: "map_option abs_stack (returned_stack (execute c s)) = tl_execute c (abs_stack s)"
  by (auto simp: execute_def tl_execute_def abs_stack_def returned_stack_def nth_append split: sum.splits)

lemma abs_undo: "map_option abs_stack (returned_stack (undo s)) = tl_undo (abs_stack s)"
proof (cases "cs_past s" rule: rev_cases)
  case (snoc ps x)
  then show ?thesis by (cases x) (simp add: undo_def tl_undo_def abs_stack_def returned_stack_def Let_def)
qed (simp add: undo_def tl_undo_def abs_stack_def returned_stack_def)

lemma abs_redo: "map_option abs_stack (returned_stack (redo s)) = tl_redo (abs_stack s)"
proof (cases "cs_future s" rule: rev_cases)
  case (snoc fs x)
  then show ?thesis by (cases x) (simp add: redo_def tl_redo_def abs_stack_def returned_stack_def Let_def)
qed (simp add: redo_def tl_redo_def abs_stack_def returned_stack_def)

lemma abs_current: "cs_state s = tl_states (abs_stack s) ! tl_at (abs_stack s)"
  by (simp add: abs_stack_def nth_append)

lemma abs_kinds:
  "peekUndoKind s = (if tl_at (abs_stack s) = 0 then None else Some (tl_kinds (abs_stack s) ! (tl_at (abs_stack s) - 1)))"
  "peekRedoKind s = (if tl_at (abs_stack s) < length (tl_kinds (abs_stack s))
                     then Some (tl_kinds (abs_stack s) ! tl_at (abs_stack s)) else None)"
  by (cases "cs_past s" rule: rev_cases; cases "cs_future s" rule: rev_cases;
      simp add: peekUndoKind_def peekRedoKind_def abs_stack_def nth_append)+

text \<open>Every snapshot of the history of a project keeps its invariant.\<close>

definition stack_inv :: "command_stack \<Rightarrow> bool" where
  "stack_inv s \<longleftrightarrow> project_inv (cs_state s) \<and> (\<forall>x \<in> set (cs_past s) \<union> set (cs_future s). project_inv (fst x))"

datatype stack_op = Execute ProjectCommand | Undo | Redo

fun stack_step :: "stack_op \<Rightarrow> command_stack \<Rightarrow> command_stack" where
  "stack_step (Execute c) s = (case execute c s of Inl _ \<Rightarrow> s | Inr t \<Rightarrow> t)"
| "stack_step Undo s = (case undo s of Inl _ \<Rightarrow> s | Inr t \<Rightarrow> t)"
| "stack_step Redo s = (case redo s of Inl _ \<Rightarrow> s | Inr t \<Rightarrow> t)"

lemma stack_inv_step:
  assumes "stack_inv s" and "\<And>c. a = Execute c \<Longrightarrow> domain_command c"
  shows "stack_inv (stack_step a s)"
proof (cases a)
  case (Execute c)
  show ?thesis
  proof (cases "execute c s")
    case (Inr t)
    then obtain p where p: "pc_apply c (cs_state s) = Inr p"
      and t: "t = \<lparr>cs_state = p, cs_past = cs_past s @ [(cs_state s, pc_kind c)], cs_future = []\<rparr>"
      by (auto simp: execute_Inr)
    from project_inv_command [OF assms(2) [OF Execute] _ p] assms(1) have "project_inv p"
      by (simp add: stack_inv_def)
    with assms(1) Inr show ?thesis by (simp add: Execute t stack_inv_def)
  qed (simp add: Execute assms(1))
next
  case Undo
  show ?thesis
  proof (cases "undo s")
    case (Inr t)
    with assms(1) have "stack_inv t" by (auto simp: undo_Inr stack_inv_def)
    with Inr show ?thesis by (simp add: Undo)
  qed (simp add: Undo assms(1))
next
  case Redo
  show ?thesis
  proof (cases "redo s")
    case (Inr t)
    with assms(1) have "stack_inv t" by (auto simp: redo_Inr stack_inv_def)
    with Inr show ?thesis by (simp add: Redo)
  qed (simp add: Redo assms(1))
qed

lemma stack_inv_run:
  "stack_inv s \<Longrightarrow> (\<And>c. Execute c \<in> set as \<Longrightarrow> domain_command c) \<Longrightarrow> stack_inv (fold stack_step as s)"
proof (induction as arbitrary: s)
  case (Cons a as)
  have "stack_inv (stack_step a s)"
    by (rule stack_inv_step [OF Cons.prems(1)]) (use Cons.prems(2) in simp)
  with Cons.IH Cons.prems(2) show ?case by simp
qed simp

end
