(* ===== verification/Schema.thy ===== *)
theory Schema
  imports Graph Int64
begin

text \<open>
  What enters the domain from outside: identifiers (\<open>ids.ts\<close>), projects read back from JSON
  (\<open>project.ts\<close>, \<open>project-import-export.ts\<close>), connection profiles (\<open>connection-profile.ts\<close>) and
  the permission check (\<open>permission.ts\<close>). \<open>JSON.parse\<close> and \<open>String(value)\<close> are parameters.
\<close>

section \<open>Identifiers\<close>

text \<open>\<open>UUID_PATTERN\<close>: groups of 8, 4, 4, 4 and 12 hexadecimal digits, with the \<open>i\<close> flag.\<close>

definition hex_digit :: "16 word \<Rightarrow> bool" where
  "hex_digit u \<longleftrightarrow> (48 \<le> u \<and> u \<le> 57) \<or> (97 \<le> u \<and> u \<le> 102) \<or> (65 \<le> u \<and> u \<le> 70)"

definition UUID_PATTERN :: "jsstr \<Rightarrow> bool" where
  "UUID_PATTERN s \<longleftrightarrow> length s = 36 \<and>
     (\<forall>i\<in>set [0..<36]. if i \<in> {8, 13, 18, 23} then s ! i = 45 else hex_digit (s ! i))"

definition idFactory :: "string \<Rightarrow> jsstr \<Rightarrow> DomainError + jsstr" where
  "idFactory brand raw =
     (if UUID_PATTERN raw then Inr raw else Inl (domainError ''domain.id.invalid'' [js brand] raw))"

section \<open>Projects of unknown origin\<close>

definition invalid :: "(js_value \<Rightarrow> jsstr) \<Rightarrow> string \<Rightarrow> js_value \<Rightarrow> DomainError" where
  "invalid str field target = domainError ''domain.schema.invalid'' [js field] (str target)"

fun isArray :: "js_value \<Rightarrow> bool" where
  "isArray (JArray vs) = True"
| "isArray v = False"

fun isRecord :: "js_value \<Rightarrow> bool" where
  "isRecord (JObject kvs) = True"
| "isRecord v = False"

fun isString :: "js_value \<Rightarrow> bool" where
  "isString (JString s) = True"
| "isString v = False"

text \<open>Reading a property; an absent one is \<open>undefined\<close>.\<close>

definition property :: "(jsstr \<times> js_value) list \<Rightarrow> string \<Rightarrow> js_value" where
  "property kvs field = (case map_of kvs (js field) of None \<Rightarrow> JUndefined | Some v \<Rightarrow> v)"

definition check_field :: "(js_value \<Rightarrow> jsstr) \<Rightarrow> (js_value \<Rightarrow> bool) \<Rightarrow> (jsstr \<times> js_value) list \<Rightarrow> string \<Rightarrow> DomainError list" where
  "check_field str P kvs field = (if P (property kvs field) then [] else [invalid str field (property kvs field)])"

definition is_one :: "js_value \<Rightarrow> bool" where
  "is_one v \<longleftrightarrow> v = JNumber 0x3FF0000000000000"

definition nonempty_string :: "js_value \<Rightarrow> bool" where
  "nonempty_string v \<longleftrightarrow> isString v \<and> v \<noteq> JString []"

definition project_checks :: "((js_value \<Rightarrow> bool) \<times> string) list" where
  "project_checks =
     [(is_one, ''schemaVersion''), (nonempty_string, ''projectId''), (isString, ''name''),
      (isArray, ''coreBindings''), (isArray, ''physicalGraphs''), (isArray, ''deviceGraphs''),
      (isRecord, ''systemAutomationGraph''), (isArray, ''requiredArtifacts''),
      (isArray, ''deploymentRecords''), (isRecord, ''authoringMetadata''),
      (\<lambda>v. v = JUndefined \<or> isArray v, ''deviceProfilePackages'')]"

text \<open>The validated value, with the default of the missing field: \<open>{ ...raw, deviceProfilePackages }\<close>.\<close>

definition validateProjectV1 :: "(js_value \<Rightarrow> jsstr) \<Rightarrow> js_value \<Rightarrow> DomainError list + (jsstr \<times> js_value) list" where
  "validateProjectV1 str raw =
     (case raw of
        JObject kvs \<Rightarrow>
          (let errors = concat (map (\<lambda>(P, field). check_field str P kvs field) project_checks) in
           if errors \<noteq> [] then Inl errors
           else Inr (jm_put (js ''deviceProfilePackages'')
                  (if isArray (property kvs ''deviceProfilePackages'') then property kvs ''deviceProfilePackages'' else JArray []) kvs))
      | _ \<Rightarrow> Inl [invalid str ''$'' raw])"

definition importProjectV1 :: "(jsstr \<Rightarrow> js_value option) \<Rightarrow> (js_value \<Rightarrow> jsstr) \<Rightarrow> jsstr \<Rightarrow>
    DomainError list + (jsstr \<times> js_value) list" where
  "importProjectV1 parse str json =
     (case parse json of
        None \<Rightarrow> Inl [domainError ''domain.schema.invalid'' [js ''$''] (js ''json'')]
      | Some v \<Rightarrow> validateProjectV1 str v)"

definition MAX_PROJECT_IMPORT_BYTES :: nat where
  "MAX_PROJECT_IMPORT_BYTES = 5 * 1024 * 1024"

record ProjectImportPreview =
  ip_project :: "(jsstr \<times> js_value) list"
  ip_isDuplicateId :: bool

definition tooLarge :: "nat \<Rightarrow> DomainError" where
  "tooLarge n = domainError ''domain.import.too_large'' [js ''projectImport''] (nat_text n @ js '' bytes'')"

definition previewProjectImport :: "(jsstr \<Rightarrow> js_value option) \<Rightarrow> (js_value \<Rightarrow> jsstr) \<Rightarrow> jsstr \<Rightarrow> jsstr list \<Rightarrow>
    DomainError list + ProjectImportPreview" where
  "previewProjectImport parse str json existing =
     (if length json > MAX_PROJECT_IMPORT_BYTES then Inl [tooLarge (length json)]
      else mapE (\<lambda>project. \<lparr>ip_project = project,
             ip_isDuplicateId = (\<exists>i\<in>set existing. property project ''projectId'' = JString i)\<rparr>)
           (importProjectV1 parse str json))"

datatype import_decision = Rename | Keep

text \<open>\<open>None\<close> is the exception of a malformed UUID from the generator.\<close>

definition resolveProjectImportId :: "ProjectImportPreview \<Rightarrow> import_decision \<Rightarrow> jsstr \<Rightarrow> (jsstr \<times> js_value) list option" where
  "resolveProjectImportId preview decision generated =
     (if decision = Keep \<or> \<not> ip_isDuplicateId preview then Some (ip_project preview)
      else case idFactory ''ProjectId'' generated of
             Inl _ \<Rightarrow> None
           | Inr i \<Rightarrow> Some (jm_put (js ''projectId'') (JString i) (ip_project preview)))"

text \<open>What is accepted, exactly.\<close>

definition project_shape :: "(jsstr \<times> js_value) list \<Rightarrow> bool" where
  "project_shape kvs \<longleftrightarrow>
     property kvs ''schemaVersion'' = JNumber 0x3FF0000000000000 \<and>
     (\<exists>s. s \<noteq> [] \<and> property kvs ''projectId'' = JString s) \<and> (\<exists>s. property kvs ''name'' = JString s) \<and>
     (\<forall>f\<in>{''coreBindings'', ''physicalGraphs'', ''deviceGraphs'', ''requiredArtifacts'', ''deploymentRecords''}.
        \<exists>vs. property kvs f = JArray vs) \<and>
     (\<forall>f\<in>{''systemAutomationGraph'', ''authoringMetadata''}. \<exists>m. property kvs f = JObject m) \<and>
     (property kvs ''deviceProfilePackages'' = JUndefined \<or> (\<exists>vs. property kvs ''deviceProfilePackages'' = JArray vs))"

lemma is_iffs:
  "isArray v \<longleftrightarrow> (\<exists>vs. v = JArray vs)" "isRecord v \<longleftrightarrow> (\<exists>m. v = JObject m)" "isString v \<longleftrightarrow> (\<exists>s. v = JString s)"
  by (cases v; simp)+

lemma nonempty_string_iff: "nonempty_string v \<longleftrightarrow> (\<exists>s. s \<noteq> [] \<and> v = JString s)"
  by (cases v) (simp_all add: nonempty_string_def)

lemma check_field_Nil: "check_field str P kvs f = [] \<longleftrightarrow> P (property kvs f)"
  by (simp add: check_field_def)

lemma checks_Nil:
  "concat (map (\<lambda>(P, field). check_field str P kvs field) project_checks) = [] \<longleftrightarrow> project_shape kvs"
  unfolding project_checks_def project_shape_def
  by (simp add: check_field_Nil is_iffs is_one_def nonempty_string_iff conj_ac)

lemma validate_accepts: "(\<exists>p. validateProjectV1 str (JObject kvs) = Inr p) \<longleftrightarrow> project_shape kvs"
  by (auto simp: validateProjectV1_def Let_def checks_Nil simp del: concat_eq_Nil_conv)

lemma validate_result:
  assumes "validateProjectV1 str raw = Inr p"
  shows "\<exists>kvs. raw = JObject kvs \<and> p = jm_put (js ''deviceProfilePackages'')
     (if isArray (property kvs ''deviceProfilePackages'') then property kvs ''deviceProfilePackages'' else JArray []) kvs \<and>
     project_shape kvs"
  using assms by (cases raw) (auto simp: validateProjectV1_def Let_def checks_Nil simp del: concat_eq_Nil_conv split: if_splits)

lemma property_put: "property (jm_put (js g) v kvs) f = (if f = g then v else property kvs f)"
  by (auto simp: property_def jm.get_put js_inj)

lemma validate_shape: "validateProjectV1 str raw = Inr p \<Longrightarrow> project_shape p \<and> isArray (property p ''deviceProfilePackages'')"
  by (drule validate_result) (auto simp: project_shape_def property_put is_iffs)

text \<open>What was accepted is accepted again, unchanged.\<close>

lemma put_same: "map_of kvs k = Some v \<Longrightarrow> jm_put k v kvs = kvs"
  by (induction kvs) auto

lemma validate_idem: "validateProjectV1 str raw = Inr p \<Longrightarrow> validateProjectV1 str (JObject p) = Inr p"
proof -
  assume "validateProjectV1 str raw = Inr p"
  from validate_shape [OF this] obtain vs where s: "project_shape p" and v: "property p ''deviceProfilePackages'' = JArray vs"
    by (auto simp: is_iffs)
  from v have "map_of p (js ''deviceProfilePackages'') = Some (JArray vs)"
    by (auto simp: property_def split: option.splits)
  from put_same [OF this] s v show ?thesis
    by (simp add: validateProjectV1_def Let_def checks_Nil del: concat_eq_Nil_conv)
qed

text \<open>The number of errors: one for each field that is wrong.\<close>

lemma validate_errors:
  "validateProjectV1 str (JObject kvs) = Inl es \<Longrightarrow>
     length es = length (filter (\<lambda>(P, f). \<not> P (property kvs f)) project_checks)"
proof -
  assume "validateProjectV1 str (JObject kvs) = Inl es"
  then have es: "es = concat (map (\<lambda>(P, field). check_field str P kvs field) project_checks)"
    by (simp add: validateProjectV1_def Let_def del: concat_eq_Nil_conv split: if_splits)
  have "length (concat (map (\<lambda>(P, field). check_field str P kvs field) cs)) = length (filter (\<lambda>(P, f). \<not> P (property kvs f)) cs)"
    for cs by (induction cs) (auto simp: check_field_def)
  with es show ?thesis by simp
qed

text \<open>A renamed import never keeps the identifier of an existing project, and nothing else changes.\<close>

lemma rename_id:
  assumes "resolveProjectImportId v Rename generated = Some p" and "ip_isDuplicateId v"
  shows "property p ''projectId'' = JString generated \<and> UUID_PATTERN generated \<and>
     (\<forall>f. f \<noteq> ''projectId'' \<longrightarrow> property p f = property (ip_project v) f)"
  using assms by (auto simp: resolveProjectImportId_def idFactory_def property_put split: if_splits)

section \<open>Connection profiles\<close>

record ConnectionProfile =
  cp_connectionProfileId :: jsstr
  cp_name :: jsstr
  cp_transport :: jsstr
  cp_host :: jsstr
  cp_port :: float64
  cp_credentialRef :: "jsstr option"

text \<open>\<open>trim() === ""\<close>: only white space and line terminators.\<close>

definition white_unit :: "16 word \<Rightarrow> bool" where
  "white_unit u \<longleftrightarrow> u \<in> set [9, 10, 11, 12, 13, 32, 0xA0, 0x1680, 0x2000, 0x2001, 0x2002, 0x2003, 0x2004, 0x2005,
     0x2006, 0x2007, 0x2008, 0x2009, 0x200A, 0x2028, 0x2029, 0x202F, 0x205F, 0x3000, 0xFEFF]"

definition blank :: "jsstr \<Rightarrow> bool" where
  "blank s \<longleftrightarrow> list_all white_unit s"

definition TRANSPORT_KINDS :: "jsstr list" where
  "TRANSPORT_KINDS = [js ''mqtt'', js ''websocket'', js ''ble'', js ''usb'']"

definition profile_error :: "string \<Rightarrow> jsstr \<Rightarrow> DomainError" where
  "profile_error field target = domainError ''domain.schema.invalid'' [js ''connectionProfile'', js field] target"

text \<open>\<open>Number.isInteger(port)\<close> and its bounds; the text of the number is the parameter \<open>num\<close>.\<close>

definition valid_port :: "float64 \<Rightarrow> bool" where
  "valid_port w = (case float64_int w of None \<Rightarrow> False | Some n \<Rightarrow> \<not> (n < 1 \<or> n > 65535))"

definition createConnectionProfile :: "(float64 \<Rightarrow> jsstr) \<Rightarrow> ConnectionProfile \<Rightarrow> DomainError list + ConnectionProfile" where
  "createConnectionProfile num i =
     (let errors =
        (if blank (cp_name i) then [profile_error ''name'' (cp_name i)] else []) @
        (if cp_transport i \<notin> set TRANSPORT_KINDS then [profile_error ''transport'' (cp_transport i)] else []) @
        (if blank (cp_host i) then [profile_error ''host'' (cp_host i)] else []) @
        (if \<not> valid_port (cp_port i) then [profile_error ''port'' (num (cp_port i))] else []) @
        (case cp_credentialRef i of
           Some r \<Rightarrow> if blank r then [profile_error ''credentialRef'' r] else []
         | None \<Rightarrow> [])
      in if errors \<noteq> [] then Inl errors else Inr i)"

lemma createConnectionProfile_iff:
  "createConnectionProfile num i = Inr p \<longleftrightarrow>
     p = i \<and> \<not> blank (cp_name i) \<and> cp_transport i \<in> set TRANSPORT_KINDS \<and> \<not> blank (cp_host i) \<and>
     (\<exists>n. float64_int (cp_port i) = Some n \<and> 1 \<le> n \<and> n \<le> 65535) \<and>
     (\<forall>r. cp_credentialRef i = Some r \<longrightarrow> \<not> blank r)"
  by (auto simp: createConnectionProfile_def Let_def valid_port_def split: option.splits if_splits)

section \<open>Permissions\<close>

datatype PermissionScope =
    CoreConnect | CoreCommandExecute | CoreDiscoveryInvasiveScan | CoreOtaInstall | CoreAdminFactoryReset
  | CoreAdminMaintenance | CoreAdminConnectivityPolicy | CoreAdminLease | CoreAdminCredentialProvisioning
  | NoderedDeploy | NoderedManage | ProjectImport | ProjectExport

fun scope_text :: "PermissionScope \<Rightarrow> string" where
  "scope_text CoreConnect = ''core.connect''"
| "scope_text CoreCommandExecute = ''core.command.execute''"
| "scope_text CoreDiscoveryInvasiveScan = ''core.discovery.invasive-scan''"
| "scope_text CoreOtaInstall = ''core.ota.install''"
| "scope_text CoreAdminFactoryReset = ''core.admin.factory-reset''"
| "scope_text CoreAdminMaintenance = ''core.admin.maintenance''"
| "scope_text CoreAdminConnectivityPolicy = ''core.admin.connectivity-policy''"
| "scope_text CoreAdminLease = ''core.admin.lease''"
| "scope_text CoreAdminCredentialProvisioning = ''core.admin.credential-provisioning''"
| "scope_text NoderedDeploy = ''nodered.deploy''"
| "scope_text NoderedManage = ''nodered.manage''"
| "scope_text ProjectImport = ''project.import''"
| "scope_text ProjectExport = ''project.export''"

definition checkPermission :: "PermissionScope set \<Rightarrow> PermissionScope \<Rightarrow> DomainError + unit" where
  "checkPermission granted scope =
     (if scope \<in> granted then Inr ()
      else Inl (domainError ''domain.permission.denied'' [js ''permission'', js (scope_text scope)] (js (scope_text scope))))"

end
