(* ===== verification/ConfigCbor.thy ===== *)
theory ConfigCbor
  imports Events
begin

text \<open>
  The wire form of a Core's configuration: \<open>config-compiler/src/canonical-config.ts\<close> (the data),
  \<open>config-compiler/src/config-cbor.ts\<close> (the encoder) and
  \<open>config-decompiler/src/decode-config-cbor.ts\<close> (the decoder). The properties of a module, rule or
  block are an object with numeric keys.
\<close>

section \<open>The data\<close>

definition CONFIG_WIRE_VERSION :: int where "CONFIG_WIRE_VERSION = 4"

datatype PropertyValue = PBool bool | PInt int | PText jsstr

type_synonym PropertySet = "PropertyValue js_record"

record CanonicalModule =
  cm_key :: int
  cm_portId :: int
  cm_typeId :: jsstr
  cm_properties :: PropertySet
  cm_bayId :: "int option"
  cm_powerRailId :: "int option"

record CanonicalSchedule =
  csch_sourceKey :: int
  csch_periodMs :: int
  csch_enabled :: bool

record CanonicalRule =
  cr_key :: int
  cr_typeId :: jsstr
  cr_properties :: PropertySet

record CanonicalBlock =
  cbk_key :: int
  cbk_typeId :: jsstr
  cbk_minVersion :: int
  cbk_exactVersion :: int
  cbk_properties :: PropertySet

datatype EdgeSourceKind = MODULE | BLOCK

fun source_kind_code :: "EdgeSourceKind \<Rightarrow> int" where
  "source_kind_code MODULE = 0"
| "source_kind_code BLOCK = 1"

record CanonicalEdge =
  ce_sourceKey :: int
  ce_sourcePortOrField :: int
  ce_targetKey :: int
  ce_targetInput :: int
  ce_sourceKind :: EdgeSourceKind

record CanonicalMqtt =
  cmq_enabled :: bool
  cmq_host :: jsstr
  cmq_port :: int
  cmq_baseTopic :: jsstr
  cmq_security :: int
  cmq_credentialId :: int

record CanonicalEnergy =
  cen_bleAvailability :: int
  cen_advertisingWindowMs :: int
  cen_advertisingPeriodMs :: int

text \<open>The field \<open>version\<close> has one value only, \<open>CONFIG_WIRE_VERSION\<close>.\<close>

record CanonicalConfig =
  cfg_modules :: "CanonicalModule list"
  cfg_schedules :: "CanonicalSchedule list"
  cfg_rules :: "CanonicalRule list"
  cfg_mqtt :: CanonicalMqtt
  cfg_connectivity :: int
  cfg_energy :: CanonicalEnergy
  cfg_blocks :: "CanonicalBlock list"
  cfg_edges :: "CanonicalEdge list"

section \<open>The encoder\<close>

definition encodeOptionalU8 :: "int \<Rightarrow> int option \<Rightarrow> field" where
  "encodeOptionalU8 key x = (case x of None \<Rightarrow> rawField key (Inr encodeNull) | Some v \<Rightarrow> u32Field key v)"

fun encodePropertyValue :: "PropertyValue \<Rightarrow> codec_error + bytes" where
  "encodePropertyValue (PBool b) = Inr (encodeBool b)"
| "encodePropertyValue (PInt n) = encodeInt n"
| "encodePropertyValue (PText s) = encodeText s"

text \<open>The values are encoded in enumeration order, then the pairs are sorted by field.\<close>

definition encodeProperties :: "PropertySet \<Rightarrow> codec_error + bytes" where
  "encodeProperties ps =
     bindE (sequenceE (map (\<lambda>(k, v). rawField k (encodePropertyValue v)) ps)) (\<lambda>pairs. encodeMap (sort_key fst pairs))"

definition encodeModule :: "CanonicalModule \<Rightarrow> codec_error + bytes" where
  "encodeModule m = encodeFields
     [u32Field 0 (cm_key m), u32Field 1 (cm_portId m), textField 2 (cm_typeId m),
      rawField 3 (encodeProperties (cm_properties m)), encodeOptionalU8 4 (cm_bayId m),
      encodeOptionalU8 5 (cm_powerRailId m)]"

definition encodeSchedule :: "CanonicalSchedule \<Rightarrow> codec_error + bytes" where
  "encodeSchedule s = encodeFields
     [u32Field 0 (csch_sourceKey s), u32Field 1 (csch_periodMs s), boolField 2 (csch_enabled s)]"

definition encodeRule :: "CanonicalRule \<Rightarrow> codec_error + bytes" where
  "encodeRule r = encodeFields
     [u32Field 0 (cr_key r), textField 1 (cr_typeId r), rawField 2 (encodeProperties (cr_properties r))]"

definition encodeBlock :: "CanonicalBlock \<Rightarrow> codec_error + bytes" where
  "encodeBlock b = encodeFields
     [u32Field 0 (cbk_key b), textField 1 (cbk_typeId b), u32Field 2 (cbk_minVersion b),
      u32Field 3 (cbk_exactVersion b), rawField 4 (encodeProperties (cbk_properties b))]"

definition encodeEdge :: "CanonicalEdge \<Rightarrow> codec_error + bytes" where
  "encodeEdge e = encodeFields
     [u32Field 0 (ce_sourceKey e), u32Field 1 (ce_sourcePortOrField e), u32Field 2 (ce_targetKey e),
      u32Field 3 (ce_targetInput e), u32Field 4 (source_kind_code (ce_sourceKind e))]"

definition encodeMqtt :: "CanonicalMqtt \<Rightarrow> codec_error + bytes" where
  "encodeMqtt m = encodeFields
     [boolField 0 (cmq_enabled m), textField 1 (cmq_host m), u32Field 2 (cmq_port m),
      textField 3 (cmq_baseTopic m), u32Field 4 (cmq_security m), u32Field 5 (cmq_credentialId m)]"

definition encodeEnergy :: "CanonicalEnergy \<Rightarrow> codec_error + bytes" where
  "encodeEnergy e = encodeFields
     [u32Field 0 (cen_bleAvailability e), u32Field 1 (cen_advertisingWindowMs e),
      u32Field 2 (cen_advertisingPeriodMs e)]"

definition encodeConfigCbor :: "CanonicalConfig \<Rightarrow> codec_error + bytes" where
  "encodeConfigCbor c = encodeFields
     [u32Field 0 CONFIG_WIRE_VERSION, arrayField 1 encodeModule (cfg_modules c),
      arrayField 2 encodeSchedule (cfg_schedules c), arrayField 3 encodeRule (cfg_rules c),
      rawField 4 (encodeMqtt (cfg_mqtt c)), u32Field 5 (cfg_connectivity c),
      rawField 6 (encodeEnergy (cfg_energy c)), arrayField 7 encodeBlock (cfg_blocks c),
      arrayField 8 encodeEdge (cfg_edges c)]"

section \<open>The decoder\<close>

definition decodeOptionalU8 :: "cbor option \<Rightarrow> codec_error + int option" where
  "decodeOptionalU8 value =
     (case value of
        None \<Rightarrow> Inr None
      | Some CNull \<Rightarrow> Inr None
      | Some (CUint n) \<Rightarrow> Inr (Some (js_number n))
      | _ \<Rightarrow> Inl (InvalidMessage ''expected uint or null''))"

definition decodePropertyValue :: "cbor \<Rightarrow> codec_error + PropertyValue" where
  "decodePropertyValue value =
     (case value of
        CBool b \<Rightarrow> Inr (PBool b)
      | CUint n \<Rightarrow> Inr (PInt n)
      | CInt n \<Rightarrow> Inr (PInt n)
      | CText s \<Rightarrow> Inr (PText s)
      | _ \<Rightarrow> Inl (InvalidMessage ''unsupported property value kind''))"

text \<open>A missing map is \<open>undefined\<close>, whose \<open>kind\<close> cannot be read.\<close>

definition decodeProperties :: "cbor option \<Rightarrow> codec_error + PropertySet" where
  "decodeProperties value =
     (case value of
        Some (CMap m) \<Rightarrow> mapE object_entries (traverseE (\<lambda>(k, v). mapE (Pair k) (decodePropertyValue v)) m)
      | _ \<Rightarrow> Inl (InvalidMessage ''properties must be a CBOR map''))"

definition requireMapOpt :: "cbor option \<Rightarrow> string \<Rightarrow> codec_error + field_map" where
  "requireMapOpt value context =
     (case value of None \<Rightarrow> Inl (InvalidMessage ''undefined'') | Some v \<Rightarrow> requireMap v context)"

definition decodeModule :: "cbor \<Rightarrow> codec_error + CanonicalModule" where
  "decodeModule value =
     bindE (requireMap value ''CanonicalModule'') (\<lambda>m.
     bindE (requireU32 m 0 ''CanonicalModule'') (\<lambda>key.
     bindE (requireU32 m 1 ''CanonicalModule'') (\<lambda>portId.
     bindE (requireText m 2 ''CanonicalModule'') (\<lambda>typeId.
     bindE (decodeProperties (map_of m 3)) (\<lambda>properties.
     bindE (decodeOptionalU8 (map_of m 4)) (\<lambda>bayId.
     bindE (decodeOptionalU8 (map_of m 5)) (\<lambda>powerRailId.
       Inr \<lparr>cm_key = key, cm_portId = portId, cm_typeId = typeId, cm_properties = properties,
            cm_bayId = bayId, cm_powerRailId = powerRailId\<rparr>)))))))"

definition decodeSchedule :: "cbor \<Rightarrow> codec_error + CanonicalSchedule" where
  "decodeSchedule value =
     bindE (requireMap value ''CanonicalSchedule'') (\<lambda>m.
     bindE (requireU32 m 0 ''CanonicalSchedule'') (\<lambda>sourceKey.
     bindE (requireU32 m 1 ''CanonicalSchedule'') (\<lambda>periodMs.
     bindE (requireBool m 2 ''CanonicalSchedule'') (\<lambda>enabled.
       Inr \<lparr>csch_sourceKey = sourceKey, csch_periodMs = periodMs, csch_enabled = enabled\<rparr>))))"

definition decodeRule :: "cbor \<Rightarrow> codec_error + CanonicalRule" where
  "decodeRule value =
     bindE (requireMap value ''CanonicalRule'') (\<lambda>m.
     bindE (requireU32 m 0 ''CanonicalRule'') (\<lambda>key.
     bindE (requireText m 1 ''CanonicalRule'') (\<lambda>typeId.
     bindE (decodeProperties (map_of m 2)) (\<lambda>properties.
       Inr \<lparr>cr_key = key, cr_typeId = typeId, cr_properties = properties\<rparr>))))"

definition decodeBlock :: "cbor \<Rightarrow> codec_error + CanonicalBlock" where
  "decodeBlock value =
     bindE (requireMap value ''CanonicalBlock'') (\<lambda>m.
     bindE (requireU32 m 0 ''CanonicalBlock'') (\<lambda>key.
     bindE (requireText m 1 ''CanonicalBlock'') (\<lambda>typeId.
     bindE (requireU32 m 2 ''CanonicalBlock'') (\<lambda>minVersion.
     bindE (requireU32 m 3 ''CanonicalBlock'') (\<lambda>exactVersion.
     bindE (decodeProperties (map_of m 4)) (\<lambda>properties.
       Inr \<lparr>cbk_key = key, cbk_typeId = typeId, cbk_minVersion = minVersion,
            cbk_exactVersion = exactVersion, cbk_properties = properties\<rparr>))))))"

definition decodeEdge :: "cbor \<Rightarrow> codec_error + CanonicalEdge" where
  "decodeEdge value =
     bindE (requireMap value ''CanonicalEdge'') (\<lambda>m.
     bindE (requireU32 m 4 ''CanonicalEdge'') (\<lambda>sourceKind.
     bindE (requireU32 m 0 ''CanonicalEdge'') (\<lambda>sourceKey.
     bindE (requireU32 m 1 ''CanonicalEdge'') (\<lambda>sourcePortOrField.
     bindE (requireU32 m 2 ''CanonicalEdge'') (\<lambda>targetKey.
     bindE (requireU32 m 3 ''CanonicalEdge'') (\<lambda>targetInput.
       Inr \<lparr>ce_sourceKey = sourceKey, ce_sourcePortOrField = sourcePortOrField, ce_targetKey = targetKey,
            ce_targetInput = targetInput, ce_sourceKind = (if sourceKind = 1 then BLOCK else MODULE)\<rparr>))))))"

definition decodeMqtt :: "cbor option \<Rightarrow> codec_error + CanonicalMqtt" where
  "decodeMqtt value =
     bindE (requireMapOpt value ''CanonicalMqtt'') (\<lambda>m.
     bindE (requireBool m 0 ''CanonicalMqtt'') (\<lambda>enabled.
     bindE (requireText m 1 ''CanonicalMqtt'') (\<lambda>host.
     bindE (requireU32 m 2 ''CanonicalMqtt'') (\<lambda>port.
     bindE (requireText m 3 ''CanonicalMqtt'') (\<lambda>baseTopic.
     bindE (requireU32 m 4 ''CanonicalMqtt'') (\<lambda>security.
     bindE (requireU32 m 5 ''CanonicalMqtt'') (\<lambda>credentialId.
       Inr \<lparr>cmq_enabled = enabled, cmq_host = host, cmq_port = port, cmq_baseTopic = baseTopic,
            cmq_security = security, cmq_credentialId = credentialId\<rparr>)))))))"

definition decodeEnergy :: "cbor option \<Rightarrow> codec_error + CanonicalEnergy" where
  "decodeEnergy value =
     bindE (requireMapOpt value ''CanonicalEnergy'') (\<lambda>m.
     bindE (requireU32 m 0 ''CanonicalEnergy'') (\<lambda>a.
     bindE (requireU32 m 1 ''CanonicalEnergy'') (\<lambda>b.
     bindE (requireU32 m 2 ''CanonicalEnergy'') (\<lambda>c.
       Inr \<lparr>cen_bleAvailability = a, cen_advertisingWindowMs = b, cen_advertisingPeriodMs = c\<rparr>))))"

text \<open>The two failures of the decoder: malformed input, and another wire version.\<close>

datatype decode_failure = MalformedCbor jsstr | UnsupportedWireVersion int

definition decode_root :: "cbor \<Rightarrow> codec_error + (int + CanonicalConfig)" where
  "decode_root root =
     bindE (requireMap root ''CanonicalConfig'') (\<lambda>m.
     bindE (requireU32 m 0 ''CanonicalConfig'') (\<lambda>version.
       if version \<noteq> CONFIG_WIRE_VERSION then Inr (Inl version) else
     bindE (bindE (requireArray m 1 ''CanonicalConfig'') (traverseE decodeModule)) (\<lambda>modules.
     bindE (bindE (requireArray m 2 ''CanonicalConfig'') (traverseE decodeSchedule)) (\<lambda>schedules.
     bindE (bindE (requireArray m 3 ''CanonicalConfig'') (traverseE decodeRule)) (\<lambda>rules.
     bindE (decodeMqtt (map_of m 4)) (\<lambda>mqtt.
     bindE (requireU32 m 5 ''CanonicalConfig'') (\<lambda>connectivity.
     bindE (decodeEnergy (map_of m 6)) (\<lambda>energy.
     bindE (bindE (requireArray m 7 ''CanonicalConfig'') (traverseE decodeBlock)) (\<lambda>blocks.
     bindE (bindE (requireArray m 8 ''CanonicalConfig'') (traverseE decodeEdge)) (\<lambda>edges.
       Inr (Inr \<lparr>cfg_modules = modules, cfg_schedules = schedules, cfg_rules = rules, cfg_mqtt = mqtt,
            cfg_connectivity = connectivity, cfg_energy = energy, cfg_blocks = blocks, cfg_edges = edges\<rparr>)))))))))))"

definition decodeConfigCbor :: "bytes \<Rightarrow> decode_failure + CanonicalConfig" where
  "decodeConfigCbor bs =
     (case decodeOne bs of
        Inl _ \<Rightarrow> Inl (MalformedCbor (js ''bytes''))
      | Inr root \<Rightarrow>
          (case decode_root root of
             Inl _ \<Rightarrow> Inl (MalformedCbor (js ''root''))
           | Inr (Inl version) \<Rightarrow> Inl (UnsupportedWireVersion version)
           | Inr (Inr c) \<Rightarrow> Inr c))"

section \<open>Round trip\<close>

text \<open>The configurations the wire can carry: numbers of 32 bits, properties of 64, well-formed text.\<close>

fun property_ok :: "PropertyValue \<Rightarrow> bool" where
  "property_ok (PBool b) = True"
| "property_ok (PInt n) = int_ok n"
| "property_ok (PText s) = wtext_ok s"

definition properties_ok :: "PropertySet \<Rightarrow> bool" where
  "properties_ok ps \<longleftrightarrow> sorted (map fst ps) \<and> distinct (map fst ps) \<and>
     (\<forall>(k, v) \<in> set ps. 0 \<le> k \<and> k < 0xffffffff \<and> property_ok v)"

fun property_val :: "PropertyValue \<Rightarrow> cbor" where
  "property_val (PBool b) = CBool b"
| "property_val (PInt n) = cbor_int n"
| "property_val (PText s) = CText s"

definition properties_val :: "PropertySet \<Rightarrow> cbor" where
  "properties_val ps = CMap (map (\<lambda>(k, v). (k, property_val v)) ps)"

lemma properties_wf: "properties_ok ps \<Longrightarrow> object_wf ps"
  by (rule sorted_object_wf) (auto simp: properties_ok_def index_key_def)

lemma gives_property: "property_ok v \<Longrightarrow> gives (encodePropertyValue v) (property_val v)"
  by (cases v) (simp_all add: gives_leaf)

lemma decode_property: "decodePropertyValue (property_val v) = Inr v"
  by (cases v) (auto simp: decodePropertyValue_def cbor_int_def)

lemma gives_properties: "properties_ok ps \<Longrightarrow> gives (encodeProperties ps) (properties_val ps)"
proof -
  assume ok: "properties_ok ps"
  let ?fs = "map (\<lambda>(k, v). rawField k (encodePropertyValue v)) ps"
  have keys: "sequenceE (map (\<lambda>(k, v). rawField k (encodePropertyValue v)) xs) = Inr pairs \<Longrightarrow>
      map fst pairs = map fst xs" for xs pairs
  proof (induction xs arbitrary: pairs)
    case (Cons x xs)
    then show ?case by (cases x) (auto simp: bindE_Inr_iff mapE_Inr_iff rawField_def)
  qed simp
  have "encodeProperties ps = encodeObject encodePropertyValue ps"
  proof (cases "sequenceE ?fs")
    case (Inr pairs)
    from keys [OF Inr] ok have "sort_key fst pairs = pairs"
      by (intro sort_key_sorted) (simp add: properties_ok_def)
    with Inr show ?thesis by (simp add: encodeProperties_def encodeObject_def encodeFields_def)
  qed (simp add: encodeProperties_def encodeObject_def encodeFields_def)
  moreover have "gives (encodeObject encodePropertyValue ps) (properties_val ps)"
    unfolding properties_val_def
    by (rule gives_object) (use ok in \<open>auto simp: properties_ok_def u32_ok_def intro: gives_property\<close>)
  ultimately show ?thesis by simp
qed

lemma decode_properties: "properties_ok ps \<Longrightarrow> decodeProperties (Some (properties_val ps)) = Inr ps"
proof -
  assume ok: "properties_ok ps"
  have "traverseE (\<lambda>(k, v). mapE (Pair k) (decodePropertyValue v)) (map (\<lambda>(k, v). (k, property_val v)) ps) = Inr ps"
    by (rule traverseE_map_val) (auto simp: decode_property)
  with properties_wf [OF ok] show ?thesis by (simp add: decodeProperties_def properties_val_def object_wf_def)
qed

lemma writes_properties [writes_intros]:
  "u32_ok k \<Longrightarrow> properties_ok ps \<Longrightarrow> writes (rawField k (encodeProperties ps)) (k, properties_val ps)"
  by (intro writes_given gives_properties)

definition optional_val :: "int option \<Rightarrow> cbor" where
  "optional_val x = (case x of None \<Rightarrow> CNull | Some v \<Rightarrow> CUint v)"

lemma writes_optional [writes_intros]:
  "u32_ok k \<Longrightarrow> u32_opt_ok x \<Longrightarrow> writes (encodeOptionalU8 k x) (k, optional_val x)"
  by (cases x) (auto simp: encodeOptionalU8_def optional_val_def u32_opt_ok_def intro: writes_u32 writes_given gives_leaf)

lemma decode_optional: "u32_opt_ok x \<Longrightarrow> decodeOptionalU8 (Some (optional_val x)) = Inr x"
  by (cases x) (auto simp: decodeOptionalU8_def optional_val_def u32_opt_ok_def)

definition module_ok :: "CanonicalModule \<Rightarrow> bool" where
  "module_ok m \<longleftrightarrow> u32_ok (cm_key m) \<and> u32_ok (cm_portId m) \<and> wtext_ok (cm_typeId m) \<and>
     properties_ok (cm_properties m) \<and> u32_opt_ok (cm_bayId m) \<and> u32_opt_ok (cm_powerRailId m)"

definition module_val :: "CanonicalModule \<Rightarrow> cbor" where
  "module_val m = CMap
     [(0, CUint (cm_key m)), (1, CUint (cm_portId m)), (2, CText (cm_typeId m)),
      (3, properties_val (cm_properties m)), (4, optional_val (cm_bayId m)), (5, optional_val (cm_powerRailId m))]"

interpretation cmod: item_codec encodeModule decodeModule module_val module_ok
proof
  fix m assume "module_ok m"
  then show "gives (encodeModule m) (module_val m)"
    unfolding encodeModule_def module_val_def module_ok_def
    by (intro gives_fields) (rule list.rel_intros writes_intros | simp)+
next
  fix m assume "module_ok m"
  then show "decodeModule (module_val m) = Inr m"
    by (simp add: decodeModule_def module_val_def module_ok_def decode_properties decode_optional)
qed

definition schedule_ok :: "CanonicalSchedule \<Rightarrow> bool" where
  "schedule_ok s \<longleftrightarrow> u32_ok (csch_sourceKey s) \<and> u32_ok (csch_periodMs s)"

definition schedule_val :: "CanonicalSchedule \<Rightarrow> cbor" where
  "schedule_val s = CMap [(0, CUint (csch_sourceKey s)), (1, CUint (csch_periodMs s)), (2, CBool (csch_enabled s))]"

interpretation csch: item_codec encodeSchedule decodeSchedule schedule_val schedule_ok
proof
  fix s assume "schedule_ok s"
  then show "gives (encodeSchedule s) (schedule_val s)"
    unfolding encodeSchedule_def schedule_val_def schedule_ok_def
    by (intro gives_fields) (rule list.rel_intros writes_intros | simp)+
next
  fix s assume "schedule_ok s"
  then show "decodeSchedule (schedule_val s) = Inr s"
    by (simp add: decodeSchedule_def schedule_val_def schedule_ok_def)
qed

definition rule_ok :: "CanonicalRule \<Rightarrow> bool" where
  "rule_ok r \<longleftrightarrow> u32_ok (cr_key r) \<and> wtext_ok (cr_typeId r) \<and> properties_ok (cr_properties r)"

definition rule_val :: "CanonicalRule \<Rightarrow> cbor" where
  "rule_val r = CMap [(0, CUint (cr_key r)), (1, CText (cr_typeId r)), (2, properties_val (cr_properties r))]"

interpretation crule: item_codec encodeRule decodeRule rule_val rule_ok
proof
  fix r assume "rule_ok r"
  then show "gives (encodeRule r) (rule_val r)"
    unfolding encodeRule_def rule_val_def rule_ok_def
    by (intro gives_fields) (rule list.rel_intros writes_intros | simp)+
next
  fix r assume "rule_ok r"
  then show "decodeRule (rule_val r) = Inr r"
    by (simp add: decodeRule_def rule_val_def rule_ok_def decode_properties)
qed

definition block_ok :: "CanonicalBlock \<Rightarrow> bool" where
  "block_ok b \<longleftrightarrow> u32_ok (cbk_key b) \<and> wtext_ok (cbk_typeId b) \<and> u32_ok (cbk_minVersion b) \<and>
     u32_ok (cbk_exactVersion b) \<and> properties_ok (cbk_properties b)"

definition block_val :: "CanonicalBlock \<Rightarrow> cbor" where
  "block_val b = CMap
     [(0, CUint (cbk_key b)), (1, CText (cbk_typeId b)), (2, CUint (cbk_minVersion b)),
      (3, CUint (cbk_exactVersion b)), (4, properties_val (cbk_properties b))]"

interpretation cblk: item_codec encodeBlock decodeBlock block_val block_ok
proof
  fix b assume "block_ok b"
  then show "gives (encodeBlock b) (block_val b)"
    unfolding encodeBlock_def block_val_def block_ok_def
    by (intro gives_fields) (rule list.rel_intros writes_intros | simp)+
next
  fix b assume "block_ok b"
  then show "decodeBlock (block_val b) = Inr b"
    by (simp add: decodeBlock_def block_val_def block_ok_def decode_properties)
qed

definition edge_ok :: "CanonicalEdge \<Rightarrow> bool" where
  "edge_ok e \<longleftrightarrow> u32_ok (ce_sourceKey e) \<and> u32_ok (ce_sourcePortOrField e) \<and> u32_ok (ce_targetKey e) \<and>
     u32_ok (ce_targetInput e)"

definition edge_val :: "CanonicalEdge \<Rightarrow> cbor" where
  "edge_val e = CMap
     [(0, CUint (ce_sourceKey e)), (1, CUint (ce_sourcePortOrField e)), (2, CUint (ce_targetKey e)),
      (3, CUint (ce_targetInput e)), (4, CUint (source_kind_code (ce_sourceKind e)))]"

lemma source_kind_u32: "u32_ok (source_kind_code k)"
  by (cases k) (simp_all add: u32_ok_def)

lemma source_kind_read: "(if source_kind_code k = 1 then BLOCK else MODULE) = k"
  by (cases k) simp_all

interpretation cedge: item_codec encodeEdge decodeEdge edge_val edge_ok
proof
  fix e assume "edge_ok e"
  then show "gives (encodeEdge e) (edge_val e)"
    unfolding encodeEdge_def edge_val_def edge_ok_def
    by (intro gives_fields) (rule list.rel_intros writes_intros source_kind_u32 | simp)+
next
  fix e assume "edge_ok e"
  then show "decodeEdge (edge_val e) = Inr e"
    by (simp add: decodeEdge_def edge_val_def edge_ok_def source_kind_u32 source_kind_read)
qed

definition mqtt_ok :: "CanonicalMqtt \<Rightarrow> bool" where
  "mqtt_ok m \<longleftrightarrow> wtext_ok (cmq_host m) \<and> u32_ok (cmq_port m) \<and> wtext_ok (cmq_baseTopic m) \<and>
     u32_ok (cmq_security m) \<and> u32_ok (cmq_credentialId m)"

definition mqtt_val :: "CanonicalMqtt \<Rightarrow> cbor" where
  "mqtt_val m = CMap
     [(0, CBool (cmq_enabled m)), (1, CText (cmq_host m)), (2, CUint (cmq_port m)),
      (3, CText (cmq_baseTopic m)), (4, CUint (cmq_security m)), (5, CUint (cmq_credentialId m))]"

lemma gives_mqtt: "mqtt_ok m \<Longrightarrow> gives (encodeMqtt m) (mqtt_val m)"
  unfolding encodeMqtt_def mqtt_val_def mqtt_ok_def
  by (intro gives_fields) (rule list.rel_intros writes_intros | simp)+

lemma decode_mqtt: "mqtt_ok m \<Longrightarrow> decodeMqtt (Some (mqtt_val m)) = Inr m"
  by (simp add: decodeMqtt_def mqtt_val_def mqtt_ok_def requireMapOpt_def)

definition energy_ok :: "CanonicalEnergy \<Rightarrow> bool" where
  "energy_ok e \<longleftrightarrow> u32_ok (cen_bleAvailability e) \<and> u32_ok (cen_advertisingWindowMs e) \<and>
     u32_ok (cen_advertisingPeriodMs e)"

definition energy_val :: "CanonicalEnergy \<Rightarrow> cbor" where
  "energy_val e = CMap
     [(0, CUint (cen_bleAvailability e)), (1, CUint (cen_advertisingWindowMs e)),
      (2, CUint (cen_advertisingPeriodMs e))]"

lemma gives_energy: "energy_ok e \<Longrightarrow> gives (encodeEnergy e) (energy_val e)"
  unfolding encodeEnergy_def energy_val_def energy_ok_def
  by (intro gives_fields) (rule list.rel_intros writes_intros | simp)+

lemma decode_energy: "energy_ok e \<Longrightarrow> decodeEnergy (Some (energy_val e)) = Inr e"
  by (simp add: decodeEnergy_def energy_val_def energy_ok_def requireMapOpt_def)

definition config_ok :: "CanonicalConfig \<Rightarrow> bool" where
  "config_ok c \<longleftrightarrow> (\<forall>m\<in>set (cfg_modules c). module_ok m) \<and> (\<forall>s\<in>set (cfg_schedules c). schedule_ok s) \<and>
     (\<forall>r\<in>set (cfg_rules c). rule_ok r) \<and> mqtt_ok (cfg_mqtt c) \<and> u32_ok (cfg_connectivity c) \<and>
     energy_ok (cfg_energy c) \<and> (\<forall>b\<in>set (cfg_blocks c). block_ok b) \<and> (\<forall>e\<in>set (cfg_edges c). edge_ok e)"

definition config_val :: "CanonicalConfig \<Rightarrow> cbor" where
  "config_val c = CMap
     [(0, CUint CONFIG_WIRE_VERSION), (1, CArray (map module_val (cfg_modules c))),
      (2, CArray (map schedule_val (cfg_schedules c))), (3, CArray (map rule_val (cfg_rules c))),
      (4, mqtt_val (cfg_mqtt c)), (5, CUint (cfg_connectivity c)), (6, energy_val (cfg_energy c)),
      (7, CArray (map block_val (cfg_blocks c))), (8, CArray (map edge_val (cfg_edges c)))]"

lemma gives_config: "config_ok c \<Longrightarrow> gives (encodeConfigCbor c) (config_val c)"
  unfolding encodeConfigCbor_def config_val_def config_ok_def CONFIG_WIRE_VERSION_def
  by (intro gives_fields)
     (rule list.rel_intros cmod.writes_items csch.writes_items crule.writes_items cblk.writes_items cedge.writes_items
        writes_u32 writes_given gives_mqtt gives_energy | simp)+

lemma decode_config: "config_ok c \<Longrightarrow> decode_root (config_val c) = Inr (Inr c)"
  unfolding decode_root_def config_val_def config_ok_def CONFIG_WIRE_VERSION_def
  by (simp add: cmod.decode_items csch.decode_items crule.decode_items cblk.decode_items cedge.decode_items
      decode_mqtt decode_energy)

lemma config_roundtrip:
  "config_ok c \<Longrightarrow> \<exists>bs. encodeConfigCbor c = Inr bs \<and> decodeConfigCbor bs = Inr c"
  using gives_config [of c] decode_config [of c] by (auto simp: gives_def decodeConfigCbor_def dest: encodes_decodeOne)

lemma config_bytes_inj:
  assumes "config_ok c" and "config_ok d" and "encodeConfigCbor c = encodeConfigCbor d"
  shows "c = d"
  using config_roundtrip [OF assms(1)] config_roundtrip [OF assms(2)] assms(3) by auto

end
