(* ===== verification/Handles.thy ===== *)
theory Handles
  imports Graph
begin

text \<open>
  The compatibility of two connection points, from \<open>editor-model/src\<close>: \<open>handle.ts\<close>,
  \<open>field-kind.ts\<close> and \<open>compatibility.ts\<close>.
\<close>

datatype FieldKind = KBool | KInt | KUint | KBytes | KText | KEnum | KReference | KFixedPoint

datatype HandleDirection = Input | Output

record HandleDescriptor =
  hd_handleId :: jsstr
  hd_direction :: HandleDirection
  hd_valueType :: FieldKind
  hd_unit :: "jsstr option"
  hd_semanticGroup :: "jsstr option"
  hd_referenceGroup :: "jsstr option"
  hd_flowId :: "int option"
  hd_requireSameFlow :: "bool option"
  hd_requiredCapabilities :: "jsstr list option"

definition handle_failure :: "string \<Rightarrow> HandleDescriptor \<Rightarrow> HandleDescriptor \<Rightarrow> DomainError" where
  "handle_failure code source target =
     domainError code [js ''edge'', hd_handleId source, hd_handleId target] (hd_handleId target)"

text \<open>A group in use: \<open>undefined\<close> and the empty string are falsy.\<close>

definition truthy :: "jsstr option \<Rightarrow> bool" where
  "truthy s \<longleftrightarrow> s \<noteq> None \<and> s \<noteq> Some []"

definition checkHandleCompatibility ::
    "HandleDescriptor \<Rightarrow> HandleDescriptor \<Rightarrow> jsstr set option \<Rightarrow> DomainError + unit" where
  "checkHandleCompatibility source target installedCapabilities =
     (if hd_direction source \<noteq> Output \<or> hd_direction target \<noteq> Input then
        Inl (handle_failure ''editor-model.compatibility.direction_mismatch'' source target)
      else if hd_valueType source \<noteq> hd_valueType target then
        Inl (handle_failure ''editor-model.compatibility.type_mismatch'' source target)
      else if hd_unit source \<noteq> hd_unit target then
        Inl (handle_failure ''editor-model.compatibility.unit_mismatch'' source target)
      else if hd_valueType source = KReference \<and> hd_referenceGroup source \<noteq> hd_referenceGroup target then
        Inl (handle_failure ''editor-model.compatibility.reference_group_mismatch'' source target)
      else if truthy (hd_semanticGroup source) \<and> truthy (hd_semanticGroup target) \<and>
              hd_semanticGroup source \<noteq> hd_semanticGroup target then
        Inl (handle_failure ''editor-model.compatibility.semantic_group_mismatch'' source target)
      else if (hd_requireSameFlow source = Some True \<or> hd_requireSameFlow target = Some True) \<and>
              (hd_flowId source = None \<or> hd_flowId target = None \<or> hd_flowId source \<noteq> hd_flowId target) then
        Inl (handle_failure ''editor-model.compatibility.flow_mismatch'' source target)
      else case (installedCapabilities, hd_requiredCapabilities target) of
             (Some installed, Some required) \<Rightarrow>
               (if filter (\<lambda>c. c \<notin> installed) required \<noteq> []
                then Inl (handle_failure ''editor-model.compatibility.missing_capability'' source target)
                else Inr ())
           | _ \<Rightarrow> Inr ())"

record EdgeDescriptor =
  edd_sourceHandleId :: jsstr
  edd_targetHandleId :: jsstr

definition createEdgeIfCompatible ::
    "HandleDescriptor \<Rightarrow> HandleDescriptor \<Rightarrow> jsstr set option \<Rightarrow> DomainError + EdgeDescriptor" where
  "createEdgeIfCompatible source target installedCapabilities =
     bindE (checkHandleCompatibility source target installedCapabilities)
       (\<lambda>_. Inr \<lparr>edd_sourceHandleId = hd_handleId source, edd_targetHandleId = hd_handleId target\<rparr>)"

text \<open>When two handles fit.\<close>

definition compatible :: "HandleDescriptor \<Rightarrow> HandleDescriptor \<Rightarrow> jsstr set option \<Rightarrow> bool" where
  "compatible source target installed \<longleftrightarrow>
     hd_direction source = Output \<and> hd_direction target = Input \<and> hd_valueType source = hd_valueType target \<and>
     hd_unit source = hd_unit target \<and>
     (hd_valueType source = KReference \<longrightarrow> hd_referenceGroup source = hd_referenceGroup target) \<and>
     (\<forall>a b. hd_semanticGroup source = Some a \<and> hd_semanticGroup target = Some b \<and> a \<noteq> [] \<and> b \<noteq> [] \<longrightarrow> a = b) \<and>
     (hd_requireSameFlow source = Some True \<or> hd_requireSameFlow target = Some True \<longrightarrow>
        (\<exists>f. hd_flowId source = Some f \<and> hd_flowId target = Some f)) \<and>
     (\<forall>caps required. installed = Some caps \<and> hd_requiredCapabilities target = Some required \<longrightarrow> set required \<subseteq> caps)"

lemma handle_clauses:
  "(\<forall>a b. p = Some a \<and> q = Some b \<and> a \<noteq> [] \<and> b \<noteq> [] \<longrightarrow> a = b) \<longleftrightarrow> \<not> (truthy p \<and> truthy q \<and> p \<noteq> q)"
  "(\<exists>f. x = Some f \<and> y = Some f) \<longleftrightarrow> \<not> (x = None \<or> y = None \<or> x \<noteq> y)"
  "(\<forall>cs rs. c = Some cs \<and> r = Some rs \<longrightarrow> set rs \<subseteq> cs) \<longleftrightarrow>
     (case (c, r) of (Some cs, Some rs) \<Rightarrow> filter (\<lambda>c. c \<notin> cs) rs = [] | _ \<Rightarrow> True)"
  by (cases p; cases q; auto simp: truthy_def) (auto simp: filter_empty_conv split: option.split)

lemma if_Inl_iff: "(if b then Inl e else r) = Inr v \<longleftrightarrow> \<not> b \<and> r = Inr v"
  by simp

lemma checkHandleCompatibility_iff: "checkHandleCompatibility s t caps = Inr () \<longleftrightarrow> compatible s t caps"
proof -
  have "(case (caps, hd_requiredCapabilities t) of
          (Some installed, Some required) \<Rightarrow>
            if filter (\<lambda>c. c \<notin> installed) required \<noteq> [] then Inl err else Inr ()
        | _ \<Rightarrow> Inr ()) = Inr () \<longleftrightarrow>
      (case (caps, hd_requiredCapabilities t) of (Some cs, Some rs) \<Rightarrow> filter (\<lambda>c. c \<notin> cs) rs = [] | _ \<Rightarrow> True)"
    for err :: DomainError by (simp split: option.split)
  then show ?thesis
    unfolding checkHandleCompatibility_def compatible_def handle_clauses if_Inl_iff by blast
qed

end
