(* ===== verification/Grouping.thy ===== *)
theory Grouping
  imports JsMap
begin

text \<open>
  The grouping idiom of the validators: \<open>const list = m.get(k) ?? []; list.push(x); m.set(k, list)\<close>
  over an array, into a \<open>Map\<close> of arrays.
\<close>

definition group_of :: "('k, 'v list) jsmap \<Rightarrow> 'k \<Rightarrow> 'v list" where
  "group_of m k = (case jm_get m k of None \<Rightarrow> [] | Some vs \<Rightarrow> vs)"

definition group_push :: "'k \<Rightarrow> 'v \<Rightarrow> ('k, 'v list) jsmap \<Rightarrow> ('k, 'v list) jsmap" where
  "group_push k v m = jm_put k (group_of m k @ [v]) m"

definition group_by :: "('a \<Rightarrow> 'k option) \<Rightarrow> 'a list \<Rightarrow> ('k, 'a list) jsmap" where
  "group_by key xs = fold (\<lambda>x m. case key x of None \<Rightarrow> m | Some k \<Rightarrow> group_push k x m) xs []"

lemma group_of_push: "group_of (group_push k v m) j = (if j = k then group_of m k @ [v] else group_of m j)"
  by (simp add: group_of_def group_push_def jm.get_put)

lemma group_by_snoc:
  "group_by key (xs @ [x]) = (case key x of None \<Rightarrow> group_by key xs | Some k \<Rightarrow> group_push k x (group_by key xs))"
  by (simp add: group_by_def split: option.split)

lemma group_of_by [simp]: "group_of (group_by key xs) k = filter (\<lambda>x. key x = Some k) xs"
proof (induction xs rule: rev_induct)
  case Nil
  then show ?case by (simp add: group_by_def group_of_def)
next
  case (snoc x xs)
  then show ?case by (auto simp: group_by_snoc group_of_push split: option.split)
qed

lemma group_by_wf: "jm_wf (group_by key xs)"
proof (induction xs rule: rev_induct)
  case (snoc x xs)
  then show ?case by (auto simp: group_by_snoc group_push_def jm.wf_put split: option.split)
qed (simp add: group_by_def)

lemma group_by_nonempty: "(k, vs) \<in> set (group_by key xs) \<Longrightarrow> vs \<noteq> []"
proof (induction xs rule: rev_induct)
  case (snoc x xs)
  then show ?case
    using set_update_subset [of _ _ "group_by key xs"]
    by (fastforce simp: group_by_snoc group_push_def split: option.splits)
qed (simp add: group_by_def)

text \<open>The entries of the map are the groups that have a member.\<close>

lemma group_by_in: "(k, vs) \<in> set (group_by key xs) \<longleftrightarrow> vs = filter (\<lambda>x. key x = Some k) xs \<and> vs \<noteq> []"
proof
  assume "(k, vs) \<in> set (group_by key xs)"
  moreover from this have "jm_get (group_by key xs) k = Some vs" using group_by_wf jm_get_in by metis
  ultimately show "vs = filter (\<lambda>x. key x = Some k) xs \<and> vs \<noteq> []"
    using group_by_nonempty group_of_by [of key xs k] by (force simp: group_of_def)
next
  assume vs: "vs = filter (\<lambda>x. key x = Some k) xs \<and> vs \<noteq> []"
  with group_of_by [of key xs k] obtain ws where "jm_get (group_by key xs) k = Some ws" "ws = vs"
    by (auto simp: group_of_def split: option.splits)
  then show "(k, vs) \<in> set (group_by key xs)" by (simp add: map_of_SomeD)
qed

text \<open>The members of the groups that have more than one.\<close>

definition clashes :: "('k, 'a list) jsmap \<Rightarrow> 'a list" where
  "clashes m = concat (map (\<lambda>(k, group). if length group \<le> 1 then [] else group) m)"

lemma clashes_Nil:
  "clashes (group_by key xs) = [] \<longleftrightarrow> (\<forall>k. length (filter (\<lambda>x. key x = Some k) xs) \<le> 1)"
proof -
  have "clashes (group_by key xs) = [] \<longleftrightarrow> (\<forall>(k, vs) \<in> set (group_by key xs). length vs \<le> 1)"
    by (auto simp: clashes_def split: if_splits)
  also have "\<dots> \<longleftrightarrow> (\<forall>k. length (filter (\<lambda>x. key x = Some k) xs) \<le> 1)"
  proof
    assume all: "\<forall>(k, vs) \<in> set (group_by key xs). length vs \<le> 1"
    show "\<forall>k. length (filter (\<lambda>x. key x = Some k) xs) \<le> 1"
    proof
      fix k
      show "length (filter (\<lambda>x. key x = Some k) xs) \<le> 1"
        using all group_by_in [of k "filter (\<lambda>x. key x = Some k) xs" key xs]
        by (cases "filter (\<lambda>x. key x = Some k) xs = []") auto
    qed
  qed (auto simp: group_by_in)
  finally show ?thesis .
qed

lemma clashes_in:
  "x \<in> set (clashes (group_by key xs)) \<longleftrightarrow>
     (\<exists>k. x \<in> set xs \<and> key x = Some k \<and> 1 < length (filter (\<lambda>y. key y = Some k) xs))"
proof -
  have "x \<in> set (clashes (group_by key xs)) \<longleftrightarrow> (\<exists>(k, vs) \<in> set (group_by key xs). 1 < length vs \<and> x \<in> set vs)"
    by (auto simp: clashes_def split: if_splits) force+
  also have "\<dots> \<longleftrightarrow> (\<exists>k. x \<in> set xs \<and> key x = Some k \<and> 1 < length (filter (\<lambda>y. key y = Some k) xs))"
    by (force simp: group_by_in)
  finally show ?thesis .
qed

lemma at_most_one_distinct:
  "(\<forall>k. length (filter (\<lambda>x. key x = Some k) xs) \<le> 1) \<longleftrightarrow> distinct (map key (filter (\<lambda>x. key x \<noteq> None) xs))"
proof (induction xs)
  case (Cons x xs)
  have in_iff: "Some k \<in> key ` {a \<in> set xs. key a \<noteq> None} \<longleftrightarrow> filter (\<lambda>y. key y = Some k) xs \<noteq> []" for k
    by (auto simp: filter_empty_conv image_iff)
  show ?case
  proof (cases "key x")
    case None
    with Cons show ?thesis by simp
  next
    case (Some j)
    then show ?thesis using Cons in_iff [of j]
      by (auto split: if_splits)
  qed
qed simp

section \<open>Counting\<close>

text \<open>\<open>m.set(k, (m.get(k) ?? 0) + 1)\<close> over an array.\<close>

definition count_by :: "('a \<Rightarrow> 'k) \<Rightarrow> 'a list \<Rightarrow> ('k, int) jsmap" where
  "count_by key xs = fold (\<lambda>x m. jm_put (key x) ((case jm_get m (key x) of None \<Rightarrow> 0 | Some n \<Rightarrow> n) + 1) m) xs []"

lemma update_map_snd: "AList.update k (f v) (map (\<lambda>(j, w). (j, f w)) m) = map (\<lambda>(j, w). (j, f w)) (AList.update k v m)"
  by (induction m) auto

lemma count_by_group: "count_by key xs = map (\<lambda>(k, group). (k, int (length group))) (group_by (\<lambda>x. Some (key x)) xs)"
proof (induction xs rule: rev_induct)
  case (snoc x xs)
  let ?f = "\<lambda>group. int (length group)" and ?g = "group_by (\<lambda>x. Some (key x)) xs"
  have get: "(case jm_get (map (\<lambda>(k, group). (k, ?f group)) ?g) (key x) of None \<Rightarrow> 0 | Some n \<Rightarrow> n) = ?f (group_of ?g (key x))"
    by (simp add: map_of_map group_of_def split: option.split)
  have "count_by key (xs @ [x]) =
      AList.update (key x) (?f (group_of ?g (key x) @ [x])) (map (\<lambda>(k, group). (k, ?f group)) ?g)"
    using snoc get by (simp add: count_by_def add.commute)
  also have "\<dots> = map (\<lambda>(k, group). (k, ?f group)) (AList.update (key x) (group_of ?g (key x) @ [x]) ?g)"
    by (rule update_map_snd [where f = ?f])
  finally show ?case by (simp add: group_by_snoc group_push_def)
qed (simp add: count_by_def group_by_def)

lemma count_by_in:
  "(k, n) \<in> set (count_by key xs) \<longleftrightarrow> n = int (length (filter (\<lambda>x. key x = k) xs)) \<and> 0 < n"
proof -
  have "(k, n) \<in> set (count_by key xs) \<longleftrightarrow> (\<exists>group. (k, group) \<in> set (group_by (\<lambda>x. Some (key x)) xs) \<and> n = int (length group))"
    by (auto simp: count_by_group)
  then show ?thesis by (auto simp: group_by_in)
qed

end
