(* ===== verification/Cycles.thy ===== *)
theory Cycles
  imports Grouping Graph "HOL-Library.Sublist"
begin

text \<open>
  The cycle detection of \<open>device-processing-graph-model/src/validate-processing-graph.ts\<close>: a
  depth-first search with the colours white, grey and black. It terminates, it reports exactly when the
  edges between the nodes have a cycle, and every path it reports is a cycle.
\<close>

section \<open>The search\<close>

datatype color = White | Gray | Black

record search =
  se_color :: "(jsstr, color) jsmap"
  se_cycles :: "(GraphEdge \<times> jsstr list) list"

definition paint :: "jsstr \<Rightarrow> color \<Rightarrow> search \<Rightarrow> search" where
  "paint v c s = s\<lparr>se_color := jm_put v c (se_color s)\<rparr>"

text \<open>\<open>[...stack.slice(stack.indexOf(target)), target]\<close>; a negative index counts from the end.\<close>

definition cycle_path :: "jsstr list \<Rightarrow> jsstr \<Rightarrow> jsstr list" where
  "cycle_path stack t =
     (case find_index (\<lambda>v. v = t) stack of None \<Rightarrow> drop (length stack - 1) stack | Some i \<Rightarrow> drop i stack) @ [t]"

definition report :: "jsstr list \<Rightarrow> GraphEdge \<Rightarrow> search \<Rightarrow> search" where
  "report stack e s = s\<lparr>se_cycles := se_cycles s @ [(e, cycle_path stack (ge_target e))]\<rparr>"

text \<open>
  The recursive function \<open>visit\<close> and the loop over the outgoing edges in it. The fuel bounds the depth
  of the recursion; \<open>search_total\<close> shows that the number of nodes is always enough.
\<close>

fun visit :: "(jsstr \<Rightarrow> GraphEdge list) \<Rightarrow> nat \<Rightarrow> jsstr \<Rightarrow> jsstr list \<Rightarrow> search \<Rightarrow> search option"
  and walk :: "(jsstr \<Rightarrow> GraphEdge list) \<Rightarrow> nat \<Rightarrow> jsstr list \<Rightarrow> GraphEdge list \<Rightarrow> search \<Rightarrow> search option" where
  "visit out 0 v stack s = None"
| "visit out (Suc n) v stack s = map_option (paint v Black) (walk out n (stack @ [v]) (out v) (paint v Gray s))"
| "walk out n stack [] s = Some s"
| "walk out n stack (e # es) s =
     (case jm_get (se_color s) (ge_target e) of
        Some Gray \<Rightarrow> walk out n stack es (report stack e s)
      | Some White \<Rightarrow> (case visit out n (ge_target e) stack s of None \<Rightarrow> None | Some t \<Rightarrow> walk out n stack es t)
      | _ \<Rightarrow> walk out n stack es s)"

fun search_all :: "(jsstr \<Rightarrow> GraphEdge list) \<Rightarrow> nat \<Rightarrow> jsstr list \<Rightarrow> search \<Rightarrow> search option" where
  "search_all out n [] s = Some s"
| "search_all out n (v # vs) s =
     (if jm_get (se_color s) v = Some White
      then case visit out n v [] s of None \<Rightarrow> None | Some t \<Rightarrow> search_all out n vs t
      else search_all out n vs s)"

definition start_search :: "jsstr list \<Rightarrow> search" where
  "start_search ids = \<lparr>se_color = jm_of (map (\<lambda>i. (i, White)) ids), se_cycles = []\<rparr>"

definition find_cycle_paths :: "jsstr list \<Rightarrow> GraphEdge list \<Rightarrow> (GraphEdge \<times> jsstr list) list" where
  "find_cycle_paths ids edges =
     (case search_all (group_of (group_by (\<lambda>e. Some (ge_source e)) edges)) (length ids) ids (start_search ids) of
        None \<Rightarrow> []
      | Some s \<Rightarrow> se_cycles s)"

definition failure :: "string \<Rightarrow> jsstr list \<Rightarrow> jsstr \<Rightarrow> DomainError" where
  "failure code path target = domainError code (js ''device-processing-graph'' # path) target"

definition findCycles :: "'d GraphNode list \<Rightarrow> GraphEdge list \<Rightarrow> DomainError list" where
  "findCycles nodes edges =
     map (\<lambda>(e, path). failure ''device-processing-graph.cycle'' [js ''edges'', ge_id e] (ge_id e))
       (find_cycle_paths (map gn_id nodes) edges)"

section \<open>Termination\<close>

definition whites :: "search \<Rightarrow> jsstr set" where
  "whites s = {v. jm_get (se_color s) v = Some White}"

lemma finite_whites [simp]: "finite (whites s)"
  unfolding whites_def by (rule finite_subset [of _ "fst ` set (se_color s)"]) (auto dest: map_of_SomeD intro: rev_image_eqI)

lemma color_paint [simp]: "jm_get (se_color (paint v c s)) u = (if u = v then Some c else jm_get (se_color s) u)"
  by (simp add: paint_def jm.get_put)

lemma cycles_paint [simp]: "se_cycles (paint v c s) = se_cycles s"
  by (simp add: paint_def)

lemma report_simps [simp]:
  "se_color (report stack e s) = se_color s"
  "se_cycles (report stack e s) = se_cycles s @ [(e, cycle_path stack (ge_target e))]"
  by (simp_all add: report_def)

lemma whites_simps [simp]:
  "whites (report stack e s) = whites s"
  "whites (paint v Gray s) = whites s - {v}"
  "whites (paint v Black s) = whites s - {v}"
  by (auto simp: whites_def)

lemma search_fuel:
  shows "card (whites s) \<le> n \<Longrightarrow> v \<in> whites s \<Longrightarrow>
      \<exists>t. visit out n v stack s = Some t \<and> whites t \<subseteq> whites s - {v}"
    and "card (whites s) \<le> n \<Longrightarrow> \<exists>t. walk out n stack es s = Some t \<and> whites t \<subseteq> whites s"
proof (induction out n v stack s and out n stack es s rule: visit_walk.induct)
  case (2 out n v stack s)
  then have "card (whites (paint v Gray s)) \<le> n" by simp
  with 2 show ?case by auto
next
  case (4 out n stack e es s)
  show ?case
  proof (cases "jm_get (se_color s) (ge_target e)")
    case None
    with 4(1) [OF None 4(6)] show ?thesis by simp
  next
    case (Some c)
    show ?thesis
    proof (cases c)
      case White
      with Some have w: "ge_target e \<in> whites s" by (simp add: whites_def)
      from 4(2) [OF Some White 4(6) w] obtain t
        where t: "visit out n (ge_target e) stack s = Some t" "whites t \<subseteq> whites s - {ge_target e}" by blast
      then have "whites t \<subseteq> whites s" by blast
      from card_mono [OF finite_whites this] 4(6) have "card (whites t) \<le> n" by simp
      from 4(3) [OF Some White t(1) this] t Some White show ?thesis by auto
    qed (use 4 Some in auto)
  qed
next
  case (1 out v stack s)
  then show ?case using card_gt_0_iff [of "whites s"] by auto
qed auto

lemma search_all_fuel: "card (whites s) \<le> n \<Longrightarrow> \<exists>t. search_all out n vs s = Some t"
proof (induction vs arbitrary: s)
  case (Cons v vs)
  show ?case
  proof (cases "jm_get (se_color s) v = Some White")
    case True
    with search_fuel(1) [OF Cons.prems, of v out "[]"] obtain t
      where t: "visit out n v [] s = Some t" "whites t \<subseteq> whites s" by (auto simp: whites_def)
    then have "card (whites t) \<le> n" using Cons.prems card_mono [of "whites s" "whites t"] by simp
    with Cons.IH True t show ?thesis by auto
  qed (use Cons in auto)
qed simp

lemma color_start: "jm_get (se_color (start_search ids)) v = (if v \<in> set ids then Some White else None)"
proof -
  have "jm_get (fold (\<lambda>(k, v) m. jm_put k v m) (map (\<lambda>i. (i, White)) ids) m) v =
      (if v \<in> set ids then Some White else jm_get m v)" for m
    by (induction ids arbitrary: m) (auto simp: jm.get_put)
  then show ?thesis by (simp add: start_search_def jm_of_def)
qed

lemma search_total: "\<exists>s. search_all out (length ids) ids (start_search ids) = Some s"
proof (rule search_all_fuel)
  have "whites (start_search ids) = set ids" by (auto simp: whites_def color_start)
  then show "card (whites (start_search ids)) \<le> length ids" by (simp add: card_length)
qed

section \<open>What the search does to the colours\<close>

definition advances :: "search \<Rightarrow> search \<Rightarrow> bool" where
  "advances s t \<longleftrightarrow> (\<forall>u. jm_get (se_color t) u = jm_get (se_color s) u \<or>
     (jm_get (se_color s) u = Some White \<and> jm_get (se_color t) u = Some Black))"

lemma advances_refl [simp]: "advances s s"
  by (simp add: advances_def)

lemma advances_trans: "advances s t \<Longrightarrow> advances t u \<Longrightarrow> advances s u"
  unfolding advances_def by (metis color.distinct(3) option.inject)

lemma advances_report [simp]: "advances (report stack e s) t \<longleftrightarrow> advances s t"
  by (simp add: advances_def)

lemma advances_keeps:
  "advances s t \<Longrightarrow> jm_get (se_color s) u = Some Gray \<Longrightarrow> jm_get (se_color t) u = Some Gray"
  "advances s t \<Longrightarrow> jm_get (se_color s) u = Some Black \<Longrightarrow> jm_get (se_color t) u = Some Black"
  "advances s t \<Longrightarrow> jm_get (se_color t) u = None \<longleftrightarrow> jm_get (se_color s) u = None"
  unfolding advances_def by (metis color.distinct(1) color.distinct(3) option.inject option.distinct(1))+

lemma advances_visit:
  assumes "advances (paint v Gray s) t" and "jm_get (se_color s) v = Some White"
  shows "advances s (paint v Black t)"
  using assms unfolding advances_def by (auto split: if_splits)

lemma search_advances:
  shows "visit out n v stack s = Some t \<Longrightarrow> jm_get (se_color s) v = Some White \<Longrightarrow>
      advances s t \<and> jm_get (se_color t) v = Some Black \<and> prefix (se_cycles s) (se_cycles t)"
    and "walk out n stack es s = Some t \<Longrightarrow> advances s t \<and> prefix (se_cycles s) (se_cycles t)"
proof (induction out n v stack s and out n stack es s arbitrary: t and t rule: visit_walk.induct)
  case (2 out n v stack s)
  then obtain u where u: "walk out n (stack @ [v]) (out v) (paint v Gray s) = Some u" "t = paint v Black u"
    by auto
  from 2(1) [OF u(1)] advances_visit [of v s u] 2(3) show ?case by (simp add: u(2))
next
  case (4 out n stack e es s)
  show ?case
  proof (cases "jm_get (se_color s) (ge_target e)")
    case None
    with 4(1) [OF None] 4(6) show ?thesis by simp
  next
    case (Some c)
    show ?thesis
    proof (cases c)
      case White
      with Some 4(6) obtain u where u: "visit out n (ge_target e) stack s = Some u" "walk out n stack es u = Some t"
        by (auto split: option.splits)
      from 4(2) [OF Some White u(1)] 4(3) [OF Some White u] Some White show ?thesis
        by (blast intro: advances_trans prefix_order.trans)
    next
      case Gray
      with 4(4) [OF Some Gray] 4(6) Some show ?thesis by (auto simp: prefix_def)
    next
      case Black
      with 4(5) [OF Some Black] 4(6) Some show ?thesis by simp
    qed
  qed
qed simp_all

lemma visit_advances: "visit out n v stack s = Some t \<Longrightarrow> jm_get (se_color s) v = Some White \<Longrightarrow> advances s t"
  using search_advances(1) by blast

section \<open>No report, no cycle\<close>

definition black_edges :: "GraphEdge list \<Rightarrow> search \<Rightarrow> (jsstr \<times> jsstr) set" where
  "black_edges edges s = {(a, b). (\<exists>e\<in>set edges. ge_source e = a \<and> ge_target e = b) \<and>
     jm_get (se_color s) a = Some Black \<and> jm_get (se_color s) b = Some Black}"

definition finished :: "GraphEdge list \<Rightarrow> search \<Rightarrow> bool" where
  "finished edges s \<longleftrightarrow> acyclic (black_edges edges s) \<and>
     (\<forall>e\<in>set edges. jm_get (se_color s) (ge_source e) = Some Black \<longrightarrow>
        jm_get (se_color s) (ge_target e) \<in> {None, Some Black})"

lemma acyclic_source:
  assumes "acyclic r" and "v \<notin> Range (r \<union> q)" and "Domain q \<subseteq> {v}"
  shows "acyclic (r \<union> q)"
proof (rule acyclicI, rule allI, rule notI)
  fix x assume cyc: "(x, x) \<in> (r \<union> q)\<^sup>+"
  then have xv: "x \<noteq> v" using assms(2) by (metis Range.intros trancl_range)
  have "(x, y) \<in> (r \<union> q)\<^sup>+ \<Longrightarrow> (x, y) \<in> r\<^sup>+" for y
  proof (induction rule: trancl_induct)
    case (base y)
    with xv assms(3) show ?case by auto
  next
    case (step y z)
    then have "y \<noteq> v" using assms(2) by (metis Range.intros trancl_range)
    with step assms(3) have "(y, z) \<in> r" by auto
    with step show ?case by auto
  qed
  with cyc assms(1) show False by (auto simp: acyclic_def)
qed

lemma finished_paint_Gray:
  assumes "finished edges s" and "jm_get (se_color s) v = Some White"
  shows "finished edges (paint v Gray s)"
proof -
  have "black_edges edges (paint v Gray s) = black_edges edges s"
    using assms(2) by (auto simp: black_edges_def split: if_splits)
  moreover have "\<forall>e\<in>set edges. jm_get (se_color s) (ge_source e) = Some Black \<longrightarrow> ge_target e \<noteq> v"
    using assms by (fastforce simp: finished_def)
  ultimately show ?thesis using assms by (auto simp: finished_def)
qed

lemma finished_paint_Black:
  assumes f: "finished edges s" and v: "jm_get (se_color s) v = Some Gray"
    and out: "\<forall>e\<in>set edges. ge_source e = v \<longrightarrow> jm_get (se_color s) (ge_target e) \<in> {None, Some Black}"
  shows "finished edges (paint v Black s)"
proof -
  let ?q = "{(a, b). a = v \<and> (\<exists>e\<in>set edges. ge_source e = v \<and> ge_target e = b) \<and> jm_get (se_color s) b = Some Black}"
  have into: "\<forall>e\<in>set edges. jm_get (se_color s) (ge_source e) = Some Black \<longrightarrow> ge_target e \<noteq> v"
    using f v by (fastforce simp: finished_def)
  have loop: "\<forall>e\<in>set edges. ge_source e = v \<longrightarrow> ge_target e \<noteq> v" using out v by fastforce
  have "black_edges edges (paint v Black s) = black_edges edges s \<union> ?q"
    using into loop by (auto simp: black_edges_def split: if_splits)
  moreover have "acyclic (black_edges edges s \<union> ?q)"
  proof (rule acyclic_source)
    show "acyclic (black_edges edges s)" using f by (simp add: finished_def)
    show "v \<notin> Range (black_edges edges s \<union> ?q)" using into loop v by (auto simp: black_edges_def)
  qed auto
  ultimately show ?thesis using f out by (auto simp: finished_def)
qed

lemma search_finished:
  shows "visit out n v stack s = Some t \<Longrightarrow> jm_get (se_color s) v = Some White \<Longrightarrow> finished edges s \<Longrightarrow>
      se_cycles t = [] \<Longrightarrow> (\<And>u. set (out u) = {e \<in> set edges. ge_source e = u}) \<Longrightarrow> finished edges t"
    and "walk out n stack es s = Some t \<Longrightarrow> finished edges s \<Longrightarrow> se_cycles t = [] \<Longrightarrow>
      (\<And>u. set (out u) = {e \<in> set edges. ge_source e = u}) \<Longrightarrow>
      finished edges t \<and> (\<forall>e\<in>set es. jm_get (se_color t) (ge_target e) \<in> {None, Some Black})"
proof (induction out n v stack s and out n stack es s arbitrary: t and t rule: visit_walk.induct)
  case (2 out n v stack s)
  then obtain u where u: "walk out n (stack @ [v]) (out v) (paint v Gray s) = Some u" "t = paint v Black u"
    by auto
  have "finished edges u \<and> (\<forall>e\<in>set (out v). jm_get (se_color u) (ge_target e) \<in> {None, Some Black})"
    using 2(1) [OF u(1) finished_paint_Gray [OF 2(4,3)] _ 2(6)] 2(5) u(2) by simp
  moreover have "jm_get (se_color u) v = Some Gray"
    using advances_keeps(1) [of "paint v Gray s" u v] search_advances(2) [OF u(1)] by simp
  ultimately show ?case using 2(6) [of v] finished_paint_Black [of edges u v] by (simp add: u(2))
next
  case (4 out n stack e es s)
  show ?case
  proof (cases "jm_get (se_color s) (ge_target e)")
    case None
    then have w: "walk out n stack es s = Some t" using 4(6) by simp
    from 4(1) [OF None w 4(7,8,9)] advances_keeps(3) [of s t] search_advances(2) [OF w] None show ?thesis by auto
  next
    case (Some c)
    show ?thesis
    proof (cases c)
      case White
      with Some 4(6) obtain u where u: "visit out n (ge_target e) stack s = Some u" "walk out n stack es u = Some t"
        by (auto split: option.splits)
      from search_advances(2) [OF u(2)] 4(8) have c: "se_cycles u = []" and st: "advances u t" by auto
      from search_advances(1) [OF u(1)] Some White have "jm_get (se_color u) (ge_target e) = Some Black" by simp
      from advances_keeps(2) [OF st this] 4(3) [OF Some White u 4(2) [OF Some White u(1) _ 4(7) c 4(9)] 4(8,9)] Some White
      show ?thesis by auto
    next
      case Gray
      then have w: "walk out n stack es (report stack e s) = Some t" using 4(6) Some by simp
      from search_advances(2) [OF w] 4(8) show ?thesis by (auto simp: prefix_def)
    next
      case Black
      then have w: "walk out n stack es s = Some t" using 4(6) Some by simp
      from 4(5) [OF Some Black w 4(7,8,9)] advances_keeps(2) [of s t] search_advances(2) [OF w] Some Black show ?thesis by auto
    qed
  qed
qed simp_all

section \<open>Every report is a cycle\<close>

definition linked :: "GraphEdge list \<Rightarrow> jsstr \<Rightarrow> jsstr \<Rightarrow> bool" where
  "linked edges a b \<longleftrightarrow> (\<exists>e\<in>set edges. ge_source e = a \<and> ge_target e = b)"

definition is_cycle :: "jsstr list \<Rightarrow> GraphEdge list \<Rightarrow> GraphEdge \<Rightarrow> jsstr list \<Rightarrow> bool" where
  "is_cycle ids edges e path \<longleftrightarrow> e \<in> set edges \<and> 2 \<le> length path \<and> hd path = ge_target e \<and> last path = ge_target e \<and>
     set path \<subseteq> set ids \<and> successively (linked edges) path"

definition reports_ok :: "jsstr list \<Rightarrow> GraphEdge list \<Rightarrow> search \<Rightarrow> bool" where
  "reports_ok ids edges s \<longleftrightarrow> (\<forall>(e, path) \<in> set (se_cycles s). is_cycle ids edges e path)"

text \<open>The stack is a path of edges through the grey nodes.\<close>

definition stack_ok :: "jsstr list \<Rightarrow> GraphEdge list \<Rightarrow> jsstr list \<Rightarrow> search \<Rightarrow> bool" where
  "stack_ok ids edges stack s \<longleftrightarrow> successively (linked edges) stack \<and>
     (\<forall>u. jm_get (se_color s) u = Some Gray \<longleftrightarrow> u \<in> set stack) \<and>
     (\<forall>u. jm_get (se_color s) u = None \<longleftrightarrow> u \<notin> set ids)"

lemma stack_ok_advances: "stack_ok ids edges stack s \<Longrightarrow> advances s t \<Longrightarrow> stack_ok ids edges stack t"
  unfolding stack_ok_def advances_def by (metis color.distinct(1) color.distinct(5) option.inject option.distinct(1))

lemma stack_ok_report [simp]: "stack_ok ids edges stack (report st e s) \<longleftrightarrow> stack_ok ids edges stack s"
  by (simp add: stack_ok_def)

lemma reports_ok_paint [simp]: "reports_ok ids edges (paint v c s) \<longleftrightarrow> reports_ok ids edges s"
  by (simp add: reports_ok_def)

lemma stack_ok_push:
  assumes "stack_ok ids edges stack s" and "jm_get (se_color s) v = Some White" and "stack = [] \<or> linked edges (last stack) v"
  shows "stack_ok ids edges (stack @ [v]) (paint v Gray s)"
  using assms unfolding stack_ok_def by (auto simp: successively_append_iff) (metis option.distinct(1))+

lemma cycle_reported:
  assumes s: "stack_ok ids edges stack s" and g: "jm_get (se_color s) (ge_target e) = Some Gray"
    and e: "e \<in> set edges" and src: "ge_source e = last stack"
  shows "is_cycle ids edges e (cycle_path stack (ge_target e))"
proof -
  from s g have t: "ge_target e \<in> set stack" by (simp add: stack_ok_def)
  then obtain i where i: "find_index (\<lambda>v. v = ge_target e) stack = Some i"
    using find_index_None [of "\<lambda>v. v = ge_target e" stack] by (cases "find_index (\<lambda>v. v = ge_target e) stack") auto
  from find_index_Some [OF i] have il: "i < length stack" and ie: "stack ! i = ge_target e" by auto
  have p: "cycle_path stack (ge_target e) = drop i stack @ [ge_target e]" by (simp add: cycle_path_def i)
  from s have sub: "set stack \<subseteq> set ids"
    by (auto simp: stack_ok_def) (metis option.distinct(1))
  have "successively (linked edges) (take i stack @ drop i stack)" using s by (simp add: stack_ok_def)
  then have "successively (linked edges) (drop i stack)" unfolding successively_append_iff by blast
  moreover have "linked edges (last (drop i stack)) (ge_target e)"
    using e src il by (auto simp: linked_def last_drop)
  ultimately have "successively (linked edges) (drop i stack @ [ge_target e])"
    by (simp add: successively_append_iff)
  moreover have "hd (drop i stack @ [ge_target e]) = ge_target e" using il ie by (simp add: hd_append hd_drop_conv_nth)
  moreover have "set (drop i stack) \<subseteq> set ids" using sub set_drop_subset [of i stack] by blast
  ultimately show ?thesis using e il t sub by (auto simp: is_cycle_def p)
qed

lemma search_reports:
  shows "visit out n v stack s = Some t \<Longrightarrow> jm_get (se_color s) v = Some White \<Longrightarrow> stack_ok ids edges stack s \<Longrightarrow>
      stack = [] \<or> linked edges (last stack) v \<Longrightarrow> reports_ok ids edges s \<Longrightarrow>
      (\<And>u. set (out u) = {e \<in> set edges. ge_source e = u}) \<Longrightarrow> reports_ok ids edges t"
    and "walk out n stack es s = Some t \<Longrightarrow> stack \<noteq> [] \<Longrightarrow> stack_ok ids edges stack s \<Longrightarrow>
      \<forall>e\<in>set es. e \<in> set edges \<and> ge_source e = last stack \<Longrightarrow> reports_ok ids edges s \<Longrightarrow>
      (\<And>u. set (out u) = {e \<in> set edges. ge_source e = u}) \<Longrightarrow> reports_ok ids edges t"
proof (induction out n v stack s and out n stack es s arbitrary: t and t rule: visit_walk.induct)
  case (2 out n v stack s)
  then obtain u where u: "walk out n (stack @ [v]) (out v) (paint v Gray s) = Some u" "t = paint v Black u"
    by auto
  from 2(1) [OF u(1) _ stack_ok_push [OF 2(4,3,5)] _ _ 2(7)] 2(6) 2(7) [of v] show ?case by (simp add: u(2))
next
  case (4 out n stack e es s)
  from 4(9) have e: "e \<in> set edges" "ge_source e = last stack" and es: "\<forall>e\<in>set es. e \<in> set edges \<and> ge_source e = last stack"
    by simp_all
  show ?case
  proof (cases "jm_get (se_color s) (ge_target e)")
    case None
    with 4(1) [OF None _ 4(7,8) es 4(10,11)] 4(6) show ?thesis by simp
  next
    case (Some c)
    show ?thesis
    proof (cases c)
      case White
      with Some 4(6) obtain u where u: "visit out n (ge_target e) stack s = Some u" "walk out n stack es u = Some t"
        by (auto split: option.splits)
      have "linked edges (last stack) (ge_target e)" using e by (auto simp: linked_def)
      then have "reports_ok ids edges u"
        using 4(2) [OF Some White u(1) _ 4(8) _ 4(10,11)] Some White by simp
      moreover have "advances s u" using visit_advances [OF u(1)] Some White by simp
      ultimately show ?thesis using 4(3) [OF Some White u 4(7) _ es _ 4(11)] stack_ok_advances [OF 4(8)] by blast
    next
      case Gray
      then have w: "walk out n stack es (report stack e s) = Some t" using 4(6) Some by simp
      have "is_cycle ids edges e (cycle_path stack (ge_target e))"
        using cycle_reported [OF 4(8) _ e] Some Gray by simp
      with 4(10) have "reports_ok ids edges (report stack e s)" by (auto simp: reports_ok_def)
      from 4(4) [OF Some Gray w 4(7) _ es this 4(11)] 4(8) show ?thesis by simp
    next
      case Black
      with 4(5) [OF Some Black _ 4(7,8) es 4(10,11)] 4(6) Some show ?thesis by simp
    qed
  qed
qed simp_all

section \<open>The whole search\<close>

lemma search_all_spec:
  assumes out: "\<And>u. set (out u) = {e \<in> set edges. ge_source e = u}"
  shows "search_all out n vs s = Some t \<Longrightarrow> stack_ok ids edges [] s \<Longrightarrow> reports_ok ids edges s \<Longrightarrow> set vs \<subseteq> set ids \<Longrightarrow>
     stack_ok ids edges [] t \<and> reports_ok ids edges t \<and> advances s t \<and> prefix (se_cycles s) (se_cycles t) \<and>
     (\<forall>v\<in>set vs. jm_get (se_color t) v = Some Black) \<and> (finished edges s \<and> se_cycles t = [] \<longrightarrow> finished edges t)"
proof (induction vs arbitrary: s)
  case (Cons v vs)
  show ?case
  proof (cases "jm_get (se_color s) v = Some White")
    case True
    with Cons.prems(1) obtain u where u: "visit out n v [] s = Some u" "search_all out n vs u = Some t"
      by (auto split: option.splits)
    from search_advances(1) [OF u(1) True] have su: "advances s u" "jm_get (se_color u) v = Some Black"
      "prefix (se_cycles s) (se_cycles u)" by auto
    have ru: "reports_ok ids edges u"
      using search_reports(1) [OF u(1) True Cons.prems(2) _ Cons.prems(3) out] by simp
    from Cons.IH [OF u(2) stack_ok_advances [OF Cons.prems(2) su(1)] ru] Cons.prems(4)
    have t: "stack_ok ids edges [] t" "reports_ok ids edges t" "advances u t" "prefix (se_cycles u) (se_cycles t)"
      "\<forall>v\<in>set vs. jm_get (se_color t) v = Some Black" "finished edges u \<and> se_cycles t = [] \<longrightarrow> finished edges t" by auto
    have "finished edges t" if "finished edges s" "se_cycles t = []"
      using t(4,6) that search_finished(1) [OF u(1) True that(1) _ out] by auto
    with t su advances_keeps(2) [OF t(3) su(2)] advances_trans [OF su(1) t(3)] prefix_order.trans [OF su(3) t(4)]
    show ?thesis by auto
  next
    case False
    have "jm_get (se_color s) v = Some Black"
    proof (cases "jm_get (se_color s) v")
      case None
      with Cons.prems(2,4) show ?thesis by (simp add: stack_ok_def)
    next
      case (Some c)
      with False Cons.prems(2) show ?thesis by (cases c) (auto simp: stack_ok_def)
    qed
    with False Cons advances_keeps(2) [of s t v] show ?thesis by auto
  qed
qed simp

definition edge_relation :: "jsstr list \<Rightarrow> GraphEdge list \<Rightarrow> (jsstr \<times> jsstr) set" where
  "edge_relation ids edges = {(a, b). linked edges a b \<and> a \<in> set ids \<and> b \<in> set ids}"

lemma path_trancl:
  "successively (linked edges) p \<Longrightarrow> set p \<subseteq> set ids \<Longrightarrow> 2 \<le> length p \<Longrightarrow> (hd p, last p) \<in> (edge_relation ids edges)\<^sup>+"
proof (induction p)
  case (Cons a p)
  then obtain b q where p: "p = b # q" by (cases p) auto
  with Cons.prems have ab: "(a, b) \<in> edge_relation ids edges" by (simp add: edge_relation_def)
  show ?case
  proof (cases q)
    case Nil
    with ab p show ?thesis by auto
  next
    case (Cons c r)
    with Cons.prems Cons.IH p have "(b, last p) \<in> (edge_relation ids edges)\<^sup>+" by simp
    with ab p show ?thesis by (simp add: trancl_into_trancl2)
  qed
qed simp

lemma search_result:
  obtains s where "find_cycle_paths ids edges = se_cycles s" and "reports_ok ids edges s"
    and "se_cycles s = [] \<Longrightarrow> acyclic (edge_relation ids edges)"
proof -
  let ?out = "group_of (group_by (\<lambda>e. Some (ge_source e)) edges)"
  have out: "set (?out u) = {e \<in> set edges. ge_source e = u}" for u by auto
  obtain s where s: "search_all ?out (length ids) ids (start_search ids) = Some s" using search_total by blast
  have "stack_ok ids edges [] (start_search ids)" by (simp add: stack_ok_def color_start)
  moreover have "reports_ok ids edges (start_search ids)" by (simp add: reports_ok_def start_search_def)
  ultimately have t: "stack_ok ids edges [] s" "reports_ok ids edges s" "\<forall>v\<in>set ids. jm_get (se_color s) v = Some Black"
    "finished edges (start_search ids) \<and> se_cycles s = [] \<longrightarrow> finished edges s"
    using search_all_spec [OF out s] by auto
  have "black_edges edges (start_search ids) = {}" by (auto simp: black_edges_def color_start split: if_splits)
  then have f0: "finished edges (start_search ids)"
    by (auto simp: finished_def color_start acyclic_def split: if_splits)
  have "black_edges edges s = edge_relation ids edges"
    using t(1,3) by (auto simp: black_edges_def edge_relation_def linked_def stack_ok_def) (metis option.distinct(1))+
  with f0 t(4) have "se_cycles s = [] \<Longrightarrow> acyclic (edge_relation ids edges)" by (simp add: finished_def)
  moreover have "find_cycle_paths ids edges = se_cycles s" by (simp add: find_cycle_paths_def s)
  ultimately show thesis using that t(2) by blast
qed

lemma reported_cycle: "(e, path) \<in> set (find_cycle_paths ids edges) \<Longrightarrow> is_cycle ids edges e path"
proof -
  assume e: "(e, path) \<in> set (find_cycle_paths ids edges)"
  obtain s where "find_cycle_paths ids edges = se_cycles s" "reports_ok ids edges s" by (rule search_result)
  with e show ?thesis by (auto simp: reports_ok_def)
qed

lemma find_cycle_paths_Nil: "find_cycle_paths ids edges = [] \<longleftrightarrow> acyclic (edge_relation ids edges)"
proof
  show "acyclic (edge_relation ids edges)" if "find_cycle_paths ids edges = []"
    using that by (metis search_result)
  show "find_cycle_paths ids edges = []" if a: "acyclic (edge_relation ids edges)"
  proof (rule ccontr)
    assume "find_cycle_paths ids edges \<noteq> []"
    then obtain e path where ep: "(e, path) \<in> set (find_cycle_paths ids edges)"
      by (cases "find_cycle_paths ids edges") auto
    from reported_cycle [OF ep] path_trancl [of edges path ids] have "(hd path, last path) \<in> (edge_relation ids edges)\<^sup>+"
      by (simp add: is_cycle_def)
    with reported_cycle [OF ep] a show False by (simp add: is_cycle_def acyclic_def)
  qed
qed

lemma findCycles_Nil: "findCycles nodes edges = [] \<longleftrightarrow> acyclic (edge_relation (map gn_id nodes) edges)"
  by (simp add: findCycles_def find_cycle_paths_Nil)

end
