(* ===== verification/Processing.thy ===== *)
theory Processing
  imports Cycles Handles Schema
begin

text \<open>
  The Device Processing graph of \<open>device-processing-graph-model/src\<close>: the payloads of its nodes
  (\<open>entities.ts\<close>), their ports (\<open>ports.ts\<close>) and the validator
  (\<open>validate-processing-graph.ts\<close>), with the specification that it decides.
\<close>

section \<open>Nodes and ports\<close>

record ScheduleNodeData =
  sn_moduleNodeId :: jsstr
  sn_periodMs :: int
  sn_enabled :: bool

record EventSourceNodeData =
  en_moduleNodeId :: jsstr
  en_catalogEntryId :: "jsstr option"
  en_properties :: "(jsstr \<times> js_value) list option"

record BlockNodeData =
  bn_blockTypeId :: jsstr
  bn_minVersion :: "int option"
  bn_exactVersion :: "int option"
  bn_properties :: "(jsstr \<times> js_value) list"
  bn_catalogEntryId :: "jsstr option"

text \<open>The command target and the source reference: a Module and a command or field number.\<close>

record RuleNodeData =
  rn_ruleTypeId :: jsstr
  rn_properties :: "(jsstr \<times> js_value) list"
  rn_commandTarget :: "(jsstr \<times> int) option"
  rn_sourceReference :: "(jsstr \<times> int) option"

datatype DeviceProcessingNodeData =
    ScheduleNode ScheduleNodeData | EventSourceNode EventSourceNodeData
  | BlockNode BlockNodeData | RuleNode RuleNodeData

type_synonym processing_node = "DeviceProcessingNodeData GraphNode"

fun isBlockNodeData :: "DeviceProcessingNodeData \<Rightarrow> bool" where
  "isBlockNodeData (BlockNode d) = True"
| "isBlockNodeData d = False"

fun isRuleNodeData :: "DeviceProcessingNodeData \<Rightarrow> bool" where
  "isRuleNodeData (RuleNode d) = True"
| "isRuleNodeData d = False"

definition trimmed_reference :: "jsstr \<Rightarrow> jsstr option" where
  "trimmed_reference i = (if blank i then None else Some i)"

fun moduleReferenceOf :: "DeviceProcessingNodeData \<Rightarrow> jsstr option" where
  "moduleReferenceOf (ScheduleNode d) = trimmed_reference (sn_moduleNodeId d)"
| "moduleReferenceOf (EventSourceNode d) = trimmed_reference (en_moduleNodeId d)"
| "moduleReferenceOf d = None"

record ProcessingPort =
  pp_handle :: HandleDescriptor
  pp_required :: "bool option"

record ProcessingNodeDescriptor =
  pd_inputs :: "ProcessingPort list"
  pd_outputs :: "ProcessingPort list"

abbreviation port_id :: "ProcessingPort \<Rightarrow> jsstr" where
  "port_id p \<equiv> hd_handleId (pp_handle p)"

record ValidateOptions =
  vo_knownModuleNodeIds :: "jsstr set"
  vo_resolveDescriptor :: "(processing_node \<Rightarrow> ProcessingNodeDescriptor option) option"
  vo_installedCapabilities :: "jsstr set option"
  vo_maxFanOut :: "int option"

section \<open>The validator\<close>

definition findPort :: "ProcessingPort list \<Rightarrow> jsstr option \<Rightarrow> ProcessingPort option" where
  "findPort ports handleId =
     (case handleId of
        Some h \<Rightarrow> find (\<lambda>p. port_id p = h) ports
      | None \<Rightarrow> if length ports = 1 then Some (hd ports) else None)"

definition dangling_trigger :: "jsstr set \<Rightarrow> processing_node \<Rightarrow> DomainError list" where
  "dangling_trigger known n =
     (case moduleReferenceOf (gn_data n) of
        Some m \<Rightarrow> if m \<in> known then []
                  else [failure ''device-processing-graph.dangling_module_reference'' [js ''nodes'', gn_id n] m]
      | None \<Rightarrow> [])"

text \<open>The key under which a trigger is grouped: its Module, when that is known.\<close>

definition triggered_module :: "jsstr set \<Rightarrow> processing_node \<Rightarrow> jsstr option" where
  "triggered_module known n =
     (case moduleReferenceOf (gn_data n) of Some m \<Rightarrow> if m \<in> known then Some m else None | None \<Rightarrow> None)"

definition duplicate_trigger :: "processing_node \<Rightarrow> DomainError" where
  "duplicate_trigger n = failure ''device-processing-graph.duplicate_module_trigger'' [js ''nodes'', gn_id n] (gn_id n)"

definition dangling_reference :: "jsstr set \<Rightarrow> jsstr \<Rightarrow> string \<Rightarrow> (jsstr \<times> int) option \<Rightarrow> DomainError list" where
  "dangling_reference known nodeId what reference =
     (case reference of
        Some (m, _) \<Rightarrow> if m \<in> known then []
          else [failure ''device-processing-graph.dangling_module_reference'' [js ''nodes'', nodeId, js what] m]
      | None \<Rightarrow> [])"

definition dangling_rule :: "jsstr set \<Rightarrow> processing_node \<Rightarrow> DomainError list" where
  "dangling_rule known n =
     (case gn_data n of
        RuleNode d \<Rightarrow> dangling_reference known (gn_id n) ''commandTarget'' (rn_commandTarget d) @
                     dangling_reference known (gn_id n) ''sourceReference'' (rn_sourceReference d)
      | _ \<Rightarrow> [])"

definition is_rule_at :: "processing_node option \<Rightarrow> bool" where
  "is_rule_at n = (case n of None \<Rightarrow> False | Some m \<Rightarrow> isRuleNodeData (gn_data m))"

definition edge_failure :: "string \<Rightarrow> GraphEdge \<Rightarrow> jsstr \<Rightarrow> DomainError" where
  "edge_failure code e target = failure code [js ''edges'', ge_id e] target"

text \<open>The ports of an edge whose two descriptors are known.\<close>

definition port_errors :: "jsstr set option \<Rightarrow> ProcessingNodeDescriptor \<Rightarrow> ProcessingNodeDescriptor \<Rightarrow> GraphEdge \<Rightarrow> DomainError list" where
  "port_errors installed sd td e =
     (case (findPort (pd_outputs sd) (ge_sourceHandle e), findPort (pd_inputs td) (ge_targetHandle e)) of
        (Some sp, Some tp) \<Rightarrow>
          (case checkHandleCompatibility (pp_handle sp) (pp_handle tp) installed of Inl err \<Rightarrow> [err] | Inr _ \<Rightarrow> [])
      | _ \<Rightarrow> [edge_failure ''device-processing-graph.unknown_handle'' e
               (case ge_sourceHandle e of Some h \<Rightarrow> h
                | None \<Rightarrow> (case ge_targetHandle e of Some h \<Rightarrow> h | None \<Rightarrow> ge_id e))])"

definition descriptor_errors :: "ValidateOptions \<Rightarrow> (processing_node \<Rightarrow> ProcessingNodeDescriptor option) \<Rightarrow>
    processing_node \<Rightarrow> processing_node \<Rightarrow> GraphEdge \<Rightarrow> DomainError list" where
  "descriptor_errors options resolver sourceNode targetNode e =
     (case resolver sourceNode of
        Some sd \<Rightarrow>
          (if pd_outputs sd = [] then [edge_failure ''device-processing-graph.output_node_as_source'' e (ge_source e)]
           else case resolver targetNode of
                  Some td \<Rightarrow> port_errors (vo_installedCapabilities options) sd td e
                | None \<Rightarrow> [])
      | None \<Rightarrow> [])"

definition edge_errors :: "ValidateOptions \<Rightarrow> (jsstr, processing_node) jsmap \<Rightarrow> GraphEdge \<Rightarrow> DomainError list" where
  "edge_errors options nodesById e =
     (let sourceNode = jm_get nodesById (ge_source e); targetNode = jm_get nodesById (ge_target e) in
      if is_rule_at sourceNode then [edge_failure ''device-processing-graph.output_node_as_source'' e (ge_source e)]
      else if is_rule_at targetNode then [edge_failure ''device-processing-graph.rule_as_edge_target'' e (ge_target e)]
      else case (vo_resolveDescriptor options, sourceNode, targetNode) of
             (Some resolver, Some s, Some t) \<Rightarrow> descriptor_errors options resolver s t e
           | _ \<Rightarrow> [])"

text \<open>The input an edge arrives at: its handle, or the only input.\<close>

definition arrives_at :: "ProcessingPort list \<Rightarrow> ProcessingPort \<Rightarrow> GraphEdge \<Rightarrow> bool" where
  "arrives_at inputs input e \<longleftrightarrow>
     (case ge_targetHandle e of Some h \<Rightarrow> Some h | None \<Rightarrow> if length inputs = 1 then Some (port_id input) else None)
       = Some (port_id input)"

definition missing_inputs :: "(processing_node \<Rightarrow> ProcessingNodeDescriptor option) \<Rightarrow> (jsstr, GraphEdge list) jsmap \<Rightarrow>
    processing_node \<Rightarrow> DomainError list" where
  "missing_inputs resolver incomingByTarget n =
     (case resolver n of
        None \<Rightarrow> []
      | Some d \<Rightarrow>
          map (\<lambda>input. failure ''device-processing-graph.missing_required_input'' [js ''nodes'', gn_id n, port_id input] (port_id input))
            (filter (\<lambda>input. pp_required input = Some True \<and>
                \<not> list_ex (arrives_at (pd_inputs d) input) (group_of incomingByTarget (gn_id n))) (pd_inputs d)))"

definition fan_out_errors :: "int \<Rightarrow> GraphEdge list \<Rightarrow> DomainError list" where
  "fan_out_errors maximum edges =
     map (\<lambda>(i, count). failure ''device-processing-graph.fan_out_exceeded'' [js ''nodes'', i] (bigint_text count))
       (filter (\<lambda>(i, count). count > maximum) (count_by ge_source edges))"

record processing_graph =
  pg_nodes :: "processing_node list"
  pg_edges :: "GraphEdge list"

definition processing_errors :: "processing_graph \<Rightarrow> ValidateOptions \<Rightarrow> DomainError list" where
  "processing_errors g options =
     (let nodes = pg_nodes g; edges = pg_edges g; known = vo_knownModuleNodeIds options;
          nodesById = jm_of (map (\<lambda>n. (gn_id n, n)) nodes) in
      concat (map (dangling_trigger known) nodes) @
      map duplicate_trigger (clashes (group_by (triggered_module known) nodes)) @
      concat (map (dangling_rule known) nodes) @
      findCycles nodes edges @
      concat (map (edge_errors options nodesById) edges) @
      (case vo_resolveDescriptor options of
         Some resolver \<Rightarrow> concat (map (missing_inputs resolver (group_by (\<lambda>e. Some (ge_target e)) edges)) nodes)
       | None \<Rightarrow> []) @
      (case vo_maxFanOut options of Some maximum \<Rightarrow> fan_out_errors maximum edges | None \<Rightarrow> []))"

definition validateDeviceProcessingGraph :: "processing_graph \<Rightarrow> ValidateOptions \<Rightarrow> DomainError list + unit" where
  "validateDeviceProcessingGraph g options =
     (let errors = processing_errors g options in if errors \<noteq> [] then Inl errors else Inr ())"

section \<open>What it decides\<close>

text \<open>The node of an identifier.\<close>

definition node_at :: "processing_graph \<Rightarrow> jsstr \<Rightarrow> processing_node option" where
  "node_at g i = find (\<lambda>n. gn_id n = i) (rev (pg_nodes g))"

text \<open>References to Modules, and one trigger for each Module.\<close>

definition references_known :: "jsstr set \<Rightarrow> processing_graph \<Rightarrow> bool" where
  "references_known known g \<longleftrightarrow> (\<forall>n\<in>set (pg_nodes g).
     (\<forall>m. moduleReferenceOf (gn_data n) = Some m \<longrightarrow> m \<in> known) \<and>
     (\<forall>d m c. gn_data n = RuleNode d \<and> (rn_commandTarget d = Some (m, c) \<or> rn_sourceReference d = Some (m, c)) \<longrightarrow> m \<in> known))"

definition triggers_unique :: "processing_graph \<Rightarrow> bool" where
  "triggers_unique g \<longleftrightarrow> (\<forall>m. length (filter (\<lambda>n. moduleReferenceOf (gn_data n) = Some m) (pg_nodes g)) \<le> 1)"

text \<open>No edge leaves or enters a Rule, and the ports it joins exist and fit, where they are known.\<close>

definition edge_fits :: "ValidateOptions \<Rightarrow> processing_graph \<Rightarrow> GraphEdge \<Rightarrow> bool" where
  "edge_fits options g e \<longleftrightarrow>
     (\<forall>n. node_at g (ge_source e) = Some n \<or> node_at g (ge_target e) = Some n \<longrightarrow> \<not> isRuleNodeData (gn_data n)) \<and>
     (\<forall>resolver s t sd. vo_resolveDescriptor options = Some resolver \<and> node_at g (ge_source e) = Some s \<and>
        node_at g (ge_target e) = Some t \<and> resolver s = Some sd \<longrightarrow>
          pd_outputs sd \<noteq> [] \<and>
          (\<forall>td. resolver t = Some td \<longrightarrow>
             (\<exists>sp tp. findPort (pd_outputs sd) (ge_sourceHandle e) = Some sp \<and>
                      findPort (pd_inputs td) (ge_targetHandle e) = Some tp \<and>
                      compatible (pp_handle sp) (pp_handle tp) (vo_installedCapabilities options))))"

definition inputs_connected :: "ValidateOptions \<Rightarrow> processing_graph \<Rightarrow> bool" where
  "inputs_connected options g \<longleftrightarrow> (\<forall>resolver. vo_resolveDescriptor options = Some resolver \<longrightarrow>
     (\<forall>n\<in>set (pg_nodes g). \<forall>d. resolver n = Some d \<longrightarrow>
        (\<forall>input\<in>set (pd_inputs d). pp_required input = Some True \<longrightarrow>
           (\<exists>e\<in>set (pg_edges g). ge_target e = gn_id n \<and> arrives_at (pd_inputs d) input e))))"

definition fan_out_ok :: "ValidateOptions \<Rightarrow> processing_graph \<Rightarrow> bool" where
  "fan_out_ok options g \<longleftrightarrow> (\<forall>maximum i. vo_maxFanOut options = Some maximum \<longrightarrow>
     length (filter (\<lambda>e. ge_source e = i) (pg_edges g)) = 0 \<or>
     int (length (filter (\<lambda>e. ge_source e = i) (pg_edges g))) \<le> maximum)"

definition valid_processing :: "ValidateOptions \<Rightarrow> processing_graph \<Rightarrow> bool" where
  "valid_processing options g \<longleftrightarrow>
     references_known (vo_knownModuleNodeIds options) g \<and> triggers_unique g \<and>
     acyclic (edge_relation (map gn_id (pg_nodes g)) (pg_edges g)) \<and>
     (\<forall>e\<in>set (pg_edges g). edge_fits options g e) \<and> inputs_connected options g \<and> fan_out_ok options g"

lemma node_at_map: "jm_get (jm_of (map (\<lambda>n. (gn_id n, n)) (pg_nodes g))) i = node_at g i"
proof -
  have "jm_get (jm_of (map (\<lambda>n. (gn_id n, n)) ns)) i = find (\<lambda>n. gn_id n = i) (rev ns)" for ns :: "processing_node list"
    by (induction ns rule: rev_induct) (simp_all add: jm_of_def jm.get_put)
  then show ?thesis by (simp add: node_at_def)
qed

lemma references_Nil:
  "concat (map (dangling_trigger known) (pg_nodes g)) = [] \<and> concat (map (dangling_rule known) (pg_nodes g)) = [] \<longleftrightarrow>
     references_known known g"
proof -
  have r: "dangling_reference known i what r = [] \<longleftrightarrow> (\<forall>m c. r = Some (m, c) \<longrightarrow> m \<in> known)" for i what r
    by (cases r) (auto simp: dangling_reference_def split: if_splits)
  have t: "dangling_trigger known n = [] \<longleftrightarrow> (\<forall>m. moduleReferenceOf (gn_data n) = Some m \<longrightarrow> m \<in> known)" for n
    by (simp add: dangling_trigger_def split: option.split)
  have u: "dangling_rule known n = [] \<longleftrightarrow> (\<forall>d m c. gn_data n = RuleNode d \<and>
      (rn_commandTarget d = Some (m, c) \<or> rn_sourceReference d = Some (m, c)) \<longrightarrow> m \<in> known)" for n
    by (cases "gn_data n") (auto simp: dangling_rule_def r)
  have c: "concat (map f xs) = [] \<longleftrightarrow> (\<forall>x\<in>set xs. f x = [])" for f :: "processing_node \<Rightarrow> DomainError list" and xs
    by auto
  show ?thesis by (simp only: references_known_def ball_conj_distrib c t u)
qed

lemma triggers_Nil:
  assumes "references_known known g"
  shows "clashes (group_by (triggered_module known) (pg_nodes g)) = [] \<longleftrightarrow> triggers_unique g"
proof -
  have k: "triggered_module known n = moduleReferenceOf (gn_data n)" if "n \<in> set (pg_nodes g)" for n
    using assms that by (auto simp: references_known_def triggered_module_def split: option.split)
  have "filter (\<lambda>n. triggered_module known n = Some m) (pg_nodes g) =
      filter (\<lambda>n. moduleReferenceOf (gn_data n) = Some m) (pg_nodes g)" for m
    by (rule filter_cong) (simp_all add: k)
  then show ?thesis by (simp add: clashes_Nil triggers_unique_def)
qed

lemma port_errors_Nil:
  "port_errors installed sd td e = [] \<longleftrightarrow>
     (\<exists>sp tp. findPort (pd_outputs sd) (ge_sourceHandle e) = Some sp \<and>
        findPort (pd_inputs td) (ge_targetHandle e) = Some tp \<and> compatible (pp_handle sp) (pp_handle tp) installed)"
  by (auto simp: port_errors_def checkHandleCompatibility_iff [symmetric] split: option.split sum.split)

lemma edge_errors_Nil:
  "edge_errors options (jm_of (map (\<lambda>n. (gn_id n, n)) (pg_nodes g))) e = [] \<longleftrightarrow> edge_fits options g e"
proof -
  have d: "descriptor_errors options resolver s t e = [] \<longleftrightarrow> (\<forall>sd. resolver s = Some sd \<longrightarrow> pd_outputs sd \<noteq> [] \<and>
      (\<forall>td. resolver t = Some td \<longrightarrow> port_errors (vo_installedCapabilities options) sd td e = []))" for resolver s t
    by (simp add: descriptor_errors_def split: option.split)
  have r: "is_rule_at n \<longleftrightarrow> (\<exists>m. n = Some m \<and> isRuleNodeData (gn_data m))" for n
    by (simp add: is_rule_at_def split: option.split)
  show ?thesis
    unfolding edge_errors_def edge_fits_def Let_def node_at_map r port_errors_Nil [symmetric]
    by (cases "vo_resolveDescriptor options"; cases "node_at g (ge_source e)"; cases "node_at g (ge_target e)";
        simp add: d; blast)
qed

lemma missing_inputs_Nil:
  "missing_inputs resolver (group_by (\<lambda>e. Some (ge_target e)) edges) n = [] \<longleftrightarrow>
     (\<forall>d. resolver n = Some d \<longrightarrow> (\<forall>input\<in>set (pd_inputs d). pp_required input = Some True \<longrightarrow>
        (\<exists>e\<in>set edges. ge_target e = gn_id n \<and> arrives_at (pd_inputs d) input e)))"
  by (simp add: missing_inputs_def filter_empty_conv list_ex_iff split: option.split) blast

lemma fan_out_Nil:
  "fan_out_errors maximum edges = [] \<longleftrightarrow>
     (\<forall>i. length (filter (\<lambda>e. ge_source e = i) edges) = 0 \<or> int (length (filter (\<lambda>e. ge_source e = i) edges)) \<le> maximum)"
proof -
  have "fan_out_errors maximum edges = [] \<longleftrightarrow> (\<forall>(i, n) \<in> set (count_by ge_source edges). n \<le> maximum)"
    by (auto simp: fan_out_errors_def filter_empty_conv)
  also have "\<dots> \<longleftrightarrow> (\<forall>i. length (filter (\<lambda>e. ge_source e = i) edges) = 0 \<or>
      int (length (filter (\<lambda>e. ge_source e = i) edges)) \<le> maximum)"
    by (auto simp: count_by_in)
  finally show ?thesis .
qed

lemma validate_processing_iff: "validateDeviceProcessingGraph g options = Inr () \<longleftrightarrow> valid_processing options g"
proof -
  have "processing_errors g options = [] \<longleftrightarrow> valid_processing options g"
  proof (cases "references_known (vo_knownModuleNodeIds options) g")
    case True
    then show ?thesis
      unfolding processing_errors_def valid_processing_def Let_def append_is_Nil_conv findCycles_Nil
      using references_Nil [of "vo_knownModuleNodeIds options" g]
      by (cases "vo_resolveDescriptor options"; cases "vo_maxFanOut options")
         (simp_all add: triggers_Nil edge_errors_Nil missing_inputs_Nil fan_out_Nil inputs_connected_def fan_out_ok_def)
  next
    case False
    then show ?thesis
      unfolding processing_errors_def valid_processing_def Let_def append_is_Nil_conv
      using references_Nil [of "vo_knownModuleNodeIds options" g] by blast
  qed
  then show ?thesis by (simp add: validateDeviceProcessingGraph_def Let_def)
qed

end
