(* ===== verification/Catalogs.thy ===== *)
theory Catalogs
  imports Operations Int64 Grouping JsValue
begin

text \<open>
  The indices of \<open>catalog-model/src\<close>: pages of the catalog, of the topology and of the device profiles,
  and the feature packs, brought into one sorted list each. A later entry replaces an earlier one of
  the same key; where such entries agree the index does not depend on the order of the pages.
\<close>

section \<open>Deduplication by key\<close>

definition last_by :: "('a \<Rightarrow> 'k) \<Rightarrow> 'a list \<Rightarrow> 'a list" where
  "last_by key xs = map snd (fold (\<lambda>x m. jm_put (key x) x m) xs [])"

definition agree :: "('a \<Rightarrow> 'k) \<Rightarrow> 'a list \<Rightarrow> bool" where
  "agree key xs \<longleftrightarrow> inj_on key (set xs)"

lemma last_by_index:
  assumes "inj_on key (set xs)"
  shows "jm_wf (fold (\<lambda>x m. jm_put (key x) x m) xs []) \<and>
     set (fold (\<lambda>x m. jm_put (key x) x m) xs []) = (\<lambda>x. (key x, x)) ` set xs"
  using assms
proof (induction xs rule: rev_induct)
  case (snoc x xs)
  let ?m = "fold (\<lambda>x m. jm_put (key x) x m) xs []"
  from snoc have wf: "jm_wf ?m" and m: "set ?m = (\<lambda>x. (key x, x)) ` set xs" by (auto simp: inj_on_def)
  have g: "jm_get ?m k = Some y \<longleftrightarrow> y \<in> set xs \<and> key y = k" for k y
    using m by (auto simp: jm_get_in [OF wf])
  have wf': "jm_wf (jm_put (key x) x ?m)" by (rule jm.wf_put [OF wf])
  have "(k, y) \<in> set (jm_put (key x) x ?m) \<longleftrightarrow> y \<in> set (xs @ [x]) \<and> key y = k" for k y
    using snoc.prems by (auto simp: jm_get_in [OF wf', symmetric] jm.get_put g inj_on_def)
  then have "set (jm_put (key x) x ?m) = (\<lambda>x. (key x, x)) ` set (xs @ [x])" by auto
  with wf' show ?case by simp
qed simp

lemma last_by_set: "agree key xs \<Longrightarrow> set (last_by key xs) = set xs"
  using last_by_index [of key xs] by (force simp: last_by_def agree_def)

lemma last_by_distinct: "agree key xs \<Longrightarrow> distinct (map key (last_by key xs))"
proof -
  assume a: "agree key xs"
  let ?m = "fold (\<lambda>x m. jm_put (key x) x m) xs []"
  from a last_by_index [of key xs] have "jm_wf ?m" and "\<forall>p\<in>set ?m. key (snd p) = fst p" by (auto simp: agree_def)
  then have "map key (map snd ?m) = map fst ?m" and "distinct (map fst ?m)" by (auto simp: jm_wf_def)
  then show ?thesis unfolding last_by_def by (simp only:)
qed

lemma last_by_sorted_same:
  assumes "agree key xs" and "set xs = set ys" and "inj_on f (set xs)"
  shows "sort_key f (last_by key xs) = sort_key f (last_by key ys)"
proof (rule sort_key_unique)
  have a: "agree key ys" using assms by (simp add: agree_def)
  have "distinct (last_by key xs)" and "distinct (last_by key ys)"
    using last_by_distinct [OF assms(1)] last_by_distinct [OF a] by (simp_all add: distinct_map)
  then show "mset (last_by key xs) = mset (last_by key ys)"
    using last_by_set [OF assms(1)] last_by_set [OF a] assms(2) by (simp add: set_eq_iff_mset_eq_distinct [symmetric])
  show "inj_on f (set (last_by key xs))" using assms last_by_set [OF assms(1)] by simp
qed

section \<open>Catalog\<close>

record CatalogIndex =
  ci_fingerprint :: bytes
  ci_moduleDrivers :: "CatalogDriverEntry list"
  ci_complete :: bool

definition normalizeCatalogPages :: "GetCatalogResponse list \<Rightarrow> bool \<Rightarrow> CatalogIndex" where
  "normalizeCatalogPages pages complete =
     (case pages of
        [] \<Rightarrow> \<lparr>ci_fingerprint = [], ci_moduleDrivers = [], ci_complete = complete\<rparr>
      | page # _ \<Rightarrow>
          \<lparr>ci_fingerprint = cat_fingerprint page,
           ci_moduleDrivers = sort_key cde_typeId (last_by cde_typeId (concat (map cat_drivers pages))),
           ci_complete = complete\<rparr>)"

lemma catalog_order:
  assumes "agree cde_typeId (concat (map cat_drivers pages))"
    and "mset pages = mset pages'"
  shows "ci_moduleDrivers (normalizeCatalogPages pages c) = ci_moduleDrivers (normalizeCatalogPages pages' c)"
proof -
  have "set pages = set pages'" using assms(2) by (rule mset_eq_setD)
  then have s: "set (concat (map cat_drivers pages)) = set (concat (map cat_drivers pages'))" by auto
  have "ci_moduleDrivers (normalizeCatalogPages ps c) =
      (if ps = [] then [] else sort_key cde_typeId (last_by cde_typeId (concat (map cat_drivers ps))))" for ps
    by (simp add: normalizeCatalogPages_def split: list.split)
  with last_by_sorted_same [OF assms(1) s] assms show ?thesis by (auto simp: agree_def)
qed

section \<open>Device profiles\<close>

record ProfileIndex =
  pri_profiles :: "DeviceProfileSummary list"
  pri_complete :: bool

definition profileKey :: "DeviceProfileSummary \<Rightarrow> jsstr" where
  "profileKey p = dps_profileId p @ js ''@'' @ decimal (dps_version p)"

text \<open>The comparison of profiles, by identifier and then by version, as two stable sorts.\<close>

definition sort_profiles :: "DeviceProfileSummary list \<Rightarrow> DeviceProfileSummary list" where
  "sort_profiles ps = sort_key dps_profileId (sort_key dps_version ps)"

definition normalizeProfilePages :: "ListDeviceProfilesResponse list \<Rightarrow> bool \<Rightarrow> ProfileIndex" where
  "normalizeProfilePages pages complete =
     \<lparr>pri_profiles = sort_profiles (last_by profileKey (concat (map ldps_profiles pages))), pri_complete = complete\<rparr>"

lemma decimal_chars: "u \<in> set (decimal n) \<Longrightarrow> u = 45 \<or> (48 \<le> u \<and> u \<le> 57)"
proof -
  have "u = 45 \<or> is_digit_char u" if "u \<in> set (decimal n)" for u
    using that nat_decimal_props by (auto simp: decimal_def minus_char_def list_all_iff split: if_splits)
  then show "u \<in> set (decimal n) \<Longrightarrow> u = 45 \<or> (48 \<le> u \<and> u \<le> 57)" by (auto simp: is_digit_char_def)
qed

lemma profileKey_inj:
  "profileKey p = profileKey q \<longleftrightarrow> dps_profileId p = dps_profileId q \<and> dps_version p = dps_version q"
proof
  assume k: "profileKey p = profileKey q"
  have j: "js ''@'' = [64]" by code_simp
  have no: "64 \<notin> set (decimal n)" for n using decimal_chars [of 64 n] by auto
  have split: "takeWhile (\<lambda>u. u \<noteq> 64) (rev (profileKey r)) = rev (decimal (dps_version r))" for r
    using no [of "dps_version r"] by (auto simp: profileKey_def j takeWhile_append2 takeWhile_append)
  from split [of p] split [of q] k have v: "dps_version p = dps_version q"
    by (simp add: decimal_inj)
  with k show "dps_profileId p = dps_profileId q \<and> dps_version p = dps_version q" by (simp add: profileKey_def)
qed (simp add: profileKey_def)

section \<open>Feature packs\<close>

record CapabilityPackIndex =
  cpi_featureSetHash :: bytes
  cpi_packs :: "FeaturePack list"

definition normalizeCapabilityPacks :: "GetFeaturesResponse \<Rightarrow> CapabilityPackIndex" where
  "normalizeCapabilityPacks response =
     \<lparr>cpi_featureSetHash = feat_featureSetHash response, cpi_packs = sort_key pack_id (feat_packs response)\<rparr>"

section \<open>Topology\<close>

record RailEntry =
  re_railId :: int
  re_assurance :: int
  re_maxTotalMicroamps :: int

record FunctionBayEntry =
  be_bayId :: int
  be_ordinal :: int
  be_railMask :: int
  be_moduleKey :: int
  be_admission :: int
  be_rails :: "RailEntry list"

record FlowEntry =
  fe_flowId :: int
  fe_portId :: int
  fe_direction :: int
  fe_signalCount :: int
  fe_bays :: "FunctionBayEntry list"
  fe_capabilities :: "int option"

record PortEntry =
  pe_portId :: int
  pe_capabilities :: "int option"

record TopologyIndex =
  ti_flows :: "FlowEntry list"
  ti_ports :: "PortEntry list"
  ti_complete :: bool

definition rail_entry :: "TopologyRail \<Rightarrow> RailEntry" where
  "rail_entry r = \<lparr>re_railId = rail_id r, re_assurance = rail_assurance r, re_maxTotalMicroamps = rail_maxTotalMicroamps r\<rparr>"

definition bay_entry :: "TopologyBay \<Rightarrow> FunctionBayEntry" where
  "bay_entry b = \<lparr>be_bayId = bay_id b, be_ordinal = bay_ordinal b, be_railMask = bay_railMask b,
     be_moduleKey = bay_moduleKey b, be_admission = bay_admission b, be_rails = map rail_entry (bay_rails b)\<rparr>"

definition flow_entry :: "TopologyFlow \<Rightarrow> FlowEntry" where
  "flow_entry f = \<lparr>fe_flowId = flow_id f, fe_portId = flow_portId f, fe_direction = flow_direction f,
     fe_signalCount = flow_signalCount f, fe_bays = map bay_entry (flow_bays f), fe_capabilities = flow_capabilities f\<rparr>"

text \<open>One turn of the loop: the ports seen, their capabilities, and the flows.\<close>

definition topology_turn :: "TopologyFlow \<Rightarrow> (int, unit) jsmap \<times> (int, int) jsmap \<times> (int, FlowEntry) jsmap \<Rightarrow>
    (int, unit) jsmap \<times> (int, int) jsmap \<times> (int, FlowEntry) jsmap" where
  "topology_turn f = (\<lambda>(portIds, portCaps, flowsById).
     (jm_put (flow_portId f) () portIds,
      (case flow_capabilities f of Some c \<Rightarrow> jm_put (flow_portId f) c portCaps | None \<Rightarrow> portCaps),
      jm_put (flow_id f) (flow_entry f) flowsById))"

definition normalizeTopologyPages :: "GetTopologyResponse list \<Rightarrow> bool \<Rightarrow> TopologyIndex" where
  "normalizeTopologyPages pages complete =
     (let (portIds, portCaps, flowsById) = fold topology_turn (concat (map topo_flows pages)) ([], [], []) in
      \<lparr>ti_flows = sort_key fe_flowId (map snd flowsById),
       ti_ports = map (\<lambda>p. \<lparr>pe_portId = p, pe_capabilities = jm_get portCaps p\<rparr>) (sort (jm_keys portIds)),
       ti_complete = complete\<rparr>)"

text \<open>
  No power value is changed on the way: every rail of the index is one that the Core reported for that
  flow and bay, with its assurance.
\<close>

lemma topology_flows:
  "snd (snd (fold topology_turn fs (a, b, c))) = fold (\<lambda>f m. jm_put (flow_id f) (flow_entry f) m) fs c"
  by (induction fs arbitrary: a b c) (simp_all add: topology_turn_def)

lemma topology_ports:
  "jm_wf a \<Longrightarrow> jm_wf (fst (fold topology_turn fs (a, b, c))) \<and>
     set (jm_keys (fst (fold topology_turn fs (a, b, c)))) = set (jm_keys a) \<union> flow_portId ` set fs"
proof (induction fs arbitrary: a b c)
  case (Cons f fs)
  from Cons.IH [OF jm.wf_put [OF Cons.prems]] show ?case
    by (auto simp: topology_turn_def jm.keys_put)
qed simp

lemma ports_sorted:
  "map pe_portId (ti_ports (normalizeTopologyPages pages complete)) =
     sorted_list_of_set (flow_portId ` (\<Union>page\<in>set pages. set (topo_flows page)))"
proof -
  let ?r = "fst (fold topology_turn (concat (map topo_flows pages)) ([], [], []))"
  from topology_ports [of "[]" "concat (map topo_flows pages)" "[]" "[]"]
  have "distinct (jm_keys ?r)" and k: "set (jm_keys ?r) = flow_portId ` (\<Union>page\<in>set pages. set (topo_flows page))"
    by (simp_all add: jm_wf_def)
  then have "sort (jm_keys ?r) = sorted_list_of_set (set (jm_keys ?r))"
    by (metis sorted_list_of_set_sort_remdups distinct_remdups_id)
  then show ?thesis by (simp only: k) (simp add: normalizeTopologyPages_def split_def comp_def Let_def)
qed

lemma topology_reported:
  assumes "fl \<in> set (ti_flows (normalizeTopologyPages pages complete))"
  shows "\<exists>page\<in>set pages. \<exists>f\<in>set (topo_flows page). fl = flow_entry f"
proof -
  have sub: "snd ` set (fold (\<lambda>f m. jm_put (flow_id f) (flow_entry f) m) fs c) \<subseteq> snd ` set c \<union> flow_entry ` set fs" for fs c
  proof (induction fs arbitrary: c)
    case (Cons f fs)
    have "snd ` set (jm_put (flow_id f) (flow_entry f) c) \<subseteq> insert (flow_entry f) (snd ` set c)"
      using set_update_subset [of "flow_id f" "flow_entry f" c] by force
    with Cons.IH [of "jm_put (flow_id f) (flow_entry f) c"] show ?case by auto
  qed simp
  from assms have "fl \<in> snd ` set (snd (snd (fold topology_turn (concat (map topo_flows pages)) ([], [], []))))"
    by (auto simp: normalizeTopologyPages_def split: prod.splits)
  moreover have "snd ` set (snd (snd (fold topology_turn (concat (map topo_flows pages)) ([], [], [])))) \<subseteq>
      flow_entry ` set (concat (map topo_flows pages))"
    using sub [of "concat (map topo_flows pages)" "[]"] by (simp add: topology_flows)
  ultimately have "fl \<in> flow_entry ` set (concat (map topo_flows pages))" by (rule set_rev_mp)
  then show ?thesis by auto
qed

end
