(* ===== verification/Composition.thy ===== *)
theory Composition
  imports Catalogs Schema Handles
begin

text \<open>
  The Physical Composition graph of \<open>physical-composition-model/src\<close>: its node payloads
  (\<open>entities.ts\<close>), power (\<open>power.ts\<close>), 1-Wire identifiers (\<open>w1-rom.ts\<close>), the validator
  (\<open>validate-composition.ts\<close>) and the acceptance of a discovered Module (\<open>discovery.ts\<close>).
\<close>

section \<open>Nodes\<close>

datatype ElectricalMode = InputOnly | OutputOnly | InputOutput

record ModuleEndpoint =
  ep_address :: "int option"
  ep_chipSelect :: "int option"
  ep_w1Rom :: "jsstr option"

record ModuleNodeData =
  mn_moduleKey :: "int option"
  mn_driverTypeId :: jsstr
  mn_profileId :: "jsstr option"
  mn_portId :: int
  mn_bayId :: int
  mn_railId :: int
  mn_endpoint :: "ModuleEndpoint option"
  mn_electricalMode :: ElectricalMode
  mn_properties :: "(jsstr \<times> js_value) list"

text \<open>The other nodes: backbone (variant, properties), power source (passive), connector (pinout, Bay),
  external device (description).\<close>

datatype PhysicalCompositionNodeData =
    BackboneNode jsstr "(jsstr \<times> js_value) list option" | PowerSourceNode bool
  | ConnectorNode "jsstr option" "int option" | ExternalDeviceNode "jsstr option"
  | ModuleNode ModuleNodeData

type_synonym physical_node = "PhysicalCompositionNodeData GraphNode"

fun isModuleNodeData :: "PhysicalCompositionNodeData \<Rightarrow> bool" where
  "isModuleNodeData (ModuleNode d) = True"
| "isModuleNodeData d = False"

text \<open>The Module nodes, with their payload.\<close>

definition moduleNodes :: "physical_node list \<Rightarrow> (jsstr \<times> ModuleNodeData) list" where
  "moduleNodes nodes =
     concat (map (\<lambda>n. case gn_data n of ModuleNode d \<Rightarrow> [(gn_id n, d)] | _ \<Rightarrow> []) nodes)"

section \<open>Power and 1-Wire\<close>

definition RAIL_UNMANAGED :: int where "RAIL_UNMANAGED = 0"

definition requiresPowerAcknowledgement :: "int \<Rightarrow> bool" where
  "requiresPowerAcknowledgement railAssurance \<longleftrightarrow> railAssurance = RAIL_UNMANAGED"

text \<open>\<open>/[\s:.\-]/g\<close> is removed; the white space of \<open>\s\<close> is that of \<open>trim\<close>.\<close>

definition rom_separator :: "16 word \<Rightarrow> bool" where
  "rom_separator u \<longleftrightarrow> white_unit u \<or> u \<in> set (js '':.-'')"

text \<open>\<open>toLowerCase\<close> of a unit; the parameter \<open>lower\<close> is the standard library on the other characters.\<close>

definition parseW1RomHex :: "(jsstr \<Rightarrow> jsstr) \<Rightarrow> jsstr \<Rightarrow> jsstr option" where
  "parseW1RomHex lower input =
     (let hex = lower (filter (\<lambda>u. \<not> rom_separator u) input) in
      if length hex \<noteq> 16 then None
      else if \<not> list_all (\<lambda>u. (48 \<le> u \<and> u \<le> 57) \<or> (97 \<le> u \<and> u \<le> 102)) hex then None
      else Some hex)"

section \<open>The validator\<close>

datatype ModuleTransport = TI2c | TSpi | TW1

definition endpointIdentity :: "ModuleEndpoint option \<Rightarrow> jsstr option" where
  "endpointIdentity endpoint =
     (case endpoint of
        None \<Rightarrow> None
      | Some e \<Rightarrow>
          (case ep_address e of Some a \<Rightarrow> Some (js ''i2c:'' @ decimal a) | None \<Rightarrow>
          (case ep_chipSelect e of Some c \<Rightarrow> Some (js ''spi:'' @ decimal c) | None \<Rightarrow>
          (case ep_w1Rom e of Some r \<Rightarrow> Some (js ''w1:'' @ r) | None \<Rightarrow> None))))"

definition composition_failure :: "string \<Rightarrow> jsstr \<times> ModuleNodeData \<Rightarrow> DomainError" where
  "composition_failure code node = domainError code [js ''physical-composition'', fst node] (fst node)"

text \<open>What the transport of a driver requires of the endpoint.\<close>

definition endpoint_has :: "ModuleTransport \<Rightarrow> ModuleEndpoint option \<Rightarrow> bool" where
  "endpoint_has t endpoint \<longleftrightarrow>
     (case endpoint of
        None \<Rightarrow> False
      | Some e \<Rightarrow> (case t of TI2c \<Rightarrow> ep_address e \<noteq> None | TSpi \<Rightarrow> ep_chipSelect e \<noteq> None | TW1 \<Rightarrow> ep_w1Rom e \<noteq> None))"

record CompositionOptions =
  co_transportOf :: "jsstr \<Rightarrow> ModuleTransport option"
  co_acknowledged :: "jsstr set"

definition placement_errors :: "TopologyIndex \<Rightarrow> CompositionOptions \<Rightarrow> jsstr \<times> ModuleNodeData \<Rightarrow> DomainError list" where
  "placement_errors topology options node =
     (let m = snd node in
      case find (\<lambda>f. fe_portId f = mn_portId m) (ti_flows topology) of
        None \<Rightarrow> [composition_failure ''physical-composition.port_not_declared'' node]
      | Some flow \<Rightarrow>
      (case find (\<lambda>b. be_bayId b = mn_bayId m) (fe_bays flow) of
        None \<Rightarrow> [composition_failure ''physical-composition.bay_not_declared'' node]
      | Some bay \<Rightarrow>
      (case find (\<lambda>r. re_railId r = mn_railId m) (be_rails bay) of
        None \<Rightarrow> [composition_failure ''physical-composition.rail_not_declared'' node]
      | Some rail \<Rightarrow>
          (case co_transportOf options (mn_driverTypeId m) of
             Some t \<Rightarrow> if endpoint_has t (mn_endpoint m) then []
                       else [composition_failure ''physical-composition.transport_mismatch'' node]
           | None \<Rightarrow> []) @
          (if requiresPowerAcknowledgement (re_assurance rail) \<and> fst node \<notin> co_acknowledged options
           then [composition_failure ''physical-composition.missing_power_acknowledgement'' node] else []))))"

definition endpoint_group :: "jsstr \<times> ModuleNodeData \<Rightarrow> jsstr option" where
  "endpoint_group node =
     (case endpointIdentity (mn_endpoint (snd node)) of
        None \<Rightarrow> None
      | Some key \<Rightarrow> Some (decimal (mn_portId (snd node)) @ js '':'' @ key))"

definition findEndpointCollisions :: "(jsstr \<times> ModuleNodeData) list \<Rightarrow> DomainError list" where
  "findEndpointCollisions modules =
     map (composition_failure ''physical-composition.endpoint_collision'') (clashes (group_by endpoint_group modules))"

definition key_group :: "jsstr \<times> ModuleNodeData \<Rightarrow> int option" where
  "key_group node = (case mn_moduleKey (snd node) of None \<Rightarrow> None | Some k \<Rightarrow> if k = 0 then None else Some k)"

definition findModuleKeyConflicts :: "(jsstr \<times> ModuleNodeData) list \<Rightarrow> DomainError list" where
  "findModuleKeyConflicts modules =
     map (composition_failure ''physical-composition.module_key_conflict'') (clashes (group_by key_group modules))"

definition validateComposition :: "physical_node list \<Rightarrow> TopologyIndex \<Rightarrow> CompositionOptions \<Rightarrow> DomainError list + unit" where
  "validateComposition nodes topology options =
     (let modules = moduleNodes nodes;
          errors = concat (map (placement_errors topology options) modules) @
                   findEndpointCollisions modules @ findModuleKeyConflicts modules in
      if errors \<noteq> [] then Inl errors else Inr ())"

section \<open>Discovery\<close>

record DiscoveryAcceptChoice =
  dc_key :: int
  dc_bayId :: int
  dc_railId :: int
  dc_electricalMode :: ElectricalMode
  dc_properties :: "(jsstr \<times> js_value) list option"

record DiscoveryAcceptPreview =
  dp_candidate :: DiscoveryCandidate
  dp_choice :: DiscoveryAcceptChoice
  dp_proposedModule :: ModuleNodeData

definition previewDiscoveryAccept :: "DiscoveryCandidate \<Rightarrow> DiscoveryAcceptChoice \<Rightarrow> DiscoveryAcceptPreview" where
  "previewDiscoveryAccept candidate choice =
     \<lparr>dp_candidate = candidate, dp_choice = choice,
      dp_proposedModule = \<lparr>mn_moduleKey = None, mn_driverTypeId = cand_suggestedTypeId candidate, mn_profileId = None,
        mn_portId = cand_portId candidate, mn_bayId = dc_bayId choice, mn_railId = dc_railId choice,
        mn_endpoint = None, mn_electricalMode = dc_electricalMode choice,
        mn_properties = (case dc_properties choice of None \<Rightarrow> [] | Some ps \<Rightarrow> ps)\<rparr>\<rparr>"

definition previewDiscoveryAcceptDiff ::
    "physical_node list \<Rightarrow> DiscoveryAcceptPreview \<Rightarrow> TopologyIndex \<Rightarrow> CompositionOptions \<Rightarrow> DomainError list + unit" where
  "previewDiscoveryAcceptDiff existing preview topology options =
     validateComposition (existing @ [\<lparr>gn_layer = PhysicalComposition,
         gn_id = js ''discovery-preview:'' @ decimal (cand_id (dp_candidate preview)),
         gn_data = ModuleNode (dp_proposedModule preview)\<rparr>]) topology options"

definition moduleFromAcceptedDiscovery :: "DiscoveryAcceptPreview \<Rightarrow> int \<Rightarrow> ModuleNodeData" where
  "moduleFromAcceptedDiscovery preview moduleKey = (dp_proposedModule preview)\<lparr>mn_moduleKey := Some moduleKey\<rparr>"

section \<open>What the validator decides\<close>

text \<open>The rail a Module is placed on: in the first flow of its port, the first Bay and rail of its numbers.\<close>

definition rail_of :: "TopologyIndex \<Rightarrow> ModuleNodeData \<Rightarrow> RailEntry option" where
  "rail_of topology m =
     Option.bind (find (\<lambda>f. fe_portId f = mn_portId m) (ti_flows topology)) (\<lambda>flow.
     Option.bind (find (\<lambda>b. be_bayId b = mn_bayId m) (fe_bays flow)) (\<lambda>bay.
       find (\<lambda>r. re_railId r = mn_railId m) (be_rails bay)))"

definition placed :: "TopologyIndex \<Rightarrow> CompositionOptions \<Rightarrow> jsstr \<times> ModuleNodeData \<Rightarrow> bool" where
  "placed topology options node \<longleftrightarrow>
     (\<exists>rail. rail_of topology (snd node) = Some rail \<and>
        (re_assurance rail = RAIL_UNMANAGED \<longrightarrow> fst node \<in> co_acknowledged options)) \<and>
     (\<forall>t. co_transportOf options (mn_driverTypeId (snd node)) = Some t \<longrightarrow> endpoint_has t (mn_endpoint (snd node)))"

definition valid_composition :: "TopologyIndex \<Rightarrow> CompositionOptions \<Rightarrow> physical_node list \<Rightarrow> bool" where
  "valid_composition topology options nodes \<longleftrightarrow>
     (\<forall>node\<in>set (moduleNodes nodes). placed topology options node) \<and>
     distinct (map endpoint_group (filter (\<lambda>n. endpoint_group n \<noteq> None) (moduleNodes nodes))) \<and>
     distinct (map key_group (filter (\<lambda>n. key_group n \<noteq> None) (moduleNodes nodes)))"

lemma placement_Nil: "placement_errors topology options node = [] \<longleftrightarrow> placed topology options node"
  by (auto simp: placement_errors_def placed_def rail_of_def requiresPowerAcknowledgement_def Let_def
      split: option.splits if_splits)

lemma validate_composition_iff: "validateComposition nodes topology options = Inr () \<longleftrightarrow> valid_composition topology options nodes"
proof -
  have c: "concat (map f xs) = [] \<longleftrightarrow> (\<forall>x\<in>set xs. f x = [])" for f :: "jsstr \<times> ModuleNodeData \<Rightarrow> DomainError list" and xs
    by auto
  show ?thesis
    unfolding validateComposition_def valid_composition_def Let_def findEndpointCollisions_def findModuleKeyConflicts_def
    by (simp only: if_Inl_iff append_is_Nil_conv not_not c placement_Nil map_is_Nil_conv clashes_Nil at_most_one_distinct)
       simp
qed

text \<open>Two Modules share an endpoint group exactly when they have the same port and the same identity.\<close>

lemma endpoint_group_eq:
  assumes "endpointIdentity (mn_endpoint (snd a)) \<noteq> None"
  shows "endpoint_group a = endpoint_group b \<longleftrightarrow> mn_portId (snd a) = mn_portId (snd b) \<and>
     endpointIdentity (mn_endpoint (snd a)) = endpointIdentity (mn_endpoint (snd b))"
proof
  assume g: "endpoint_group a = endpoint_group b"
  from assms obtain x where x: "endpointIdentity (mn_endpoint (snd a)) = Some x" by blast
  with g obtain y where y: "endpointIdentity (mn_endpoint (snd b)) = Some y"
    by (auto simp: endpoint_group_def split: option.splits)
  have j: "js '':'' = [58]" by code_simp
  have no: "58 \<notin> set (decimal n)" for n using decimal_chars [of 58 n] by auto
  from g x y have e: "decimal (mn_portId (snd a)) @ 58 # x = decimal (mn_portId (snd b)) @ 58 # y"
    by (simp add: endpoint_group_def j)
  have tw: "takeWhile (\<lambda>u. u \<noteq> 58) (decimal n @ 58 # z) = decimal n" for n z
    using no [of n] by (auto simp: takeWhile_append2 takeWhile_append)
  from e tw [of "mn_portId (snd a)" x] tw [of "mn_portId (snd b)" y]
  have "decimal (mn_portId (snd a)) = decimal (mn_portId (snd b))" by simp
  with e x y show "mn_portId (snd a) = mn_portId (snd b) \<and>
     endpointIdentity (mn_endpoint (snd a)) = endpointIdentity (mn_endpoint (snd b))"
    by (simp add: decimal_inj)
qed (simp add: endpoint_group_def split: option.split)

end
