(* ===== verification/Depth.thy ===== *)
theory Depth
  imports Cycles
begin

text \<open>
  \<open>longestDepth\<close> of \<open>config-compiler/src/compile.ts\<close>: the memoised depth of every node. On
  acyclic edges the recursion ends and every entry is the length of a longest path; on a cycle the
  code recurses without end, which is the value \<open>None\<close>.
\<close>

section \<open>The code\<close>

text \<open>
  \<open>visit\<close> and the loop over the successors in it. The fuel bounds the depth of the recursion; one more
  than the number of edges is enough on acyclic edges (\<open>depth_total\<close>).
\<close>

fun depth_visit :: "(jsstr \<Rightarrow> jsstr list) \<Rightarrow> nat \<Rightarrow> jsstr \<Rightarrow> (jsstr, nat) jsmap \<Rightarrow> (nat \<times> (jsstr, nat) jsmap) option"
  and depth_loop :: "(jsstr \<Rightarrow> jsstr list) \<Rightarrow> nat \<Rightarrow> jsstr list \<Rightarrow> nat \<Rightarrow> (jsstr, nat) jsmap \<Rightarrow> (nat \<times> (jsstr, nat) jsmap) option" where
  "depth_visit out 0 v depth = None"
| "depth_visit out (Suc n) v depth =
     (case jm_get depth v of
        Some cached \<Rightarrow> Some (cached, depth)
      | None \<Rightarrow>
          (case depth_loop out n (out v) 0 depth of
             None \<Rightarrow> None
           | Some (m, depth') \<Rightarrow> Some (m, jm_put v m depth')))"
| "depth_loop out n [] m depth = Some (m, depth)"
| "depth_loop out n (t # ts) m depth =
     (case depth_visit out n t depth of
        None \<Rightarrow> None
      | Some (c, depth') \<Rightarrow> depth_loop out n ts (max m (1 + c)) depth')"

fun depth_all :: "(jsstr \<Rightarrow> jsstr list) \<Rightarrow> nat \<Rightarrow> jsstr list \<Rightarrow> (jsstr, nat) jsmap \<Rightarrow> (jsstr, nat) jsmap option" where
  "depth_all out n [] depth = Some depth"
| "depth_all out n (v # vs) depth =
     (case depth_visit out n v depth of None \<Rightarrow> None | Some (_, depth') \<Rightarrow> depth_all out n vs depth')"

text \<open>First the nodes without an incoming edge, then those that have no depth yet; for the latter
  \<open>visit\<close> returns at once when there is one.\<close>

definition longestDepth :: "jsstr list \<Rightarrow> GraphEdge list \<Rightarrow> (jsstr, nat) jsmap option" where
  "longestDepth ids edges =
     (let outgoing = group_by (\<lambda>e. Some (ge_source e)) edges;
          out = (\<lambda>v. map ge_target (group_of outgoing v));
          roots = filter (\<lambda>v. v \<notin> set (map ge_target edges)) ids in
      case depth_all out (Suc (length edges)) roots [] of
        None \<Rightarrow> None
      | Some depth \<Rightarrow> depth_all out (Suc (length edges)) ids depth)"

section \<open>Longest paths\<close>

definition edge_pairs :: "GraphEdge list \<Rightarrow> (jsstr \<times> jsstr) set" where
  "edge_pairs edges = (\<lambda>e. (ge_source e, ge_target e)) ` set edges"

lemma finite_edge_pairs [simp]: "finite (edge_pairs edges)"
  by (simp add: edge_pairs_def)

text \<open>There is a path of that many edges from the node, and none is longer.\<close>

definition longest :: "(jsstr \<times> jsstr) set \<Rightarrow> jsstr \<Rightarrow> nat \<Rightarrow> bool" where
  "longest r v n \<longleftrightarrow> (\<exists>w. (v, w) \<in> r ^^ n) \<and> (\<forall>k w. (v, w) \<in> r ^^ k \<longrightarrow> k \<le> n)"

lemma longest_unique: "longest r v m \<Longrightarrow> longest r v n \<Longrightarrow> m = n"
  unfolding longest_def by (metis le_antisym)

lemma longest_step:
  assumes "\<And>t. (v, t) \<in> r \<Longrightarrow> longest r t (f t)" and "\<And>t. (v, t) \<in> r \<Longrightarrow> Suc (f t) \<le> m"
    and "m = 0 \<or> (\<exists>t. (v, t) \<in> r \<and> m = Suc (f t))"
  shows "longest r v m"
  unfolding longest_def
proof (intro conjI allI impI)
  show "\<exists>w. (v, w) \<in> r ^^ m"
    using assms(3)
  proof
    assume "m = 0"
    then show ?thesis by auto
  next
    assume "\<exists>t. (v, t) \<in> r \<and> m = Suc (f t)"
    then obtain t where t: "(v, t) \<in> r" "m = Suc (f t)" by blast
    from assms(1) [OF t(1)] obtain w where "(t, w) \<in> r ^^ f t" by (auto simp: longest_def)
    from relpow_Suc_I2 [OF t(1) this] t(2) show ?thesis by blast
  qed
  fix k w assume k: "(v, w) \<in> r ^^ k"
  show "k \<le> m"
  proof (cases k)
    case (Suc j)
    from k [unfolded Suc] obtain t where "(v, t) \<in> r" "(t, w) \<in> r ^^ j" by (rule relpow_Suc_E2)
    with assms(1,2) [of t] have "j \<le> f t" "Suc (f t) \<le> m" by (auto simp: longest_def)
    with Suc show ?thesis by simp
  qed simp
qed

text \<open>How many nodes can be reached: the fuel that a node needs.\<close>

definition reach :: "(jsstr \<times> jsstr) set \<Rightarrow> jsstr \<Rightarrow> nat" where
  "reach r v = card (r\<^sup>+ `` {v})"

lemma finite_reach: "finite r \<Longrightarrow> finite (r\<^sup>+ `` {v})"
  by (rule finite_subset [of _ "Range r"]) (auto simp: finite_Range dest: trancl_range [THEN equalityD1, THEN subsetD, OF RangeI])

lemma reach_less:
  assumes "finite r" and "acyclic r" and "(v, t) \<in> r"
  shows "reach r t < reach r v"
proof -
  have "r\<^sup>+ `` {t} \<subset> r\<^sup>+ `` {v}"
  proof
    show "r\<^sup>+ `` {t} \<subseteq> r\<^sup>+ `` {v}" using assms(3) by (auto intro: trancl_into_trancl2)
    show "r\<^sup>+ `` {t} \<noteq> r\<^sup>+ `` {v}" using assms(2,3) by (auto simp: acyclic_def)
  qed
  then show ?thesis unfolding reach_def by (rule psubset_card_mono [OF finite_reach [OF assms(1)]])
qed

lemma reach_le: "reach (edge_pairs edges) v \<le> length edges"
proof -
  have "(edge_pairs edges)\<^sup>+ `` {v} \<subseteq> ge_target ` set edges"
  proof
    fix w assume "w \<in> (edge_pairs edges)\<^sup>+ `` {v}"
    then have "w \<in> Range ((edge_pairs edges)\<^sup>+)" by blast
    then show "w \<in> ge_target ` set edges" by (auto simp: edge_pairs_def)
  qed
  then have "reach (edge_pairs edges) v \<le> card (ge_target ` set edges)"
    unfolding reach_def by (intro card_mono) simp_all
  also have "\<dots> \<le> length edges" using card_image_le [of "set edges" ge_target] card_length [of edges] by simp
  finally show ?thesis .
qed

section \<open>Correctness\<close>

definition depths_ok :: "(jsstr \<times> jsstr) set \<Rightarrow> (jsstr, nat) jsmap \<Rightarrow> bool" where
  "depths_ok r depth \<longleftrightarrow> jm_wf depth \<and> (\<forall>v n. jm_get depth v = Some n \<longrightarrow> longest r v n)"

lemma depth_correct:
  assumes r: "finite r" "acyclic r" and out: "\<And>v. set (out v) = {t. (v, t) \<in> r}"
  shows "reach r v < n \<Longrightarrow> depths_ok r d \<Longrightarrow> \<exists>c d'. depth_visit out n v d = Some (c, d') \<and> depths_ok r d' \<and>
      longest r v c \<and> jm_get d' v = Some c \<and> (\<forall>u. jm_get d u \<noteq> None \<longrightarrow> jm_get d' u \<noteq> None)"
    and "\<forall>t\<in>set ts. reach r t < n \<Longrightarrow> depths_ok r d \<Longrightarrow> \<exists>m' d'. depth_loop out n ts m d = Some (m', d') \<and>
      depths_ok r d' \<and> (\<exists>f. (\<forall>t\<in>set ts. longest r t (f t) \<and> Suc (f t) \<le> m') \<and> m \<le> m' \<and>
        (m' = m \<or> (\<exists>t\<in>set ts. m' = Suc (f t)))) \<and> (\<forall>u. jm_get d u \<noteq> None \<longrightarrow> jm_get d' u \<noteq> None)"
  using out
proof (induction out n v d and out n ts m d rule: depth_visit_depth_loop.induct)
  case (2 out n v d)
  show ?case
  proof (cases "jm_get d v")
    case (Some c)
    with 2(3) show ?thesis by (auto simp: depths_ok_def)
  next
    case None
    have "\<forall>t\<in>set (out v). reach r t < n"
      using reach_less [OF r, of v] 2(2,4) by fastforce
    with 2(1) [OF None _ 2(3,4)] obtain m d' f where l: "depth_loop out n (out v) 0 d = Some (m, d')" "depths_ok r d'"
      and f: "\<forall>t\<in>set (out v). longest r t (f t) \<and> Suc (f t) \<le> m" "m = 0 \<or> (\<exists>t\<in>set (out v). m = Suc (f t))"
      and k: "\<forall>u. jm_get d u \<noteq> None \<longrightarrow> jm_get d' u \<noteq> None" by blast
    have "longest r v m" by (rule longest_step [of v r f]) (use f 2(4) in auto)
    with l k None show ?thesis by (auto simp: depths_ok_def jm.get_put jm.wf_put)
  qed
next
  case (4 out n t ts m d)
  then obtain c d' where v: "depth_visit out n t d = Some (c, d')" "depths_ok r d'" "longest r t c"
    and k: "\<forall>u. jm_get d u \<noteq> None \<longrightarrow> jm_get d' u \<noteq> None" by fastforce
  from 4(2) [OF v(1) HOL.refl _ v(2) 4(5)] 4(3) obtain m' d'' f where
    l: "depth_loop out n ts (max m (1 + c)) d' = Some (m', d'')" "depths_ok r d''"
    and f: "\<forall>t\<in>set ts. longest r t (f t) \<and> Suc (f t) \<le> m'" "max m (1 + c) \<le> m'"
      "m' = max m (1 + c) \<or> (\<exists>t\<in>set ts. m' = Suc (f t))"
    and k': "\<forall>u. jm_get d' u \<noteq> None \<longrightarrow> jm_get d'' u \<noteq> None" by auto
  have same: "f t = c" if "t \<in> set ts" using f(1) v(3) that longest_unique by blast
  let ?g = "f(t := c)"
  have g: "\<forall>u\<in>set (t # ts). longest r u (?g u) \<and> Suc (?g u) \<le> m'" using f v(3) by auto
  moreover have "m' = m \<or> (\<exists>u\<in>set (t # ts). m' = Suc (?g u))"
  proof (cases "m' = max m (1 + c)")
    case False
    with f(3) obtain u where "u \<in> set ts" "m' = Suc (f u)" by blast
    then show ?thesis using same by (cases "u = t") auto
  qed (auto simp: max_def)
  ultimately show ?case using l v f(2) k k' by (auto intro!: exI [of _ ?g])
qed auto

text \<open>Only the nodes asked for and the targets of edges get a depth.\<close>

lemma depth_domain:
  shows "depth_visit out n v d = Some (c, d') \<Longrightarrow> (\<And>v. set (out v) \<subseteq> V) \<Longrightarrow>
      set (jm_keys d') \<subseteq> insert v (set (jm_keys d) \<union> V)"
    and "depth_loop out n ts m d = Some (m', d') \<Longrightarrow> (\<And>v. set (out v) \<subseteq> V) \<Longrightarrow>
      set (jm_keys d') \<subseteq> set (jm_keys d) \<union> set ts \<union> V"
proof (induction out n v d and out n ts m d arbitrary: c d' and m' d' rule: depth_visit_depth_loop.induct)
  case (2 out n v d)
  show ?case
  proof (cases "jm_get d v")
    case None
    with 2(2) obtain m e where l: "depth_loop out n (out v) 0 d = Some (m, e)" "d' = jm_put v m e"
      by (auto split: option.splits)
    from 2(1) [OF None l(1) 2(3)] 2(3) [of v] show ?thesis unfolding l(2) jm.keys_put by auto
  qed (use 2 in auto)
next
  case (4 out n t ts m d)
  then obtain c e where v: "depth_visit out n t d = Some (c, e)" "depth_loop out n ts (max m (1 + c)) e = Some (m', d')"
    by (auto split: option.splits)
  from 4(1) [OF v(1) 4(4)] 4(2) [OF v(1) HOL.refl v(2) 4(4)] show ?case unfolding list.set(2) by blast
qed auto

lemma depth_all_domain:
  "depth_all out n vs d = Some d' \<Longrightarrow> (\<And>v. set (out v) \<subseteq> V) \<Longrightarrow> set (jm_keys d') \<subseteq> set (jm_keys d) \<union> set vs \<union> V"
proof (induction vs arbitrary: d)
  case (Cons v vs)
  then obtain c e where e: "depth_visit out n v d = Some (c, e)" "depth_all out n vs e = Some d'"
    by (auto split: option.splits)
  from depth_domain(1) [OF e(1) Cons.prems(2)] Cons.IH [OF e(2) Cons.prems(2)] show ?case
    unfolding list.set(2) by blast
qed simp

lemma depth_all_correct:
  assumes r: "finite r" "acyclic r" and out: "\<And>v. set (out v) = {t. (v, t) \<in> r}" and n: "\<And>v. reach r v < n"
  shows "depths_ok r d \<Longrightarrow> \<exists>d'. depth_all out n vs d = Some d' \<and> depths_ok r d' \<and>
     (\<forall>v\<in>set vs. jm_get d' v \<noteq> None) \<and> (\<forall>u. jm_get d u \<noteq> None \<longrightarrow> jm_get d' u \<noteq> None)"
proof (induction vs arbitrary: d)
  case (Cons v vs)
  from depth_correct(1) [OF r out n Cons.prems, of v] obtain c e where
    e: "depth_visit out n v d = Some (c, e)" "depths_ok r e" "jm_get e v \<noteq> None" "\<forall>u. jm_get d u \<noteq> None \<longrightarrow> jm_get e u \<noteq> None"
    by auto
  with Cons.IH [OF e(2)] show ?case by auto
qed simp

lemma depth_total:
  assumes "acyclic (edge_pairs edges)"
  shows "\<exists>d. longestDepth ids edges = Some d \<and> depths_ok (edge_pairs edges) d \<and> (\<forall>v\<in>set ids. jm_get d v \<noteq> None) \<and>
     set (jm_keys d) \<subseteq> set ids \<union> ge_target ` set edges"
proof -
  let ?out = "\<lambda>v. map ge_target (group_of (group_by (\<lambda>e. Some (ge_source e)) edges) v)"
  let ?roots = "filter (\<lambda>v. v \<notin> set (map ge_target edges)) ids"
  have out: "set (?out v) = {t. (v, t) \<in> edge_pairs edges}" for v by (auto simp: edge_pairs_def)
  have sub: "set (?out v) \<subseteq> ge_target ` set edges" for v by auto
  have n: "reach (edge_pairs edges) v < Suc (length edges)" for v using reach_le [of edges v] by simp
  note all = depth_all_correct [OF finite_edge_pairs assms out n]
  from all [of "[]" ?roots] obtain d where
    d: "depth_all ?out (Suc (length edges)) ?roots [] = Some d" "depths_ok (edge_pairs edges) d"
    by (auto simp: depths_ok_def)
  from all [OF d(2), of ids] obtain e where
    e: "depth_all ?out (Suc (length edges)) ids d = Some e" "depths_ok (edge_pairs edges) e" "\<forall>v\<in>set ids. jm_get e v \<noteq> None"
    by blast
  have roots: "set ?roots \<subseteq> set ids" by auto
  have abs: "A \<subseteq> K \<union> R \<union> T \<Longrightarrow> R \<subseteq> I \<Longrightarrow> K = {} \<Longrightarrow> B \<subseteq> A \<union> I \<union> T \<Longrightarrow> B \<subseteq> I \<union> T"
    for A B I K R T :: "jsstr set" by blast
  have "set (jm_keys e) \<subseteq> set ids \<union> ge_target ` set edges"
    by (rule abs [OF depth_all_domain [OF d(1) sub] roots _ depth_all_domain [OF e(1) sub]]) simp
  moreover have "longestDepth ids edges = Some e" by (simp only: longestDepth_def Let_def d(1) e(1) option.case)
  ultimately show ?thesis using e by blast
qed

end
