(* ===== verification/Compile.thy ===== *)
theory Compile
  imports Depth Composition Processing ConfigCbor
begin

text \<open>
  The Config compiler: \<open>config-compiler/src/compile.ts\<close> and \<open>properties.ts\<close>. One Core's physical and
  processing graphs become a canonical configuration, or the list of everything that is wrong with
  them. The standard library's \<open>Number(text)\<close>, where it is an integer, is the parameter \<open>toNumber\<close>,
  and \<open>String(value)\<close> the parameter \<open>str\<close>.
\<close>

section \<open>Properties\<close>

definition config_failure :: "string \<Rightarrow> jsstr list \<Rightarrow> jsstr \<Rightarrow> DomainError" where
  "config_failure code path target = domainError code (js ''config-compiler'' # path) target"

fun property_value :: "js_value \<Rightarrow> PropertyValue option" where
  "property_value (JBool b) = Some (PBool b)"
| "property_value (JBigint n) = Some (PInt n)"
| "property_value (JString s) = Some (PText s)"
| "property_value v = None"

text \<open>The field number of a key; other keys belong to the editor and are skipped.\<close>

definition field_id :: "(jsstr \<Rightarrow> int option) \<Rightarrow> jsstr \<Rightarrow> int option" where
  "field_id toNumber key =
     (case toNumber key of Some n \<Rightarrow> if n \<le> 0 \<or> n > 0xffff then None else Some n | None \<Rightarrow> None)"

definition property_errors :: "(jsstr \<Rightarrow> int option) \<Rightarrow> (js_value \<Rightarrow> jsstr) \<Rightarrow> jsstr \<Rightarrow> (jsstr \<times> js_value) list \<Rightarrow> DomainError list" where
  "property_errors toNumber str nodeId raw =
     concat (map (\<lambda>(key, value).
       if field_id toNumber key \<noteq> None \<and> property_value value = None
       then [config_failure ''config-compiler.unresolved_property_field_id''
               [js ''nodes'', nodeId, js ''properties'', key] (str value)]
       else []) raw)"

definition property_turn :: "(jsstr \<Rightarrow> int option) \<Rightarrow> jsstr \<times> js_value \<Rightarrow> (int, PropertyValue) jsmap \<Rightarrow> (int, PropertyValue) jsmap" where
  "property_turn toNumber = (\<lambda>(key, value) out.
     (case (field_id toNumber key, property_value value) of
        (Some fieldId, Some v) \<Rightarrow> jm_put fieldId v out
      | _ \<Rightarrow> out))"

definition toPropertySet :: "(jsstr \<Rightarrow> int option) \<Rightarrow> (js_value \<Rightarrow> jsstr) \<Rightarrow> jsstr \<Rightarrow> (jsstr \<times> js_value) list \<Rightarrow>
    DomainError list + PropertySet" where
  "toPropertySet toNumber str nodeId raw =
     (let errors = property_errors toNumber str nodeId raw in
      if errors \<noteq> [] then Inl errors else Inr (object_entries (fold (property_turn toNumber) raw [])))"

definition errors_of :: "'e list + 'a \<Rightarrow> 'e list" where
  "errors_of r = (case r of Inl es \<Rightarrow> es | Inr _ \<Rightarrow> [])"

definition or_empty :: "'e list + 'a list \<Rightarrow> 'a list" where
  "or_empty r = (case r of Inl _ \<Rightarrow> [] | Inr x \<Rightarrow> x)"

section \<open>Inputs and options\<close>

record CompileConfigInput =
  in_physicalNodes :: "physical_node list"
  in_processing :: processing_graph
  in_mqtt :: CanonicalMqtt
  in_connectivity :: int
  in_energy :: CanonicalEnergy

text \<open>A resolver that is not supplied is one that returns \<open>undefined\<close>.\<close>

record CompileConfigOptions =
  oo_resolveSourcePortOrField :: "processing_node \<Rightarrow> jsstr option \<Rightarrow> int option"
  oo_resolveTargetInput :: "processing_node \<Rightarrow> jsstr option \<Rightarrow> int option"
  oo_resolveBlockCost :: "processing_node \<Rightarrow> int option"
  oo_resolveRuleActionFieldIds :: "jsstr \<Rightarrow> (int \<times> int) option"
  oo_resolveRuleSourceFieldIds :: "jsstr \<Rightarrow> (int \<times> int) option"
  oo_maxTotalCost :: "int option"
  oo_maxFanOut :: "int option"
  oo_maxDepth :: "int option"
  oo_maxModules :: "int option"
  oo_maxSchedules :: "int option"
  oo_maxRules :: "int option"
  oo_maxBlocks :: "int option"
  oo_maxEdges :: "int option"

section \<open>Keys\<close>

text \<open>Keys 1, 2, ... in the order of the node identifiers.\<close>

definition assignKeys :: "jsstr list \<Rightarrow> (jsstr, int) jsmap" where
  "assignKeys nodeIds = jm_of (map (\<lambda>(index, i). (i, int index + 1)) (enumerate 0 (sort nodeIds)))"

definition scheduleNodes :: "processing_node list \<Rightarrow> (jsstr \<times> ScheduleNodeData) list" where
  "scheduleNodes nodes = concat (map (\<lambda>n. case gn_data n of ScheduleNode d \<Rightarrow> [(gn_id n, d)] | _ \<Rightarrow> []) nodes)"

definition blockNodes :: "processing_node list \<Rightarrow> (processing_node \<times> BlockNodeData) list" where
  "blockNodes nodes = concat (map (\<lambda>n. case gn_data n of BlockNode d \<Rightarrow> [(n, d)] | _ \<Rightarrow> []) nodes)"

definition ruleNodes :: "processing_node list \<Rightarrow> (jsstr \<times> RuleNodeData) list" where
  "ruleNodes nodes = concat (map (\<lambda>n. case gn_data n of RuleNode d \<Rightarrow> [(gn_id n, d)] | _ \<Rightarrow> []) nodes)"

text \<open>\<open>keyOf.get(id)!\<close>: of a node that has a key.\<close>

definition the_key :: "(jsstr, int) jsmap \<Rightarrow> jsstr \<Rightarrow> int" where
  "the_key keys i = (case jm_get keys i of Some k \<Rightarrow> k | None \<Rightarrow> 0)"

definition moduleKeys :: "CompileConfigInput \<Rightarrow> (jsstr, int) jsmap" where
  "moduleKeys input = assignKeys (map fst (moduleNodes (in_physicalNodes input)))"

definition blockKeys :: "CompileConfigInput \<Rightarrow> (jsstr, int) jsmap" where
  "blockKeys input = assignKeys (map (\<lambda>(n, d). gn_id n) (blockNodes (pg_nodes (in_processing input))))"

definition ruleKeys :: "CompileConfigInput \<Rightarrow> (jsstr, int) jsmap" where
  "ruleKeys input = assignKeys (map fst (ruleNodes (pg_nodes (in_processing input))))"

section \<open>Capacities\<close>

definition capacity_error :: "string \<Rightarrow> (jsstr, int) jsmap \<Rightarrow> nat \<Rightarrow> int option \<Rightarrow> DomainError list" where
  "capacity_error what keys amount cap =
     (case cap of
        None \<Rightarrow> []
      | Some c \<Rightarrow>
          if int amount > c
          then [config_failure ''config-compiler.capacity_exceeded'' [js what]
                  (case find (\<lambda>(_, key). key = c + 1) keys of Some (i, _) \<Rightarrow> i | None \<Rightarrow> js what)]
          else [])"

definition capacity_errors :: "CompileConfigInput \<Rightarrow> CompileConfigOptions \<Rightarrow> DomainError list" where
  "capacity_errors input options =
     (let nodes = pg_nodes (in_processing input) in
      capacity_error ''modules'' (moduleKeys input) (length (moduleNodes (in_physicalNodes input))) (oo_maxModules options) @
      capacity_error ''blocks'' (blockKeys input) (length (blockNodes nodes)) (oo_maxBlocks options) @
      capacity_error ''rules'' (ruleKeys input) (length (ruleNodes nodes)) (oo_maxRules options) @
      capacity_error ''schedules'' [] (length (scheduleNodes nodes)) (oo_maxSchedules options) @
      capacity_error ''edges'' [] (length (pg_edges (in_processing input))) (oo_maxEdges options))"

section \<open>Modules, schedules, rules and blocks\<close>

definition compile_module :: "(jsstr \<Rightarrow> int option) \<Rightarrow> (js_value \<Rightarrow> jsstr) \<Rightarrow> (jsstr, int) jsmap \<Rightarrow> jsstr \<times> ModuleNodeData \<Rightarrow>
    DomainError list \<times> CanonicalModule" where
  "compile_module toNumber str moduleKeyOf = (\<lambda>(i, data).
     (let props = toPropertySet toNumber str i (mn_properties data) in
      (errors_of props,
       \<lparr>cm_key = the_key moduleKeyOf i, cm_portId = mn_portId data, cm_typeId = mn_driverTypeId data,
        cm_properties = or_empty props,
        cm_bayId = (if mn_bayId data = 255 then None else Some (mn_bayId data)),
        cm_powerRailId = (if mn_railId data = 255 then None else Some (mn_railId data))\<rparr>)))"

definition compile_schedule :: "(jsstr, int) jsmap \<Rightarrow> jsstr \<times> ScheduleNodeData \<Rightarrow> DomainError + CanonicalSchedule" where
  "compile_schedule moduleKeyOf = (\<lambda>(i, data).
     (case jm_get moduleKeyOf (sn_moduleNodeId data) of
        None \<Rightarrow> Inl (config_failure ''config-compiler.dangling_module_reference'' [js ''nodes'', i] (sn_moduleNodeId data))
      | Some sourceKey \<Rightarrow> Inr \<lparr>csch_sourceKey = sourceKey, csch_periodMs = sn_periodMs data, csch_enabled = sn_enabled data\<rparr>))"

text \<open>A reference of a Rule, written into two of its fields: the key of the Module and the number.\<close>

definition rule_reference :: "(jsstr, int) jsmap \<Rightarrow> jsstr \<Rightarrow> jsstr \<Rightarrow> string \<Rightarrow> (jsstr \<times> int) option \<Rightarrow> (jsstr \<Rightarrow> (int \<times> int) option) \<Rightarrow>
    DomainError list \<times> (int \<times> PropertyValue) list" where
  "rule_reference moduleKeyOf i ruleTypeId what reference fieldIds =
     (case reference of
        None \<Rightarrow> ([], [])
      | Some (target, number) \<Rightarrow>
          (case fieldIds ruleTypeId of
             None \<Rightarrow> ([config_failure ''config-compiler.unresolved_rule_action'' [js ''nodes'', i] ruleTypeId], [])
           | Some (keyField, numberField) \<Rightarrow>
               (case jm_get moduleKeyOf target of
                  None \<Rightarrow> ([config_failure ''config-compiler.dangling_module_reference'' [js ''nodes'', i, js what] target], [])
                | Some key \<Rightarrow> ([], [(keyField, PInt key), (numberField, PInt number)]))))"

definition compile_rule :: "(jsstr \<Rightarrow> int option) \<Rightarrow> (js_value \<Rightarrow> jsstr) \<Rightarrow> CompileConfigOptions \<Rightarrow> (jsstr, int) jsmap \<Rightarrow> (jsstr, int) jsmap \<Rightarrow>
    jsstr \<times> RuleNodeData \<Rightarrow> DomainError list \<times> CanonicalRule" where
  "compile_rule toNumber str options moduleKeyOf ruleKeyOf = (\<lambda>(i, data).
     (let props = toPropertySet toNumber str i (rn_properties data);
          (actionErrors, actionFields) = rule_reference moduleKeyOf i (rn_ruleTypeId data) ''commandTarget''
             (rn_commandTarget data) (oo_resolveRuleActionFieldIds options);
          (sourceErrors, sourceFields) = rule_reference moduleKeyOf i (rn_ruleTypeId data) ''sourceReference''
             (rn_sourceReference data) (oo_resolveRuleSourceFieldIds options) in
      (errors_of props @ actionErrors @ sourceErrors,
       \<lparr>cr_key = the_key ruleKeyOf i, cr_typeId = rn_ruleTypeId data,
        cr_properties = object_entries (fold (\<lambda>(k, v). jm_put k v) (actionFields @ sourceFields) (or_empty props))\<rparr>)))"

definition compile_block :: "(jsstr \<Rightarrow> int option) \<Rightarrow> (js_value \<Rightarrow> jsstr) \<Rightarrow> (jsstr, int) jsmap \<Rightarrow> processing_node \<times> BlockNodeData \<Rightarrow>
    DomainError list \<times> CanonicalBlock" where
  "compile_block toNumber str blockKeyOf = (\<lambda>(node, data).
     (let props = toPropertySet toNumber str (gn_id node) (bn_properties data) in
      (errors_of props,
       \<lparr>cbk_key = the_key blockKeyOf (gn_id node), cbk_typeId = bn_blockTypeId data,
        cbk_minVersion = (case bn_minVersion data of None \<Rightarrow> 0 | Some v \<Rightarrow> v),
        cbk_exactVersion = (case bn_exactVersion data of None \<Rightarrow> 0 | Some v \<Rightarrow> v),
        cbk_properties = or_empty props\<rparr>)))"

section \<open>Edges\<close>

definition numericHandle :: "(jsstr \<Rightarrow> int option) \<Rightarrow> jsstr option \<Rightarrow> int option" where
  "numericHandle toNumber handle =
     (case handle of
        None \<Rightarrow> None
      | Some h \<Rightarrow> (case toNumber h of Some n \<Rightarrow> if n \<ge> 0 then Some n else None | None \<Rightarrow> None))"

definition source_key :: "(jsstr, int) jsmap \<Rightarrow> (jsstr, int) jsmap \<Rightarrow> processing_node \<Rightarrow> (int \<times> EdgeSourceKind) option" where
  "source_key moduleKeyOf blockKeyOf node =
     (case gn_data node of
        ScheduleNode d \<Rightarrow> map_option (\<lambda>k. (k, MODULE)) (Option.bind (moduleReferenceOf (gn_data node)) (jm_get moduleKeyOf))
      | EventSourceNode d \<Rightarrow> map_option (\<lambda>k. (k, MODULE)) (Option.bind (moduleReferenceOf (gn_data node)) (jm_get moduleKeyOf))
      | BlockNode d \<Rightarrow> map_option (\<lambda>k. (k, BLOCK)) (jm_get blockKeyOf (gn_id node))
      | RuleNode d \<Rightarrow> None)"

fun is_trigger :: "DeviceProcessingNodeData \<Rightarrow> bool" where
  "is_trigger (ScheduleNode d) = True"
| "is_trigger (EventSourceNode d) = True"
| "is_trigger d = False"

text \<open>One edge: skipped (\<open>Inr None\<close>), an error, or compiled.\<close>

definition compile_edge :: "(jsstr \<Rightarrow> int option) \<Rightarrow> CompileConfigOptions \<Rightarrow> (jsstr, int) jsmap \<Rightarrow> (jsstr, int) jsmap \<Rightarrow>
    (jsstr \<Rightarrow> processing_node option) \<Rightarrow> GraphEdge \<Rightarrow> DomainError + CanonicalEdge option" where
  "compile_edge toNumber options moduleKeyOf blockKeyOf nodeOf e =
     (case (nodeOf (ge_source e), nodeOf (ge_target e)) of
        (Some sourceNode, Some targetNode) \<Rightarrow>
          (case source_key moduleKeyOf blockKeyOf sourceNode of
             None \<Rightarrow> Inl (config_failure ''config-compiler.dangling_module_reference'' [js ''edges'', ge_id e] (ge_source e))
           | Some (sourceKey, kind) \<Rightarrow>
          (case (if isBlockNodeData (gn_data targetNode) then jm_get blockKeyOf (ge_target e) else None) of
             None \<Rightarrow>
               if is_trigger (gn_data targetNode) then Inr None
               else Inl (config_failure ''config-compiler.dangling_module_reference'' [js ''edges'', ge_id e] (ge_target e))
           | Some targetKey \<Rightarrow>
               (let sourcePort = (case oo_resolveSourcePortOrField options sourceNode (ge_sourceHandle e) of
                       Some p \<Rightarrow> Some p | None \<Rightarrow> numericHandle toNumber (ge_sourceHandle e));
                    targetInput = (case oo_resolveTargetInput options targetNode (ge_targetHandle e) of
                       Some p \<Rightarrow> Some p | None \<Rightarrow> numericHandle toNumber (ge_targetHandle e)) in
                case (sourcePort, targetInput) of
                  (Some p, Some q) \<Rightarrow> Inr (Some \<lparr>ce_sourceKey = sourceKey, ce_sourcePortOrField = p,
                      ce_targetKey = targetKey, ce_targetInput = q, ce_sourceKind = kind\<rparr>)
                | _ \<Rightarrow> Inl (config_failure ''config-compiler.unresolved_port_or_field'' [js ''edges'', ge_id e] (ge_id e)))))
      | _ \<Rightarrow> Inr None)"

text \<open>The comparison of compiled edges, field after field.\<close>

definition edge_order :: "CanonicalEdge \<Rightarrow> int list" where
  "edge_order e = [source_kind_code (ce_sourceKind e), ce_sourceKey e, ce_sourcePortOrField e, ce_targetKey e, ce_targetInput e]"

section \<open>Budgets\<close>

definition compile_fan_out :: "int \<Rightarrow> GraphEdge list \<Rightarrow> DomainError list" where
  "compile_fan_out cap edges =
     map (\<lambda>(i, count). config_failure ''config-compiler.fan_out_exceeded'' [js ''nodes'', i] i)
       (filter (\<lambda>(i, count). count > cap) (count_by ge_source edges))"

definition depth_errors :: "int \<Rightarrow> (jsstr, nat) jsmap \<Rightarrow> DomainError list" where
  "depth_errors cap depths =
     map (\<lambda>(i, d). config_failure ''config-compiler.depth_exceeded'' [js ''nodes'', i] i)
       (filter (\<lambda>(i, d). int d > cap) depths)"

text \<open>The loop over the blocks in the order of their keys stops at the first excess.\<close>

fun cost_loop :: "(processing_node \<Rightarrow> int option) \<Rightarrow> int \<Rightarrow> int \<Rightarrow> processing_node list \<Rightarrow> DomainError list" where
  "cost_loop cost budget cumulative [] = []"
| "cost_loop cost budget cumulative (n # ns) =
     (let total = cumulative + (case cost n of Some c \<Rightarrow> c | None \<Rightarrow> 0) in
      if total > budget
      then [config_failure ''config-compiler.cost_budget_exceeded'' [js ''nodes'', gn_id n] (decimal total)]
      else cost_loop cost budget total ns)"

section \<open>The compiler\<close>

definition lefts :: "('e + 'a) list \<Rightarrow> 'e list" where
  "lefts rs = concat (map (\<lambda>r. case r of Inl e \<Rightarrow> [e] | Inr _ \<Rightarrow> []) rs)"

definition rights :: "('e + 'a) list \<Rightarrow> 'a list" where
  "rights rs = concat (map (\<lambda>r. case r of Inl _ \<Rightarrow> [] | Inr x \<Rightarrow> [x]) rs)"

definition node_table :: "processing_graph \<Rightarrow> (jsstr, processing_node) jsmap" where
  "node_table g = jm_of (map (\<lambda>n. (gn_id n, n)) (pg_nodes g))"

definition compiled_modules where
  "compiled_modules toNumber str input =
     map (compile_module toNumber str (moduleKeys input)) (moduleNodes (in_physicalNodes input))"

definition compiled_schedules where
  "compiled_schedules input =
     map (compile_schedule (moduleKeys input)) (scheduleNodes (pg_nodes (in_processing input)))"

definition compiled_rules where
  "compiled_rules toNumber str input options =
     map (compile_rule toNumber str options (moduleKeys input) (ruleKeys input)) (ruleNodes (pg_nodes (in_processing input)))"

definition compiled_blocks where
  "compiled_blocks toNumber str input =
     map (compile_block toNumber str (blockKeys input)) (blockNodes (pg_nodes (in_processing input)))"

definition compiled_edges where
  "compiled_edges toNumber input options =
     map (compile_edge toNumber options (moduleKeys input) (blockKeys input) (jm_get (node_table (in_processing input))))
       (pg_edges (in_processing input))"

definition budget_errors :: "CompileConfigInput \<Rightarrow> CompileConfigOptions \<Rightarrow> (jsstr, nat) jsmap \<Rightarrow> DomainError list" where
  "budget_errors input options depths =
     (let nodes = pg_nodes (in_processing input); edges = pg_edges (in_processing input) in
      (case oo_maxFanOut options of Some cap \<Rightarrow> compile_fan_out cap edges | None \<Rightarrow> []) @
      (case oo_maxDepth options of Some cap \<Rightarrow> depth_errors cap depths | None \<Rightarrow> []) @
      (case oo_maxTotalCost options of
         Some budget \<Rightarrow> cost_loop (oo_resolveBlockCost options) budget 0
            (sort_key (\<lambda>n. the_key (blockKeys input) (gn_id n)) (map fst (blockNodes nodes)))
       | None \<Rightarrow> []))"

definition compile_errors where
  "compile_errors toNumber str input options depths =
     capacity_errors input options @
     concat (map fst (compiled_modules toNumber str input)) @
     lefts (compiled_schedules input) @
     concat (map fst (compiled_rules toNumber str input options)) @
     concat (map fst (compiled_blocks toNumber str input)) @
     lefts (compiled_edges toNumber input options) @
     budget_errors input options depths"

definition compiled_config where
  "compiled_config toNumber str input options =
     \<lparr>cfg_modules = sort_key cm_key (map snd (compiled_modules toNumber str input)),
      cfg_schedules = sort_key csch_sourceKey (rights (compiled_schedules input)),
      cfg_rules = sort_key cr_key (map snd (compiled_rules toNumber str input options)),
      cfg_mqtt = in_mqtt input, cfg_connectivity = in_connectivity input, cfg_energy = in_energy input,
      cfg_blocks = sort_key cbk_key (map snd (compiled_blocks toNumber str input)),
      cfg_edges = sort_key edge_order (concat (map (case_option [] (\<lambda>e. [e])) (rights (compiled_edges toNumber input options))))\<rparr>"

text \<open>\<open>None\<close> is the endless recursion of \<open>longestDepth\<close>, which runs only when a depth is asked for.\<close>

definition compileConfig :: "(jsstr \<Rightarrow> int option) \<Rightarrow> (js_value \<Rightarrow> jsstr) \<Rightarrow> CompileConfigInput \<Rightarrow> CompileConfigOptions \<Rightarrow>
    (DomainError list + CanonicalConfig) option" where
  "compileConfig toNumber str input options =
     (case (if oo_maxDepth options = None then Some []
            else longestDepth (map gn_id (pg_nodes (in_processing input))) (pg_edges (in_processing input))) of
        None \<Rightarrow> None
      | Some depths \<Rightarrow>
          (let errors = compile_errors toNumber str input options depths in
           Some (if errors \<noteq> [] then Inl errors else Inr (compiled_config toNumber str input options))))"

end
