(* ===== verification/Compiled.thy ===== *)
theory Compiled
  imports Compile
begin

text \<open>
  What the Config compiler guarantees: it returns on acyclic graphs, its keys are 1, 2, ... in every
  section, every reference it emits names a compiled module or block, and its result does not depend on the
  order in which nodes and edges were added.
\<close>

section \<open>Keys\<close>

lemma assignKeys_distinct:
  assumes "distinct ids"
  shows "assignKeys ids = map (\<lambda>(index, i). (i, int index + 1)) (enumerate 0 (sort ids))"
  unfolding assignKeys_def
  by (rule jm_of_distinct) (simp add: split_def comp_def assms)

lemma assignKeys_mset: "mset ids = mset ids' \<Longrightarrow> assignKeys ids = assignKeys ids'"
  unfolding assignKeys_def by (metis sorted_list_of_multiset_mset)

lemma assignKeys_get:
  assumes "distinct ids"
  shows "jm_get (assignKeys ids) i = Some k \<longleftrightarrow> (\<exists>j<length ids. sort ids ! j = i \<and> k = int j + 1)"
proof -
  have wf: "jm_wf (assignKeys ids)" by (simp add: assignKeys_def jm_wf_of)
  show ?thesis
    unfolding jm_get_in [OF wf] by (auto simp: assignKeys_distinct [OF assms] in_set_enumerate_eq)
qed

lemma assignKeys_dom: "distinct ids \<Longrightarrow> i \<in> set ids \<Longrightarrow> \<exists>k. jm_get (assignKeys ids) i = Some k"
  using assignKeys_get [of ids i] by (metis in_set_conv_nth length_sort set_sort)

lemma assignKeys_inj: "distinct ids \<Longrightarrow> jm_get (assignKeys ids) i = Some k \<Longrightarrow> jm_get (assignKeys ids) j = Some k \<Longrightarrow> i = j"
  by (auto simp: assignKeys_get)

lemma the_keys_sorted: "distinct ids \<Longrightarrow> map (the_key (assignKeys ids)) (sort ids) = map (\<lambda>j. int j + 1) [0..<length ids]"
  by (rule nth_equalityI)
     (auto simp: the_key_def assignKeys_get nth_eq_iff_index_eq split: option.split dest: assignKeys_dom [of ids "sort ids ! _"])

lemma map_sort_key: "map f (sort_key f xs) = sort (map f xs)"
  by (rule properties_for_sort [symmetric]) (simp_all add: mset_map [symmetric] del: mset_map, simp)

lemma sorted_keys:
  assumes "distinct (map f xs)"
  shows "sort (map (\<lambda>x. the_key (assignKeys (map f xs)) (f x)) xs) = map (\<lambda>j. int j + 1) [0..<length xs]"
proof (rule properties_for_sort)
  have "mset (map (\<lambda>j. int j + 1) [0..<length xs]) = mset (map (the_key (assignKeys (map f xs))) (sort (map f xs)))"
    using the_keys_sorted [OF assms] by simp
  also have "\<dots> = mset (map (the_key (assignKeys (map f xs))) (map f xs))" by (simp only: mset_map mset_sort)
  finally show "mset (map (\<lambda>j. int j + 1) [0..<length xs]) = mset (map (\<lambda>x. the_key (assignKeys (map f xs)) (f x)) xs)"
    by (simp only: map_map comp_def)
  show "sorted (map (\<lambda>j. int j + 1) [0..<length xs])" by (simp add: sorted_iff_nth_mono)
qed

lemma keys_distinct:
  assumes "distinct (map f xs)"
  shows "inj_on (\<lambda>x. the_key (assignKeys (map f xs)) (f x)) (set xs)"
proof -
  have "distinct (sort (map (\<lambda>x. the_key (assignKeys (map f xs)) (f x)) xs))"
    unfolding sorted_keys [OF assms] by (simp add: distinct_map inj_on_def)
  then show ?thesis by (simp add: distinct_map)
qed

section \<open>Selections of nodes\<close>

lemma mset_select: "mset xs = mset ys \<Longrightarrow> mset (concat (map f xs)) = mset (concat (map f ys))"
  by (simp add: mset_concat sum_mset_sum_list [symmetric] del: sum_mset_sum_list)

lemma distinct_select:
  assumes "distinct (map f xs)" and "\<And>x y. y \<in> set (sel x) \<Longrightarrow> g y = f x" and "\<And>x. length (sel x) \<le> 1"
  shows "distinct (map g (concat (map sel xs)))"
  using assms(1)
proof (induction xs)
  case (Cons x xs)
  from assms(3) [of x] consider "sel x = []" | y where "sel x = [y]" by (cases "sel x") auto
  then show ?case
  proof cases
    case (2 y)
    have "g y = f x" using assms(2) 2 by simp
    moreover have "g ` set (concat (map sel xs)) \<subseteq> f ` set xs" using assms(2) by auto
    ultimately show ?thesis using Cons 2 by auto
  qed (use Cons in simp)
qed simp

lemma module_ids: "distinct (map gn_id nodes) \<Longrightarrow> distinct (map fst (moduleNodes nodes))"
  unfolding moduleNodes_def
  by (rule distinct_select [of gn_id]) (auto split: PhysicalCompositionNodeData.splits)

lemma schedule_ids: "distinct (map gn_id nodes) \<Longrightarrow> distinct (map fst (scheduleNodes nodes))"
  unfolding scheduleNodes_def
  by (rule distinct_select [of gn_id]) (auto split: DeviceProcessingNodeData.splits)

lemma rule_ids: "distinct (map gn_id nodes) \<Longrightarrow> distinct (map fst (ruleNodes nodes))"
  unfolding ruleNodes_def
  by (rule distinct_select [of gn_id]) (auto split: DeviceProcessingNodeData.splits)

lemma block_ids: "distinct (map gn_id nodes) \<Longrightarrow> distinct (map (\<lambda>(n, d). gn_id n) (blockNodes nodes))"
  unfolding blockNodes_def
  by (rule distinct_select [of gn_id]) (auto split: DeviceProcessingNodeData.splits)

lemma block_node: "(n, d) \<in> set (blockNodes nodes) \<longleftrightarrow> n \<in> set nodes \<and> gn_data n = BlockNode d"
  by (auto simp: blockNodes_def split: DeviceProcessingNodeData.splits)

section \<open>The result\<close>

definition nodes_distinct :: "CompileConfigInput \<Rightarrow> bool" where
  "nodes_distinct input \<longleftrightarrow> distinct (map gn_id (in_physicalNodes input)) \<and> distinct (map gn_id (pg_nodes (in_processing input)))"

lemma compile_Inr:
  "compileConfig toNumber str input options = Some (Inr c) \<Longrightarrow>
     c = compiled_config toNumber str input options \<and> (\<exists>depths. compile_errors toNumber str input options depths = [])"
  by (auto simp: compileConfig_def Let_def split: option.splits if_splits)

text \<open>The sections of the result and their keys.\<close>

lemma module_keys:
  assumes "nodes_distinct input"
  shows "map cm_key (cfg_modules (compiled_config toNumber str input options)) =
     map (\<lambda>j. int j + 1) [0..<length (moduleNodes (in_physicalNodes input))]"
proof -
  have k: "cm_key (snd (compile_module toNumber str K x)) = the_key K (fst x)" for x K
    by (simp add: compile_module_def split_def Let_def)
  from sorted_keys [of fst "moduleNodes (in_physicalNodes input)"] assms  show ?thesis
    by (simp add: compiled_config_def map_sort_key compiled_modules_def comp_def k moduleKeys_def nodes_distinct_def module_ids)
qed

lemma rule_keys:
  assumes "nodes_distinct input"
  shows "map cr_key (cfg_rules (compiled_config toNumber str input options)) =
     map (\<lambda>j. int j + 1) [0..<length (ruleNodes (pg_nodes (in_processing input)))]"
proof -
  have k: "cr_key (snd (compile_rule toNumber str options K' K x)) = the_key K (fst x)" for x K K'
    by (simp add: compile_rule_def split_def Let_def)
  from sorted_keys [of fst "ruleNodes (pg_nodes (in_processing input))"] assms  show ?thesis
    by (simp add: compiled_config_def map_sort_key compiled_rules_def comp_def k ruleKeys_def nodes_distinct_def rule_ids)
qed

lemma block_keys:
  assumes "nodes_distinct input"
  shows "map cbk_key (cfg_blocks (compiled_config toNumber str input options)) =
     map (\<lambda>j. int j + 1) [0..<length (blockNodes (pg_nodes (in_processing input)))]"
proof -
  have k: "cbk_key (snd (compile_block toNumber str K x)) = the_key K (gn_id (fst x))" for x K
    by (simp add: compile_block_def split_def Let_def)
  from sorted_keys [of "\<lambda>x. gn_id (fst x)" "blockNodes (pg_nodes (in_processing input))"] assms block_ids [of "pg_nodes (in_processing input)"] show ?thesis
    by (simp add: compiled_config_def map_sort_key compiled_blocks_def comp_def k blockKeys_def nodes_distinct_def split_def)
qed

text \<open>A key that was looked up is the key of a compiled item.\<close>

lemma key_in_range: "distinct ids \<Longrightarrow> jm_get (assignKeys ids) i = Some k \<Longrightarrow> k \<in> set (map (\<lambda>j. int j + 1) [0..<length ids])"
  by (auto simp: assignKeys_get)

lemma module_key_emitted:
  assumes "nodes_distinct input" and "jm_get (moduleKeys input) i = Some k"
  shows "k \<in> cm_key ` set (cfg_modules (compiled_config toNumber str input options))"
proof -
  have "k \<in> set (map cm_key (cfg_modules (compiled_config toNumber str input options)))"
    unfolding module_keys [OF assms(1)]
    using key_in_range [of "map fst (moduleNodes (in_physicalNodes input))" i k] assms
    by (simp add: moduleKeys_def nodes_distinct_def module_ids)
  then show ?thesis by simp
qed

lemma block_key_emitted:
  assumes "nodes_distinct input" and "jm_get (blockKeys input) i = Some k"
  shows "k \<in> cbk_key ` set (cfg_blocks (compiled_config toNumber str input options))"
proof -
  have "k \<in> set (map cbk_key (cfg_blocks (compiled_config toNumber str input options)))"
    unfolding block_keys [OF assms(1)]
    using key_in_range [of "map (\<lambda>(n, d). gn_id n) (blockNodes (pg_nodes (in_processing input)))" i k] assms
      block_ids [of "pg_nodes (in_processing input)"]
    by (simp add: blockKeys_def nodes_distinct_def)
  then show ?thesis by simp
qed

definition references_resolved :: "CanonicalConfig \<Rightarrow> bool" where
  "references_resolved c \<longleftrightarrow>
     (\<forall>s\<in>set (cfg_schedules c). csch_sourceKey s \<in> cm_key ` set (cfg_modules c)) \<and>
     (\<forall>e\<in>set (cfg_edges c). ce_targetKey e \<in> cbk_key ` set (cfg_blocks c) \<and>
        ce_sourceKey e \<in> (case ce_sourceKind e of MODULE \<Rightarrow> cm_key ` set (cfg_modules c) | BLOCK \<Rightarrow> cbk_key ` set (cfg_blocks c)))"

lemma in_rights: "x \<in> set (rights rs) \<longleftrightarrow> Inr x \<in> set rs"
  by (force simp: rights_def split: sum.splits)

lemma source_key_Some:
  "source_key moduleKeyOf blockKeyOf n = Some (k, kind) \<Longrightarrow>
     (\<exists>i. case kind of MODULE \<Rightarrow> jm_get moduleKeyOf i = Some k | BLOCK \<Rightarrow> jm_get blockKeyOf i = Some k)"
  by (auto simp: source_key_def bind_eq_Some_conv split: DeviceProcessingNodeData.splits)

lemma compile_edge_Some:
  assumes "compile_edge toNumber options moduleKeyOf blockKeyOf nodeOf e = Inr (Some ce)"
  shows "(\<exists>i. jm_get blockKeyOf i = Some (ce_targetKey ce)) \<and>
     (\<exists>i. case ce_sourceKind ce of MODULE \<Rightarrow> jm_get moduleKeyOf i = Some (ce_sourceKey ce)
                                  | BLOCK \<Rightarrow> jm_get blockKeyOf i = Some (ce_sourceKey ce))"
  using assms source_key_Some [of moduleKeyOf blockKeyOf]
  by (fastforce simp: compile_edge_def Let_def split: option.splits prod.splits if_splits)

lemma in_concat_options: "x \<in> set (concat (map (case_option [] (\<lambda>e. [e])) xs)) \<longleftrightarrow> Some x \<in> set xs"
  by (induction xs) (auto split: option.splits)

lemma compiled_edges_in:
  assumes "ce \<in> set (cfg_edges (compiled_config toNumber str input options))"
  shows "\<exists>e\<in>set (pg_edges (in_processing input)). compile_edge toNumber options (moduleKeys input) (blockKeys input)
        (jm_get (node_table (in_processing input))) e = Inr (Some ce)"
proof -
  have "Inr (Some ce) \<in> set (compiled_edges toNumber input options)"
    using assms by (simp add: compiled_config_def in_concat_options in_rights del: set_concat)
  then show ?thesis unfolding compiled_edges_def by (simp add: image_iff) metis
qed

lemma compiled_references:
  assumes "nodes_distinct input"
  shows "references_resolved (compiled_config toNumber str input options)"
proof -
  let ?c = "compiled_config toNumber str input options"
  have "csch_sourceKey s \<in> cm_key ` set (cfg_modules ?c)" if "s \<in> set (cfg_schedules ?c)" for s
  proof -
    from that obtain x where "compile_schedule (moduleKeys input) x = Inr s"
      by (auto simp: compiled_config_def compiled_schedules_def in_rights)
    then have "\<exists>i. jm_get (moduleKeys input) i = Some (csch_sourceKey s)"
      by (auto simp: compile_schedule_def split: option.splits prod.splits)
    with module_key_emitted [OF assms] show ?thesis by blast
  qed
  moreover have "ce_targetKey e \<in> cbk_key ` set (cfg_blocks ?c) \<and>
      ce_sourceKey e \<in> (case ce_sourceKind e of MODULE \<Rightarrow> cm_key ` set (cfg_modules ?c) | BLOCK \<Rightarrow> cbk_key ` set (cfg_blocks ?c))"
    if "e \<in> set (cfg_edges ?c)" for e
  proof -
    from compiled_edges_in [OF that] obtain x where "compile_edge toNumber options (moduleKeys input) (blockKeys input)
        (jm_get (node_table (in_processing input))) x = Inr (Some e)" by blast
    from compile_edge_Some [OF this] show ?thesis
      using module_key_emitted [OF assms] block_key_emitted [OF assms] by (cases "ce_sourceKind e") auto
  qed
  ultimately show ?thesis by (simp add: references_resolved_def)
qed

lemma compile_returns:
  assumes "acyclic (edge_pairs (pg_edges (in_processing input)))"
  shows "\<exists>r. compileConfig toNumber str input options = Some r"
proof -
  obtain d where "longestDepth (map gn_id (pg_nodes (in_processing input))) (pg_edges (in_processing input)) = Some d"
    using depth_total [OF assms] by blast
  then show ?thesis by (simp add: compileConfig_def Let_def)
qed

section \<open>Order of insertion\<close>

text \<open>
  The same nodes and edges in another order: identifiers are distinct, no Module has two schedules, and the
  edges join nodes of the graph.
\<close>

definition same_input :: "CompileConfigInput \<Rightarrow> CompileConfigInput \<Rightarrow> bool" where
  "same_input a b \<longleftrightarrow> nodes_distinct a \<and>
     distinct (map (\<lambda>(i, d). sn_moduleNodeId d) (scheduleNodes (pg_nodes (in_processing a)))) \<and>
     (\<forall>e\<in>set (pg_edges (in_processing a)). ge_target e \<in> gn_id ` set (pg_nodes (in_processing a))) \<and>
     mset (in_physicalNodes a) = mset (in_physicalNodes b) \<and>
     mset (pg_nodes (in_processing a)) = mset (pg_nodes (in_processing b)) \<and>
     mset (pg_edges (in_processing a)) = mset (pg_edges (in_processing b)) \<and>
     in_mqtt a = in_mqtt b \<and> in_connectivity a = in_connectivity b \<and> in_energy a = in_energy b"

lemma distinct_mset_map: "mset xs = mset ys \<Longrightarrow> distinct (map f xs) \<Longrightarrow> distinct (map f ys)"
  by (metis distinct_count_atmost_1 mset_map set_mset_mset)

lemma same_selections:
  assumes "same_input a b"
  shows "mset (moduleNodes (in_physicalNodes a)) = mset (moduleNodes (in_physicalNodes b))"
    and "mset (scheduleNodes (pg_nodes (in_processing a))) = mset (scheduleNodes (pg_nodes (in_processing b)))"
    and "mset (ruleNodes (pg_nodes (in_processing a))) = mset (ruleNodes (pg_nodes (in_processing b)))"
    and "mset (blockNodes (pg_nodes (in_processing a))) = mset (blockNodes (pg_nodes (in_processing b)))"
  using assms unfolding same_input_def moduleNodes_def scheduleNodes_def ruleNodes_def blockNodes_def
  by (intro mset_select; simp)+

lemma same_keys:
  assumes "same_input a b"
  shows "moduleKeys a = moduleKeys b" and "ruleKeys a = ruleKeys b" and "blockKeys a = blockKeys b"
  unfolding moduleKeys_def ruleKeys_def blockKeys_def
  by (rule assignKeys_mset; simp add: same_selections [OF assms])+

lemma same_nodes:
  assumes "same_input a b"
  shows "jm_get (node_table (in_processing a)) = jm_get (node_table (in_processing b))"
proof
  fix i
  let ?t = "\<lambda>ns. map (\<lambda>n. (gn_id n, n)) (ns :: processing_node list)"
  let ?a = "pg_nodes (in_processing a)" and ?b = "pg_nodes (in_processing b)"
  from assms have m: "mset ?a = mset ?b" and d: "distinct (map gn_id ?a)"
    by (auto simp: same_input_def nodes_distinct_def)
  from distinct_mset_map [OF m d] have d': "distinct (map gn_id ?b)" .
  have t: "jm_of (?t ?a) = ?t ?a" "jm_of (?t ?b) = ?t ?b" using d d' by (simp_all add: jm_of_distinct comp_def)
  have "set (?t ?a) = set (?t ?b)" using mset_eq_setD [OF m] by simp
  then have "jm_get (?t ?a) = jm_get (?t ?b)"
    using map_of_inject_set [of "?t ?a" "?t ?b"] d d' by (simp add: comp_def)
  then show "jm_get (node_table (in_processing a)) i = jm_get (node_table (in_processing b)) i"
    by (simp add: node_table_def t)
qed

text \<open>No errors in the one order, none in the other.\<close>

lemma concat_fst_Nil: "mset xs = mset ys \<Longrightarrow> concat (map fst (map f xs)) = [] \<longleftrightarrow> concat (map fst (map f ys)) = []"
  using mset_eq_setD [of xs ys] by simp

lemma lefts_Nil: "mset xs = mset ys \<Longrightarrow> lefts (map f xs) = [] \<longleftrightarrow> lefts (map f ys) = []"
  using mset_eq_setD [of xs ys] by (simp add: lefts_def)

lemma mset_rights: "mset xs = mset ys \<Longrightarrow> mset (rights (map f xs)) = mset (rights (map f ys))"
  unfolding rights_def map_map comp_def by (rule mset_select)

lemma same_capacity: "same_input a b \<Longrightarrow> capacity_errors a options = capacity_errors b options"
proof -
  assume s: "same_input a b"
  have l: "mset xs = mset ys \<Longrightarrow> length xs = length ys" for xs ys :: "'x list" by (rule mset_eq_length)
  from s have "length (pg_edges (in_processing a)) = length (pg_edges (in_processing b))"
    by (auto simp: same_input_def intro: mset_eq_length)
  then show ?thesis
    unfolding capacity_errors_def Let_def same_keys [OF s]
    using same_selections [OF s, THEN mset_eq_length] by simp
qed

lemma length_filter_mset: "mset xs = mset ys \<Longrightarrow> length (filter P xs) = length (filter P ys)"
  by (metis mset_filter size_mset)

lemma fan_out_same:
  assumes "mset xs = mset ys"
  shows "compile_fan_out cap xs = [] \<longleftrightarrow> compile_fan_out cap ys = []"
proof -
  have "compile_fan_out cap zs = [] \<longleftrightarrow> (\<forall>(i, n) \<in> set (count_by ge_source zs). n \<le> cap)" for zs
    by (auto simp: compile_fan_out_def filter_empty_conv)
  then show ?thesis by (simp add: count_by_in length_filter_mset [OF assms] split_beta) (auto simp: count_by_in length_filter_mset [OF assms])
qed

text \<open>A depth is too large in the one map exactly when one is in the other.\<close>

lemma depth_errors_Nil:
  assumes "acyclic (edge_pairs edges)" and "longestDepth ids edges = Some d" and "ge_target ` set edges \<subseteq> set ids"
  shows "depth_errors cap d = [] \<longleftrightarrow> (\<forall>v\<in>set ids. \<forall>n. longest (edge_pairs edges) v n \<longrightarrow> int n \<le> cap)"
proof -
  from depth_total [OF assms(1), of ids] assms(2) have ok: "depths_ok (edge_pairs edges) d"
    and dom: "\<forall>v\<in>set ids. jm_get d v \<noteq> None" and sub: "set (jm_keys d) \<subseteq> set ids \<union> ge_target ` set edges" by auto
  from ok have wf: "jm_wf d" and l: "\<And>v n. (v, n) \<in> set d \<Longrightarrow> longest (edge_pairs edges) v n"
    by (auto simp: depths_ok_def jm_get_in)
  have "depth_errors cap d = [] \<longleftrightarrow> (\<forall>(v, n) \<in> set d. int n \<le> cap)"
    by (auto simp: depth_errors_def filter_empty_conv)
  also have "\<dots> \<longleftrightarrow> (\<forall>v\<in>set ids. \<forall>n. longest (edge_pairs edges) v n \<longrightarrow> int n \<le> cap)"
  proof
    assume all: "\<forall>(v, n) \<in> set d. int n \<le> cap"
    show "\<forall>v\<in>set ids. \<forall>n. longest (edge_pairs edges) v n \<longrightarrow> int n \<le> cap"
    proof (intro ballI allI impI)
      fix v n assume v: "v \<in> set ids" and n: "longest (edge_pairs edges) v n"
      from dom v obtain m where m: "(v, m) \<in> set d" by (auto dest: map_of_SomeD)
      from longest_unique [OF n l [OF m]] m all show "int n \<le> cap" by auto
    qed
  next
    assume all: "\<forall>v\<in>set ids. \<forall>n. longest (edge_pairs edges) v n \<longrightarrow> int n \<le> cap"
    show "\<forall>(v, n) \<in> set d. int n \<le> cap"
    proof (clarify)
      fix v n assume vn: "(v, n) \<in> set d"
      then have "v \<in> set (jm_keys d)" by force
      with sub assms(3) have "v \<in> set ids" by blast
      with l [OF vn] all show "int n \<le> cap" by blast
    qed
  qed
  finally show ?thesis .
qed

lemma same_costs:
  assumes "same_input a b"
  shows "sort_key (\<lambda>n. the_key (blockKeys a) (gn_id n)) (map fst (blockNodes (pg_nodes (in_processing a)))) =
     sort_key (\<lambda>n. the_key (blockKeys b) (gn_id n)) (map fst (blockNodes (pg_nodes (in_processing b))))"
  unfolding same_keys(3) [OF assms, symmetric]
proof (rule sort_key_unique)
  let ?ns = "map fst (blockNodes (pg_nodes (in_processing a)))"
  show "mset ?ns = mset (map fst (blockNodes (pg_nodes (in_processing b))))"
    using same_selections(4) [OF assms] by simp
  have m: "map (\<lambda>(n, d). gn_id n) (blockNodes (pg_nodes (in_processing a))) = map gn_id ?ns" by (simp add: split_def comp_def)
  have "distinct (map gn_id ?ns)"
    using block_ids [of "pg_nodes (in_processing a)", unfolded m] assms by (simp only: same_input_def nodes_distinct_def)
  from keys_distinct [OF this] show "inj_on (\<lambda>n. the_key (blockKeys a) (gn_id n)) (set ?ns)"
    unfolding blockKeys_def m .
qed

lemma same_budgets:
  assumes s: "same_input a b" and ac: "acyclic (edge_pairs (pg_edges (in_processing a)))"
    and da: "oo_maxDepth options = None \<or> longestDepth (map gn_id (pg_nodes (in_processing a))) (pg_edges (in_processing a)) = Some d"
    and db: "oo_maxDepth options = None \<or> longestDepth (map gn_id (pg_nodes (in_processing b))) (pg_edges (in_processing b)) = Some e"
  shows "budget_errors a options d = [] \<longleftrightarrow> budget_errors b options e = []"
proof -
  let ?ea = "pg_edges (in_processing a)" and ?eb = "pg_edges (in_processing b)"
  let ?ia = "map gn_id (pg_nodes (in_processing a))" and ?ib = "map gn_id (pg_nodes (in_processing b))"
  from s have e: "mset ?ea = mset ?eb" and n: "mset (pg_nodes (in_processing a)) = mset (pg_nodes (in_processing b))"
    by (simp_all add: same_input_def)
  have p: "edge_pairs ?ea = edge_pairs ?eb" using mset_eq_setD [OF e] by (simp add: edge_pairs_def)
  have nn: "set (pg_nodes (in_processing a)) = set (pg_nodes (in_processing b))" by (rule mset_eq_setD [OF n])
  then have i: "set ?ia = set ?ib" by simp
  have t: "ge_target ` set ?ea \<subseteq> set ?ia" using s by (auto simp: same_input_def)
  have t': "ge_target ` set ?eb \<subseteq> set ?ib" using t i mset_eq_setD [OF e] by simp
  have "depth_errors cap d = [] \<longleftrightarrow> depth_errors cap e = []" if "oo_maxDepth options = Some cap" for cap
    using depth_errors_Nil [OF ac _ t, of d cap] depth_errors_Nil [OF ac [unfolded p] _ t', of e cap] da db that p nn by simp
  then show ?thesis
    unfolding budget_errors_def Let_def append_is_Nil_conv same_costs [OF s]
    using fan_out_same [OF e] by (simp split: option.split)
qed

lemma same_errors:
  assumes s: "same_input a b" and ac: "acyclic (edge_pairs (pg_edges (in_processing a)))"
    and da: "oo_maxDepth options = None \<or> longestDepth (map gn_id (pg_nodes (in_processing a))) (pg_edges (in_processing a)) = Some d"
    and db: "oo_maxDepth options = None \<or> longestDepth (map gn_id (pg_nodes (in_processing b))) (pg_edges (in_processing b)) = Some e"
  shows "compile_errors toNumber str a options d = [] \<longleftrightarrow> compile_errors toNumber str b options e = []"
proof -
  from s have e: "mset (pg_edges (in_processing a)) = mset (pg_edges (in_processing b))" by (simp add: same_input_def)
  note sel = same_selections [OF s]
  show ?thesis
    unfolding compile_errors_def append_is_Nil_conv same_capacity [OF s] same_budgets [OF assms]
      compiled_modules_def compiled_schedules_def compiled_rules_def compiled_blocks_def compiled_edges_def
      same_keys [OF s] same_nodes [OF s]
      concat_fst_Nil [OF sel(1)] lefts_Nil [OF sel(2)] concat_fst_Nil [OF sel(3)] concat_fst_Nil [OF sel(4)] lefts_Nil [OF e]
    by (rule HOL.refl)
qed

text \<open>The sections are sorted by something that tells their entries apart.\<close>

lemma edge_order_inj: "inj edge_order"
proof (rule injI)
  fix x y assume "edge_order x = edge_order y"
  moreover have "source_kind_code k = source_kind_code l \<Longrightarrow> k = l" for k l by (cases k; cases l) auto
  ultimately show "x = y" by (simp add: edge_order_def CanonicalEdge.equality)
qed

lemma schedules_inj:
  assumes d: "distinct (map (\<lambda>(i, d). sn_moduleNodeId d) ss)" and keys: "distinct ids"
  shows "inj_on csch_sourceKey (set (rights (map (compile_schedule (assignKeys ids)) ss)))"
proof (rule inj_onI)
  fix x y
  assume x: "x \<in> set (rights (map (compile_schedule (assignKeys ids)) ss))"
    and y: "y \<in> set (rights (map (compile_schedule (assignKeys ids)) ss))" and k: "csch_sourceKey x = csch_sourceKey y"
  from x obtain i p where p: "(i, p) \<in> set ss" "compile_schedule (assignKeys ids) (i, p) = Inr x" by (auto simp: in_rights)
  from y obtain j q where q: "(j, q) \<in> set ss" "compile_schedule (assignKeys ids) (j, q) = Inr y" by (auto simp: in_rights)
  from p q k assignKeys_inj [OF keys, of "sn_moduleNodeId p" "csch_sourceKey x" "sn_moduleNodeId q"]
  have "sn_moduleNodeId p = sn_moduleNodeId q" by (auto simp: compile_schedule_def split: option.splits)
  with d p(1) q(1) have "(i, p) = (j, q)" by (auto simp: distinct_map inj_on_def)
  with p q show "x = y" by simp
qed

lemma section_same: "mset xs = mset ys \<Longrightarrow> distinct (map g xs) \<Longrightarrow> sort_key g xs = sort_key g ys"
  by (rule sort_key_unique) (simp_all add: distinct_map)

lemma distinct_range: "map g (sort_key g xs) = map (\<lambda>j. int j + 1) [0..<n] \<Longrightarrow> distinct (map g xs)"
proof -
  assume "map g (sort_key g xs) = map (\<lambda>j. int j + 1) [0..<n]"
  moreover have "distinct (map (\<lambda>j. int j + 1) [0..<n])" by (simp add: distinct_map inj_on_def)
  ultimately have "distinct (map g (sort_key g xs))" by simp
  then show ?thesis by (simp add: distinct_map)
qed

lemma same_config:
  assumes s: "same_input a b"
  shows "compiled_config toNumber str a options = compiled_config toNumber str b options"
proof -
  note sel = same_selections [OF s] and keys = same_keys [OF s]
  from s have nd: "nodes_distinct a" and e: "mset (pg_edges (in_processing a)) = mset (pg_edges (in_processing b))"
    and sd: "distinct (map (\<lambda>(i, d). sn_moduleNodeId d) (scheduleNodes (pg_nodes (in_processing a))))"
    by (simp_all add: same_input_def)
  have "sort_key cm_key (map snd (compiled_modules toNumber str a)) = sort_key cm_key (map snd (compiled_modules toNumber str b))"
    by (rule section_same)
       (use sel(1) keys(1) distinct_range [OF module_keys [OF nd, unfolded compiled_config_def CanonicalConfig.simps]] in
        \<open>simp_all add: compiled_modules_def\<close>)
  moreover have "sort_key cr_key (map snd (compiled_rules toNumber str a options)) =
      sort_key cr_key (map snd (compiled_rules toNumber str b options))"
    by (rule section_same)
       (use sel(3) keys distinct_range [OF rule_keys [OF nd, unfolded compiled_config_def CanonicalConfig.simps]] in
        \<open>simp_all add: compiled_rules_def\<close>)
  moreover have "sort_key cbk_key (map snd (compiled_blocks toNumber str a)) =
      sort_key cbk_key (map snd (compiled_blocks toNumber str b))"
    by (rule section_same)
       (use sel(4) keys distinct_range [OF block_keys [OF nd, unfolded compiled_config_def CanonicalConfig.simps]] in
        \<open>simp_all add: compiled_blocks_def\<close>)
  moreover have "sort_key csch_sourceKey (rights (compiled_schedules a)) = sort_key csch_sourceKey (rights (compiled_schedules b))"
    unfolding compiled_schedules_def keys(1) [symmetric]
    by (rule sort_key_unique [OF mset_rights [OF sel(2)]])
       (use schedules_inj [OF sd] nd module_ids in \<open>simp add: moduleKeys_def nodes_distinct_def\<close>)
  moreover have "sort_key edge_order (concat (map (case_option [] (\<lambda>e. [e])) (rights (compiled_edges toNumber a options)))) =
      sort_key edge_order (concat (map (case_option [] (\<lambda>e. [e])) (rights (compiled_edges toNumber b options))))"
    unfolding compiled_edges_def keys same_nodes [OF s]
    by (rule sort_key_unique [OF mset_select [OF mset_rights [OF e]]]) (rule inj_on_subset [OF edge_order_inj], simp)
  ultimately show ?thesis using s by (simp add: compiled_config_def same_input_def)
qed

lemma compile_same:
  assumes s: "same_input a b" and ac: "acyclic (edge_pairs (pg_edges (in_processing a)))"
  shows "compileConfig toNumber str a options = Some (Inr c) \<longleftrightarrow> compileConfig toNumber str b options = Some (Inr c)"
proof -
  from s have "mset (pg_edges (in_processing a)) = mset (pg_edges (in_processing b))" by (simp add: same_input_def)
  then have ac': "acyclic (edge_pairs (pg_edges (in_processing b)))"
    using ac mset_eq_setD by (metis edge_pairs_def)
  let ?d = "\<lambda>i. if oo_maxDepth options = None then Some [] else longestDepth (map gn_id (pg_nodes (in_processing i))) (pg_edges (in_processing i))"
  obtain d' where d': "longestDepth (map gn_id (pg_nodes (in_processing a))) (pg_edges (in_processing a)) = Some d'"
    using depth_total [OF ac] by blast
  obtain e' where e': "longestDepth (map gn_id (pg_nodes (in_processing b))) (pg_edges (in_processing b)) = Some e'"
    using depth_total [OF ac'] by blast
  obtain d where d: "?d a = Some d" using d' by (cases "oo_maxDepth options") auto
  obtain e where e: "?d b = Some e" using e' by (cases "oo_maxDepth options") auto
  have "compile_errors toNumber str a options d = [] \<longleftrightarrow> compile_errors toNumber str b options e = []"
    by (rule same_errors [OF s ac]) (use d e in \<open>auto split: if_splits\<close>)
  then show ?thesis unfolding compileConfig_def d e Let_def same_config [OF s, of toNumber str options] by simp
qed

section \<open>Graphs that were built and validated\<close>

lemma edge_relation_pairs: "edge_relation ids edges \<subseteq> edge_pairs edges"
  by (force simp: edge_relation_def edge_pairs_def linked_def)

lemma inside_acyclic:
  assumes "acyclic (edge_relation ids edges)" and "\<And>e. e \<in> set edges \<Longrightarrow> ge_source e \<in> set ids \<and> ge_target e \<in> set ids"
  shows "acyclic (edge_pairs edges)"
proof -
  have "edge_pairs edges = edge_relation ids edges"
    using edge_relation_pairs [of ids edges] assms(2) by (fastforce simp: edge_pairs_def edge_relation_def linked_def)
  with assms(1) show ?thesis by simp
qed

lemma graph_inv_inside:
  assumes "graph_inv g" and "e \<in> set (g_edges g)"
  shows "ge_source e \<in> set (map gn_id (getNodes g)) \<and> ge_target e \<in> set (map gn_id (getNodes g))"
proof -
  have "i \<in> set (map gn_id (getNodes g))" if "jm_get (g_nodes g) i \<noteq> None" for i
  proof -
    from that obtain n where n: "jm_get (g_nodes g) i = Some n" by blast
    with assms(1) have "gn_id n = i" by (auto simp: graph_inv_def)
    moreover from n have "n \<in> set (getNodes g)" using map_of_SomeD [of "g_nodes g" i n] by (force simp: getNodes_def)
    ultimately show ?thesis by force
  qed
  then show ?thesis using assms by (auto simp: graph_inv_def)
qed

section \<open>A small input\<close>

text \<open>One Module that is read every second, and a block that receives its field 0.\<close>

definition sample_number :: "jsstr \<Rightarrow> int option" where
  "sample_number s = (if s = js ''0'' then Some 0 else None)"

definition sample_physical :: "physical_node list" where
  "sample_physical =
     [\<lparr>gn_layer = PhysicalComposition, gn_id = js ''m'', gn_data = ModuleNode \<lparr>mn_moduleKey = None,
        mn_driverTypeId = js ''sensor'', mn_profileId = None, mn_portId = 1, mn_bayId = 255, mn_railId = 2, mn_endpoint = None,
        mn_electricalMode = InputOnly, mn_properties = []\<rparr>\<rparr>]"

definition sample_nodes :: "processing_node list" where
  "sample_nodes =
     [\<lparr>gn_layer = DeviceProcessing, gn_id = js ''s'', gn_data = ScheduleNode \<lparr>sn_moduleNodeId = js ''m'', sn_periodMs = 1000, sn_enabled = True\<rparr>\<rparr>,
      \<lparr>gn_layer = DeviceProcessing, gn_id = js ''b'', gn_data = BlockNode \<lparr>bn_blockTypeId = js ''publish'', bn_minVersion = None,
        bn_exactVersion = None, bn_properties = [], bn_catalogEntryId = None\<rparr>\<rparr>]"

definition sample_edges :: "GraphEdge list" where
  "sample_edges =
     [\<lparr>ge_layer = DeviceProcessing, ge_id = js ''e'', ge_source = js ''s'', ge_target = js ''b'',
       ge_sourceHandle = Some (js ''0''), ge_targetHandle = Some (js ''0'')\<rparr>]"

definition sample_input :: "processing_node list \<Rightarrow> CompileConfigInput" where
  "sample_input nodes =
     \<lparr>in_physicalNodes = sample_physical, in_processing = \<lparr>pg_nodes = nodes, pg_edges = sample_edges\<rparr>,
      in_mqtt = \<lparr>cmq_enabled = False, cmq_host = [], cmq_port = 1883, cmq_baseTopic = [], cmq_security = 0, cmq_credentialId = 0\<rparr>,
      in_connectivity = 0, in_energy = \<lparr>cen_bleAvailability = 0, cen_advertisingWindowMs = 0, cen_advertisingPeriodMs = 0\<rparr>\<rparr>"

definition sample_options :: CompileConfigOptions where
  "sample_options =
     \<lparr>oo_resolveSourcePortOrField = (\<lambda>_ _. None), oo_resolveTargetInput = (\<lambda>_ _. None), oo_resolveBlockCost = (\<lambda>_. None),
      oo_resolveRuleActionFieldIds = (\<lambda>_. None), oo_resolveRuleSourceFieldIds = (\<lambda>_. None), oo_maxTotalCost = None,
      oo_maxFanOut = Some 4, oo_maxDepth = None, oo_maxModules = None, oo_maxSchedules = None, oo_maxRules = None,
      oo_maxBlocks = None, oo_maxEdges = None\<rparr>"

lemma sample_acyclic: "acyclic (edge_pairs sample_edges)"
proof -
  have sb: "js ''s'' \<noteq> js ''b''" by code_simp
  have p: "edge_pairs sample_edges = {(js ''s'', js ''b'')}" by (simp add: edge_pairs_def sample_edges_def)
  have "acyclic ({} :: (jsstr \<times> jsstr) set)" by (simp add: acyclic_def)
  from acyclic_source [OF this, of "js ''s''" "{(js ''s'', js ''b'')}"] sb show ?thesis by (simp add: p)
qed

lemma sample_distinct: "nodes_distinct (sample_input sample_nodes)"
proof -
  have "js ''s'' \<noteq> js ''b''" by code_simp
  then show ?thesis by (simp add: nodes_distinct_def sample_input_def sample_nodes_def sample_physical_def)
qed

lemma sample_same: "same_input (sample_input sample_nodes) (sample_input (rev sample_nodes))"
  using sample_distinct
  by (simp add: same_input_def sample_input_def)
     (simp add: sample_nodes_def sample_edges_def scheduleNodes_def)

lemma sample_compiles: "\<exists>c. compileConfig sample_number str (sample_input sample_nodes) sample_options = Some (Inr c)"
proof -
  have sb: "js ''s'' \<noteq> js ''b''" "js ''b'' \<noteq> js ''s''" by code_simp+
  have mb: "\<not> blank (js ''m'')" by code_simp
  have "compile_errors sample_number str (sample_input sample_nodes) sample_options [] = []"
    using sb mb
    by (simp add: compile_errors_def capacity_errors_def sample_input_def sample_options_def capacity_error_def
        compiled_modules_def compiled_schedules_def compiled_rules_def compiled_blocks_def compiled_edges_def budget_errors_def
        sample_physical_def sample_nodes_def sample_edges_def moduleNodes_def scheduleNodes_def ruleNodes_def blockNodes_def
        compile_module_def compile_schedule_def compile_block_def compile_edge_def Let_def toPropertySet_def property_errors_def
        errors_of_def lefts_def moduleKeys_def blockKeys_def assignKeys_def jm_of_def source_key_def trimmed_reference_def
        node_table_def numericHandle_def sample_number_def compile_fan_out_def count_by_def)
  then show ?thesis by (auto simp: compileConfig_def sample_options_def Let_def)
qed

definition sample_validate :: ValidateOptions where
  "sample_validate =
     \<lparr>vo_knownModuleNodeIds = {js ''m''}, vo_resolveDescriptor = None, vo_installedCapabilities = None,
      vo_maxFanOut = Some 4\<rparr>"

lemma sample_built: "in_processing (sample_input sample_nodes) =
   \<lparr>pg_nodes = getNodes (fold graph_step (map AddNode sample_nodes @ map AddEdge sample_edges) (new_graph DeviceProcessing)),
    pg_edges = getEdges (fold graph_step (map AddNode sample_nodes @ map AddEdge sample_edges) (new_graph DeviceProcessing))\<rparr>"
proof -
  have sb: "js ''s'' \<noteq> js ''b''" "js ''b'' \<noteq> js ''s''" by code_simp+
  then show ?thesis
    by (simp add: sample_input_def sample_nodes_def sample_edges_def new_graph_def addNode_def addEdge_def keep_on_error_def
        getNodes_def getEdges_def jm_has_def Let_def)
qed

lemma sample_valid: "validateDeviceProcessingGraph (in_processing (sample_input sample_nodes)) sample_validate = Inr ()"
proof -
  have "acyclic (edge_pairs sample_edges)" by (rule sample_acyclic)
  then have a: "acyclic (edge_relation (map gn_id sample_nodes) sample_edges)" 
    by (rule acyclic_subset) (rule edge_relation_pairs)
  have mb: "\<not> blank (js ''m'')" by code_simp
  show ?thesis unfolding validate_processing_iff valid_processing_def
    using a mb
    by (simp add: sample_input_def)
       (auto simp: references_known_def triggers_unique_def edge_fits_def inputs_connected_def fan_out_ok_def sample_nodes_def
         sample_edges_def sample_validate_def node_at_def trimmed_reference_def split: if_splits)
qed

end
