(* ===== verification/Decompile.thy ===== *)
theory Decompile
  imports Compiled
begin

text \<open>
  The way back from a configuration to the editor: \<open>config-decompiler/src/decompile.ts\<close>, and the dry run of
  \<open>dry-run.ts\<close>. The identifiers the decompiler makes up sort like the keys they stand for, up to 99999, so
  that compiling a decompiled configuration gives it back.
\<close>

section \<open>Identifiers\<close>

text \<open>\<open>String(key).padStart(5, "0")\<close>\<close>

definition padded :: "int \<Rightarrow> jsstr" where
  "padded key = (let s = decimal key in replicate (5 - length s) 48 @ s)"

definition moduleNodeId :: "int \<Rightarrow> jsstr" where
  "moduleNodeId key = js ''module-'' @ padded key"

definition blockNodeId :: "int \<Rightarrow> jsstr" where
  "blockNodeId key = js ''block-'' @ padded key"

definition ruleNodeId :: "int \<Rightarrow> jsstr" where
  "ruleNodeId key = js ''rule-'' @ padded key"

definition scheduleNodeId :: "int \<Rightarrow> jsstr" where
  "scheduleNodeId sourceKey = js ''schedule-'' @ padded sourceKey"

definition eventSourceNodeId :: "int \<Rightarrow> jsstr" where
  "eventSourceNodeId sourceKey = js ''event-source-'' @ padded sourceKey"

section \<open>The decompiler\<close>

datatype severity = IsError | IsWarning

definition issue :: "string \<Rightarrow> jsstr list \<Rightarrow> jsstr \<Rightarrow> severity \<Rightarrow> DomainError \<times> severity" where
  "issue code path target severity = (domainError code (js ''config-decompiler'' # path) target, severity)"

fun property_js :: "PropertyValue \<Rightarrow> js_value" where
  "property_js (PBool b) = JBool b"
| "property_js (PInt n) = JBigint n"
| "property_js (PText s) = JString s"

definition toRecord :: "PropertySet \<Rightarrow> (jsstr \<times> js_value) list" where
  "toRecord ps = map (\<lambda>(k, v). (decimal k, property_js v)) ps"

record DecompileOptions =
  do_resolveRuleActionFields :: "jsstr \<Rightarrow> (int \<times> int) option"
  do_resolveRuleSourceFields :: "jsstr \<Rightarrow> (int \<times> int) option"

record DecompileResult =
  dr_physicalNodes :: "physical_node list"
  dr_processing :: processing_graph
  dr_issues :: "(DomainError \<times> severity) list"

text \<open>A Module without Bay or rail is only reported.\<close>

definition decompile_module :: "CanonicalModule \<Rightarrow> (DomainError \<times> severity) list \<times> physical_node list" where
  "decompile_module m =
     (let i = moduleNodeId (cm_key m) in
      case (cm_bayId m, cm_powerRailId m) of
        (Some bayId, Some railId) \<Rightarrow>
          ([issue ''config-decompiler.unsupported_property_value'' [js ''modules'', decimal (cm_key m), js ''electricalMode''] i IsWarning,
            issue ''config-decompiler.missing_profile'' [js ''modules'', decimal (cm_key m), js ''profileId''] i IsWarning],
           [\<lparr>gn_layer = PhysicalComposition, gn_id = i, gn_data = ModuleNode
              \<lparr>mn_moduleKey = None, mn_driverTypeId = cm_typeId m, mn_profileId = None, mn_portId = cm_portId m,
               mn_bayId = bayId, mn_railId = railId, mn_endpoint = None, mn_electricalMode = InputOutput,
               mn_properties = toRecord (cm_properties m)\<rparr>\<rparr>])
      | _ \<Rightarrow> ([issue ''config-decompiler.unsupported_property_value'' [js ''modules'', decimal (cm_key m)] i IsError], []))"

definition processing_node_of :: "jsstr \<Rightarrow> DeviceProcessingNodeData \<Rightarrow> processing_node" where
  "processing_node_of i d = \<lparr>gn_layer = DeviceProcessing, gn_id = i, gn_data = d\<rparr>"

definition decompile_schedule :: "CanonicalSchedule \<Rightarrow> processing_node" where
  "decompile_schedule s = processing_node_of (scheduleNodeId (csch_sourceKey s)) (ScheduleNode
     \<lparr>sn_moduleNodeId = moduleNodeId (csch_sourceKey s), sn_periodMs = csch_periodMs s, sn_enabled = csch_enabled s\<rparr>)"

text \<open>Modules that feed an edge and have no schedule; a set keeps the first of equal keys.\<close>

definition inferredEventSourceKeys :: "CanonicalConfig \<Rightarrow> int list" where
  "inferredEventSourceKeys c =
     jm_keys (fold (\<lambda>k. jm_put k ()) (map ce_sourceKey (filter (\<lambda>e. ce_sourceKind e = MODULE \<and>
        ce_sourceKey e \<notin> csch_sourceKey ` set (cfg_schedules c)) (cfg_edges c))) [])"

definition decompile_event_source :: "int \<Rightarrow> processing_node" where
  "decompile_event_source key = processing_node_of (eventSourceNodeId key) (EventSourceNode
     \<lparr>en_moduleNodeId = moduleNodeId key, en_catalogEntryId = None, en_properties = None\<rparr>)"

definition decompile_block :: "CanonicalBlock \<Rightarrow> processing_node" where
  "decompile_block b = processing_node_of (blockNodeId (cbk_key b)) (BlockNode
     \<lparr>bn_blockTypeId = cbk_typeId b, bn_minVersion = Some (cbk_minVersion b), bn_exactVersion = Some (cbk_exactVersion b),
      bn_properties = toRecord (cbk_properties b), bn_catalogEntryId = None\<rparr>)"

text \<open>\<open>Number(value)\<close>, where it is an integer.\<close>

fun field_number :: "(jsstr \<Rightarrow> int option) \<Rightarrow> PropertyValue \<Rightarrow> int option" where
  "field_number toNumber (PBool b) = Some (if b then 1 else 0)"
| "field_number toNumber (PInt n) = Some (js_number n)"
| "field_number toNumber (PText s) = toNumber s"

text \<open>
  A reference that the Rule keeps in two of its fields is taken out of them. \<open>None\<close>: a field holds a text
  that is no integer, which the program turns into \<open>NaN\<close>; the model ends there.
\<close>

definition take_reference :: "(jsstr \<Rightarrow> int option) \<Rightarrow> (int \<times> int) option \<Rightarrow> PropertySet \<Rightarrow> ((jsstr \<times> int) option \<times> PropertySet) option" where
  "take_reference toNumber fieldIds ps =
     (case fieldIds of
        None \<Rightarrow> Some (None, ps)
      | Some (keyField, numberField) \<Rightarrow>
          (case (jm_get ps keyField, jm_get ps numberField) of
             (Some x, Some y) \<Rightarrow>
               (case (field_number toNumber x, field_number toNumber y) of
                  (Some key, Some number) \<Rightarrow> Some (Some (moduleNodeId key, number), jm_del numberField (jm_del keyField ps))
                | _ \<Rightarrow> None)
           | _ \<Rightarrow> Some (None, ps)))"

definition decompile_rule :: "(jsstr \<Rightarrow> int option) \<Rightarrow> DecompileOptions \<Rightarrow> CanonicalRule \<Rightarrow> ((DomainError \<times> severity) list \<times> processing_node) option" where
  "decompile_rule toNumber options r =
     (let actionFields = do_resolveRuleActionFields options (cr_typeId r);
          sourceFields = do_resolveRuleSourceFields options (cr_typeId r) in
      Option.bind (take_reference toNumber actionFields (cr_properties r)) (\<lambda>(commandTarget, ps).
      Option.bind (take_reference toNumber sourceFields ps) (\<lambda>(sourceReference, ps').
        Some (if actionFields = None \<or> sourceFields = None
              then [issue ''config-decompiler.unsupported_property_value'' [js ''rules'', decimal (cr_key r)] (ruleNodeId (cr_key r)) IsWarning]
              else [],
              processing_node_of (ruleNodeId (cr_key r)) (RuleNode
                \<lparr>rn_ruleTypeId = cr_typeId r, rn_properties = toRecord ps', rn_commandTarget = commandTarget,
                 rn_sourceReference = sourceReference\<rparr>)))))"

definition decompile_edge :: "CanonicalConfig \<Rightarrow> nat \<times> CanonicalEdge \<Rightarrow> GraphEdge" where
  "decompile_edge c = (\<lambda>(index, e).
     \<lparr>ge_layer = DeviceProcessing, ge_id = js ''edge-'' @ decimal (int index),
      ge_source = (if ce_sourceKind e = MODULE
                   then if ce_sourceKey e \<in> csch_sourceKey ` set (cfg_schedules c) then scheduleNodeId (ce_sourceKey e)
                        else eventSourceNodeId (ce_sourceKey e)
                   else blockNodeId (ce_sourceKey e)),
      ge_target = blockNodeId (ce_targetKey e),
      ge_sourceHandle = Some (decimal (ce_sourcePortOrField e)), ge_targetHandle = Some (decimal (ce_targetInput e))\<rparr>)"

definition decompile_nodes :: "CanonicalConfig \<Rightarrow> processing_node list \<Rightarrow> processing_node list" where
  "decompile_nodes c rules =
     map decompile_schedule (cfg_schedules c) @ map decompile_event_source (inferredEventSourceKeys c) @
     map decompile_block (cfg_blocks c) @ rules"

definition decompileConfig :: "(jsstr \<Rightarrow> int option) \<Rightarrow> DecompileOptions \<Rightarrow> CanonicalConfig \<Rightarrow> DecompileResult option" where
  "decompileConfig toNumber options c =
     map_option (\<lambda>rules.
       \<lparr>dr_physicalNodes = concat (map (snd \<circ> decompile_module) (cfg_modules c)),
        dr_processing = \<lparr>pg_nodes = decompile_nodes c (map snd rules),
                         pg_edges = map (decompile_edge c) (enumerate 0 (cfg_edges c))\<rparr>,
        dr_issues = concat (map (fst \<circ> decompile_module) (cfg_modules c)) @ concat (map fst rules)\<rparr>)
       (those (map (decompile_rule toNumber options) (cfg_rules c)))"

section \<open>The dry run\<close>

record DryRunOptions =
  dy_compile :: CompileConfigOptions
  dy_availableProfileIds :: "jsstr set option"
  dy_availableBlockRuleTypeIds :: "jsstr set option"

record DryRunResult =
  dy_compiled :: "CanonicalConfig option"
  dy_issues :: "(DomainError \<times> severity) list"

definition missingProfileWarning :: "jsstr \<Rightarrow> jsstr \<Rightarrow> DomainError \<times> severity" where
  "missingProfileWarning i profileId =
     issue ''config-decompiler.missing_profile'' [js ''dry-run'', js ''nodes'', i] profileId IsWarning"

definition missingCapabilityPackWarning :: "jsstr \<Rightarrow> jsstr \<Rightarrow> DomainError \<times> severity" where
  "missingCapabilityPackWarning i typeId =
     issue ''config-decompiler.missing_capability_pack'' [js ''dry-run'', js ''nodes'', i] typeId IsWarning"

definition profile_warnings :: "jsstr set \<Rightarrow> physical_node list \<Rightarrow> (DomainError \<times> severity) list" where
  "profile_warnings available nodes =
     concat (map (\<lambda>(i, m). case mn_profileId m of
         Some p \<Rightarrow> if p \<in> available then [] else [missingProfileWarning i p]
       | None \<Rightarrow> []) (moduleNodes nodes))"

definition pack_warnings :: "jsstr set \<Rightarrow> processing_node list \<Rightarrow> (DomainError \<times> severity) list" where
  "pack_warnings available nodes =
     concat (map (\<lambda>n. case gn_data n of
         BlockNode d \<Rightarrow> if bn_blockTypeId d \<in> available then [] else [missingCapabilityPackWarning (gn_id n) (bn_blockTypeId d)]
       | RuleNode d \<Rightarrow> if rn_ruleTypeId d \<in> available then [] else [missingCapabilityPackWarning (gn_id n) (rn_ruleTypeId d)]
       | _ \<Rightarrow> []) nodes)"

definition dryRunConfig :: "(jsstr \<Rightarrow> int option) \<Rightarrow> (js_value \<Rightarrow> jsstr) \<Rightarrow> CompileConfigInput \<Rightarrow> DryRunOptions \<Rightarrow> DryRunResult option" where
  "dryRunConfig toNumber str input options =
     (let issues = (case dy_availableProfileIds options of
            Some available \<Rightarrow> profile_warnings available (in_physicalNodes input) | None \<Rightarrow> []) @
          (case dy_availableBlockRuleTypeIds options of
            Some available \<Rightarrow> pack_warnings available (pg_nodes (in_processing input)) | None \<Rightarrow> []) in
      map_option (\<lambda>r. case r of
          Inl errors \<Rightarrow> \<lparr>dy_compiled = None, dy_issues = issues @ map (\<lambda>e. (e, IsError)) errors\<rparr>
        | Inr c \<Rightarrow> \<lparr>dy_compiled = Some c, dy_issues = issues\<rparr>)
        (compileConfig toNumber str input (dy_compile options)))"

end
