(* ===== verification/Recompile.thy ===== *)
theory Recompile
  imports Decompile
begin

text \<open>
  Compiling a decompiled configuration gives it back: the made-up identifiers sort like the keys, so every
  module, block and rule gets its old key again, and every reference is resolved to it.
\<close>

section \<open>The order of the identifiers\<close>

fun digs :: "nat \<Rightarrow> nat \<Rightarrow> jsstr" where
  "digs 0 k = []"
| "digs (Suc n) k = digs n (k div 10) @ [digit_char (k mod 10)]"

lemma length_digs [simp]: "length (digs n k) = n"
  by (induction n k rule: digs.induct) simp_all

lemma digs_zero: "digs n 0 = replicate n 48"
  by (induction n) (simp_all add: replicate_append_same digit_char_def)

lemma padded_digs: "k < 10 ^ n \<Longrightarrow> 0 < n \<Longrightarrow> length (nat_decimal k) \<le> n \<and> replicate (n - length (nat_decimal k)) 48 @ nat_decimal k = digs n k"
proof (induction n arbitrary: k)
  case (Suc n)
  show ?case
  proof (cases "k < 10")
    case True
    then show ?thesis by (simp add: nat_decimal_rec [of k] digs_zero)
  next
    case False
    with Suc.prems have "k div 10 < 10 ^ n" and "0 < n" by (auto intro: Nat.gr0I)
    from Suc.IH [OF this] False show ?thesis by (simp add: nat_decimal_rec [of k])
  qed
qed simp

lemma append_less:
  "length xs = length ys \<Longrightarrow> xs @ us < ys @ vs \<longleftrightarrow> xs < ys \<or> xs = ys \<and> us < (vs :: jsstr)"
  by (induction xs ys rule: list_induct2) auto

lemma digit_char_less: "d < e \<Longrightarrow> e < 10 \<Longrightarrow> digit_char d < digit_char e"
  by (simp add: digit_char_def word_less_nat_alt unat_word_ariths unat_of_nat take_bit_eq_mod)

lemma digs_less: "a < b \<Longrightarrow> b < 10 ^ n \<Longrightarrow> digs n a < digs n b"
proof (induction n arbitrary: a b)
  case (Suc n)
  show ?case
  proof (cases "a div 10 < b div 10")
    case True
    with Suc show ?thesis by (simp add: append_less)
  next
    case False
    with Suc.prems(1) have "a div 10 = b div 10" by (meson div_le_mono le_antisym less_imp_le not_le)
    moreover have "a mod 10 < b mod 10" using \<open>a div 10 = b div 10\<close> Suc.prems(1) by (metis add_less_cancel_left div_mult_mod_eq)
    ultimately show ?thesis by (simp add: append_less digit_char_less)
  qed
qed simp

definition key_ok :: "int \<Rightarrow> bool" where
  "key_ok k \<longleftrightarrow> 0 < k \<and> k < 100000"

lemma padded_key: "key_ok k \<Longrightarrow> padded k = digs 5 (nat k)"
proof -
  assume k: "key_ok k"
  then have "nat k < 10 ^ 5" by (simp add: key_ok_def nat_less_iff)
  from padded_digs [OF this] have "replicate (5 - length (nat_decimal (nat k))) 48 @ nat_decimal (nat k) = digs 5 (nat k)" by simp
  moreover from k have "decimal k = nat_decimal (nat k)" by (simp add: decimal_def key_ok_def)
  ultimately show ?thesis by (simp only: padded_def Let_def)
qed

lemma padded_less: "key_ok a \<Longrightarrow> key_ok b \<Longrightarrow> a < b \<Longrightarrow> padded a < padded b"
  unfolding padded_key by (rule digs_less) (simp_all add: key_ok_def nat_less_iff)

lemma prefix_less: "p @ x < p @ y \<longleftrightarrow> x < (y :: jsstr)"
  by (induction p) auto

lemma padded_eq: "key_ok a \<Longrightarrow> key_ok b \<Longrightarrow> padded a = padded b \<longleftrightarrow> a = b"
  by (metis less_irrefl linorder_less_linear padded_less)

text \<open>With six digits the identifiers no longer sort like the keys.\<close>

lemma padded_limit: "padded 100000 < padded 99999"
  by (simp add: padded_def decimal_def nat_decimal_rec digit_char_def)

section \<open>Keys come back\<close>

definition keys_upto :: "nat \<Rightarrow> int list" where
  "keys_upto n = map (\<lambda>j. int j + 1) [0..<n]"

lemma keys_upto_ok: "n < 100000 \<Longrightarrow> k \<in> set (keys_upto n) \<Longrightarrow> key_ok k"
  by (auto simp: keys_upto_def key_ok_def)

lemma sorted_keys_upto: "sorted (keys_upto n)"
  by (simp add: keys_upto_def sorted_iff_nth_mono)

definition prefixed :: "jsstr \<Rightarrow> int list \<Rightarrow> jsstr list" where
  "prefixed p ks = map (\<lambda>k. p @ padded k) ks"

lemma prefixed_distinct:
  assumes "distinct ks" and "\<And>k. k \<in> set ks \<Longrightarrow> key_ok k"
  shows "distinct (prefixed p ks)"
  unfolding prefixed_def using assms by (auto simp: distinct_map inj_on_def padded_eq)

lemma prefixed_keys:
  assumes "n < 100000"
  shows "distinct (prefixed p (keys_upto n))" and "sort (prefixed p (keys_upto n)) = prefixed p (keys_upto n)"
    and "k \<in> set (keys_upto n) \<Longrightarrow> jm_get (assignKeys (prefixed p (keys_upto n))) (p @ padded k) = Some k"
proof -
  have d: "distinct (keys_upto n)" by (auto simp: keys_upto_def distinct_map inj_on_def)
  show dp: "distinct (prefixed p (keys_upto n))" by (rule prefixed_distinct [OF d keys_upto_ok [OF assms]])
  have "prefixed p (keys_upto n) ! i < prefixed p (keys_upto n) ! j" if "i < j" "j < n" for i j
    using that assms by (simp add: prefixed_def keys_upto_def prefix_less padded_less key_ok_def)
  then have "sorted (prefixed p (keys_upto n))"
    by (auto simp: sorted_iff_nth_mono_less prefixed_def keys_upto_def intro: less_imp_le)
  then show s: "sort (prefixed p (keys_upto n)) = prefixed p (keys_upto n)" by (rule sorted_sort_id)
  show "jm_get (assignKeys (prefixed p (keys_upto n))) (p @ padded k) = Some k" if "k \<in> set (keys_upto n)"
    using that unfolding assignKeys_get [OF dp] s by (auto simp: prefixed_def keys_upto_def)
qed

section \<open>Properties come back\<close>

definition number_texts :: "(jsstr \<Rightarrow> int option) \<Rightarrow> bool" where
  "number_texts toNumber \<longleftrightarrow> (\<forall>n. 0 \<le> n \<and> n < 2 ^ 53 \<longrightarrow> toNumber (decimal n) = Some n)"

definition props_ok :: "PropertySet \<Rightarrow> bool" where
  "props_ok ps \<longleftrightarrow> sorted (map fst ps) \<and> distinct (map fst ps) \<and> (\<forall>x\<in>set ps. 0 < fst x \<and> fst x \<le> 0xffff)"

lemma props_ok_wf: "props_ok ps \<Longrightarrow> object_wf ps"
  by (rule sorted_object_wf) (auto simp: props_ok_def index_key_def)

lemma props_ok_del: "props_ok ps \<Longrightarrow> props_ok (jm_del k ps)"
  by (auto simp: props_ok_def AList.delete_eq sorted_filter distinct_map_filter)

lemma property_value_js [simp]: "property_value (property_js v) = Some v"
  by (cases v) simp_all

lemma toPropertySet_back:
  assumes "number_texts toNumber" and "props_ok ps"
  shows "toPropertySet toNumber str i (toRecord ps) = Inr ps"
proof -
  have f: "field_id toNumber (decimal k) = Some k" if "(k, v) \<in> set ps" for k v
    using assms that by (fastforce simp: props_ok_def field_id_def number_texts_def)
  have "fold (property_turn toNumber) (toRecord qs) m = fold (\<lambda>(k, v). jm_put k v) qs m" if "set qs \<subseteq> set ps" for qs m
    using that by (induction qs arbitrary: m) (auto simp: toRecord_def property_turn_def f)
  then have "fold (property_turn toNumber) (toRecord ps) [] = jm_of ps" by (simp add: jm_of_def)
  also have "\<dots> = ps" using assms(2) by (intro jm_of_distinct) (simp add: props_ok_def)
  moreover have "property_errors toNumber str i (toRecord ps) = []"
    by (auto simp: property_errors_def toRecord_def)
  ultimately show ?thesis using props_ok_wf [OF assms(2)] by (simp add: toPropertySet_def object_wf_def)
qed

section \<open>References of Rules come back\<close>

text \<open>
  Where both fields of a reference are there, they hold the key of a Module and an exact number.
\<close>

definition reference_ok :: "int set \<Rightarrow> PropertySet \<Rightarrow> (int \<times> int) option \<Rightarrow> bool" where
  "reference_ok keys ps fieldIds \<longleftrightarrow> (\<forall>a b x y. fieldIds = Some (a, b) \<and> jm_get ps a = Some x \<and> jm_get ps b = Some y \<longrightarrow>
     a \<noteq> b \<and> (\<exists>k n. x = PInt k \<and> y = PInt n \<and> k \<in> keys \<and> \<bar>n\<bar> < 2 ^ 53))"

lemma fold_put_agrees:
  "\<forall>(k, v)\<in>set puts. f k = Some v \<Longrightarrow>
     map_of (fold (\<lambda>(k, v). jm_put k v) puts m) i = (if i \<in> fst ` set puts then f i else map_of m i)"
  by (induction puts arbitrary: m) (auto simp: update_conv')

lemma fold_put_wf: "jm_wf m \<Longrightarrow> jm_wf (fold (\<lambda>(k, v). jm_put k v) puts m)"
  by (induction puts arbitrary: m) (auto intro: jm.wf_put)

lemma object_entries_back:
  assumes "props_ok ps" and "jm_wf m" and "\<And>i. map_of m i = map_of ps i"
  shows "object_entries m = ps"
proof -
  have d: "distinct (map fst ps)" using assms(1) by (simp add: props_ok_def)
  have m: "distinct (map fst m)" using assms(2) by (simp add: jm_wf_def)
  have s: "set m = set ps" using assms(3) map_of_inject_set [OF m d] by auto
  then have "mset m = mset ps" using d m by (metis distinct_map set_eq_iff_mset_eq_distinct)
  moreover have "\<forall>x\<in>set m. index_key (fst x)" using assms(1) s by (auto simp: props_ok_def index_key_def)
  ultimately show ?thesis
    using assms(1) m
    by (simp add: object_entries_def filter_id_conv filter_empty_conv distinct_map sort_key_inj_key_eq props_ok_def)
qed

lemma take_reference_back:
  assumes "reference_ok (set (keys_upto n)) ps (resolver t)" and "n < 100000"
    and keys: "\<And>k. k \<in> set (keys_upto n) \<Longrightarrow> jm_get keyOf (moduleNodeId k) = Some k"
  obtains ref puts where "take_reference toNumber (resolver t) ps = Some (ref, fold jm_del (map fst puts) ps)"
    and "\<forall>what. rule_reference keyOf i t what ref resolver = ([], puts)"
    and "\<forall>(k, v)\<in>set puts. map_of ps k = Some v"
proof (cases "\<exists>a b x y. resolver t = Some (a, b) \<and> jm_get ps a = Some x \<and> jm_get ps b = Some y")
  case True
  then obtain a b x y where f: "resolver t = Some (a, b)" "jm_get ps a = Some x" "jm_get ps b = Some y" by blast
  with assms(1) obtain k m where v: "x = PInt k" "y = PInt m" "k \<in> set (keys_upto n)" "\<bar>m\<bar> < 2 ^ 53" "a \<noteq> b"
    by (auto simp: reference_ok_def)
  have "js_number k = k" using keys_upto_ok [OF assms(2) v(3)] by (simp add: key_ok_def)
  show ?thesis
    by (rule that [of "Some (moduleNodeId k, m)" "[(a, PInt k), (b, PInt m)]"])
       (use f v \<open>js_number k = k\<close> keys [OF v(3)] in \<open>simp_all add: take_reference_def js_number_exact rule_reference_def\<close>)
next
  case False
  show ?thesis
    by (rule that [of None "[]"])
       (use False in \<open>auto simp: take_reference_def rule_reference_def split: option.split\<close>)
qed

lemma map_of_fold_del: "map_of (fold jm_del ks m) i = (if i \<in> set ks then None else map_of m i)"
  by (induction ks arbitrary: m) (auto simp: delete_conv')

lemma props_ok_fold_del: "props_ok ps \<Longrightarrow> props_ok (fold jm_del ks ps)"
  by (induction ks arbitrary: ps) (auto intro: props_ok_del)

lemma decompile_rule_back:
  assumes num: "number_texts toNumber" and n: "n < 100000" and p: "props_ok (cr_properties r)"
    and ok: "reference_ok (set (keys_upto n)) (cr_properties r) (do_resolveRuleActionFields options (cr_typeId r))"
      "reference_ok (set (keys_upto n)) (cr_properties r) (do_resolveRuleSourceFields options (cr_typeId r))"
    and keys: "\<And>k. k \<in> set (keys_upto n) \<Longrightarrow> jm_get keyOf (moduleNodeId k) = Some k"
    and key: "the_key ruleKeyOf (ruleNodeId (cr_key r)) = cr_key r"
    and same: "oo_resolveRuleActionFieldIds co = do_resolveRuleActionFields options"
      "oo_resolveRuleSourceFieldIds co = do_resolveRuleSourceFields options"
  obtains w d where "decompile_rule toNumber options r = Some (w, processing_node_of (ruleNodeId (cr_key r)) (RuleNode d))"
    and "compile_rule toNumber str co keyOf ruleKeyOf (ruleNodeId (cr_key r), d) = ([], r)"
proof -
  let ?ps = "cr_properties r" and ?t = "cr_typeId r" and ?i = "ruleNodeId (cr_key r)"
  obtain ref puts where a: "take_reference toNumber (do_resolveRuleActionFields options ?t) ?ps = Some (ref, fold jm_del (map fst puts) ?ps)"
    "\<forall>what. rule_reference keyOf ?i ?t what ref (do_resolveRuleActionFields options) = ([], puts)"
    "\<forall>(k, v)\<in>set puts. map_of ?ps k = Some v"
    by (rule take_reference_back [where resolver = "do_resolveRuleActionFields options" and t = ?t and keyOf = keyOf and toNumber = toNumber and i = ?i,
          OF ok(1) n keys]) assumption
  let ?ps1 = "fold jm_del (map fst puts) ?ps"
  have ok1: "reference_ok (set (keys_upto n)) ?ps1 (do_resolveRuleSourceFields options ?t)"
    using ok(2) unfolding reference_ok_def map_of_fold_del by (auto split: if_splits)
  obtain src puts' where b: "take_reference toNumber (do_resolveRuleSourceFields options ?t) ?ps1 = Some (src, fold jm_del (map fst puts') ?ps1)"
    "\<forall>what. rule_reference keyOf ?i ?t what src (do_resolveRuleSourceFields options) = ([], puts')"
    "\<forall>(k, v)\<in>set puts'. map_of ?ps1 k = Some v"
    by (rule take_reference_back [where resolver = "do_resolveRuleSourceFields options" and t = ?t and keyOf = keyOf and toNumber = toNumber and i = ?i,
          OF ok1 n keys]) assumption
  let ?ps2 = "fold jm_del (map fst puts') ?ps1"
  have p2: "props_ok ?ps2" by (intro props_ok_fold_del p)
  have ag: "\<forall>(k, v)\<in>set (puts @ puts'). map_of ?ps k = Some v"
    using a(3) b(3) unfolding map_of_fold_del by (fastforce split: if_splits)
  have "object_entries (fold (\<lambda>(k, v). jm_put k v) (puts @ puts') ?ps2) = ?ps"
  proof (rule object_entries_back [OF p])
    show "jm_wf (fold (\<lambda>(k, v). jm_put k v) (puts @ puts') ?ps2)"
      using p2 by (intro fold_put_wf) (simp add: jm_wf_def props_ok_def)
    show "map_of (fold (\<lambda>(k, v). jm_put k v) (puts @ puts') ?ps2) j = map_of ?ps j" for j
      unfolding fold_put_agrees [OF ag] map_of_fold_del by auto
  qed
  then have "compile_rule toNumber str co keyOf ruleKeyOf (?i, \<lparr>rn_ruleTypeId = ?t, rn_properties = toRecord ?ps2,
      rn_commandTarget = ref, rn_sourceReference = src\<rparr>) = ([], r)"
    using toPropertySet_back [OF num p2, of str ?i] a(2) b(2) key
    by (simp add: compile_rule_def same errors_of_def or_empty_def)
  with a(1) b(1) show ?thesis
    by (intro that [of _ "\<lparr>rn_ruleTypeId = ?t, rn_properties = toRecord ?ps2, rn_commandTarget = ref, rn_sourceReference = src\<rparr>"])
       (simp_all add: decompile_rule_def Let_def)
qed

section \<open>The whole configuration\<close>

definition module_placed :: "CanonicalModule \<Rightarrow> bool" where
  "module_placed m \<longleftrightarrow> (\<exists>b r. cm_bayId m = Some b \<and> b \<noteq> 255 \<and> cm_powerRailId m = Some r \<and> r \<noteq> 255)"

definition port_ok :: "int \<Rightarrow> bool" where
  "port_ok p \<longleftrightarrow> 0 \<le> p \<and> p < 2 ^ 53"

text \<open>
  A configuration in the form the compiler emits: keys 1, 2, ..., sections sorted, references resolved;
  every module is placed on a Bay and a rail.
\<close>

definition canonical :: "DecompileOptions \<Rightarrow> CanonicalConfig \<Rightarrow> bool" where
  "canonical options c \<longleftrightarrow>
     length (cfg_modules c) < 100000 \<and> length (cfg_blocks c) < 100000 \<and> length (cfg_rules c) < 100000 \<and>
     map cm_key (cfg_modules c) = keys_upto (length (cfg_modules c)) \<and>
     map cbk_key (cfg_blocks c) = keys_upto (length (cfg_blocks c)) \<and>
     map cr_key (cfg_rules c) = keys_upto (length (cfg_rules c)) \<and>
     (\<forall>m\<in>set (cfg_modules c). props_ok (cm_properties m) \<and> module_placed m) \<and>
     (\<forall>b\<in>set (cfg_blocks c). props_ok (cbk_properties b)) \<and>
     (\<forall>r\<in>set (cfg_rules c). props_ok (cr_properties r) \<and>
        reference_ok (set (keys_upto (length (cfg_modules c)))) (cr_properties r) (do_resolveRuleActionFields options (cr_typeId r)) \<and>
        reference_ok (set (keys_upto (length (cfg_modules c)))) (cr_properties r) (do_resolveRuleSourceFields options (cr_typeId r))) \<and>
     sorted (map csch_sourceKey (cfg_schedules c)) \<and> distinct (map csch_sourceKey (cfg_schedules c)) \<and>
     sorted (map edge_order (cfg_edges c)) \<and>
     (\<forall>e\<in>set (cfg_edges c). port_ok (ce_sourcePortOrField e) \<and> port_ok (ce_targetInput e)) \<and>
     references_resolved c"

text \<open>The same resolvers, and no limits.\<close>

definition recompile_options :: "DecompileOptions \<Rightarrow> CompileConfigOptions" where
  "recompile_options options =
     \<lparr>oo_resolveSourcePortOrField = (\<lambda>_ _. None), oo_resolveTargetInput = (\<lambda>_ _. None), oo_resolveBlockCost = (\<lambda>_. None),
      oo_resolveRuleActionFieldIds = do_resolveRuleActionFields options,
      oo_resolveRuleSourceFieldIds = do_resolveRuleSourceFields options, oo_maxTotalCost = None,
      oo_maxFanOut = None, oo_maxDepth = None, oo_maxModules = None, oo_maxSchedules = None, oo_maxRules = None,
      oo_maxBlocks = None, oo_maxEdges = None\<rparr>"

lemma recompile_options_limits [simp]:
  "oo_maxTotalCost (recompile_options options) = None" "oo_maxFanOut (recompile_options options) = None"
  "oo_maxDepth (recompile_options options) = None" "oo_maxModules (recompile_options options) = None"
  "oo_maxSchedules (recompile_options options) = None" "oo_maxRules (recompile_options options) = None"
  "oo_maxBlocks (recompile_options options) = None" "oo_maxEdges (recompile_options options) = None"
  by (simp_all add: recompile_options_def)

definition recompile_input :: "CanonicalConfig \<Rightarrow> DecompileResult \<Rightarrow> CompileConfigInput" where
  "recompile_input c d =
     \<lparr>in_physicalNodes = dr_physicalNodes d, in_processing = dr_processing d, in_mqtt = cfg_mqtt c,
      in_connectivity = cfg_connectivity c, in_energy = cfg_energy c\<rparr>"

definition module_data :: "CanonicalModule \<Rightarrow> ModuleNodeData" where
  "module_data m =
     \<lparr>mn_moduleKey = None, mn_driverTypeId = cm_typeId m, mn_profileId = None, mn_portId = cm_portId m,
      mn_bayId = the (cm_bayId m), mn_railId = the (cm_powerRailId m), mn_endpoint = None, mn_electricalMode = InputOutput,
      mn_properties = toRecord (cm_properties m)\<rparr>"

lemma decompiled_modules:
  assumes "\<forall>m\<in>set ms. module_placed m"
  shows "moduleNodes (concat (map (snd \<circ> decompile_module) ms)) = map (\<lambda>m. (moduleNodeId (cm_key m), module_data m)) ms"
  using assms
  by (induction ms) (auto simp: moduleNodes_def decompile_module_def module_placed_def module_data_def Let_def)

definition rule_nodes :: "(CanonicalRule \<Rightarrow> RuleNodeData) \<Rightarrow> CanonicalRule list \<Rightarrow> processing_node list" where
  "rule_nodes D rs = map (\<lambda>r. processing_node_of (ruleNodeId (cr_key r)) (RuleNode (D r))) rs"

definition schedule_data :: "CanonicalSchedule \<Rightarrow> ScheduleNodeData" where
  "schedule_data s = \<lparr>sn_moduleNodeId = moduleNodeId (csch_sourceKey s), sn_periodMs = csch_periodMs s, sn_enabled = csch_enabled s\<rparr>"

definition block_data :: "CanonicalBlock \<Rightarrow> BlockNodeData" where
  "block_data b = \<lparr>bn_blockTypeId = cbk_typeId b, bn_minVersion = Some (cbk_minVersion b), bn_exactVersion = Some (cbk_exactVersion b),
      bn_properties = toRecord (cbk_properties b), bn_catalogEntryId = None\<rparr>"

lemma concat_singletons: "concat (map (\<lambda>x. [f x]) xs) = map f xs" "concat (map (\<lambda>x. []) xs) = []"
  by (induction xs) simp_all

lemma decompiled_nodes:
  "scheduleNodes (decompile_nodes c (rule_nodes D rs)) = map (\<lambda>s. (scheduleNodeId (csch_sourceKey s), schedule_data s)) (cfg_schedules c)"
  "ruleNodes (decompile_nodes c (rule_nodes D rs)) = map (\<lambda>r. (ruleNodeId (cr_key r), D r)) rs"
  "blockNodes (decompile_nodes c (rule_nodes D rs)) = map (\<lambda>b. (decompile_block b, block_data b)) (cfg_blocks c)"
  by (simp_all add: scheduleNodes_def ruleNodes_def blockNodes_def decompile_nodes_def rule_nodes_def decompile_schedule_def
      decompile_event_source_def decompile_block_def processing_node_of_def schedule_data_def block_data_def comp_def concat_singletons)

lemma prefixes:
  "js ''schedule-'' = 115 # js ''chedule-''" "js ''event-source-'' = 101 # js ''vent-source-''"
  "js ''block-'' = 98 # js ''lock-''" "js ''rule-'' = 114 # js ''ule-''" "js ''module-'' = 109 # js ''odule-''"
  by code_simp+

lemma decompiled_ids:
  "map gn_id (decompile_nodes c (rule_nodes D rs)) =
     prefixed (js ''schedule-'') (map csch_sourceKey (cfg_schedules c)) @
     prefixed (js ''event-source-'') (inferredEventSourceKeys c) @
     prefixed (js ''block-'') (map cbk_key (cfg_blocks c)) @ prefixed (js ''rule-'') (map cr_key rs)"
  by (simp add: decompile_nodes_def rule_nodes_def prefixed_def decompile_schedule_def decompile_event_source_def decompile_block_def
      processing_node_of_def scheduleNodeId_def eventSourceNodeId_def blockNodeId_def ruleNodeId_def comp_def)

lemma inferred_in: "k \<in> set (inferredEventSourceKeys c) \<longleftrightarrow>
     (\<exists>e\<in>set (cfg_edges c). ce_sourceKind e = MODULE \<and> ce_sourceKey e = k) \<and> k \<notin> csch_sourceKey ` set (cfg_schedules c)"
proof -
  have "set (jm_keys (fold (\<lambda>k. jm_put k ()) ks m)) = set ks \<union> set (jm_keys m)" for ks :: "int list" and m
    by (induction ks arbitrary: m) (auto simp: dom_map_of_conv_image_fst [symmetric] update_conv')
  then show ?thesis by (auto simp: inferredEventSourceKeys_def)
qed

lemma inferred_distinct: "distinct (inferredEventSourceKeys c)"
proof -
  have "jm_wf m \<Longrightarrow> jm_wf (fold (\<lambda>k. jm_put k ()) ks m)" for ks :: "int list" and m
    by (induction ks arbitrary: m) (auto intro: jm.wf_put)
  from this [of "[]"] show ?thesis by (simp add: inferredEventSourceKeys_def jm_wf_def)
qed

lemma module_key_known:
  assumes "canonical options c" and "k \<in> cm_key ` set (cfg_modules c)"
  shows "k \<in> set (keys_upto (length (cfg_modules c))) \<and> key_ok k"
proof -
  from assms have "k \<in> set (keys_upto (length (cfg_modules c)))" by (metis canonical_def set_map)
  with assms(1) show ?thesis by (auto simp: canonical_def intro: keys_upto_ok)
qed

lemma decompiled_distinct:
  assumes "canonical options c" and "rs = cfg_rules c"
  shows "distinct (map gn_id (decompile_nodes c (rule_nodes D rs)))"
proof -
  have sk: "key_ok k" if "k \<in> csch_sourceKey ` set (cfg_schedules c)" for k
    using assms(1) that module_key_known [OF assms(1), of k] by (auto simp: canonical_def references_resolved_def)
  have ek: "key_ok k" if "k \<in> set (inferredEventSourceKeys c)" for k
    using assms(1) that module_key_known [OF assms(1), of k]
    by (fastforce simp: canonical_def references_resolved_def inferred_in)
  have b: "distinct (prefixed p (map cbk_key (cfg_blocks c)))" "distinct (prefixed p (map cr_key (cfg_rules c)))" for p
    using assms(1) prefixed_keys(1) by (simp_all add: canonical_def)
  have s: "distinct (prefixed p (map csch_sourceKey (cfg_schedules c)))" for p
    using assms(1) sk by (intro prefixed_distinct) (auto simp: canonical_def)
  have e: "distinct (prefixed p (inferredEventSourceKeys c))" for p
    by (rule prefixed_distinct [OF inferred_distinct ek])
  show ?thesis
    unfolding decompiled_ids assms(2) distinct_append
    by (intro conjI s e b) (auto simp: prefixed_def prefixes)
qed

section \<open>Every section comes back\<close>

lemma not_blank: "\<not> blank (moduleNodeId k)"
  by (simp add: moduleNodeId_def prefixes blank_def white_unit_def)

text \<open>The tables of keys that the compiler makes of the decompiled identifiers.\<close>

definition back_keys :: "CanonicalConfig \<Rightarrow> (jsstr, int) jsmap \<times> (jsstr, int) jsmap \<times> (jsstr, int) jsmap" where
  "back_keys c =
     (assignKeys (prefixed (js ''module-'') (map cm_key (cfg_modules c))),
      assignKeys (prefixed (js ''block-'') (map cbk_key (cfg_blocks c))),
      assignKeys (prefixed (js ''rule-'') (map cr_key (cfg_rules c))))"

abbreviation "back_module c \<equiv> fst (back_keys c)"
abbreviation "back_block c \<equiv> fst (snd (back_keys c))"
abbreviation "back_rule c \<equiv> snd (snd (back_keys c))"

lemma back_keys_get:
  assumes "canonical options c"
  shows "k \<in> cm_key ` set (cfg_modules c) \<Longrightarrow> jm_get (back_module c) (moduleNodeId k) = Some k"
    and "k \<in> cbk_key ` set (cfg_blocks c) \<Longrightarrow> jm_get (back_block c) (blockNodeId k) = Some k"
    and "k \<in> cr_key ` set (cfg_rules c) \<Longrightarrow> jm_get (back_rule c) (ruleNodeId k) = Some k"
proof -
  have c: "map cm_key (cfg_modules c) = keys_upto (length (cfg_modules c))" "length (cfg_modules c) < 100000"
    "map cbk_key (cfg_blocks c) = keys_upto (length (cfg_blocks c))" "length (cfg_blocks c) < 100000"
    "map cr_key (cfg_rules c) = keys_upto (length (cfg_rules c))" "length (cfg_rules c) < 100000"
    using assms by (simp_all add: canonical_def)
  show "jm_get (back_module c) (moduleNodeId k) = Some k" if "k \<in> cm_key ` set (cfg_modules c)"
    unfolding back_keys_def fst_conv snd_conv moduleNodeId_def c(1)
    by (rule prefixed_keys(3) [OF c(2)]) (metis c(1) set_map that)
  show "jm_get (back_block c) (blockNodeId k) = Some k" if "k \<in> cbk_key ` set (cfg_blocks c)"
    unfolding back_keys_def fst_conv snd_conv blockNodeId_def c(3)
    by (rule prefixed_keys(3) [OF c(4)]) (metis c(3) set_map that)
  show "jm_get (back_rule c) (ruleNodeId k) = Some k" if "k \<in> cr_key ` set (cfg_rules c)"
    unfolding back_keys_def fst_conv snd_conv ruleNodeId_def c(5)
    by (rule prefixed_keys(3) [OF c(6)]) (metis c(5) set_map that)
qed

lemma module_back:
  assumes "canonical options c" and "number_texts toNumber" and m: "m \<in> set (cfg_modules c)"
  shows "compile_module toNumber str (back_module c) (moduleNodeId (cm_key m), module_data m) = ([], m)"
proof -
  from assms(1) m have p: "props_ok (cm_properties m)" "module_placed m" by (simp_all add: canonical_def)
  from back_keys_get(1) [OF assms(1), of "cm_key m"] m have k: "the_key (back_module c) (moduleNodeId (cm_key m)) = cm_key m"
    by (simp add: the_key_def)
  from p(2) show ?thesis
    by (cases m)
       (use k toPropertySet_back [OF assms(2) p(1), of str] in
         \<open>auto simp: compile_module_def module_data_def module_placed_def errors_of_def or_empty_def Let_def\<close>)
qed

lemma schedule_back:
  assumes "canonical options c" and s: "s \<in> set (cfg_schedules c)"
  shows "compile_schedule (back_module c) (scheduleNodeId (csch_sourceKey s), schedule_data s) = Inr s"
  using assms back_keys_get(1) [OF assms(1), of "csch_sourceKey s"]
  by (simp add: compile_schedule_def schedule_data_def canonical_def references_resolved_def)

lemma block_back:
  assumes "canonical options c" and "number_texts toNumber" and b: "b \<in> set (cfg_blocks c)"
  shows "compile_block toNumber str (back_block c) (decompile_block b, block_data b) = ([], b)"
proof -
  from assms(1) b have p: "props_ok (cbk_properties b)" by (simp add: canonical_def)
  from back_keys_get(2) [OF assms(1), of "cbk_key b"] b have k: "the_key (back_block c) (blockNodeId (cbk_key b)) = cbk_key b"
    by (simp add: the_key_def)
  show ?thesis
    by (cases b)
       (use k toPropertySet_back [OF assms(2) p, of str] in
         \<open>auto simp: compile_block_def block_data_def decompile_block_def processing_node_of_def errors_of_def or_empty_def Let_def\<close>)
qed

lemma rules_back:
  assumes "canonical options c" and num: "number_texts toNumber"
  obtains W D where "those (map (decompile_rule toNumber options) (cfg_rules c)) =
        Some (zip W (rule_nodes D (cfg_rules c)))" and "length W = length (cfg_rules c)"
    and "\<forall>r\<in>set (cfg_rules c). compile_rule toNumber str (recompile_options options) (back_module c) (back_rule c)
        (ruleNodeId (cr_key r), D r) = ([], r)"
proof -
  have "\<exists>w d. decompile_rule toNumber options r = Some (w, processing_node_of (ruleNodeId (cr_key r)) (RuleNode d)) \<and>
      compile_rule toNumber str (recompile_options options) (back_module c) (back_rule c) (ruleNodeId (cr_key r), d) = ([], r)"
    if r: "r \<in> set (cfg_rules c)" for r
  proof -
    have c: "length (cfg_modules c) < 100000" "map cm_key (cfg_modules c) = keys_upto (length (cfg_modules c))"
      "props_ok (cr_properties r)"
      "reference_ok (set (keys_upto (length (cfg_modules c)))) (cr_properties r) (do_resolveRuleActionFields options (cr_typeId r))"
      "reference_ok (set (keys_upto (length (cfg_modules c)))) (cr_properties r) (do_resolveRuleSourceFields options (cr_typeId r))"
      using assms(1) r by (simp_all add: canonical_def)
    have k: "jm_get (back_module c) (moduleNodeId k) = Some k" if "k \<in> set (keys_upto (length (cfg_modules c)))" for k
      by (rule back_keys_get(1) [OF assms(1)]) (metis c(2) set_map that)
    have rk: "the_key (back_rule c) (ruleNodeId (cr_key r)) = cr_key r"
      using back_keys_get(3) [OF assms(1), of "cr_key r"] r by (simp add: the_key_def)
    show ?thesis
      by (rule decompile_rule_back [OF num c(1,3-5) k rk, where co = "recompile_options options" and str = str])
         (auto simp: recompile_options_def)
  qed
  then obtain W D where wd: "\<forall>r\<in>set (cfg_rules c). decompile_rule toNumber options r =
        Some (W r, processing_node_of (ruleNodeId (cr_key r)) (RuleNode (D r))) \<and>
      compile_rule toNumber str (recompile_options options) (back_module c) (back_rule c) (ruleNodeId (cr_key r), D r) = ([], r)"
    by metis
  then have "those (map (decompile_rule toNumber options) rs) = Some (zip (map W rs) (rule_nodes D rs))"
    if "set rs \<subseteq> set (cfg_rules c)" for rs
    using that by (induction rs) (auto simp: rule_nodes_def)
  then show ?thesis using wd by (intro that [of "map W (cfg_rules c)" D]) auto
qed

lemma back_edge_source:
  assumes "canonical options c" and e: "e \<in> set (cfg_edges c)"
    and table: "\<And>n. n \<in> set (decompile_nodes c rs) \<Longrightarrow> nodeOf (gn_id n) = Some n"
  shows "\<exists>n. nodeOf (ge_source (decompile_edge c (j, e))) = Some n \<and>
     source_key (back_module c) (back_block c) n = Some (ce_sourceKey e, ce_sourceKind e)"
proof (cases "ce_sourceKind e")
  case MODULE
  then have k: "jm_get (back_module c) (moduleNodeId (ce_sourceKey e)) = Some (ce_sourceKey e)"
    using assms(1) e back_keys_get(1) [OF assms(1), of "ce_sourceKey e"] by (force simp: canonical_def references_resolved_def)
  show ?thesis
  proof (cases "ce_sourceKey e \<in> csch_sourceKey ` set (cfg_schedules c)")
    case True
    then obtain s where s: "s \<in> set (cfg_schedules c)" "csch_sourceKey s = ce_sourceKey e" by auto
    then have "decompile_schedule s \<in> set (decompile_nodes c rs)" by (simp add: decompile_nodes_def)
    from table [OF this] s k True MODULE show ?thesis
      by (simp add: decompile_schedule_def processing_node_of_def decompile_edge_def source_key_def not_blank trimmed_reference_def)
  next
    case False
    with MODULE e have "ce_sourceKey e \<in> set (inferredEventSourceKeys c)" by (auto simp: inferred_in)
    then have "decompile_event_source (ce_sourceKey e) \<in> set (decompile_nodes c rs)" by (simp add: decompile_nodes_def)
    from table [OF this] k False MODULE show ?thesis
      by (simp add: decompile_event_source_def processing_node_of_def decompile_edge_def source_key_def not_blank trimmed_reference_def)
  qed
next
  case BLOCK
  then have b: "ce_sourceKey e \<in> cbk_key ` set (cfg_blocks c)"
    using assms(1) e by (force simp: canonical_def references_resolved_def)
  then obtain b where "b \<in> set (cfg_blocks c)" "cbk_key b = ce_sourceKey e" by auto
  moreover from this have "decompile_block b \<in> set (decompile_nodes c rs)" by (simp add: decompile_nodes_def)
  ultimately show ?thesis
    using table [of "decompile_block b"] BLOCK back_keys_get(2) [OF assms(1) b]
    by (simp add: decompile_block_def processing_node_of_def decompile_edge_def source_key_def)
qed

lemma edge_back:
  assumes c: "canonical options c" and num: "number_texts toNumber" and e: "e \<in> set (cfg_edges c)"
    and table: "\<And>n. n \<in> set (decompile_nodes c rs) \<Longrightarrow> nodeOf (gn_id n) = Some n"
  shows "compile_edge toNumber (recompile_options options) (back_module c) (back_block c) nodeOf (decompile_edge c (j, e)) = Inr (Some e)"
proof -
  have b: "ce_targetKey e \<in> cbk_key ` set (cfg_blocks c)" and p: "port_ok (ce_sourcePortOrField e)" "port_ok (ce_targetInput e)"
    using c e by (simp_all add: canonical_def references_resolved_def)
  then obtain b where b': "b \<in> set (cfg_blocks c)" "cbk_key b = ce_targetKey e" by auto
  then have "decompile_block b \<in> set (decompile_nodes c rs)" by (simp add: decompile_nodes_def)
  from table [OF this] b' have t: "nodeOf (blockNodeId (ce_targetKey e)) = Some (decompile_block b)"
    by (simp add: decompile_block_def processing_node_of_def)
  have h: "numericHandle toNumber (Some (decimal q)) = Some q" if "port_ok q" for q
    using num that by (simp add: numericHandle_def number_texts_def port_ok_def)
  obtain n where n: "nodeOf (ge_source (decompile_edge c (j, e))) = Some n"
    "source_key (back_module c) (back_block c) n = Some (ce_sourceKey e, ce_sourceKind e)"
    using back_edge_source [OF c e table] by blast
  have f: "ge_target (decompile_edge c (j, e)) = blockNodeId (ce_targetKey e)"
    "ge_sourceHandle (decompile_edge c (j, e)) = Some (decimal (ce_sourcePortOrField e))"
    "ge_targetHandle (decompile_edge c (j, e)) = Some (decimal (ce_targetInput e))"
    by (simp_all add: decompile_edge_def)
  show ?thesis
    using n t back_keys_get(2) [OF c b] h [OF p(1)] h [OF p(2)]
    by (simp add: compile_edge_def f recompile_options_def decompile_block_def processing_node_of_def Let_def)
qed

lemma lefts_rights_Inr [simp]: "lefts (map (\<lambda>x. Inr (f x)) xs) = []" "rights (map (\<lambda>x. Inr (f x)) xs) = map f xs"
  by (induction xs) (simp_all add: lefts_def rights_def)

lemma map_snd_enumerate: "map (\<lambda>p. f (snd p)) (enumerate n xs) = map f xs"
  by (simp add: map_map [symmetric, unfolded comp_def] del: map_map)

theorem recompile:
  assumes c: "canonical options c" and num: "number_texts toNumber"
  shows "\<exists>d. decompileConfig toNumber options c = Some d \<and>
     compileConfig toNumber str (recompile_input c d) (recompile_options options) = Some (Inr c)"
proof -
  obtain W D where r: "those (map (decompile_rule toNumber options) (cfg_rules c)) = Some (zip W (rule_nodes D (cfg_rules c)))"
    "length W = length (cfg_rules c)"
    "\<forall>r\<in>set (cfg_rules c). compile_rule toNumber str (recompile_options options) (back_module c) (back_rule c)
        (ruleNodeId (cr_key r), D r) = ([], r)"
    by (rule rules_back [OF c num])
  let ?nodes = "decompile_nodes c (rule_nodes D (cfg_rules c))"
  obtain d where d: "decompileConfig toNumber options c = Some d"
    "dr_physicalNodes d = concat (map (snd \<circ> decompile_module) (cfg_modules c))"
    "dr_processing d = \<lparr>pg_nodes = ?nodes, pg_edges = map (decompile_edge c) (enumerate 0 (cfg_edges c))\<rparr>"
    using r(1,2) by (simp add: decompileConfig_def rule_nodes_def)
  let ?i = "recompile_input c d"
  have placed: "\<forall>m\<in>set (cfg_modules c). module_placed m" using c by (simp add: canonical_def)
  have nodes: "moduleNodes (in_physicalNodes ?i) = map (\<lambda>m. (moduleNodeId (cm_key m), module_data m)) (cfg_modules c)"
    "pg_nodes (in_processing ?i) = ?nodes" "pg_edges (in_processing ?i) = map (decompile_edge c) (enumerate 0 (cfg_edges c))"
    by (simp_all add: recompile_input_def d decompiled_modules [OF placed, unfolded comp_def] comp_def)
  have keys: "moduleKeys ?i = back_module c" "blockKeys ?i = back_block c" "ruleKeys ?i = back_rule c"
    by (simp_all add: moduleKeys_def blockKeys_def ruleKeys_def nodes decompiled_nodes back_keys_def prefixed_def comp_def
        moduleNodeId_def blockNodeId_def ruleNodeId_def decompile_block_def processing_node_of_def)
  have table: "jm_get (node_table (in_processing ?i)) (gn_id n) = Some n" if "n \<in> set ?nodes" for n
  proof -
    have "jm_of (map (\<lambda>n. (gn_id n, n)) ?nodes) = map (\<lambda>n. (gn_id n, n)) ?nodes"
      using decompiled_distinct [OF c HOL.refl, of D] by (intro jm_of_distinct) (simp add: comp_def)
    with that decompiled_distinct [OF c HOL.refl, of D] show ?thesis
      by (simp add: node_table_def nodes comp_def)
  qed
  have ms: "compiled_modules toNumber str ?i = map (Pair []) (cfg_modules c)"
    by (simp add: compiled_modules_def nodes keys module_back [OF c num])
  have ss: "compiled_schedules ?i = map Inr (cfg_schedules c)"
    by (simp add: compiled_schedules_def nodes keys decompiled_nodes schedule_back [OF c])
  have rs: "compiled_rules toNumber str ?i (recompile_options options) = map (Pair []) (cfg_rules c)"
    using r(3) by (simp add: compiled_rules_def nodes keys decompiled_nodes)
  have bs: "compiled_blocks toNumber str ?i = map (Pair []) (cfg_blocks c)"
    by (simp add: compiled_blocks_def nodes keys decompiled_nodes block_back [OF c num])
  have "compiled_edges toNumber ?i (recompile_options options) = map (\<lambda>p. Inr (Some (snd p))) (enumerate 0 (cfg_edges c))"
    unfolding compiled_edges_def nodes keys map_map
    by (rule map_cong [OF HOL.refl])
       (auto intro!: edge_back [OF c num _ table] simp: in_set_enumerate_eq)
  then have es: "compiled_edges toNumber ?i (recompile_options options) = map (\<lambda>e. Inr (Some e)) (cfg_edges c)"
    using map_snd_enumerate [of "\<lambda>e. Inr (Some e)" 0 "cfg_edges c"] by simp
  have "compile_errors toNumber str ?i (recompile_options options) [] = []"
    by (simp add: compile_errors_def ms ss rs bs es capacity_errors_def capacity_error_def budget_errors_def
        comp_def concat_singletons Let_def)
  moreover have "compiled_config toNumber str ?i (recompile_options options) = c"
  proof -
    have sorted: "sort_key cm_key (cfg_modules c) = cfg_modules c" "sort_key csch_sourceKey (cfg_schedules c) = cfg_schedules c"
      "sort_key cr_key (cfg_rules c) = cfg_rules c" "sort_key cbk_key (cfg_blocks c) = cfg_blocks c"
      "sort_key edge_order (cfg_edges c) = cfg_edges c"
      using c by (simp_all add: canonical_def sort_key_sorted sorted_keys_upto)
    have i: "in_mqtt ?i = cfg_mqtt c" "in_connectivity ?i = cfg_connectivity c" "in_energy ?i = cfg_energy c"
      by (simp_all add: recompile_input_def)
    show ?thesis by (simp add: compiled_config_def ms ss rs bs es comp_def concat_singletons i sorted)
  qed
  ultimately show ?thesis using d(1) by (auto simp: compileConfig_def Let_def)
qed

section \<open>A small configuration\<close>

text \<open>Decimal texts, as \<open>Number\<close> reads them.\<close>

definition read_decimal :: "jsstr \<Rightarrow> int option" where
  "read_decimal s = (if s \<noteq> [] \<and> list_all is_digit_char s then Some (int (parse_nat s)) else None)"

lemma read_decimal_ok: "number_texts read_decimal"
  by (simp add: number_texts_def read_decimal_def decimal_def nat_decimal_props)

definition sample_config :: CanonicalConfig where
  "sample_config =
     \<lparr>cfg_modules = [\<lparr>cm_key = 1, cm_portId = 1, cm_typeId = [], cm_properties = [(3, PBool True)],
                     cm_bayId = Some 1, cm_powerRailId = Some 2\<rparr>],
      cfg_schedules = [\<lparr>csch_sourceKey = 1, csch_periodMs = 1000, csch_enabled = True\<rparr>],
      cfg_rules = [\<lparr>cr_key = 1, cr_typeId = [], cr_properties = [(1, PInt 1), (2, PInt 7), (4, PText [])]\<rparr>],
      cfg_mqtt = \<lparr>cmq_enabled = False, cmq_host = [], cmq_port = 1883, cmq_baseTopic = [], cmq_security = 0, cmq_credentialId = 0\<rparr>,
      cfg_connectivity = 0, cfg_energy = \<lparr>cen_bleAvailability = 0, cen_advertisingWindowMs = 0, cen_advertisingPeriodMs = 0\<rparr>,
      cfg_blocks = [\<lparr>cbk_key = 1, cbk_typeId = [], cbk_minVersion = 0, cbk_exactVersion = 0, cbk_properties = []\<rparr>],
      cfg_edges = [\<lparr>ce_sourceKey = 1, ce_sourcePortOrField = 0, ce_targetKey = 1, ce_targetInput = 0, ce_sourceKind = MODULE\<rparr>]\<rparr>"

text \<open>The Rule commands the Module of its field 1 with the command of its field 2.\<close>

definition sample_resolvers :: DecompileOptions where
  "sample_resolvers = \<lparr>do_resolveRuleActionFields = (\<lambda>_. Some (1, 2)), do_resolveRuleSourceFields = (\<lambda>_. None)\<rparr>"

lemma sample_canonical: "canonical sample_resolvers sample_config"
  by (simp add: canonical_def sample_resolvers_def sample_config_def keys_upto_def props_ok_def module_placed_def
      reference_ok_def port_ok_def references_resolved_def)

end
