(* ===== verification/ConfigDiff.thy ===== *)
theory ConfigDiff
  imports Recompile
begin

text \<open>
  The semantic difference of two configurations: \<open>config-deployment/src/diff.ts\<close>. Modules, schedules, rules
  and blocks are compared by key and JSON text, edges by all their fields.
\<close>

section \<open>JSON text\<close>

text \<open>
  \<open>stableStringify\<close>: \<open>JSON.stringify\<close> where a bigint becomes the string of its digits and \<open>n\<close>. Properties
  that are \<open>undefined\<close> are left out; the numbers of a configuration are integers below \<open>10^21\<close>, which print
  in decimal.
\<close>

definition json_object :: "(jsstr \<times> jsstr option) list \<Rightarrow> jsstr" where
  "json_object kvs =
     123 # join_with 44 (concat (map (\<lambda>(k, v). case v of None \<Rightarrow> [] | Some t \<Rightarrow> [quote_text k @ 58 # t]) kvs)) @ [125]"

definition json_bool :: "bool \<Rightarrow> jsstr" where
  "json_bool b = (if b then js ''true'' else js ''false'')"

fun property_json :: "PropertyValue \<Rightarrow> jsstr" where
  "property_json (PBool b) = json_bool b"
| "property_json (PInt n) = quote_text (decimal n @ js ''n'')"
| "property_json (PText s) = quote_text s"

definition properties_json :: "PropertySet \<Rightarrow> jsstr" where
  "properties_json ps = json_object (map (\<lambda>(k, v). (decimal k, Some (property_json v))) ps)"

definition module_json :: "CanonicalModule \<Rightarrow> jsstr" where
  "module_json m = json_object
     [(js ''key'', Some (decimal (cm_key m))), (js ''portId'', Some (decimal (cm_portId m))),
      (js ''typeId'', Some (quote_text (cm_typeId m))), (js ''properties'', Some (properties_json (cm_properties m))),
      (js ''bayId'', map_option decimal (cm_bayId m)), (js ''powerRailId'', map_option decimal (cm_powerRailId m))]"

definition schedule_json :: "CanonicalSchedule \<Rightarrow> jsstr" where
  "schedule_json s = json_object
     [(js ''sourceKey'', Some (decimal (csch_sourceKey s))), (js ''periodMs'', Some (decimal (csch_periodMs s))),
      (js ''enabled'', Some (json_bool (csch_enabled s)))]"

definition rule_json :: "CanonicalRule \<Rightarrow> jsstr" where
  "rule_json r = json_object
     [(js ''key'', Some (decimal (cr_key r))), (js ''typeId'', Some (quote_text (cr_typeId r))),
      (js ''properties'', Some (properties_json (cr_properties r)))]"

definition block_json :: "CanonicalBlock \<Rightarrow> jsstr" where
  "block_json b = json_object
     [(js ''key'', Some (decimal (cbk_key b))), (js ''typeId'', Some (quote_text (cbk_typeId b))),
      (js ''minVersion'', Some (decimal (cbk_minVersion b))), (js ''exactVersion'', Some (decimal (cbk_exactVersion b))),
      (js ''properties'', Some (properties_json (cbk_properties b)))]"

definition mqtt_json :: "CanonicalMqtt \<Rightarrow> jsstr" where
  "mqtt_json q = json_object
     [(js ''enabled'', Some (json_bool (cmq_enabled q))), (js ''host'', Some (quote_text (cmq_host q))),
      (js ''port'', Some (decimal (cmq_port q))), (js ''baseTopic'', Some (quote_text (cmq_baseTopic q))),
      (js ''security'', Some (decimal (cmq_security q))), (js ''credentialId'', Some (decimal (cmq_credentialId q)))]"

definition energy_json :: "CanonicalEnergy \<Rightarrow> jsstr" where
  "energy_json e = json_object
     [(js ''bleAvailability'', Some (decimal (cen_bleAvailability e))),
      (js ''advertisingWindowMs'', Some (decimal (cen_advertisingWindowMs e))),
      (js ''advertisingPeriodMs'', Some (decimal (cen_advertisingPeriodMs e)))]"

section \<open>Sections\<close>

record 'a SectionDiff =
  sd_added :: "'a list"
  sd_removed :: "'a list"
  sd_changed :: "('a \<times> 'a) list"

record ConfigDiff =
  cd_modules :: "CanonicalModule SectionDiff"
  cd_schedules :: "CanonicalSchedule SectionDiff"
  cd_rules :: "CanonicalRule SectionDiff"
  cd_blocks :: "CanonicalBlock SectionDiff"
  cd_edges :: "CanonicalEdge SectionDiff"
  cd_policyChanged :: bool

definition diffByKey :: "('a \<Rightarrow> jsstr) \<Rightarrow> ('a \<Rightarrow> int) \<Rightarrow> 'a list \<Rightarrow> 'a list \<Rightarrow> 'a SectionDiff" where
  "diffByKey stableStringify keyOf before after =
     (let beforeByKey = jm_of (map (\<lambda>x. (keyOf x, x)) before);
          afterByKey = jm_of (map (\<lambda>x. (keyOf x, x)) after) in
      \<lparr>sd_added = concat (map (\<lambda>(key, a). case jm_get beforeByKey key of None \<Rightarrow> [a] | Some b \<Rightarrow> []) afterByKey),
       sd_removed = map snd (filter (\<lambda>(key, b). \<not> jm_has afterByKey key) beforeByKey),
       sd_changed = concat (map (\<lambda>(key, a). case jm_get beforeByKey key of
           None \<Rightarrow> []
         | Some b \<Rightarrow> if stableStringify b \<noteq> stableStringify a then [(b, a)] else []) afterByKey)\<rparr>)"

definition edge_identity :: "CanonicalEdge \<Rightarrow> jsstr" where
  "edge_identity e = join_with 58 (map decimal
     [source_kind_code (ce_sourceKind e), ce_sourceKey e, ce_sourcePortOrField e, ce_targetKey e, ce_targetInput e])"

definition diffEdges :: "CanonicalEdge list \<Rightarrow> CanonicalEdge list \<Rightarrow> CanonicalEdge SectionDiff" where
  "diffEdges before after =
     (let beforeSet = jm_of (map (\<lambda>e. (edge_identity e, e)) before);
          afterSet = jm_of (map (\<lambda>e. (edge_identity e, e)) after) in
      \<lparr>sd_added = map snd (filter (\<lambda>(i, e). \<not> jm_has beforeSet i) afterSet),
       sd_removed = map snd (filter (\<lambda>(i, e). \<not> jm_has afterSet i) beforeSet),
       sd_changed = []\<rparr>)"

definition diffConfigs :: "CanonicalConfig \<Rightarrow> CanonicalConfig \<Rightarrow> ConfigDiff" where
  "diffConfigs before after =
     \<lparr>cd_modules = diffByKey module_json cm_key (cfg_modules before) (cfg_modules after),
      cd_schedules = diffByKey schedule_json csch_sourceKey (cfg_schedules before) (cfg_schedules after),
      cd_rules = diffByKey rule_json cr_key (cfg_rules before) (cfg_rules after),
      cd_blocks = diffByKey block_json cbk_key (cfg_blocks before) (cfg_blocks after),
      cd_edges = diffEdges (cfg_edges before) (cfg_edges after),
      cd_policyChanged = (mqtt_json (cfg_mqtt before) \<noteq> mqtt_json (cfg_mqtt after) \<or>
         cfg_connectivity before \<noteq> cfg_connectivity after \<or> energy_json (cfg_energy before) \<noteq> energy_json (cfg_energy after))\<rparr>"

definition section_empty :: "'a SectionDiff \<Rightarrow> bool" where
  "section_empty s \<longleftrightarrow> sd_added s = [] \<and> sd_removed s = [] \<and> sd_changed s = []"

definition isConfigDiffEmpty :: "ConfigDiff \<Rightarrow> bool" where
  "isConfigDiffEmpty d \<longleftrightarrow> \<not> cd_policyChanged d \<and> section_empty (cd_modules d) \<and> section_empty (cd_schedules d) \<and>
     section_empty (cd_rules d) \<and> section_empty (cd_blocks d) \<and> section_empty (cd_edges d)"

section \<open>What a difference says\<close>

lemma table_get: "jm_get (jm_of (map (\<lambda>x. (f x, x)) xs)) k = find (\<lambda>x. f x = k) (rev xs)"
  by (induction xs rule: rev_induct) (simp_all add: jm_of_def jm.get_put)

lemma table_in: "(k, x) \<in> set (jm_of (map (\<lambda>x. (f x, x)) xs)) \<longleftrightarrow> find (\<lambda>x. f x = k) (rev xs) = Some x"
  using jm_get_in [OF jm_wf_of, of "map (\<lambda>x. (f x, x)) xs" k x] by (simp add: table_get)

lemma find_distinct: "distinct (map f xs) \<Longrightarrow> find (\<lambda>x. f x = k) (rev xs) = Some x \<longleftrightarrow> x \<in> set xs \<and> f x = k"
  by (induction xs rule: rev_induct) (auto simp: image_iff)

lemma find_None: "find (\<lambda>x. f x = k) (rev xs) = None \<longleftrightarrow> k \<notin> f ` set xs"
  by (auto simp: find_None_iff)

lemma added_in: "x \<in> set (concat (map (\<lambda>(k, a). case g k of None \<Rightarrow> [a] | Some b \<Rightarrow> []) A)) \<longleftrightarrow> (\<exists>k. (k, x) \<in> set A \<and> g k = None)"
  by (induction A) (auto split: option.splits)

lemma removed_in: "x \<in> set (map snd (filter (\<lambda>(k, b). \<not> P k) B)) \<longleftrightarrow> (\<exists>k. (k, x) \<in> set B \<and> \<not> P k)"
  by (induction B) auto

lemma changed_in:
  "(b, a) \<in> set (concat (map (\<lambda>(k, a). case g k of None \<Rightarrow> [] | Some b \<Rightarrow> if t b \<noteq> t a then [(b, a)] else []) A)) \<longleftrightarrow>
     (\<exists>k. (k, a) \<in> set A \<and> g k = Some b \<and> t b \<noteq> t a)"
  by (induction A) (auto split: option.splits)

lemma diffByKey_exact:
  assumes "distinct (map f before)" and "distinct (map f after)"
  shows "set (sd_added (diffByKey text f before after)) = {x \<in> set after. f x \<notin> f ` set before}"
    and "set (sd_removed (diffByKey text f before after)) = {x \<in> set before. f x \<notin> f ` set after}"
    and "set (sd_changed (diffByKey text f before after)) =
       {(b, a). b \<in> set before \<and> a \<in> set after \<and> f b = f a \<and> text b \<noteq> text a}"
proof -
  let ?B = "jm_of (map (\<lambda>x. (f x, x)) before)" and ?A = "jm_of (map (\<lambda>x. (f x, x)) after)"
  have A: "(k, x) \<in> set ?A \<longleftrightarrow> x \<in> set after \<and> f x = k" for k x by (simp add: table_in find_distinct assms)
  have B: "(k, x) \<in> set ?B \<longleftrightarrow> x \<in> set before \<and> f x = k" for k x by (simp add: table_in find_distinct assms)
  have gB: "jm_get ?B k = Some b \<longleftrightarrow> b \<in> set before \<and> f b = k" for k b by (simp add: table_get find_distinct assms)
  have nB: "jm_get ?B k = None \<longleftrightarrow> k \<notin> f ` set before" for k by (simp add: table_get find_None)
  have nA: "jm_has ?A k \<longleftrightarrow> k \<in> f ` set after" for k by (simp add: jm_has_def table_get find_None)
  have "x \<in> set (sd_added (diffByKey text f before after)) \<longleftrightarrow> (\<exists>k. (k, x) \<in> set ?A \<and> jm_get ?B k = None)" for x
    by (simp only: diffByKey_def Let_def SectionDiff.simps added_in)
  then show "set (sd_added (diffByKey text f before after)) = {x \<in> set after. f x \<notin> f ` set before}"
    unfolding A nB by blast
  have "x \<in> set (sd_removed (diffByKey text f before after)) \<longleftrightarrow> (\<exists>k. (k, x) \<in> set ?B \<and> \<not> jm_has ?A k)" for x
    by (simp only: diffByKey_def Let_def SectionDiff.simps removed_in)
  then show "set (sd_removed (diffByKey text f before after)) = {x \<in> set before. f x \<notin> f ` set after}"
    unfolding B nA by blast
  have "(b, a) \<in> set (sd_changed (diffByKey text f before after)) \<longleftrightarrow>
      (\<exists>k. (k, a) \<in> set ?A \<and> jm_get ?B k = Some b \<and> text b \<noteq> text a)" for a b
    by (simp only: diffByKey_def Let_def SectionDiff.simps changed_in)
  then show "set (sd_changed (diffByKey text f before after)) =
      {(b, a). b \<in> set before \<and> a \<in> set after \<and> f b = f a \<and> text b \<noteq> text a}"
    unfolding A gB by auto
qed

text \<open>Two configurations whose sections have the same keys and texts have an empty difference.\<close>

lemma same_texts_empty:
  assumes "map (\<lambda>x. (f x, text x)) before = map (\<lambda>x. (f x, text x)) after"
  shows "section_empty (diffByKey text f before after)"
proof -
  have g: "map_option text (find (\<lambda>x. f x = k) (rev before)) = map_option text (find (\<lambda>x. f x = k) (rev after))" for k
    using assms
  proof (induction before arbitrary: after rule: rev_induct)
    case (snoc x xs)
    then show ?case by (cases after rule: rev_cases) auto
  qed simp
  have n: "find (\<lambda>x. f x = k) (rev before) = None \<longleftrightarrow> find (\<lambda>x. f x = k) (rev after) = None" for k
    using g [of k] by (metis map_option_is_None)
  have t: "text b = text a" if "find (\<lambda>x. f x = k) (rev before) = Some b" "find (\<lambda>x. f x = k) (rev after) = Some a" for k a b
    using g [of k] that by simp
  have no: "xs = []" if "\<And>x. x \<notin> set xs" for xs :: "'z list" using that by (cases xs) auto
  have "x \<notin> set (sd_added (diffByKey text f before after))" for x
    by (simp only: diffByKey_def Let_def SectionDiff.simps added_in table_in table_get) (use n in \<open>metis option.distinct(1)\<close>)
  moreover have "x \<notin> set (sd_removed (diffByKey text f before after))" for x
    by (simp only: diffByKey_def Let_def SectionDiff.simps removed_in table_in table_get jm_has_def) (use n in \<open>metis option.distinct(1)\<close>)
  moreover have "(b, a) \<notin> set (sd_changed (diffByKey text f before after))" for a b
    by (simp only: diffByKey_def Let_def SectionDiff.simps changed_in table_in table_get) (use t in metis)
  ultimately show ?thesis unfolding section_empty_def by (intro conjI no) auto
qed

lemma same_edges_empty: "section_empty (diffEdges es es)"
proof -
  have "jm_has m i" if "(i, e) \<in> set m" for m :: "(jsstr \<times> CanonicalEdge) list" and i e
    using that by (force simp: jm_has_iff)
  then show ?thesis by (auto simp: section_empty_def diffEdges_def Let_def filter_empty_conv)
qed

text \<open>A bigint property and the string of its digits and \<open>n\<close> have the same text.\<close>

fun as_text :: "PropertyValue \<Rightarrow> PropertyValue" where
  "as_text (PInt n) = PText (decimal n @ js ''n'')"
| "as_text v = v"

definition retyped :: "CanonicalModule \<Rightarrow> CanonicalModule" where
  "retyped m = m\<lparr>cm_properties := map (\<lambda>(k, v). (k, as_text v)) (cm_properties m)\<rparr>"

lemma property_json_as_text: "property_json (as_text v) = property_json v"
  by (cases v) simp_all

lemma retyped_same: "cm_key (retyped m) = cm_key m" "module_json (retyped m) = module_json m"
  by (simp_all add: retyped_def module_json_def properties_json_def comp_def split_def property_json_as_text)

lemma diff_misses_types: "isConfigDiffEmpty (diffConfigs c (c\<lparr>cfg_modules := map retyped (cfg_modules c)\<rparr>))"
  by (simp add: isConfigDiffEmpty_def diffConfigs_def same_texts_empty same_edges_empty comp_def retyped_same)

text \<open>Edges with the same identity are the same.\<close>

lemma colon_split:
  "c \<notin> set a \<Longrightarrow> c \<notin> set b \<Longrightarrow> a @ c # x = b @ c # y \<Longrightarrow> a = b \<and> x = y"
  by (induction a arbitrary: b) (metis append_Nil list.inject list.set_intros(1) neq_Nil_conv append_Cons,
    metis append_Cons append_Nil list.inject list.set_intros neq_Nil_conv)

lemma edge_identity_inj: "edge_identity e = edge_identity e' \<longleftrightarrow> e = e'"
proof
  have no: "58 \<notin> set (decimal n)" for n using decimal_chars [of 58 n] by auto
  assume "edge_identity e = edge_identity e'"
  then have "source_kind_code (ce_sourceKind e) = source_kind_code (ce_sourceKind e') \<and> ce_sourceKey e = ce_sourceKey e' \<and>
      ce_sourcePortOrField e = ce_sourcePortOrField e' \<and> ce_targetKey e = ce_targetKey e' \<and> ce_targetInput e = ce_targetInput e'"
    unfolding edge_identity_def by (auto simp: decimal_inj dest!: colon_split [OF no no])
  then show "e = e'" by (cases e; cases e') (cases "ce_sourceKind e"; cases "ce_sourceKind e'"; auto)
qed simp

end
