(* ===== verification/Deploy.thy ===== *)
theory Deploy
  imports ConfigDiff Project
begin

text \<open>
  Deploying a configuration: \<open>config-deployment/src/deploy.ts\<close>. The orchestrator talks to a Core through three
  calls; it is the tree of the calls it makes and of what it does with each answer. SHA-256 is the parameter
  \<open>sha256\<close>, the float of an integer the parameter \<open>float\<close>.
\<close>

section \<open>Calls of a Core\<close>

text \<open>A rejected call: a \<open>PROTOCOL_ERROR\<close> with its status, or anything else.\<close>

datatype wire_error = ProtocolError int | OtherError

record ConfigAnswer =
  ca_generation :: int
  ca_sha256 :: bytes
  ca_configBytes :: bytes

datatype ValidateAnswer = Accepted | Rejected int int int

record ApplyAnswer =
  aa_changed :: bool
  aa_generation :: int
  aa_sha256 :: bytes

datatype 'r wire =
    Return 'r
  | AskValidate bytes "wire_error + ValidateAnswer \<Rightarrow> 'r wire"
  | AskApply int bytes "wire_error + ApplyAnswer \<Rightarrow> 'r wire"
  | AskGet "wire_error + ConfigAnswer \<Rightarrow> 'r wire"

text \<open>A client: how the three calls change the world and what they answer.\<close>

record 's wire_client =
  wc_validate :: "bytes \<Rightarrow> 's \<Rightarrow> (wire_error + ValidateAnswer) \<times> 's"
  wc_apply :: "int \<Rightarrow> bytes \<Rightarrow> 's \<Rightarrow> (wire_error + ApplyAnswer) \<times> 's"
  wc_get :: "'s \<Rightarrow> (wire_error + ConfigAnswer) \<times> 's"

primrec run_wire :: "'s wire_client \<Rightarrow> 'r wire \<Rightarrow> 's \<Rightarrow> 'r \<times> 's" where
  "run_wire client (Return r) = (\<lambda>s. (r, s))"
| "run_wire client (AskValidate bs k) = (\<lambda>s. case wc_validate client bs s of (a, t) \<Rightarrow> run_wire client (k a) t)"
| "run_wire client (AskApply g bs k) = (\<lambda>s. case wc_apply client g bs s of (a, t) \<Rightarrow> run_wire client (k a) t)"
| "run_wire client (AskGet k) = (\<lambda>s. case wc_get client s of (a, t) \<Rightarrow> run_wire client (k a) t)"

section \<open>Outcomes\<close>

datatype DeploymentOutcomeKind =
    SUCCESS | NO_OP | VALIDATION_FAILED | PROFILE_OR_PACK_MISSING | STALE_GENERATION
  | AMBIGUOUS_RESOLVED_APPLIED | AMBIGUOUS_RESOLVED_NOT_APPLIED | READBACK_MISMATCH | REMOTE_ERROR

definition STATUS_CONFLICT :: int where "STATUS_CONFLICT = 4"

record DeploymentContext =
  dx_dryRun :: DryRunOptions
  dx_expectedGeneration :: int
  dx_sourceProjectHash :: jsstr
  dx_target :: jsstr
  dx_deploymentId :: jsstr
  dx_timestamp :: jsstr

record DeploymentResult =
  re_outcome :: DeploymentOutcomeKind
  re_record :: "DeploymentRecordV1 option"
  re_issues :: "(DomainError \<times> severity) list"
  re_liveConfig :: "CanonicalConfig option"
  re_diff :: "ConfigDiff option"

definition outcome :: "DeploymentOutcomeKind \<Rightarrow> (DomainError \<times> severity) list \<Rightarrow> DeploymentResult" where
  "outcome kind issues = \<lparr>re_outcome = kind, re_record = None, re_issues = issues, re_liveConfig = None, re_diff = None\<rparr>"

definition bytesToHex :: "bytes \<Rightarrow> jsstr" where
  "bytesToHex bs = concat (map (\<lambda>b. [hex_unit (unat b div 16), hex_unit (unat b mod 16)]) bs)"

definition deployment_record :: "(int \<Rightarrow> float64) \<Rightarrow> DeploymentContext \<Rightarrow> int \<Rightarrow> bytes \<Rightarrow> DeploymentRecordV1" where
  "deployment_record float context generation sha =
     \<lparr>dr_deploymentId = dx_deploymentId context, dr_target = dx_target context, dr_timestamp = dx_timestamp context,
      dr_sourceProjectHash = dx_sourceProjectHash context, dr_configGeneration = Some (float generation),
      dr_configHash = Some (bytesToHex sha), dr_nodeRedRevision = None, dr_catalogFingerprint = None,
      dr_featureSetHash = None, dr_outcome = js ''success''\<rparr>"

definition deployment_issue :: "string \<Rightarrow> jsstr \<Rightarrow> jsstr \<Rightarrow> DomainError \<times> severity" where
  "deployment_issue code place target = (domainError code [js ''config-deployment'', place] target, IsError)"

definition remoteFailure :: "string \<Rightarrow> DomainError \<times> severity" where
  "remoteFailure operation = deployment_issue ''config-deployment.remote_error'' (js operation) (js operation)"

text \<open>The errors of the configuration decoder.\<close>

fun decode_issue :: "decode_failure \<Rightarrow> DomainError" where
  "decode_issue (MalformedCbor target) = domainError ''config-decompiler.malformed_cbor'' [js ''config-decompiler'', js ''cbor''] target"
| "decode_issue (UnsupportedWireVersion version) = domainError ''config-decompiler.unsupported_wire_version''
     [js ''config-decompiler'', js ''cbor'', js ''version''] (decimal version)"

section \<open>The orchestrator\<close>

definition resolveStaleGeneration :: "CanonicalConfig \<Rightarrow> int \<Rightarrow> DeploymentResult wire" where
  "resolveStaleGeneration candidate expectedGeneration =
     AskGet (\<lambda>answer. Return (case answer of
       Inl _ \<Rightarrow> outcome REMOTE_ERROR [remoteFailure ''getConfig (conflict re-fetch)'']
     | Inr live \<Rightarrow>
         if ca_generation live = expectedGeneration then outcome REMOTE_ERROR [remoteFailure ''applyConfig'']
         else case decodeConfigCbor (ca_configBytes live) of
                Inl e \<Rightarrow> outcome REMOTE_ERROR [(decode_issue e, IsError)]
              | Inr liveConfig \<Rightarrow>
                  (outcome STALE_GENERATION
                     [deployment_issue ''config-deployment.stale_generation'' (js ''applyConfig'') (decimal (ca_generation live))])
                  \<lparr>re_liveConfig := Some liveConfig, re_diff := Some (diffConfigs liveConfig candidate)\<rparr>))"

definition reconcileAmbiguousApply :: "(int \<Rightarrow> float64) \<Rightarrow> bytes \<Rightarrow> DeploymentContext \<Rightarrow> DeploymentResult wire" where
  "reconcileAmbiguousApply float candidateHash context =
     AskGet (\<lambda>answer. Return (case answer of
       Inl _ \<Rightarrow> outcome REMOTE_ERROR [remoteFailure ''applyConfig'', remoteFailure ''getConfig (reconciliation)'']
     | Inr live \<Rightarrow>
         if ca_sha256 live = candidateHash
         then (outcome AMBIGUOUS_RESOLVED_APPLIED [])
                \<lparr>re_record := Some (deployment_record float context (ca_generation live) (ca_sha256 live))\<rparr>
         else outcome AMBIGUOUS_RESOLVED_NOT_APPLIED [remoteFailure ''applyConfig'']))"

text \<open>The answer of \<open>applyConfig\<close>, and the read-back.\<close>

definition verify_apply :: "(int \<Rightarrow> float64) \<Rightarrow> bytes \<Rightarrow> DeploymentContext \<Rightarrow> ApplyAnswer \<Rightarrow> DeploymentResult wire" where
  "verify_apply float candidateHash context applied =
     (let success = deployment_record float context (aa_generation applied) (aa_sha256 applied) in
      if \<not> aa_changed applied then Return ((outcome NO_OP [])\<lparr>re_record := Some success\<rparr>)
      else AskGet (\<lambda>answer. Return (case answer of
        Inl _ \<Rightarrow> outcome REMOTE_ERROR [remoteFailure ''getConfig (read-back)'']
      | Inr readBack \<Rightarrow>
          if ca_generation readBack \<noteq> aa_generation applied \<or> ca_sha256 readBack \<noteq> candidateHash
          then outcome READBACK_MISMATCH
                 [deployment_issue ''config-deployment.readback_mismatch'' (js ''readback'') (bytesToHex (ca_sha256 readBack))]
          else (outcome SUCCESS [])\<lparr>re_record := Some success\<rparr>)))"

definition apply_candidate :: "(int \<Rightarrow> float64) \<Rightarrow> CanonicalConfig \<Rightarrow> bytes \<Rightarrow> bytes \<Rightarrow> DeploymentContext \<Rightarrow> DeploymentResult wire" where
  "apply_candidate float candidate candidateBytes candidateHash context =
     AskApply (dx_expectedGeneration context) candidateBytes (\<lambda>answer. case answer of
       Inl e \<Rightarrow> if e = ProtocolError STATUS_CONFLICT
                then resolveStaleGeneration candidate (dx_expectedGeneration context)
                else reconcileAmbiguousApply float candidateHash context
     | Inr applied \<Rightarrow> verify_apply float candidateHash context applied)"

definition validate_candidate :: "(int \<Rightarrow> float64) \<Rightarrow> CanonicalConfig \<Rightarrow> bytes \<Rightarrow> bytes \<Rightarrow> DeploymentContext \<Rightarrow> DeploymentResult wire" where
  "validate_candidate float candidate candidateBytes candidateHash context =
     AskValidate candidateBytes (\<lambda>answer. case answer of
       Inl _ \<Rightarrow> Return (outcome REMOTE_ERROR [remoteFailure ''validateConfig''])
     | Inr (Rejected failureField failureIndex reason) \<Rightarrow>
         Return (outcome VALIDATION_FAILED
           [deployment_issue ''config-deployment.remote_validation_failed'' (js ''validateConfig'')
              (js ''field='' @ decimal failureField @ js '' index='' @ decimal failureIndex)])
     | Inr Accepted \<Rightarrow> apply_candidate float candidate candidateBytes candidateHash context)"

definition blocking :: "(DomainError \<times> severity) list \<Rightarrow> (DomainError \<times> severity) list" where
  "blocking issues = filter (\<lambda>(i, _). de_code i = ''config-decompiler.missing_profile'' \<or>
     de_code i = ''config-decompiler.missing_capability_pack'') issues"

text \<open>\<open>None\<close>: the compiler recurses without end. \<open>Some (Inl e)\<close>: the encoder of the candidate throws.\<close>

definition deployConfig :: "(jsstr \<Rightarrow> int option) \<Rightarrow> (js_value \<Rightarrow> jsstr) \<Rightarrow> (int \<Rightarrow> float64) \<Rightarrow> (bytes \<Rightarrow> bytes) \<Rightarrow>
    CompileConfigInput \<Rightarrow> DeploymentContext \<Rightarrow> (codec_error + DeploymentResult wire) option" where
  "deployConfig toNumber str float sha256 input context =
     map_option (\<lambda>dryRun.
       let missing = blocking (dy_issues dryRun) in
       if missing \<noteq> [] then Inr (Return (outcome PROFILE_OR_PACK_MISSING missing))
       else case dy_compiled dryRun of
              None \<Rightarrow> Inr (Return (outcome VALIDATION_FAILED (dy_issues dryRun)))
            | Some candidate \<Rightarrow>
                mapE (\<lambda>bs. validate_candidate float candidate bs (sha256 bs) context) (encodeConfigCbor candidate))
       (dryRunConfig toNumber str input (dx_dryRun context))"

text \<open>Several Cores, each in its own \<open>try\<close>: what one of them throws is its own result.\<close>

definition deployToCore :: "(jsstr \<Rightarrow> int option) \<Rightarrow> (js_value \<Rightarrow> jsstr) \<Rightarrow> (int \<Rightarrow> float64) \<Rightarrow> (bytes \<Rightarrow> bytes) \<Rightarrow>
    's wire_client \<times> CompileConfigInput \<times> DeploymentContext \<Rightarrow> 's \<Rightarrow> ((jsstr \<times> DeploymentResult) \<times> 's) option" where
  "deployToCore toNumber str float sha256 = (\<lambda>(client, input, context) s.
     map_option (\<lambda>r. case r of
         Inl _ \<Rightarrow> ((dx_target context, outcome REMOTE_ERROR [remoteFailure ''deployConfig'']), s)
       | Inr w \<Rightarrow> (case run_wire client w s of (x, t) \<Rightarrow> ((dx_target context, x), t)))
       (deployConfig toNumber str float sha256 input context))"

definition deployToCores :: "(jsstr \<Rightarrow> int option) \<Rightarrow> (js_value \<Rightarrow> jsstr) \<Rightarrow> (int \<Rightarrow> float64) \<Rightarrow> (bytes \<Rightarrow> bytes) \<Rightarrow>
    (('s wire_client \<times> CompileConfigInput \<times> DeploymentContext) \<times> 's) list \<Rightarrow> (((jsstr \<times> DeploymentResult) \<times> 's) list) option" where
  "deployToCores toNumber str float sha256 targets =
     those (map (\<lambda>(target, s). deployToCore toNumber str float sha256 target s) targets)"

section \<open>Which calls are made\<close>

datatype wire_call = ValidateCall bytes | ApplyCall int bytes | GetCall

primrec wire_calls :: "'s wire_client \<Rightarrow> 'r wire \<Rightarrow> 's \<Rightarrow> wire_call list" where
  "wire_calls client (Return r) = (\<lambda>s. [])"
| "wire_calls client (AskValidate bs k) = (\<lambda>s. ValidateCall bs # (case wc_validate client bs s of (a, t) \<Rightarrow> wire_calls client (k a) t))"
| "wire_calls client (AskApply g bs k) = (\<lambda>s. ApplyCall g bs # (case wc_apply client g bs s of (a, t) \<Rightarrow> wire_calls client (k a) t))"
| "wire_calls client (AskGet k) = (\<lambda>s. GetCall # (case wc_get client s of (a, t) \<Rightarrow> wire_calls client (k a) t))"

lemma calls_after_apply:
  "prefix (wire_calls client (verify_apply float h context applied) s) [GetCall]"
  "prefix (wire_calls client (resolveStaleGeneration candidate g) s) [GetCall]"
  "prefix (wire_calls client (reconcileAmbiguousApply float h context) s) [GetCall]"
  by (simp_all add: verify_apply_def resolveStaleGeneration_def reconcileAmbiguousApply_def Let_def split: prod.split)

lemma calls_of_candidate:
  "prefix (wire_calls client (validate_candidate float candidate bs h context) s)
     [ValidateCall bs, ApplyCall (dx_expectedGeneration context) bs, GetCall]"
  by (auto simp: validate_candidate_def apply_candidate_def calls_after_apply split: prod.split sum.split ValidateAnswer.split)

lemma dryRun_compiled:
  assumes "dryRunConfig toNumber str input options = Some r" and "dy_compiled r = Some candidate"
  shows "compileConfig toNumber str input (dy_compile options) = Some (Inr candidate)"
proof (cases "compileConfig toNumber str input (dy_compile options)")
  case (Some c)
  with assms show ?thesis by (cases c) (auto simp: dryRunConfig_def Let_def)
qed (use assms in \<open>simp add: dryRunConfig_def Let_def\<close>)

lemma deploy_cases:
  assumes "deployConfig toNumber str float sha256 input context = Some (Inr w)"
  obtains (refused) kind issues where "w = Return (outcome kind issues)" and "kind = PROFILE_OR_PACK_MISSING \<or> kind = VALIDATION_FAILED"
  | (candidate) candidate bs where "w = validate_candidate float candidate bs (sha256 bs) context"
      and "compileConfig toNumber str input (dy_compile (dx_dryRun context)) = Some (Inr candidate)"
      and "encodeConfigCbor candidate = Inr bs"
      and "\<exists>r. dryRunConfig toNumber str input (dx_dryRun context) = Some r \<and> blocking (dy_issues r) = []"
proof -
  from assms obtain r where r: "dryRunConfig toNumber str input (dx_dryRun context) = Some r"
    and w: "(let missing = blocking (dy_issues r) in
       if missing \<noteq> [] then Inr (Return (outcome PROFILE_OR_PACK_MISSING missing))
       else case dy_compiled r of
              None \<Rightarrow> Inr (Return (outcome VALIDATION_FAILED (dy_issues r)))
            | Some candidate \<Rightarrow>
                mapE (\<lambda>bs. validate_candidate float candidate bs (sha256 bs) context) (encodeConfigCbor candidate)) = Inr w"
    by (auto simp: deployConfig_def)
  show ?thesis
  proof (cases "blocking (dy_issues r) = []")
    case True
    show ?thesis
    proof (cases "dy_compiled r")
      case (Some candidate)
      with w True obtain bs where "encodeConfigCbor candidate = Inr bs" "w = validate_candidate float candidate bs (sha256 bs) context"
        by (auto simp: Let_def mapE_Inr_iff)
      moreover have "compileConfig toNumber str input (dy_compile (dx_dryRun context)) = Some (Inr candidate)"
        by (rule dryRun_compiled [OF r Some])
      ultimately show ?thesis using candidate r True by blast
    qed (use w True refused in \<open>auto simp: Let_def\<close>)
  qed (use w refused in \<open>auto simp: Let_def\<close>)
qed

section \<open>What the Core holds\<close>

text \<open>
  A client whose \<open>getConfig\<close>, when it answers, tells the truth about the bytes the Core holds and their
  generation, and changes nothing.
\<close>

definition truthful :: "(bytes \<Rightarrow> bytes) \<Rightarrow> ('s \<Rightarrow> bytes) \<Rightarrow> ('s \<Rightarrow> int) \<Rightarrow> 's wire_client \<Rightarrow> bool" where
  "truthful sha256 holds gen client \<longleftrightarrow> (\<forall>s. holds (snd (wc_get client s)) = holds s \<and> gen (snd (wc_get client s)) = gen s \<and>
     (\<forall>live. fst (wc_get client s) = Inr live \<longrightarrow> ca_generation live = gen s \<and> ca_sha256 live = sha256 (holds s)))"

definition applied_outcome :: "DeploymentOutcomeKind \<Rightarrow> bool" where
  "applied_outcome kind \<longleftrightarrow> kind = SUCCESS \<or> kind = AMBIGUOUS_RESOLVED_APPLIED"

lemma truthfulD:
  assumes "truthful sha256 holds gen client" and "wc_get client s = (a, t)"
  shows "holds t = holds s" and "gen t = gen s" and "a = Inr live \<Longrightarrow> ca_generation live = gen s \<and> ca_sha256 live = sha256 (holds s)"
  using assms unfolding truthful_def by (metis fst_conv snd_conv)+

lemma verified:
  assumes t: "truthful sha256 holds gen client" and r: "run_wire client (verify_apply float h context applied) s = (r, s')"
  shows "(applied_outcome (re_outcome r) \<longrightarrow> sha256 (holds s') = h \<and> gen s' = aa_generation applied) \<and>
     (re_record r \<noteq> None \<longrightarrow> applied_outcome (re_outcome r) \<or> re_outcome r = NO_OP)"
proof (cases "aa_changed applied")
  case False
  with r show ?thesis by (auto simp: verify_apply_def outcome_def applied_outcome_def Let_def)
next
  case True
  obtain a u where g: "wc_get client s = (a, u)" by (cases "wc_get client s")
  with r True have s: "s' = u" and r': "r = (case a of
        Inl _ \<Rightarrow> outcome REMOTE_ERROR [remoteFailure ''getConfig (read-back)'']
      | Inr readBack \<Rightarrow>
          if ca_generation readBack \<noteq> aa_generation applied \<or> ca_sha256 readBack \<noteq> h
          then outcome READBACK_MISMATCH
                 [deployment_issue ''config-deployment.readback_mismatch'' (js ''readback'') (bytesToHex (ca_sha256 readBack))]
          else (outcome SUCCESS [])\<lparr>re_record := Some (deployment_record float context (aa_generation applied) (aa_sha256 applied))\<rparr>)"
    by (simp_all add: verify_apply_def Let_def)
  show ?thesis
    using truthfulD [OF t g] unfolding s r' by (cases a) (auto simp: outcome_def applied_outcome_def)
qed

lemma reconciled:
  assumes t: "truthful sha256 holds gen client" and r: "run_wire client (reconcileAmbiguousApply float h context) s = (r, s')"
  shows "(applied_outcome (re_outcome r) \<longrightarrow> sha256 (holds s') = h) \<and> (re_record r \<noteq> None \<longrightarrow> applied_outcome (re_outcome r)) \<and>
     (re_outcome r = AMBIGUOUS_RESOLVED_NOT_APPLIED \<longrightarrow> sha256 (holds s') \<noteq> h)"
proof -
  obtain a u where g: "wc_get client s = (a, u)" by (cases "wc_get client s")
  with r have s: "s' = u" and r': "r = (case a of
        Inl _ \<Rightarrow> outcome REMOTE_ERROR [remoteFailure ''applyConfig'', remoteFailure ''getConfig (reconciliation)'']
      | Inr live \<Rightarrow>
         if ca_sha256 live = h
         then (outcome AMBIGUOUS_RESOLVED_APPLIED [])
                \<lparr>re_record := Some (deployment_record float context (ca_generation live) (ca_sha256 live))\<rparr>
         else outcome AMBIGUOUS_RESOLVED_NOT_APPLIED [remoteFailure ''applyConfig''])"
    by (simp_all add: reconcileAmbiguousApply_def)
  show ?thesis
    using truthfulD [OF t g] unfolding s r' by (cases a) (auto simp: outcome_def applied_outcome_def)
qed

lemma stale_no_record:
  "run_wire client (resolveStaleGeneration candidate g) s = (r, s') \<Longrightarrow>
     re_record r = None \<and> (re_outcome r = REMOTE_ERROR \<or> re_outcome r = STALE_GENERATION)"
  by (auto simp: resolveStaleGeneration_def outcome_def split: prod.splits sum.splits if_splits)

lemma candidate_applied:
  assumes t: "truthful sha256 holds gen client"
    and r: "run_wire client (validate_candidate float candidate bs h context) s = (r, s')"
  shows "(applied_outcome (re_outcome r) \<longrightarrow> sha256 (holds s') = h) \<and>
     (re_record r \<noteq> None \<longrightarrow> applied_outcome (re_outcome r) \<or> re_outcome r = NO_OP) \<and>
     (re_outcome r = AMBIGUOUS_RESOLVED_NOT_APPLIED \<longrightarrow> sha256 (holds s') \<noteq> h)"
proof -
  obtain v u where v: "wc_validate client bs s = (v, u)" by (cases "wc_validate client bs s")
  obtain a w where a: "wc_apply client (dx_expectedGeneration context) bs u = (a, w)"
    by (cases "wc_apply client (dx_expectedGeneration context) bs u")
  have not: "re_outcome r \<noteq> AMBIGUOUS_RESOLVED_NOT_APPLIED" if "run_wire client (verify_apply float h context x) w = (r, s')" for x
    using that by (auto simp: verify_apply_def outcome_def Let_def split: if_splits prod.splits sum.splits)
  show ?thesis
  proof (cases "v = Inr Accepted")
    case True
    show ?thesis
    proof (cases a)
      case (Inl e)
      show ?thesis
      proof (cases "e = ProtocolError STATUS_CONFLICT")
        case True
        with r v a Inl \<open>v = Inr Accepted\<close> have "run_wire client (resolveStaleGeneration candidate (dx_expectedGeneration context)) w = (r, s')"
          by (simp add: validate_candidate_def apply_candidate_def)
        from stale_no_record [OF this] show ?thesis by (auto simp: applied_outcome_def)
      next
        case False
        with r v a Inl True have "run_wire client (reconcileAmbiguousApply float h context) w = (r, s')"
          by (simp add: validate_candidate_def apply_candidate_def)
        from reconciled [OF t this] show ?thesis by blast
      qed
    next
      case (Inr x)
      with r v a True have x: "run_wire client (verify_apply float h context x) w = (r, s')"
        by (simp add: validate_candidate_def apply_candidate_def)
      from verified [OF t x] not [OF x] show ?thesis by blast
    qed
  next
    case False
    with r v show ?thesis
      by (auto simp: validate_candidate_def outcome_def applied_outcome_def split: sum.splits ValidateAnswer.splits)
  qed
qed

section \<open>A Core that compares and swaps\<close>

text \<open>
  A Core without lost replies: it applies a configuration only to the generation the caller names, and then
  counts it up. The state is the generation and the bytes it holds.
\<close>

definition cas_core :: "(bytes \<Rightarrow> bytes) \<Rightarrow> (int \<times> bytes) wire_client" where
  "cas_core sha256 =
     \<lparr>wc_validate = (\<lambda>bs s. (Inr Accepted, s)),
      wc_apply = (\<lambda>g bs (gen, held).
        if g \<noteq> gen then (Inl (ProtocolError STATUS_CONFLICT), (gen, held))
        else if bs = held then (Inr \<lparr>aa_changed = False, aa_generation = gen, aa_sha256 = sha256 held\<rparr>, (gen, held))
        else (Inr \<lparr>aa_changed = True, aa_generation = gen + 1, aa_sha256 = sha256 bs\<rparr>, (gen + 1, bs))),
      wc_get = (\<lambda>(gen, held). (Inr \<lparr>ca_generation = gen, ca_sha256 = sha256 held, ca_configBytes = held\<rparr>, (gen, held)))\<rparr>"

lemma cas_truthful: "truthful sha256 snd fst (cas_core sha256)"
  by (auto simp: truthful_def cas_core_def)

lemma cas_deploys:
  "run_wire (cas_core sha256) (validate_candidate float candidate bs (sha256 bs) context) (gen, held) = (r, s') \<Longrightarrow>
     (if dx_expectedGeneration context = gen
      then snd s' = bs \<and> re_outcome r = (if bs = held then NO_OP else SUCCESS)
      else s' = (gen, held) \<and> re_record r = None)"
  by (auto simp: validate_candidate_def apply_candidate_def verify_apply_def resolveStaleGeneration_def cas_core_def outcome_def Let_def
      split: if_splits sum.splits)

section \<open>A small deployment\<close>

definition sample_context :: DeploymentContext where
  "sample_context =
     \<lparr>dx_dryRun = \<lparr>dy_compile = recompile_options sample_resolvers, dy_availableProfileIds = None, dy_availableBlockRuleTypeIds = None\<rparr>,
      dx_expectedGeneration = 7, dx_sourceProjectHash = [], dx_target = [], dx_deploymentId = [], dx_timestamp = []\<rparr>"

definition sample_deployed :: CompileConfigInput where
  "sample_deployed = recompile_input sample_config (the (decompileConfig read_decimal sample_resolvers sample_config))"

lemma sample_encodes: "\<exists>bs. encodeConfigCbor sample_config = Inr bs \<and> decodeConfigCbor bs = Inr sample_config"
proof -
  have e: "utf8_encode [] = []" by code_simp
  have "config_ok sample_config"
    by (simp add: e wtext_ok_def text_ok_def sample_config_def config_ok_def module_ok_def schedule_ok_def rule_ok_def block_ok_def edge_ok_def mqtt_ok_def
        energy_ok_def u32_ok_def properties_ok_def
        u32_opt_ok_def int_ok_def)
  from config_roundtrip [OF this] show ?thesis by blast
qed

lemma sample_deploys:
  "\<exists>bs. deployConfig read_decimal str float sha256 sample_deployed sample_context =
     Some (Inr (validate_candidate float sample_config bs (sha256 bs) sample_context)) \<and> bs \<noteq> []"
proof -
  obtain d where d: "decompileConfig read_decimal sample_resolvers sample_config = Some d"
    "compileConfig read_decimal str (recompile_input sample_config d) (recompile_options sample_resolvers) = Some (Inr sample_config)"
    using recompile [OF sample_canonical read_decimal_ok] by blast
  obtain bs where bs: "encodeConfigCbor sample_config = Inr bs" "decodeConfigCbor bs = Inr sample_config" using sample_encodes by blast
  have "decodeConfigCbor [] = Inl (MalformedCbor (js ''bytes''))" by code_simp
  with bs have "bs \<noteq> []" by auto
  with d bs show ?thesis
    by (intro exI [of _ bs]) (simp add: deployConfig_def dryRunConfig_def sample_deployed_def sample_context_def blocking_def Let_def)
qed

end
