(* ===== verification/Telemetry.thy ===== *)
theory Telemetry
  imports EventStream Schema
begin

text \<open>
  The telemetry buffers: \<open>telemetry-buffer/src/buffer-store.ts\<close>, the sinks of \<open>sink.ts\<close>, and the subscription of
  \<open>subscription-manager.ts\<close> that drains the events of one Core into them.
\<close>

section \<open>Records and gaps\<close>

datatype TelemetryFieldValue = TBool bool | TBigint int | TString jsstr

type_synonym TelemetryFields = "TelemetryFieldValue js_record"

record TelemetryProvenance =
  tp_coreId :: jsstr
  tp_sourceKey :: int
  tp_schemaId :: jsstr
  tp_schemaVersion :: int
  tp_bootId :: "int option"
  tp_bootEpoch :: int
  tp_sequence :: int

datatype TelemetryRecord =
    DecodedTelemetryRecord TelemetryProvenance TelemetryFields
  | UnknownSchemaTelemetryRecord TelemetryProvenance "bytes option"

fun record_provenance :: "TelemetryRecord \<Rightarrow> TelemetryProvenance" where
  "record_provenance (DecodedTelemetryRecord p fs) = p"
| "record_provenance (UnknownSchemaTelemetryRecord p raw) = p"

record TelemetryGap =
  tg_coreId :: jsstr
  tg_reason :: gap_reason
  tg_detail :: jsstr
  tg_bootEpoch :: int

record TelemetryContext =
  tc_moduleNodeId :: "jsstr option"
  tc_profileId :: "jsstr option"
  tc_blockNodeId :: "jsstr option"

record BufferedTelemetryEntry =
  bt_record :: TelemetryRecord
  bt_context :: "TelemetryContext option"

record TelemetryExport =
  te_coreId :: jsstr
  te_schemaId :: jsstr
  te_entries :: "BufferedTelemetryEntry list"
  te_droppedCount :: int
  te_gaps :: "TelemetryGap list"

section \<open>The store\<close>

definition bufferKey :: "jsstr \<Rightarrow> jsstr \<Rightarrow> jsstr" where
  "bufferKey coreId schemaId = coreId @ 32 # schemaId"

record telemetry_store =
  ts_capacityPerBuffer :: nat
  ts_gapLogCapacity :: nat
  ts_buffers :: "(jsstr, BufferedTelemetryEntry list) jsmap"
  ts_droppedByBuffer :: "(jsstr, int) jsmap"
  ts_bootEpochByCore :: "(jsstr, int) jsmap"
  ts_lastBootIdByCore :: "(jsstr, int) jsmap"
  ts_gapsByCore :: "(jsstr, TelemetryGap list) jsmap"

definition or_else :: "'a \<Rightarrow> 'a option \<Rightarrow> 'a" where
  "or_else d x = (case x of None \<Rightarrow> d | Some v \<Rightarrow> v)"

definition new_store :: "nat option \<Rightarrow> nat option \<Rightarrow> telemetry_store" where
  "new_store capacityPerBuffer gapLogCapacity =
     \<lparr>ts_capacityPerBuffer = or_else 256 capacityPerBuffer, ts_gapLogCapacity = or_else 64 gapLogCapacity,
      ts_buffers = [], ts_droppedByBuffer = [], ts_bootEpochByCore = [], ts_lastBootIdByCore = [], ts_gapsByCore = []\<rparr>"

definition bootEpochOf :: "jsstr \<Rightarrow> telemetry_store \<Rightarrow> int" where
  "bootEpochOf coreId s = or_else 0 (jm_get (ts_bootEpochByCore s) coreId)"

definition lastBootIdOf :: "jsstr \<Rightarrow> telemetry_store \<Rightarrow> int option" where
  "lastBootIdOf coreId s = jm_get (ts_lastBootIdByCore s) coreId"

definition getGaps :: "jsstr \<Rightarrow> telemetry_store \<Rightarrow> TelemetryGap list" where
  "getGaps coreId s = or_else [] (jm_get (ts_gapsByCore s) coreId)"

definition pushGap :: "jsstr \<Rightarrow> TelemetryGap \<Rightarrow> telemetry_store \<Rightarrow> telemetry_store" where
  "pushGap coreId gap s =
     (let log = getGaps coreId s @ [gap];
          log' = (if length log > ts_gapLogCapacity s then tl log else log) in
      s\<lparr>ts_gapsByCore := jm_put coreId log' (ts_gapsByCore s)\<rparr>)"

definition boot_gap :: "jsstr \<Rightarrow> int \<Rightarrow> int \<Rightarrow> int \<Rightarrow> TelemetryGap" where
  "boot_gap coreId previous bootId nextEpoch =
     \<lparr>tg_coreId = coreId, tg_reason = BootIdChanged,
      tg_detail = js ''boot ID changed from '' @ decimal previous @ js '' to '' @ decimal bootId @ js '' '' @ [0x2014] @ js '' records after this point are epoch '' @
        decimal nextEpoch @ js '', never joined with epoch '' @ decimal (nextEpoch - 1),
      tg_bootEpoch = nextEpoch\<rparr>"

definition observeBootId :: "jsstr \<Rightarrow> int \<Rightarrow> telemetry_store \<Rightarrow> TelemetryGap option \<times> telemetry_store" where
  "observeBootId coreId bootId s =
     (let s' = s\<lparr>ts_lastBootIdByCore := jm_put coreId bootId (ts_lastBootIdByCore s)\<rparr> in
      case jm_get (ts_lastBootIdByCore s) coreId of
        None \<Rightarrow> (None, s'\<lparr>ts_bootEpochByCore := jm_put coreId 0 (ts_bootEpochByCore s)\<rparr>)
      | Some previous \<Rightarrow>
          if previous = bootId then (None, s')
          else let nextEpoch = bootEpochOf coreId s + 1;
                   gap = boot_gap coreId previous bootId nextEpoch in
               (Some gap, pushGap coreId gap (s'\<lparr>ts_bootEpochByCore := jm_put coreId nextEpoch (ts_bootEpochByCore s)\<rparr>)))"

definition recordSequenceGap :: "jsstr \<Rightarrow> jsstr \<Rightarrow> telemetry_store \<Rightarrow> TelemetryGap \<times> telemetry_store" where
  "recordSequenceGap coreId detail s =
     (let gap = \<lparr>tg_coreId = coreId, tg_reason = SequenceDiscontinuity, tg_detail = detail, tg_bootEpoch = bootEpochOf coreId s\<rparr> in
      (gap, pushGap coreId gap s))"

definition getEntries :: "jsstr \<Rightarrow> jsstr \<Rightarrow> telemetry_store \<Rightarrow> BufferedTelemetryEntry list" where
  "getEntries coreId schemaId s = or_else [] (jm_get (ts_buffers s) (bufferKey coreId schemaId))"

definition store_push :: "jsstr \<Rightarrow> jsstr \<Rightarrow> BufferedTelemetryEntry \<Rightarrow> telemetry_store \<Rightarrow> telemetry_store" where
  "store_push coreId schemaId entry s =
     (let key = bufferKey coreId schemaId;
          ring = or_else [] (jm_get (ts_buffers s) key) in
      if length ring \<ge> ts_capacityPerBuffer s
      then s\<lparr>ts_droppedByBuffer := jm_put key (or_else 0 (jm_get (ts_droppedByBuffer s) key) + 1) (ts_droppedByBuffer s),
             ts_buffers := jm_put key (tl ring @ [entry]) (ts_buffers s)\<rparr>
      else s\<lparr>ts_buffers := jm_put key (ring @ [entry]) (ts_buffers s)\<rparr>)"

text \<open>The provenance without its Core and schema.\<close>

definition provenance_of :: "jsstr \<Rightarrow> jsstr \<Rightarrow> TelemetryProvenance \<Rightarrow> TelemetryProvenance" where
  "provenance_of coreId schemaId p = p\<lparr>tp_coreId := coreId, tp_schemaId := schemaId\<rparr>"

definition pushDecoded :: "jsstr \<Rightarrow> jsstr \<Rightarrow> TelemetryFields \<Rightarrow> TelemetryProvenance \<Rightarrow> TelemetryContext option \<Rightarrow> telemetry_store \<Rightarrow>
    BufferedTelemetryEntry \<times> telemetry_store" where
  "pushDecoded coreId schemaId fs p context s =
     (let entry = \<lparr>bt_record = DecodedTelemetryRecord (provenance_of coreId schemaId p) fs, bt_context = context\<rparr> in
      (entry, store_push coreId schemaId entry s))"

definition pushUnknownSchema :: "jsstr \<Rightarrow> jsstr \<Rightarrow> TelemetryProvenance \<Rightarrow> bytes option \<Rightarrow> TelemetryContext option \<Rightarrow> telemetry_store \<Rightarrow>
    BufferedTelemetryEntry \<times> telemetry_store" where
  "pushUnknownSchema coreId schemaId p rawPayload context s =
     (let entry = \<lparr>bt_record = UnknownSchemaTelemetryRecord (provenance_of coreId schemaId p) rawPayload, bt_context = context\<rparr> in
      (entry, store_push coreId schemaId entry s))"

definition store_export :: "jsstr \<Rightarrow> jsstr \<Rightarrow> telemetry_store \<Rightarrow> TelemetryExport" where
  "store_export coreId schemaId s =
     \<lparr>te_coreId = coreId, te_schemaId = schemaId, te_entries = getEntries coreId schemaId s,
      te_droppedCount = or_else 0 (jm_get (ts_droppedByBuffer s) (bufferKey coreId schemaId)), te_gaps = getGaps coreId s\<rparr>"

section \<open>Sinks\<close>

text \<open>
  A sink acts on a world outside the model and may throw; what it throws is a text. The failures are the
  calls of \<open>onFailure\<close>.
\<close>

record 'w telemetry_sink =
  sk_apiVersion :: int
  sk_id :: jsstr
  sk_append :: "BufferedTelemetryEntry \<Rightarrow> 'w \<Rightarrow> jsstr option \<times> 'w"
  sk_recordGap :: "TelemetryGap \<Rightarrow> 'w \<Rightarrow> jsstr option \<times> 'w"

definition TELEMETRY_SINK_API_VERSION :: int where "TELEMETRY_SINK_API_VERSION = 1"

datatype sink_error = UnsupportedSinkApi int | EmptySinkId | DuplicateSinkId jsstr | MissingFailureHandler

fun check_sinks :: "jsstr set \<Rightarrow> 'w telemetry_sink list \<Rightarrow> sink_error option" where
  "check_sinks ids [] = None"
| "check_sinks ids (sink # sinks) =
     (if sk_apiVersion sink \<noteq> TELEMETRY_SINK_API_VERSION then Some (UnsupportedSinkApi (sk_apiVersion sink))
      else if blank (sk_id sink) then Some EmptySinkId
      else if sk_id sink \<in> ids then Some (DuplicateSinkId (sk_id sink))
      else check_sinks (insert (sk_id sink) ids) sinks)"

fun deliver :: "('w telemetry_sink \<Rightarrow> 'w \<Rightarrow> jsstr option \<times> 'w) \<Rightarrow> 'w telemetry_sink list \<Rightarrow> 'w \<Rightarrow> (jsstr \<times> jsstr) list \<times> 'w" where
  "deliver f [] w = ([], w)"
| "deliver f (sink # sinks) w =
     (let (error, w') = f sink w; (failures, w'') = deliver f sinks w' in
      ((case error of None \<Rightarrow> failures | Some e \<Rightarrow> (sk_id sink, e) # failures), w''))"

section \<open>The subscription\<close>

record ResolveFieldsParams =
  rp_coreId :: jsstr
  rp_sourceKey :: int
  rp_schemaId :: jsstr
  rp_schemaVersion :: int
  rp_sequence :: int

text \<open>The callbacks of the caller; one that is not supplied returns \<open>undefined\<close>.\<close>

record 'w SubscribeCoreOptions =
  so_resolveFields :: "ResolveFieldsParams \<Rightarrow> TelemetryFields option"
  so_resolveContext :: "jsstr \<Rightarrow> int \<Rightarrow> TelemetryContext option"
  so_resolveRawPayload :: "ResolveFieldsParams \<Rightarrow> bytes option"
  so_sinks :: "'w telemetry_sink list"
  so_hasFailureHandler :: bool

record 'w subscription =
  su_store :: telemetry_store
  su_world :: 'w
  su_failures :: "(jsstr \<times> jsstr) list"

definition fan_out :: "('w telemetry_sink \<Rightarrow> 'w \<Rightarrow> jsstr option \<times> 'w) \<Rightarrow> 'w SubscribeCoreOptions \<Rightarrow> 'w subscription \<Rightarrow> 'w subscription" where
  "fan_out f options u =
     (let (failures, w) = deliver f (so_sinks options) (su_world u) in
      u\<lparr>su_world := w, su_failures := su_failures u @ failures\<rparr>)"

text \<open>One event of the stream; \<open>detail\<close> is the text of a gap event.\<close>

fun handle_event :: "(streamed_event \<Rightarrow> jsstr) \<Rightarrow> jsstr \<Rightarrow> 'w SubscribeCoreOptions \<Rightarrow> streamed_event \<Rightarrow> 'w subscription \<Rightarrow> 'w subscription" where
  "handle_event detail coreId options (StreamedStatus p) u =
     (let (gap, store) = observeBootId coreId (sev_bootId p) (su_store u); u' = u\<lparr>su_store := store\<rparr> in
      case gap of None \<Rightarrow> u' | Some g \<Rightarrow> fan_out (\<lambda>sink. sk_recordGap sink g) options u')"
| "handle_event detail coreId options (StreamedGap reason a b) u =
     (if reason = SequenceDiscontinuity
      then let (gap, store) = recordSequenceGap coreId (detail (StreamedGap reason a b)) (su_store u) in
           fan_out (\<lambda>sink. sk_recordGap sink gap) options (u\<lparr>su_store := store\<rparr>)
      else u)"
| "handle_event detail coreId options (StreamedRecord p) u =
     (let params = \<lparr>rp_coreId = coreId, rp_sourceKey = rec_sourceKey p, rp_schemaId = rec_schemaId p,
                    rp_schemaVersion = rec_schemaVersion p, rp_sequence = rec_sequence p\<rparr>;
          context = so_resolveContext options coreId (rec_sourceKey p);
          provenance = \<lparr>tp_coreId = coreId, tp_sourceKey = rec_sourceKey p, tp_schemaId = rec_schemaId p,
                        tp_schemaVersion = rec_schemaVersion p, tp_bootId = lastBootIdOf coreId (su_store u),
                        tp_bootEpoch = bootEpochOf coreId (su_store u), tp_sequence = rec_sequence p\<rparr>;
          (entry, store) = (case so_resolveFields options params of
             None \<Rightarrow> pushUnknownSchema coreId (rec_schemaId p) provenance (so_resolveRawPayload options params) context (su_store u)
           | Some fs \<Rightarrow> pushDecoded coreId (rec_schemaId p) fs provenance context (su_store u)) in
      fan_out (\<lambda>sink. sk_append sink entry) options (u\<lparr>su_store := store\<rparr>))"
| "handle_event detail coreId options e u = u"

definition subscribeCore :: "(streamed_event \<Rightarrow> jsstr) \<Rightarrow> jsstr \<Rightarrow> 'w SubscribeCoreOptions \<Rightarrow> streamed_event list \<Rightarrow> 'w subscription \<Rightarrow>
    sink_error + 'w subscription" where
  "subscribeCore detail coreId options events u =
     (if so_sinks options \<noteq> [] \<and> \<not> so_hasFailureHandler options then Inl MissingFailureHandler
      else case check_sinks {} (so_sinks options) of
             Some e \<Rightarrow> Inl e
           | None \<Rightarrow> Inr (fold (handle_event detail coreId options) events u))"

section \<open>What the buffers hold\<close>

text \<open>Everything that reaches the store, from any subscription.\<close>

datatype store_op =
    OpDecoded jsstr jsstr TelemetryFields TelemetryProvenance "TelemetryContext option"
  | OpUnknown jsstr jsstr TelemetryProvenance "bytes option" "TelemetryContext option"
  | OpBoot jsstr int
  | OpGap jsstr jsstr

fun store_step :: "store_op \<Rightarrow> telemetry_store \<Rightarrow> telemetry_store" where
  "store_step (OpDecoded c sch fs p ctx) s = snd (pushDecoded c sch fs p ctx s)"
| "store_step (OpUnknown c sch p raw ctx) s = snd (pushUnknownSchema c sch p raw ctx s)"
| "store_step (OpBoot c i) s = snd (observeBootId c i s)"
| "store_step (OpGap c d) s = snd (recordSequenceGap c d s)"

text \<open>The entries an operation adds to a buffer, and all that was ever added to it.\<close>

fun entry_of :: "store_op \<Rightarrow> (jsstr \<times> BufferedTelemetryEntry) option" where
  "entry_of (OpDecoded c sch fs p ctx) =
     Some (bufferKey c sch, \<lparr>bt_record = DecodedTelemetryRecord (provenance_of c sch p) fs, bt_context = ctx\<rparr>)"
| "entry_of (OpUnknown c sch p raw ctx) =
     Some (bufferKey c sch, \<lparr>bt_record = UnknownSchemaTelemetryRecord (provenance_of c sch p) raw, bt_context = ctx\<rparr>)"
| "entry_of op = None"

definition added_to :: "jsstr \<Rightarrow> store_op list \<Rightarrow> BufferedTelemetryEntry list" where
  "added_to key ops = concat (map (\<lambda>op. case entry_of op of Some (k, e) \<Rightarrow> if k = key then [e] else [] | None \<Rightarrow> []) ops)"

definition ring_of :: "jsstr \<Rightarrow> telemetry_store \<Rightarrow> BufferedTelemetryEntry list" where
  "ring_of key s = or_else [] (jm_get (ts_buffers s) key)"

definition dropped_of :: "jsstr \<Rightarrow> telemetry_store \<Rightarrow> int" where
  "dropped_of key s = or_else 0 (jm_get (ts_droppedByBuffer s) key)"

lemma or_else_simps [simp]: "or_else d (Some v) = v" "or_else d None = d"
  by (simp_all add: or_else_def)

lemma other_keeps:
  "ts_buffers (pushGap c g s) = ts_buffers s" "ts_droppedByBuffer (pushGap c g s) = ts_droppedByBuffer s"
  "ts_capacityPerBuffer (pushGap c g s) = ts_capacityPerBuffer s"
  by (simp_all add: pushGap_def Let_def)

lemma step_rings:
  "ts_capacityPerBuffer (store_step op s) = ts_capacityPerBuffer s"
  "ring_of key (store_step op s) =
     (case entry_of op of
        Some (k, e) \<Rightarrow> if k = key then (if length (ring_of key s) \<ge> ts_capacityPerBuffer s then tl (ring_of key s) else ring_of key s) @ [e]
                       else ring_of key s
      | None \<Rightarrow> ring_of key s)"
  "dropped_of key (store_step op s) =
     (case entry_of op of
        Some (k, e) \<Rightarrow> if k = key \<and> length (ring_of key s) \<ge> ts_capacityPerBuffer s then dropped_of key s + 1 else dropped_of key s
      | None \<Rightarrow> dropped_of key s)"
  by (cases op; simp add: pushDecoded_def pushUnknownSchema_def observeBootId_def recordSequenceGap_def other_keeps store_push_def
      ring_of_def dropped_of_def jm.get_put Let_def split: option.split)+

lemma rings:
  assumes "ts_buffers s = []" and "ts_droppedByBuffer s = []"
  shows "ts_capacityPerBuffer (fold store_step ops s) = ts_capacityPerBuffer s \<and>
     ring_of key (fold store_step ops s) =
        drop (length (added_to key ops) - max 1 (ts_capacityPerBuffer s)) (added_to key ops) \<and>
     dropped_of key (fold store_step ops s) = int (length (added_to key ops) - ts_capacityPerBuffer s)"
proof (induction ops rule: rev_induct)
  case Nil
  then show ?case by (simp add: assms added_to_def ring_of_def dropped_of_def)
next
  case (snoc op ops)
  let ?xs = "added_to key ops" and ?cap = "ts_capacityPerBuffer s"
  show ?case
  proof (cases "\<exists>e. entry_of op = Some (key, e)")
    case False
    then have "added_to key (ops @ [op]) = ?xs" by (auto simp: added_to_def split: option.split)
    with False snoc show ?thesis by (auto simp: step_rings split: option.split)
  next
    case True
    then obtain e where e: "entry_of op = Some (key, e)" by blast
    then have a: "added_to key (ops @ [op]) = ?xs @ [e]" by (simp add: added_to_def)
    show ?thesis
      using snoc by (auto simp: a e step_rings tl_drop drop_Suc [symmetric] Suc_diff_le max_def not_le split: if_splits)
  qed
qed

text \<open>
  Cores whose identifiers have no space never share a buffer; otherwise they may, since the key joins Core
  and schema with a space.
\<close>

lemma bufferKey_inj:
  "32 \<notin> set c \<Longrightarrow> 32 \<notin> set d \<Longrightarrow> bufferKey c x = bufferKey d y \<longleftrightarrow> c = d \<and> x = y"
proof (induction c arbitrary: d)
  case Nil
  then show ?case by (cases d) (auto simp: bufferKey_def)
next
  case (Cons a c)
  then show ?case by (cases d) (auto simp: bufferKey_def)
qed

lemma buffers_collide: "bufferKey (c @ 32 # a) b = bufferKey c (a @ 32 # b)"
  by (simp add: bufferKey_def)

fun op_core :: "store_op \<Rightarrow> jsstr" where
  "op_core (OpDecoded c sch fs p ctx) = c"
| "op_core (OpUnknown c sch p raw ctx) = c"
| "op_core (OpBoot c i) = c"
| "op_core (OpGap c d) = c"

definition entry_source :: "BufferedTelemetryEntry \<Rightarrow> jsstr \<times> jsstr" where
  "entry_source e = (tp_coreId (record_provenance (bt_record e)), tp_schemaId (record_provenance (bt_record e)))"

lemma entry_of_source: "entry_of op = Some (k, e) \<Longrightarrow> k = bufferKey (fst (entry_source e)) (snd (entry_source e)) \<and> op_core op = fst (entry_source e)"
  by (cases op) (auto simp: entry_source_def provenance_of_def)

lemma added_source:
  assumes "32 \<notin> set c" and "\<forall>op\<in>set ops. 32 \<notin> set (op_core op)" and "e \<in> set (added_to (bufferKey c sch) ops)"
  shows "entry_source e = (c, sch)"
proof -
  from assms(3) obtain op where op: "op \<in> set ops" "entry_of op = Some (bufferKey c sch, e)"
    by (auto simp: added_to_def split: option.splits if_splits)
  from entry_of_source [OF op(2)] assms(2) op(1) bufferKey_inj [OF assms(1)] show ?thesis by (metis prod.collapse)
qed

section \<open>Boot epochs\<close>

definition boots_of :: "jsstr \<Rightarrow> store_op list \<Rightarrow> int list" where
  "boots_of c ops = concat (map (\<lambda>op. case op of OpBoot d i \<Rightarrow> if d = c then [i] else [] | _ \<Rightarrow> []) ops)"

fun boot_changes :: "int list \<Rightarrow> nat" where
  "boot_changes (a # b # bs) = (if a \<noteq> b then 1 else 0) + boot_changes (b # bs)"
| "boot_changes bs = 0"

lemma boot_changes_snoc: "boot_changes (bs @ [b]) = boot_changes bs + (if bs \<noteq> [] \<and> last bs \<noteq> b then 1 else 0)"
  by (induction bs rule: boot_changes.induct) auto

lemma boot_step:
  "lastBootIdOf c (store_step op s) = (case op of OpBoot d i \<Rightarrow> if d = c then Some i else lastBootIdOf c s | _ \<Rightarrow> lastBootIdOf c s)"
  "bootEpochOf c (store_step op s) = (case op of
      OpBoot d i \<Rightarrow> if d = c then (case lastBootIdOf c s of None \<Rightarrow> 0 | Some j \<Rightarrow> if j = i then bootEpochOf c s else bootEpochOf c s + 1)
                    else bootEpochOf c s
    | _ \<Rightarrow> bootEpochOf c s)"
  by (cases op; simp add: pushDecoded_def pushUnknownSchema_def observeBootId_def recordSequenceGap_def pushGap_def store_push_def
      lastBootIdOf_def bootEpochOf_def jm.get_put Let_def split: option.split)+

lemma epochs:
  "lastBootIdOf c (fold store_step ops (new_store cap gaps)) = (if boots_of c ops = [] then None else Some (last (boots_of c ops))) \<and>
   bootEpochOf c (fold store_step ops (new_store cap gaps)) = int (boot_changes (boots_of c ops))"
proof (induction ops rule: rev_induct)
  case Nil
  show ?case by (simp add: new_store_def lastBootIdOf_def bootEpochOf_def boots_of_def)
next
  case (snoc op ops)
  show ?case
  proof (cases "\<exists>i. op = OpBoot c i")
    case True
    then obtain i where "op = OpBoot c i" by blast
    then have b: "boots_of c (ops @ [op]) = boots_of c ops @ [i]" by (simp add: boots_of_def)
    show ?thesis using snoc b \<open>op = OpBoot c i\<close>
      by (auto simp: boot_step boot_changes_snoc simp del: store_step.simps)
  next
    case False
    then have "boots_of c (ops @ [op]) = boots_of c ops" by (auto simp: boots_of_def split: store_op.split)
    with False snoc show ?thesis by (auto simp: boot_step simp del: store_step.simps split: store_op.split)
  qed
qed

section \<open>Sinks that throw\<close>

lemma deliver_all:
  "deliver f sinks w = (fst (deliver f sinks w), fold (\<lambda>sink. snd \<circ> f sink) sinks w)"
  by (induction sinks arbitrary: w) (auto simp: Let_def split: prod.split option.split, (metis prod.inject snd_conv)+)

lemma fan_out_store [simp]: "su_store (fan_out f options u) = su_store u"
  by (simp add: fan_out_def Let_def split: prod.split)

lemma handle_event_store:
  "su_store u = su_store v \<Longrightarrow> su_store (handle_event detail c options e u) = su_store (handle_event detail c (options\<lparr>so_sinks := []\<rparr>) e v)"
  by (cases e) (auto simp: Let_def split: option.split prod.split)

lemma subscription_store:
  "su_store u = su_store v \<Longrightarrow>
     su_store (fold (handle_event detail c options) es u) = su_store (fold (handle_event detail c (options\<lparr>so_sinks := []\<rparr>)) es v)"
proof (induction es arbitrary: u v)
  case (Cons e es)
  from Cons.IH [OF handle_event_store [OF Cons.prems]] show ?case by simp
qed simp

text \<open>What a subscription does to the store is a sequence of its operations, all of its own Core.\<close>

lemma handle_event_ops: "\<exists>ops. su_store (handle_event detail c options e u) = fold store_step ops (su_store u) \<and> (\<forall>op\<in>set ops. op_core op = c)"
proof (cases e)
  case (StreamedRecord p)
  let ?params = "\<lparr>rp_coreId = c, rp_sourceKey = rec_sourceKey p, rp_schemaId = rec_schemaId p,
      rp_schemaVersion = rec_schemaVersion p, rp_sequence = rec_sequence p\<rparr>"
    and ?p = "\<lparr>tp_coreId = c, tp_sourceKey = rec_sourceKey p, tp_schemaId = rec_schemaId p,
      tp_schemaVersion = rec_schemaVersion p, tp_bootId = lastBootIdOf c (su_store u),
      tp_bootEpoch = bootEpochOf c (su_store u), tp_sequence = rec_sequence p\<rparr>"
    and ?ctx = "so_resolveContext options c (rec_sourceKey p)"
  let ?op = "case so_resolveFields options ?params of
      None \<Rightarrow> OpUnknown c (rec_schemaId p) ?p (so_resolveRawPayload options ?params) ?ctx
    | Some fs \<Rightarrow> OpDecoded c (rec_schemaId p) fs ?p ?ctx"
  have "su_store (handle_event detail c options e u) = store_step ?op (su_store u)"
    by (simp add: StreamedRecord Let_def split_def split: option.split)
  moreover have "op_core ?op = c" by (simp split: option.split)
  ultimately show ?thesis by (intro exI [of _ "[?op]"]) simp
next
  case (StreamedStatus p)
  show ?thesis
    by (rule exI [of _ "[OpBoot c (sev_bootId p)]"]) (auto simp: StreamedStatus Let_def split: option.split prod.split)
next
  case (StreamedGap r a b)
  show ?thesis
    by (rule exI [of _ "if r = SequenceDiscontinuity then [OpGap c (detail (StreamedGap r a b))] else []"])
       (auto simp: StreamedGap Let_def split: prod.split)
qed (auto intro: exI [of _ "[]"])

lemma subscription_ops: "\<exists>ops. su_store (fold (handle_event detail c options) es u) = fold store_step ops (su_store u) \<and> (\<forall>op\<in>set ops. op_core op = c)"
proof (induction es arbitrary: u)
  case (Cons e es)
  from handle_event_ops [of detail c options e u] obtain ops where
    o: "su_store (handle_event detail c options e u) = fold store_step ops (su_store u)" "\<forall>op\<in>set ops. op_core op = c" by blast
  from Cons.IH [of "handle_event detail c options e u"] obtain ops' where
    "su_store (fold (handle_event detail c options) es (handle_event detail c options e u)) =
       fold store_step ops' (su_store (handle_event detail c options e u))" "\<forall>op\<in>set ops'. op_core op = c" by blast
  with o show ?case by (intro exI [of _ "ops @ ops'"]) auto
qed (auto intro: exI [of _ "[]"])

end
