(* ===== verification/Ota.thy ===== *)
theory Ota
  imports JsMap
begin

text \<open>
  The update session over BLE: \<open>ota-lifecycle/src/ble-ota-session.ts\<close>. Every method checks the state, awaits
  one wire call and then changes the state; between the call and its answer other methods may run. A step is
  an invocation up to its \<open>await\<close>, or the answer that ends it.
\<close>

section \<open>The session\<close>

datatype OtaSessionPhase = ARM | UPLOAD | FINALIZE | PENDING_REBOOT | CANCELLED | FAILED

datatype ota_request = Arm bytes | WriteChunk int bytes bool | Finalize | Cancel

datatype ota_outcome =
    OtaOk | InvalidTransition OtaSessionPhase | PreflightRejected | OutOfOrderWrite int | OtaRemoteError

text \<open>A wire call: \<open>OPEN_BLE_UPDATE\<close> and so on, with the session it is for.\<close>

datatype ota_call = OpenBleUpdate int bytes jsstr | WriteBleUpdate int int bytes | FinishBleUpdate int | CancelBleUpdate int

text \<open>
  The last three fields are bookkeeping: the invocations that await an answer, the wire calls made, and the
  chunks the Core accepted, in order.
\<close>

record ota_session =
  os_sizeBytes :: int
  os_fwVersion :: jsstr
  os_ready :: bool
  os_phase :: OtaSessionPhase
  os_sessionId :: "int option"
  os_nextExpectedOffset :: int
  os_awaiting :: "(nat, ota_request) jsmap"
  os_wire :: "ota_call list"
  os_accepted :: "(int \<times> bytes) list"

definition new_session :: "int \<Rightarrow> jsstr \<Rightarrow> bool \<Rightarrow> ota_session" where
  "new_session sizeBytes fwVersion ready =
     \<lparr>os_sizeBytes = sizeBytes, os_fwVersion = fwVersion, os_ready = ready, os_phase = ARM, os_sessionId = None, os_nextExpectedOffset = 0, os_awaiting = [], os_wire = [], os_accepted = []\<rparr>"

definition await :: "nat \<Rightarrow> ota_request \<Rightarrow> ota_call \<Rightarrow> ota_session \<Rightarrow> ota_outcome option \<times> ota_session" where
  "await i r call s = (None, s\<lparr>os_awaiting := jm_put i r (os_awaiting s), os_wire := os_wire s @ [call]\<rparr>)"

definition arm :: "nat \<Rightarrow> bytes \<Rightarrow> ota_session \<Rightarrow> ota_outcome option \<times> ota_session" where
  "arm i imageSha256 s =
     (if \<not> os_ready s then (Some PreflightRejected, s\<lparr>os_phase := FAILED\<rparr>)
      else if os_phase s \<noteq> ARM then (Some (InvalidTransition (os_phase s)), s)
      else await i (Arm imageSha256) (OpenBleUpdate (os_sizeBytes s) imageSha256 (os_fwVersion s)) s)"

definition writeChunk :: "nat \<Rightarrow> int \<Rightarrow> bytes \<Rightarrow> bool \<Rightarrow> ota_session \<Rightarrow> ota_outcome option \<times> ota_session" where
  "writeChunk i offset bs final s =
     (case (os_phase s, os_sessionId s) of
        (UPLOAD, Some sid) \<Rightarrow>
          if offset \<noteq> os_nextExpectedOffset s then (Some (OutOfOrderWrite (os_nextExpectedOffset s)), s)
          else await i (WriteChunk offset bs final) (WriteBleUpdate sid offset bs) s
      | _ \<Rightarrow> (Some (InvalidTransition (os_phase s)), s))"

definition finalize :: "nat \<Rightarrow> ota_session \<Rightarrow> ota_outcome option \<times> ota_session" where
  "finalize i s =
     (case (os_phase s, os_sessionId s) of
        (FINALIZE, Some sid) \<Rightarrow> await i Finalize (FinishBleUpdate sid) s
      | _ \<Rightarrow> (Some (InvalidTransition (os_phase s)), s))"

definition cancel :: "nat \<Rightarrow> ota_session \<Rightarrow> ota_outcome option \<times> ota_session" where
  "cancel i s =
     (if os_phase s = CANCELLED \<or> os_phase s = FAILED then (Some (InvalidTransition (os_phase s)), s)
      else case os_sessionId s of
             None \<Rightarrow> (Some OtaOk, s\<lparr>os_phase := CANCELLED\<rparr>)
           | Some sid \<Rightarrow> await i Cancel (CancelBleUpdate sid) s)"

fun invoke :: "nat \<Rightarrow> ota_request \<Rightarrow> ota_session \<Rightarrow> ota_outcome option \<times> ota_session" where
  "invoke i (Arm sha) s = arm i sha s"
| "invoke i (WriteChunk offset bs final) s = writeChunk i offset bs final s"
| "invoke i Finalize s = finalize i s"
| "invoke i Cancel s = cancel i s"

text \<open>The code after the \<open>await\<close>: \<open>None\<close> is a rejected call, and only \<open>openBleUpdate\<close> looks at what it got.\<close>

fun succeed :: "ota_request \<Rightarrow> int \<Rightarrow> ota_session \<Rightarrow> ota_session" where
  "succeed (Arm sha) sid s = s\<lparr>os_sessionId := Some sid, os_phase := UPLOAD\<rparr>"
| "succeed (WriteChunk offset bs final) sid s =
     (let s' = s\<lparr>os_nextExpectedOffset := os_nextExpectedOffset s + int (length bs), os_accepted := os_accepted s @ [(offset, bs)]\<rparr> in
      if final then s'\<lparr>os_phase := FINALIZE\<rparr> else s')"
| "succeed Finalize sid s = s\<lparr>os_phase := PENDING_REBOOT\<rparr>"
| "succeed Cancel sid s = s\<lparr>os_phase := CANCELLED\<rparr>"

definition ota_answer :: "nat \<Rightarrow> int option \<Rightarrow> ota_session \<Rightarrow> (ota_outcome \<times> ota_session) option" where
  "ota_answer i a s =
     (case jm_get (os_awaiting s) i of
        None \<Rightarrow> None
      | Some r \<Rightarrow>
          (let s' = s\<lparr>os_awaiting := jm_del i (os_awaiting s)\<rparr> in
           Some (case a of Some sid \<Rightarrow> (OtaOk, succeed r sid s') | None \<Rightarrow> (OtaRemoteError, s'\<lparr>os_phase := FAILED\<rparr>))))"

section \<open>Any interleaving\<close>

datatype ota_label = Invoke nat ota_request | Answer nat "int option"

fun ota_step :: "ota_label \<Rightarrow> ota_session \<Rightarrow> ota_session" where
  "ota_step (Invoke i r) s = (if jm_has (os_awaiting s) i then s else snd (invoke i r s))"
| "ota_step (Answer i a) s = (case ota_answer i a s of None \<Rightarrow> s | Some (out, t) \<Rightarrow> t)"

lemma succeed_keeps [simp]:
  "os_ready (succeed r sid s) = os_ready s" "os_wire (succeed r sid s) = os_wire s" "os_awaiting (succeed r sid s) = os_awaiting s"
  by (cases r; simp add: Let_def)+

text \<open>A rejected preflight never reaches the wire.\<close>

lemma invoke_wire:
  "os_ready (snd (invoke i r s)) = os_ready s \<and>
   (os_wire (snd (invoke i r s)) = os_wire s \<or> os_ready s \<or> os_sessionId s \<noteq> None)"
  by (cases r) (auto simp: arm_def writeChunk_def finalize_def cancel_def await_def split: OtaSessionPhase.split option.split)

definition ota_inv :: "ota_session \<Rightarrow> bool" where
  "ota_inv s \<longleftrightarrow> (\<not> os_ready s \<longrightarrow> os_wire s = [] \<and> os_sessionId s = None \<and> os_awaiting s = [])"

lemma ota_inv_step: "ota_inv s \<Longrightarrow> ota_inv (ota_step l s)"
proof (cases l)
  case (Invoke i r)
  then show "ota_inv s \<Longrightarrow> ota_inv (ota_step l s)"
    by (cases r) (auto simp: ota_inv_def arm_def writeChunk_def finalize_def cancel_def await_def split: OtaSessionPhase.split option.split)
next
  case (Answer i a)
  then show "ota_inv s \<Longrightarrow> ota_inv (ota_step l s)"
    by (cases "os_ready s") (auto simp: ota_inv_def ota_answer_def Let_def split: option.split)
qed

lemma ota_inv_run: "ota_inv (fold ota_step ls (new_session n v ready))"
proof -
  have "ota_inv s \<Longrightarrow> ota_inv (fold ota_step ls s)" for s
    by (induction ls arbitrary: s) (auto intro: ota_inv_step)
  then show ?thesis by (simp add: ota_inv_def new_session_def)
qed

lemma ready_run: "os_ready (fold ota_step ls s) = os_ready s"
proof (induction ls arbitrary: s)
  case (Cons l ls)
  have "os_ready (ota_step l s) = os_ready s"
    using invoke_wire by (cases l) (auto simp: ota_answer_def Let_def split: option.split)
  with Cons show ?case by simp
qed simp

section \<open>One method at a time\<close>

text \<open>A caller that awaits every method: the invocation and its answer.\<close>

definition perform :: "ota_request \<times> int option \<Rightarrow> ota_session \<Rightarrow> ota_session" where
  "perform = (\<lambda>(r, a) s. ota_step (Answer 0 a) (ota_step (Invoke 0 r) s))"

fun contiguous :: "int \<Rightarrow> (int \<times> bytes) list \<Rightarrow> bool" where
  "contiguous offset [] = True"
| "contiguous offset ((j, bs) # xs) = (j = offset \<and> contiguous (offset + int (length bs)) xs)"

definition accepted_bytes :: "ota_session \<Rightarrow> bytes" where
  "accepted_bytes s = concat (map snd (os_accepted s))"

lemma contiguous_snoc:
  "contiguous offset (xs @ [(o', bs)]) \<longleftrightarrow> contiguous offset xs \<and> o' = offset + int (length (concat (map snd xs)))"
  by (induction offset xs rule: contiguous.induct) auto

definition sequential_ok :: "ota_session \<Rightarrow> bool" where
  "sequential_ok s \<longleftrightarrow> os_awaiting s = [] \<and> contiguous 0 (os_accepted s) \<and>
     os_nextExpectedOffset s = int (length (accepted_bytes s))"

lemma perform_ok:
  assumes "sequential_ok s"
  shows "sequential_ok (perform ra s)"
proof -
  obtain r a where ra: "ra = (r, a)" by (cases ra)
  from assms show ?thesis
    by (cases r)
       (auto simp: ra perform_def sequential_ok_def jm_has_def ota_answer_def accepted_bytes_def contiguous_snoc Let_def
          arm_def writeChunk_def finalize_def cancel_def await_def split: OtaSessionPhase.split option.split)
qed

text \<open>Once cancelled or failed, nothing more is sent.\<close>

definition ended :: "ota_session \<Rightarrow> bool" where
  "ended s \<longleftrightarrow> os_phase s = CANCELLED \<or> os_phase s = FAILED"

lemma perform_ended:
  assumes "ended s" and "os_awaiting s = []"
  shows "ended (perform ra s) \<and> os_awaiting (perform ra s) = [] \<and> os_wire (perform ra s) = os_wire s"
proof -
  obtain r a where ra: "ra = (r, a)" by (cases ra)
  from assms show ?thesis
    by (cases r)
       (auto simp: ra perform_def ended_def jm_has_def ota_answer_def Let_def arm_def writeChunk_def finalize_def cancel_def
         split: OtaSessionPhase.split option.split)
qed

lemma perform_run: "sequential_ok (fold perform ras (new_session n v ready))"
proof -
  have "sequential_ok s \<Longrightarrow> sequential_ok (fold perform ras s)" for s
    by (induction ras arbitrary: s) (auto intro: perform_ok)
  then show ?thesis by (simp add: sequential_ok_def accepted_bytes_def new_session_def)
qed

section \<open>Methods that overlap\<close>

text \<open>A cancelled session comes back to life when a last chunk was still under way, and can then be finalized.\<close>

definition revive :: "ota_label list" where
  "revive = [Invoke 0 (Arm []), Answer 0 (Some 7), Invoke 1 (WriteChunk 0 [] True), Invoke 2 Cancel, Answer 2 (Some 0)]"

lemma cancelled_revives:
  "os_phase (fold ota_step revive (new_session 64 [49] True)) = CANCELLED \<and>
   os_wire (fold ota_step (revive @ [Answer 1 (Some 0), Invoke 3 Finalize]) (new_session 64 [49] True)) =
     [OpenBleUpdate 64 [] [49], WriteBleUpdate 7 0 [], CancelBleUpdate 7, FinishBleUpdate 7]"
  by code_simp

text \<open>Two writes of the same offset are both sent while the first is under way.\<close>

lemma same_offset_twice:
  "os_accepted (fold ota_step [Invoke 0 (Arm []), Answer 0 (Some 7), Invoke 1 (WriteChunk 0 [1] False), Invoke 2 (WriteChunk 0 [2] False),
      Answer 1 (Some 0), Answer 2 (Some 0)] (new_session 64 [49] True)) = [(0, [1]), (0, [2])]"
  by code_simp

end
