(* ===== verification/Transfers.thy ===== *)
theory Transfers
  imports CommandOperations StatusOperation Operations Physical Client "HOL-Library.Sublist"
begin

text \<open>
  The operations of \<open>SpaghettiClient\<close> above \<open>request\<close>: \<open>protocol-sdk/src/client/spaghetti-client.ts\<close> from line
  410 on. One call of \<open>request\<close>, itself the state machine of the theory \<open>Client\<close>, is the parameter \<open>core\<close>: under
  some options it exchanges the payload of an operation for a reply or fails. On it rest the paginated reads, the
  download of a configuration in chunks, the uploads in chunks and the plain operations.
\<close>

section \<open>Calls\<close>

type_synonym ('e, 's) core = "request_options \<Rightarrow> Operation \<Rightarrow> bytes \<Rightarrow> 's \<Rightarrow> ('e + bytes) \<times> 's"

text \<open>What an operation rejects with: a failed request, a payload that cannot be coded, an \<open>Error\<close> of its own.\<close>

datatype 'e client_failure = RequestFailed 'e | CodecFailed codec_error | Thrown string

type_synonym ('s, 'e, 'a) act = "'s \<Rightarrow> ('e client_failure + 'a) \<times> 's"

definition bindA :: "('s, 'e, 'a) act \<Rightarrow> ('a \<Rightarrow> ('s, 'e, 'b) act) \<Rightarrow> ('s, 'e, 'b) act" where
  "bindA m k s = (case m s of (Inl e, t) \<Rightarrow> (Inl e, t) | (Inr x, t) \<Rightarrow> k x t)"

definition decoded :: "codec_error + 'a \<Rightarrow> ('s, 'e, 'a) act" where
  "decoded r s = (case r of Inl e \<Rightarrow> (Inl (CodecFailed e), s) | Inr x \<Rightarrow> (Inr x, s))"

text \<open>A payload that cannot be encoded throws before the request.\<close>

definition ask :: "('e, 's) core \<Rightarrow> request_options \<Rightarrow> Operation \<Rightarrow> codec_error + bytes \<Rightarrow> ('s, 'e, bytes) act" where
  "ask core opts operation payload s =
     (case payload of
        Inl e \<Rightarrow> (Inl (CodecFailed e), s)
      | Inr bs \<Rightarrow> (case core opts operation bs s of (Inl e, t) \<Rightarrow> (Inl (RequestFailed e), t) | (Inr r, t) \<Rightarrow> (Inr r, t)))"

definition exchange :: "('e, 's) core \<Rightarrow> request_options \<Rightarrow> Operation \<Rightarrow> codec_error + bytes \<Rightarrow> (bytes \<Rightarrow> codec_error + 'a) \<Rightarrow> ('s, 'e, 'a) act" where
  "exchange core opts operation payload decode = bindA (ask core opts operation payload) (\<lambda>bs. decoded (decode bs))"

lemma bindA_Inr: "bindA m k s = (Inr y, t) \<longleftrightarrow> (\<exists>x u. m s = (Inr x, u) \<and> k x u = (Inr y, t))"
  by (auto simp: bindA_def split: prod.split sum.split)

lemma decoded_Inr: "decoded r s = (Inr x, t) \<longleftrightarrow> r = Inr x \<and> t = s"
  by (auto simp: decoded_def split: sum.split)

lemma ask_Inr: "ask core opts operation payload s = (Inr r, t) \<longleftrightarrow> (\<exists>bs. payload = Inr bs \<and> core opts operation bs s = (Inr r, t))"
  by (auto simp: ask_def split: prod.split sum.split)

lemma exchange_Inr:
  "exchange core opts operation payload decode s = (Inr x, t) \<longleftrightarrow>
     (\<exists>bs answer. payload = Inr bs \<and> core opts operation bs s = (Inr answer, t) \<and> decode answer = Inr x)"
  by (auto simp: exchange_def bindA_Inr ask_Inr decoded_Inr)

section \<open>Plain operations\<close>

definition getCatalog :: "('e, 's) core \<Rightarrow> request_options \<Rightarrow> PageRequest \<Rightarrow> ('s, 'e, GetCatalogResponse) act" where
  "getCatalog core opts req = exchange core opts GET_CATALOG (encodeGetCatalogRequest req) decodeGetCatalogResponse"

definition getStatus :: "('e, 's) core \<Rightarrow> request_options \<Rightarrow> ('s, 'e, GetStatusResponse) act" where
  "getStatus core opts = exchange core opts GET_STATUS encodeEmptyPayload decodeGetStatusResponse"

definition getTopology :: "('e, 's) core \<Rightarrow> request_options \<Rightarrow> PageRequest \<Rightarrow> ('s, 'e, GetTopologyResponse) act" where
  "getTopology core opts req = exchange core opts GET_TOPOLOGY (encodeGetTopologyRequest req) decodeGetTopologyResponse"

text \<open>The overrides of a slow operation: its timeouts are raised to a floor, and it is retried once.\<close>

definition slow_options :: "request_options \<Rightarrow> request_options" where
  "slow_options opts = opts\<lparr>ro_timeoutMs := max (ro_timeoutMs opts) 8000, ro_attemptTimeoutMs := max (ro_attemptTimeoutMs opts) 4000,
     ro_maxRetries := 1\<rparr>"

definition nfcPage :: "('e, 's) core \<Rightarrow> request_options \<Rightarrow> NfcPageRequest \<Rightarrow> ('s, 'e, bytes) act" where
  "nfcPage core opts request =
     exchange core (slow_options opts) NFC_PAGE (encodeNfcPageRequest request) (\<lambda>bs. decodeNfcPageResponse bs (nfc_page request))"

definition identifyBackbone :: "('e, 's) core \<Rightarrow> request_options \<Rightarrow> int \<Rightarrow> ('s, 'e, unit) act" where
  "identifyBackbone core opts nodeId =
     exchange core (opts\<lparr>ro_maxRetries := 0\<rparr>) IDENTIFY_BACKBONE (encodeIdentifyBackboneRequest nodeId) (\<lambda>_. Inr ())"

text \<open>The acknowledgment is compared mode by mode, over the modes it has; a missing mode is \<open>undefined\<close>.\<close>

definition acknowledges :: "ApplyPhysicalRequest \<Rightarrow> ApplyPhysicalRequest \<Rightarrow> bool" where
  "acknowledges confirmed request \<longleftrightarrow> ap_nodeId confirmed = ap_nodeId request \<and> ap_i2cSpeed confirmed = ap_i2cSpeed request \<and>
     list_all (\<lambda>(i, m). i < length (ap_modes request) \<and> m = ap_modes request ! i) (enumerate 0 (ap_modes confirmed))"

definition applyPhysical :: "('e, 's) core \<Rightarrow> request_options \<Rightarrow> ApplyPhysicalRequest \<Rightarrow> ('s, 'e, ApplyPhysicalRequest) act" where
  "applyPhysical core opts request =
     bindA (exchange core (slow_options opts) APPLY_PHYSICAL (encodeApplyPhysicalRequest request) decodeApplyPhysicalResponse)
       (\<lambda>confirmed s. if acknowledges confirmed request then (Inr confirmed, s)
          else (Inl (Thrown ''Physical configuration acknowledgment does not match the selected Backbone''), s))"

definition listDiscovery :: "('e, 's) core \<Rightarrow> request_options \<Rightarrow> PageRequest \<Rightarrow> ('s, 'e, ListDiscoveryResponse) act" where
  "listDiscovery core opts req = exchange core opts LIST_DISCOVERY (encodeListDiscoveryRequest req) decodeListDiscoveryResponse"

definition scanDiscovery :: "('e, 's) core \<Rightarrow> request_options \<Rightarrow> ScanDiscoveryRequest \<Rightarrow> ('s, 'e, int) act" where
  "scanDiscovery core opts req = exchange core opts SCAN_DISCOVERY (encodeScanDiscoveryRequest req) decodeJobIdResponse"

definition acceptDiscovery :: "('e, 's) core \<Rightarrow> request_options \<Rightarrow> AcceptDiscoveryRequest \<Rightarrow> ('s, 'e, AcceptDiscoveryResponse) act" where
  "acceptDiscovery core opts req = exchange core opts ACCEPT_DISCOVERY (encodeAcceptDiscoveryRequest req) decodeAcceptDiscoveryResponse"

definition moduleCommand :: "('e, 's) core \<Rightarrow> request_options \<Rightarrow> ModuleCommandRequest \<Rightarrow> ('s, 'e, ModuleCommandResponse) act" where
  "moduleCommand core opts req = exchange core opts MODULE_COMMAND (encodeModuleCommandRequest req) decodeModuleCommandResponse"

definition getConnectivityStatus :: "('e, 's) core \<Rightarrow> request_options \<Rightarrow> ('s, 'e, GetConnectivityStatusResponse) act" where
  "getConnectivityStatus core opts = exchange core opts GET_CONNECTIVITY_STATUS encodeEmptyPayload decodeGetConnectivityStatusResponse"

definition acquireConnectivityLease :: "('e, 's) core \<Rightarrow> request_options \<Rightarrow> AcquireConnectivityLeaseRequest \<Rightarrow> ('s, 'e, unit) act" where
  "acquireConnectivityLease core opts req =
     exchange core opts ACQUIRE_CONNECTIVITY_LEASE (encodeAcquireConnectivityLeaseRequest req) decodeConnectivityLeaseResponse"

definition releaseConnectivityLease :: "('e, 's) core \<Rightarrow> request_options \<Rightarrow> ('s, 'e, unit) act" where
  "releaseConnectivityLease core opts = exchange core opts RELEASE_CONNECTIVITY_LEASE encodeEmptyPayload decodeConnectivityLeaseResponse"

definition openNetworkMaintenance :: "('e, 's) core \<Rightarrow> request_options \<Rightarrow> ('s, 'e, HandoverAckResponse) act" where
  "openNetworkMaintenance core opts = exchange core opts OPEN_NETWORK_MAINTENANCE encodeEmptyPayload decodeHandoverAckResponse"

definition factoryReset :: "('e, 's) core \<Rightarrow> request_options \<Rightarrow> FactoryResetRequest \<Rightarrow> ('s, 'e, unit) act" where
  "factoryReset core opts req = exchange core opts FACTORY_RESET (encodeFactoryResetRequest req) decodeFactoryResetResponse"

definition getAuditLog :: "('e, 's) core \<Rightarrow> request_options \<Rightarrow> PageRequest \<Rightarrow> ('s, 'e, GetAuditLogResponse) act" where
  "getAuditLog core opts req = exchange core opts GET_AUDIT_LOG (encodeGetAuditLogRequest req) decodeGetAuditLogResponse"

definition getJobStatus :: "('e, 's) core \<Rightarrow> request_options \<Rightarrow> GetJobStatusRequest \<Rightarrow> ('s, 'e, GetJobStatusResponse) act" where
  "getJobStatus core opts req = exchange core opts GET_JOB_STATUS (encodeGetJobStatusRequest req) decodeGetJobStatusResponse"

definition listDeviceProfiles :: "('e, 's) core \<Rightarrow> request_options \<Rightarrow> PageRequest \<Rightarrow> ('s, 'e, ListDeviceProfilesResponse) act" where
  "listDeviceProfiles core opts req =
     exchange core opts LIST_DEVICE_PROFILES (encodeListDeviceProfilesRequest req) decodeListDeviceProfilesResponse"

definition getDeviceProfile :: "('e, 's) core \<Rightarrow> request_options \<Rightarrow> GetDeviceProfileRequest \<Rightarrow> ('s, 'e, GetDeviceProfileResponse) act" where
  "getDeviceProfile core opts req = exchange core opts GET_DEVICE_PROFILE (encodeGetDeviceProfileRequest req) decodeGetDeviceProfileResponse"

definition removeDeviceProfile :: "('e, 's) core \<Rightarrow> request_options \<Rightarrow> RemoveDeviceProfileRequest \<Rightarrow> ('s, 'e, unit) act" where
  "removeDeviceProfile core opts req =
     exchange core opts REMOVE_DEVICE_PROFILE (encodeRemoveDeviceProfileRequest req) decodeRemoveDeviceProfileResponse"

definition getFeatures :: "('e, 's) core \<Rightarrow> request_options \<Rightarrow> ('s, 'e, GetFeaturesResponse) act" where
  "getFeatures core opts = exchange core opts GET_FEATURES encodeEmptyPayload decodeGetFeaturesResponse"

definition getResources :: "('e, 's) core \<Rightarrow> request_options \<Rightarrow> ('s, 'e, GetResourcesResponse) act" where
  "getResources core opts = exchange core opts GET_RESOURCES encodeEmptyPayload decodeGetResourcesResponse"

definition getCapabilities :: "('e, 's) core \<Rightarrow> request_options \<Rightarrow> ('s, 'e, GetCapabilitiesResponse) act" where
  "getCapabilities core opts = exchange core opts GET_CAPABILITIES encodeEmptyPayload decodeGetCapabilitiesResponse"

definition getUpdateStatus :: "('e, 's) core \<Rightarrow> request_options \<Rightarrow> ('s, 'e, GetUpdateStatusResponse) act" where
  "getUpdateStatus core opts = exchange core opts GET_UPDATE_STATUS encodeEmptyPayload decodeGetUpdateStatusResponse"

definition openWifiUpdate :: "('e, 's) core \<Rightarrow> request_options \<Rightarrow> int option \<Rightarrow> ('s, 'e, HandoverAckResponse) act" where
  "openWifiUpdate core opts req = exchange core opts OPEN_WIFI_UPDATE (encodeOpenWifiUpdateRequest req) decodeHandoverAckResponse"

definition openBleUpdate :: "('e, 's) core \<Rightarrow> request_options \<Rightarrow> OpenBleUpdateRequest \<Rightarrow> ('s, 'e, OpenBleUpdateResponse) act" where
  "openBleUpdate core opts req = exchange core opts OPEN_BLE_UPDATE (encodeOpenBleUpdateRequest req) decodeOpenBleUpdateResponse"

definition writeBleUpdate :: "('e, 's) core \<Rightarrow> request_options \<Rightarrow> WriteBleUpdateRequest \<Rightarrow> ('s, 'e, unit) act" where
  "writeBleUpdate core opts req = exchange core opts WRITE_BLE_UPDATE (encodeWriteBleUpdateRequest req) decodeBleUpdateEmptyResponse"

definition finishBleUpdate :: "('e, 's) core \<Rightarrow> request_options \<Rightarrow> BleUpdateSessionRequest \<Rightarrow> ('s, 'e, unit) act" where
  "finishBleUpdate core opts req = exchange core opts FINISH_BLE_UPDATE (encodeBleUpdateSessionRequest req) decodeBleUpdateEmptyResponse"

definition cancelBleUpdate :: "('e, 's) core \<Rightarrow> request_options \<Rightarrow> BleUpdateSessionRequest \<Rightarrow> ('s, 'e, unit) act" where
  "cancelBleUpdate core opts req = exchange core opts CANCEL_BLE_UPDATE (encodeBleUpdateSessionRequest req) decodeBleUpdateEmptyResponse"

section \<open>Pages\<close>

text \<open>The loop ends only with a page whose \<open>nextCursor\<close> is 0 or with an error: \<open>None\<close> is a read without end.\<close>

partial_function (option) paginate :: "(int \<Rightarrow> ('s, 'e, 'a list \<times> int) act) \<Rightarrow> 'a list \<Rightarrow> int \<Rightarrow> 's \<Rightarrow> (('e client_failure + 'a list) \<times> 's) option" where
  "paginate fetchPage items cursor s =
     (case fetchPage cursor s of
        (Inl e, t) \<Rightarrow> Some (Inl e, t)
      | (Inr (page, nextCursor), t) \<Rightarrow>
          if nextCursor = 0 then Some (Inr (items @ page), t) else paginate fetchPage (items @ page) nextCursor t)"

text \<open>One page as the pair of its items and its \<open>nextCursor\<close>.\<close>

definition page_of :: "(PageRequest \<Rightarrow> ('s, 'e, 'p) act) \<Rightarrow> ('p \<Rightarrow> 'a list) \<Rightarrow> ('p \<Rightarrow> int) \<Rightarrow> (int \<Rightarrow> int option) \<Rightarrow> int option \<Rightarrow> int \<Rightarrow> ('s, 'e, 'a list \<times> int) act" where
  "page_of operation items_of cursor_of asked limit cursor =
     bindA (operation \<lparr>pg_cursor = asked cursor, pg_limit = limit\<rparr>) (\<lambda>page s. (Inr (items_of page, cursor_of page), s))"

definition getFullTopology :: "('e, 's) core \<Rightarrow> request_options \<Rightarrow> int option \<Rightarrow> 's \<Rightarrow> (('e client_failure + TopologyFlow list) \<times> 's) option" where
  "getFullTopology core opts limit = paginate (page_of (getTopology core opts) topo_flows topo_nextCursor Some limit) [] 0"

definition getFullDiscoveryList :: "('e, 's) core \<Rightarrow> request_options \<Rightarrow> int option \<Rightarrow> 's \<Rightarrow> (('e client_failure + DiscoveryCandidate list) \<times> 's) option" where
  "getFullDiscoveryList core opts limit = paginate (page_of (listDiscovery core opts) lds_candidates lds_nextCursor Some limit) [] 0"

definition getFullAuditLog :: "('e, 's) core \<Rightarrow> request_options \<Rightarrow> int option \<Rightarrow> 's \<Rightarrow> (('e client_failure + AuditLogEntry list) \<times> 's) option" where
  "getFullAuditLog core opts limit =
     paginate (page_of (getAuditLog core opts) alog_entries alog_nextCursor (\<lambda>cursor. if cursor = 0 then None else Some cursor) limit) [] 0"

definition getFullDeviceProfileList :: "('e, 's) core \<Rightarrow> request_options \<Rightarrow> int option \<Rightarrow> 's \<Rightarrow> (('e client_failure + DeviceProfileSummary list) \<times> 's) option" where
  "getFullDeviceProfileList core opts limit =
     paginate (page_of (listDeviceProfiles core opts) ldps_profiles ldps_nextCursor Some limit) [] 0"

text \<open>
  The catalog is read again from cursor 0 as soon as a page has another fingerprint than the first one: \<open>fp\<close> is
  the fingerprint of the current pass.
\<close>

partial_function (option) catalog_pass ::
  "(int \<Rightarrow> ('s, 'e, GetCatalogResponse) act) \<Rightarrow> int \<Rightarrow> bytes option \<Rightarrow> CatalogDriverEntry list \<Rightarrow> 's \<Rightarrow> (('e client_failure + GetCatalogResponse) \<times> 's) option" where
  "catalog_pass getPage cursor fp drivers s =
     (case getPage cursor s of
        (Inl e, t) \<Rightarrow> Some (Inl e, t)
      | (Inr page, t) \<Rightarrow>
          if fp \<noteq> None \<and> fp \<noteq> Some (cat_fingerprint page) then catalog_pass getPage 0 None [] t
          else if cat_nextCursor page = 0 then Some (Inr (page\<lparr>cat_drivers := drivers @ cat_drivers page, cat_nextCursor := 0\<rparr>), t)
          else catalog_pass getPage (cat_nextCursor page) (Some (cat_fingerprint page)) (drivers @ cat_drivers page) t)"

definition getFullCatalog :: "('e, 's) core \<Rightarrow> request_options \<Rightarrow> int option \<Rightarrow> 's \<Rightarrow> (('e client_failure + GetCatalogResponse) \<times> 's) option" where
  "getFullCatalog core opts limit =
     catalog_pass (\<lambda>cursor. getCatalog core opts \<lparr>pg_cursor = Some cursor, pg_limit = limit\<rparr>) 0 None []"

text \<open>The pages of one pass: each was fetched with the cursor of the one before, the last names no other.\<close>

inductive pages_read :: "(int \<Rightarrow> ('s, 'e, 'p) act) \<Rightarrow> ('p \<Rightarrow> int) \<Rightarrow> int \<Rightarrow> 's \<Rightarrow> 'p list \<Rightarrow> 's \<Rightarrow> bool"
  for fetch :: "int \<Rightarrow> ('s, 'e, 'p) act" and cursor_of :: "'p \<Rightarrow> int" where
  last_page: "fetch cursor s = (Inr page, t) \<Longrightarrow> cursor_of page = 0 \<Longrightarrow> pages_read fetch cursor_of cursor s [page] t"
| more_pages: "fetch cursor s = (Inr page, t) \<Longrightarrow> cursor_of page \<noteq> 0 \<Longrightarrow> pages_read fetch cursor_of (cursor_of page) t pages u \<Longrightarrow>
     pages_read fetch cursor_of cursor s (page # pages) u"

lemma pages_read_paginate:
  "pages_read fetch snd cursor s pages t \<Longrightarrow> paginate fetch items cursor s = Some (Inr (items @ concat (map fst pages)), t)"
proof (induction arbitrary: items rule: pages_read.induct)
  case (last_page cursor s page t)
  then show ?case by (subst paginate.simps) (cases page, simp)
next
  case (more_pages cursor s page t pages u)
  then show ?case by (subst paginate.simps) (cases page, simp)
qed

text \<open>The induction of the loop over the calls that return.\<close>

lemma paginate_induct [consumes 1]:
  assumes "paginate fetch items cursor s = Some y"
    and "\<And>items cursor s e t. fetch cursor s = (Inl e, t) \<Longrightarrow> P items cursor s (Inl e, t)"
    and "\<And>items cursor s page t. fetch cursor s = (Inr (page, 0), t) \<Longrightarrow> P items cursor s (Inr (items @ page), t)"
    and "\<And>items cursor s page nc t y. fetch cursor s = (Inr (page, nc), t) \<Longrightarrow> nc \<noteq> 0 \<Longrightarrow> P (items @ page) nc t y \<Longrightarrow> P items cursor s y"
  shows "P items cursor s y"
proof -
  have "f = fetch \<longrightarrow> P items cursor s y" if "paginate f items cursor s = Some y" for f items cursor s y
  proof (rule paginate.raw_induct [of "\<lambda>f items cursor s y. f = fetch \<longrightarrow> P items cursor s y", OF _ that], intro impI)
    fix paginate f items cursor s y
    assume IH: "\<And>f items cursor s y. paginate f items cursor s = Some y \<Longrightarrow> f = fetch \<longrightarrow> P items cursor s y"
      and y: "(case f cursor s of (Inl e, t) \<Rightarrow> Some (Inl e, t)
          | (Inr (page, nc), t) \<Rightarrow> if nc = 0 then Some (Inr (items @ page), t) else paginate f (items @ page) nc t) = Some y"
      and f: "f = fetch"
    obtain a t where a: "fetch cursor s = (a, t)" by (cases "fetch cursor s")
    show "P items cursor s y"
    proof (cases a)
      case (Inl e)
      with a y f assms(2) show ?thesis by auto
    next
      case (Inr r)
      obtain page nc where r: "r = (page, nc)" by (cases r)
      show ?thesis
      proof (cases "nc = 0")
        case True
        with a y f r Inr assms(3) show ?thesis by auto
      next
        case False
        with a y f r Inr have "paginate f (items @ page) nc t = Some y" by simp
        from IH [OF this] f have "P (items @ page) nc t y" by blast
        with assms(4) [of cursor s page nc t] a r Inr False show ?thesis by blast
      qed
    qed
  qed
  with assms(1) show ?thesis by blast
qed

lemma paginate_pages_read:
  assumes "paginate fetch items cursor s = Some (Inr all, t)"
  shows "\<exists>pages. pages_read fetch snd cursor s pages t \<and> all = items @ concat (map fst pages)"
proof -
  have "\<forall>all t. y = (Inr all, t) \<longrightarrow> (\<exists>pages. pages_read fetch snd cursor s pages t \<and> all = items @ concat (map fst pages))"
    if "paginate fetch items cursor s = Some y" for items cursor s y
    using that
  proof (induction rule: paginate_induct)
    case (2 items cursor s page t)
    then show ?case by (auto intro!: exI [of _ "[(page, 0)]"] pages_read.last_page)
  next
    case (3 items cursor s page nc t y)
    then show ?case
    proof (intro allI impI)
      fix all t' assume "y = (Inr all, t')"
      with 3 obtain pages where "pages_read fetch snd nc t pages t'" "all = (items @ page) @ concat (map fst pages)" by blast
      with 3 show "\<exists>pages. pages_read fetch snd cursor s pages t' \<and> all = items @ concat (map fst pages)"
        by (intro exI [of _ "(page, nc) # pages"]) (auto intro: pages_read.more_pages)
    qed
  qed simp
  with assms show ?thesis by blast
qed

text \<open>A Core whose page names itself as the nc one is read for ever.\<close>

lemma paginate_for_ever:
  assumes "\<And>s. \<exists>page t. fetch c s = (Inr (page, c), t)" and "c \<noteq> 0"
  shows "paginate fetch items c s = None"
proof -
  have "cursor = c \<longrightarrow> False" if "paginate fetch items cursor s = Some y" for items cursor s y
    using that
  proof (induction rule: paginate_induct)
    case (1 items cursor s e t)
    with assms(1) [of s] show ?case by auto
  next
    case (2 items cursor s page t)
    with assms(1) [of s] \<open>c \<noteq> 0\<close> show ?case by auto
  next
    case (3 items cursor s page nc t y)
    with assms(1) [of s] show ?case by auto
  qed
  then show ?thesis by (cases "paginate fetch items c s") blast+
qed

text \<open>A catalog is read in one pass: every page of it has the fingerprint of the result.\<close>

definition one_pass :: "(int \<Rightarrow> ('s, 'e, GetCatalogResponse) act) \<Rightarrow> int \<Rightarrow> CatalogDriverEntry list \<Rightarrow> 's \<Rightarrow> GetCatalogResponse \<Rightarrow> 's \<Rightarrow> bool" where
  "one_pass getPage cursor drivers s r t \<longleftrightarrow>
     (\<exists>pages. pages_read getPage cat_nextCursor cursor s pages t \<and> (\<forall>page\<in>set pages. cat_fingerprint page = cat_fingerprint r) \<and>
        cat_drivers r = drivers @ concat (map cat_drivers pages) \<and> cat_nextCursor r = 0)"

lemma one_pass_last:
  "getPage cursor s = (Inr page, t) \<Longrightarrow> cat_nextCursor page = 0 \<Longrightarrow>
     one_pass getPage cursor drivers s (page\<lparr>cat_drivers := drivers @ cat_drivers page, cat_nextCursor := 0\<rparr>) t"
  unfolding one_pass_def by (intro exI [of _ "[page]"]) (auto intro: pages_read.last_page)

lemma one_pass_more:
  assumes "getPage cursor s = (Inr page, t)" and "cat_nextCursor page \<noteq> 0"
    and "one_pass getPage (cat_nextCursor page) (drivers @ cat_drivers page) t r u" and "cat_fingerprint page = cat_fingerprint r"
  shows "one_pass getPage cursor drivers s r u"
proof -
  from assms(3) obtain pages where "pages_read getPage cat_nextCursor (cat_nextCursor page) t pages u"
    "\<forall>page\<in>set pages. cat_fingerprint page = cat_fingerprint r"
    "cat_drivers r = (drivers @ cat_drivers page) @ concat (map cat_drivers pages)" "cat_nextCursor r = 0"
    unfolding one_pass_def by blast
  with assms show ?thesis unfolding one_pass_def
    by (intro exI [of _ "page # pages"]) (auto intro: pages_read.more_pages)
qed

lemma catalog_pass_one_pass:
  fixes getPage :: "int \<Rightarrow> ('s, 'e, GetCatalogResponse) act"
  assumes "catalog_pass getPage cursor fp drivers s = Some (Inr r, t)"
  shows "(one_pass getPage cursor drivers s r t \<and> (fp \<noteq> None \<longrightarrow> fp = Some (cat_fingerprint r))) \<or> (\<exists>u. one_pass getPage 0 [] u r t)"
proof -
  define P where "P cursor fp drivers s y \<longleftrightarrow> (\<forall>r t. y = (Inr r, t) \<longrightarrow>
      (one_pass getPage cursor drivers s r t \<and> (fp \<noteq> None \<longrightarrow> fp = Some (cat_fingerprint r))) \<or> (\<exists>u. one_pass getPage 0 [] u r t))"
    for cursor fp drivers s and y :: "('e client_failure + GetCatalogResponse) \<times> 's"
  have "g = getPage \<longrightarrow> P cursor fp drivers s y" if "catalog_pass g cursor fp drivers s = Some y" for g cursor fp drivers s y
  proof (rule catalog_pass.raw_induct [of "\<lambda>g cursor fp drivers s y. g = getPage \<longrightarrow> P cursor fp drivers s y", OF _ that], intro impI)
    fix catalog_pass g cursor fp drivers s y
    assume IH: "\<And>g cursor fp drivers s y. catalog_pass g cursor fp drivers s = Some y \<Longrightarrow> g = getPage \<longrightarrow> P cursor fp drivers s y"
      and y: "(case g cursor s of (Inl e, t) \<Rightarrow> Some (Inl e, t)
          | (Inr page, t) \<Rightarrow>
              if fp \<noteq> None \<and> fp \<noteq> Some (cat_fingerprint page) then catalog_pass g 0 None [] t
              else if cat_nextCursor page = 0 then Some (Inr (page\<lparr>cat_drivers := drivers @ cat_drivers page, cat_nextCursor := 0\<rparr>), t)
              else catalog_pass g (cat_nextCursor page) (Some (cat_fingerprint page)) (drivers @ cat_drivers page) t) = Some y"
      and g: "g = getPage"
    obtain a t where a: "getPage cursor s = (a, t)" by (cases "getPage cursor s")
    show "P cursor fp drivers s y"
    proof (cases a)
      case (Inl e)
      with a y g show ?thesis by (auto simp: P_def)
    next
      case (Inr page)
      show ?thesis
      proof (cases "fp \<noteq> None \<and> fp \<noteq> Some (cat_fingerprint page)")
        case True
        with a y g Inr have "catalog_pass getPage 0 None [] t = Some y" by simp
        with IH have "P 0 None [] t y" by blast
        then show ?thesis unfolding P_def by blast
      next
        case same: False
        show ?thesis
        proof (cases "cat_nextCursor page = 0")
          case True
          with a y g Inr same one_pass_last [of getPage cursor s page t drivers] show ?thesis
            unfolding P_def by auto
        next
          case False
          with a y g Inr same
          have "catalog_pass getPage (cat_nextCursor page) (Some (cat_fingerprint page)) (drivers @ cat_drivers page) t = Some y" by (auto split: if_splits)
          with IH have "P (cat_nextCursor page) (Some (cat_fingerprint page)) (drivers @ cat_drivers page) t y" by blast
          then have k: "(one_pass getPage (cat_nextCursor page) (drivers @ cat_drivers page) t r u \<and> cat_fingerprint page = cat_fingerprint r) \<or>
              (\<exists>v. one_pass getPage 0 [] v r u)" if "y = (Inr r, u)" for r u
            using that unfolding P_def by auto
          have "one_pass getPage cursor drivers s r u"
            if "one_pass getPage (cat_nextCursor page) (drivers @ cat_drivers page) t r u" "cat_fingerprint page = cat_fingerprint r" for r u
            using one_pass_more [of getPage cursor s page t drivers r u] a Inr False that by blast
          with k same show ?thesis unfolding P_def by auto
        qed
      qed
    qed
  qed
  with assms show ?thesis unfolding P_def by blast
qed

lemma full_catalog_one_pass:
  assumes "getFullCatalog core opts limit s = Some (Inr r, t)"
  shows "\<exists>u. one_pass (\<lambda>cursor. getCatalog core opts \<lparr>pg_cursor = Some cursor, pg_limit = limit\<rparr>) 0 [] u r t"
  using catalog_pass_one_pass [OF assms [unfolded getFullCatalog_def]] by blast

section \<open>Downloading a configuration\<close>

definition get_config_chunk :: "('e, 's) core \<Rightarrow> request_options \<Rightarrow> int option \<Rightarrow> ('s, 'e, GetConfigResponse) act" where
  "get_config_chunk core opts offset = exchange core opts GET_CONFIG (encodeGetConfigRequest offset) decodeGetConfigResponse"

definition continues :: "GetConfigResponse \<Rightarrow> nat \<Rightarrow> nat \<Rightarrow> GetConfigResponse \<Rightarrow> bool" where
  "continues head full offset chunk \<longleftrightarrow>
     gc_generation chunk = gc_generation head \<and> gc_totalSize chunk = Some (int full) \<and> gc_offset chunk = Some (int offset) \<and>
     gc_sha256 chunk = gc_sha256 head \<and> gc_configBytes chunk \<noteq> [] \<and> length (gc_configBytes chunk) \<le> full - offset"

lemma continues_less:
  "continues head full offset chunk \<Longrightarrow> offset < full \<Longrightarrow> full - (offset + length (gc_configBytes chunk)) < full - offset"
  by (auto simp: continues_def neq_Nil_conv)

text \<open>The loop fills a buffer of \<open>full\<close> bytes; \<open>filled\<close> is what has been written, so its length is the offset.\<close>

function download :: "('e, 's) core \<Rightarrow> request_options \<Rightarrow> GetConfigResponse \<Rightarrow> nat \<Rightarrow> bytes \<Rightarrow> ('s, 'e, bytes) act" where
  "download core opts head full filled s =
     (if length filled \<ge> full then (Inr filled, s)
      else case get_config_chunk core opts (Some (int (length filled))) s of
             (Inl e, t) \<Rightarrow> (Inl e, t)
           | (Inr chunk, t) \<Rightarrow>
               if continues head full (length filled) chunk then download core opts head full (filled @ gc_configBytes chunk) t
               else (Inl (Thrown ''Configuration changed during download''), t))"
  by pat_completeness auto

termination
  by (relation "measure (\<lambda>(core, opts, head, full, filled, s). full - length filled)") (auto intro: continues_less)

declare download.simps [simp del]

definition getConfig :: "('e, 's) core \<Rightarrow> request_options \<Rightarrow> ('s, 'e, GetConfigResponse) act" where
  "getConfig core opts = bindA (get_config_chunk core opts None) (\<lambda>head s.
     case gc_totalSize head of
       None \<Rightarrow> (Inr head, s)
     | Some n \<Rightarrow>
         if gc_offset head \<noteq> Some 0 \<or> n > 65536 \<or> n < int (length (gc_configBytes head))
         then (Inl (Thrown ''Invalid configuration chunk full''), s)
         else bindA (download core opts head (nat n) (gc_configBytes head)) (\<lambda>bs s.
           (Inr \<lparr>gc_generation = gc_generation head, gc_sha256 = gc_sha256 head, gc_configBytes = bs,
                 gc_totalSize = None, gc_offset = None\<rparr>, s)) s)"

text \<open>
  A Core that answers \<open>GET_CONFIG\<close> for the configuration it holds when it answers, whole or a piece of it from an
  offset; whatever else it does, also between two answers, the bytes never change without the generation.
\<close>

definition describes :: "(bytes \<Rightarrow> bytes) \<Rightarrow> bytes \<Rightarrow> int \<Rightarrow> GetConfigResponse \<Rightarrow> bool" where
  "describes sha256 bs g r \<longleftrightarrow> gc_generation r = g \<and> gc_sha256 r = sha256 bs \<and>
     (case gc_totalSize r of
        None \<Rightarrow> gc_configBytes r = bs
      | Some n \<Rightarrow> n = int (length bs) \<and> (\<forall>k. gc_offset r = Some (int k) \<longrightarrow> prefix (gc_configBytes r) (drop k bs)))"

definition serves :: "(bytes \<Rightarrow> bytes) \<Rightarrow> ('s \<Rightarrow> bytes) \<Rightarrow> ('s \<Rightarrow> int) \<Rightarrow> ('e, 's) core \<Rightarrow> bool" where
  "serves sha256 holds gen core \<longleftrightarrow> (\<forall>s t. gen s = gen t \<longrightarrow> holds s = holds t) \<and>
     (\<forall>opts bs s answer t r. core opts GET_CONFIG bs s = (Inr answer, t) \<longrightarrow> decodeGetConfigResponse answer = Inr r \<longrightarrow>
        describes sha256 (holds s) (gen s) r)"

lemma chunk_describes:
  assumes "serves sha256 holds gen core" and "get_config_chunk core opts offset s = (Inr r, t)"
  shows "describes sha256 (holds s) (gen s) r"
proof -
  from assms(2) obtain bs answer where "core opts GET_CONFIG bs s = (Inr answer, t)" "decodeGetConfigResponse answer = Inr r"
    by (auto simp: get_config_chunk_def exchange_Inr)
  with assms(1) show ?thesis unfolding serves_def by blast
qed

lemma prefix_joins:
  assumes "prefix xs bs" and "prefix ys (drop (length xs) bs)"
  shows "prefix (xs @ ys) bs"
  using assms by (auto simp: prefix_def)

lemma download_prefix:
  assumes "serves sha256 holds gen core" and "gc_generation head = gen u" and "prefix filled (holds u)"
    and "download core opts head (length (holds u)) filled s = (Inr bs, t)"
  shows "bs = holds u"
  using assms(3,4)
proof (induction "length (holds u) - length filled" arbitrary: filled s rule: less_induct)
  case less
  show ?case
  proof (cases "length filled \<ge> length (holds u)")
    case True
    with less.prems show ?thesis by (auto simp: download.simps prefix_def)
  next
    case False
    with less.prems(2) obtain chunk v where c: "get_config_chunk core opts (Some (int (length filled))) s = (Inr chunk, v)"
      and ok: "continues head (length (holds u)) (length filled) chunk"
      and more: "download core opts head (length (holds u)) (filled @ gc_configBytes chunk) v = (Inr bs, t)"
      by (auto simp: download.simps [of core opts head "length (holds u)" filled s] split: prod.splits sum.splits if_splits)
    from chunk_describes [OF assms(1) c] have d: "describes sha256 (holds s) (gen s) chunk" .
    with ok assms(2) have "gen s = gen u" by (simp add: describes_def continues_def)
    with assms(1) have "holds s = holds u" unfolding serves_def by blast
    with d ok have "prefix (gc_configBytes chunk) (drop (length filled) (holds u))"
      by (auto simp: describes_def continues_def)
    then have p: "prefix (filled @ gc_configBytes chunk) (holds u)" by (rule prefix_joins [OF less.prems(1)])
    have "length (holds u) - length (filled @ gc_configBytes chunk) < length (holds u) - length filled"
      using continues_less [OF ok] False by simp
    from less.hyps [OF this p more] show ?thesis .
  qed
qed

lemma getConfig_reads:
  assumes "serves sha256 holds gen core" and "getConfig core opts s = (Inr r, t)"
  shows "gc_generation r = gen s \<and> gc_sha256 r = sha256 (holds s) \<and> gc_configBytes r = holds s"
proof -
  from assms(2) obtain head v where o: "get_config_chunk core opts None s = (Inr head, v)"
    and k: "(case gc_totalSize head of
       None \<Rightarrow> (Inr head, v)
     | Some n \<Rightarrow>
         if gc_offset head \<noteq> Some 0 \<or> n > 65536 \<or> n < int (length (gc_configBytes head))
         then (Inl (Thrown ''Invalid configuration chunk full''), v)
         else bindA (download core opts head (nat n) (gc_configBytes head)) (\<lambda>bs s.
           (Inr \<lparr>gc_generation = gc_generation head, gc_sha256 = gc_sha256 head, gc_configBytes = bs,
                 gc_totalSize = None, gc_offset = None\<rparr>, s)) v) = (Inr r, t)"
    by (auto simp: getConfig_def bindA_Inr)
  from chunk_describes [OF assms(1) o] have d: "describes sha256 (holds s) (gen s) head" .
  show ?thesis
  proof (cases "gc_totalSize head")
    case None
    with d k show ?thesis by (auto simp: describes_def)
  next
    case (Some n)
    with k obtain bs where b: "download core opts head (nat n) (gc_configBytes head) v = (Inr bs, t)"
      and r: "r = \<lparr>gc_generation = gc_generation head, gc_sha256 = gc_sha256 head, gc_configBytes = bs, gc_totalSize = None, gc_offset = None\<rparr>"
      and z: "gc_offset head = Some 0"
      by (auto simp: bindA_Inr split: if_splits)
    from d Some z have n: "nat n = length (holds s)" and p: "prefix (gc_configBytes head) (holds s)" and g: "gc_generation head = gen s"
      by (auto simp: describes_def dest: spec [of _ 0])
    from download_prefix [OF assms(1) g p b [unfolded n]] d r show ?thesis by (simp add: describes_def)
  qed
qed

section \<open>Uploads\<close>

definition slice :: "bytes \<Rightarrow> nat \<Rightarrow> bytes" where
  "slice bs offset = take 400 (drop offset bs)"

definition next_token :: "int \<Rightarrow> int" where
  "next_token token = (let t = (token + 1) mod 2 ^ 32 in if t = 0 then 1 else t)"

text \<open>The reply of the last chunk is the reply of the operation; the replies before it are dropped.\<close>

function upload_chunks :: "('e, 's) core \<Rightarrow> request_options \<Rightarrow> config_operation \<Rightarrow> bytes \<Rightarrow> int \<Rightarrow> int \<Rightarrow> nat \<Rightarrow> bytes \<Rightarrow> ('s, 'e, bytes) act" where
  "upload_chunks core opts operation configBytes token generation offset result s =
     (if offset \<ge> length configBytes then (Inr result, s)
      else case ask core opts (if operation = OpApply then APPLY_CONFIG else VALIDATE_CONFIG)
             (encodeConfigChunk operation (slice configBytes offset) token (int offset) (int (length configBytes)) generation) s of
             (Inl e, t) \<Rightarrow> (Inl e, t)
           | (Inr r, t) \<Rightarrow> upload_chunks core opts operation configBytes token generation (offset + 400) r t)"
  by pat_completeness auto

termination
  by (relation "measure (\<lambda>(core, opts, operation, configBytes, token, generation, offset, result, s). length configBytes - offset)") auto

declare upload_chunks.simps [simp del]

text \<open>The upload token is a field of the client: the state is the token and the state of the Core.\<close>

definition transferConfig :: "('e, 's) core \<Rightarrow> request_options \<Rightarrow> config_operation \<Rightarrow> bytes \<Rightarrow> int \<Rightarrow> (int \<times> 's, 'e, bytes) act" where
  "transferConfig core opts operation configBytes generation = (\<lambda>(token, s).
     if length configBytes \<le> 576
     then (case ask core opts (if operation = OpApply then APPLY_CONFIG else VALIDATE_CONFIG)
             (if operation = OpApply then encodeApplyConfigRequest \<lparr>apply_expectedGeneration = generation, apply_configBytes = configBytes\<rparr>
              else encodeValidateConfigRequest configBytes) s of (r, t) \<Rightarrow> (r, (token, t)))
     else (case upload_chunks core opts operation configBytes (next_token token) generation 0 [] s of (r, t) \<Rightarrow> (r, (next_token token, t))))"

definition validateConfig :: "('e, 's) core \<Rightarrow> request_options \<Rightarrow> bytes \<Rightarrow> (int \<times> 's, 'e, ValidateConfigResponse) act" where
  "validateConfig core opts configBytes =
     bindA (transferConfig core opts OpValidate configBytes 0) (\<lambda>bs. decoded (decodeValidateConfigResponse bs))"

definition applyConfig :: "('e, 's) core \<Rightarrow> request_options \<Rightarrow> ApplyConfigRequest \<Rightarrow> (int \<times> 's, 'e, ApplyConfigResponse) act" where
  "applyConfig core opts req =
     bindA (transferConfig core opts OpApply (apply_configBytes req) (apply_expectedGeneration req)) (\<lambda>bs. decoded (decodeApplyConfigResponse bs))"

text \<open>Uploads of Device Profiles: a validation stops at the first chunk that is not valid. The token is random.\<close>

definition validate_profile_part :: "('e, 's) core \<Rightarrow> request_options \<Rightarrow> ValidateDeviceProfileRequest \<Rightarrow> ('s, 'e, int) act" where
  "validate_profile_part core opts req =
     exchange core opts VALIDATE_DEVICE_PROFILE (encodeValidateDeviceProfileRequest req) decodeValidateDeviceProfileResponse"

definition profile_part :: "bytes \<Rightarrow> int \<Rightarrow> nat \<Rightarrow> ValidateDeviceProfileRequest" where
  "profile_part bs token offset =
     \<lparr>vdp_profileCbor = slice bs offset, vdp_upload = Some \<lparr>up_offset = int offset, up_total = int (length bs), up_token = token\<rparr>\<rparr>"

function validate_profile_parts :: "('e, 's) core \<Rightarrow> request_options \<Rightarrow> bytes \<Rightarrow> int \<Rightarrow> nat \<Rightarrow> int \<Rightarrow> ('s, 'e, int) act" where
  "validate_profile_parts core opts profileCbor token offset response s =
     (if offset \<ge> length profileCbor then (Inr response, s)
      else case validate_profile_part core opts (profile_part profileCbor token offset) s of
             (Inl e, t) \<Rightarrow> (Inl e, t)
           | (Inr valid, t) \<Rightarrow> if valid = 0 then (Inr valid, t) else validate_profile_parts core opts profileCbor token (offset + 400) valid t)"
  by pat_completeness auto

termination
  by (relation "measure (\<lambda>(core, opts, bs, token, offset, response, s). length bs - offset)") auto

declare validate_profile_parts.simps [simp del]

definition validateDeviceProfile :: "('e, 's) core \<Rightarrow> request_options \<Rightarrow> int \<Rightarrow> ValidateDeviceProfileRequest \<Rightarrow> ('s, 'e, int) act" where
  "validateDeviceProfile core opts token req =
     (if length (vdp_profileCbor req) > 480 \<and> vdp_upload req = None
      then validate_profile_parts core opts (vdp_profileCbor req) token 0 0
      else validate_profile_part core opts req)"

definition install_profile_part :: "('e, 's) core \<Rightarrow> request_options \<Rightarrow> ValidateDeviceProfileRequest \<Rightarrow> ('s, 'e, unit) act" where
  "install_profile_part core opts req =
     exchange core opts INSTALL_DEVICE_PROFILE (encodeInstallDeviceProfileRequest req) decodeInstallDeviceProfileResponse"

function install_profile_parts :: "('e, 's) core \<Rightarrow> request_options \<Rightarrow> bytes \<Rightarrow> int \<Rightarrow> nat \<Rightarrow> ('s, 'e, unit) act" where
  "install_profile_parts core opts profileCbor token offset s =
     (if offset \<ge> length profileCbor then (Inr (), s)
      else case install_profile_part core opts (profile_part profileCbor token offset) s of
             (Inl e, t) \<Rightarrow> (Inl e, t)
           | (Inr _, t) \<Rightarrow> install_profile_parts core opts profileCbor token (offset + 400) t)"
  by pat_completeness auto

termination
  by (relation "measure (\<lambda>(core, opts, bs, token, offset, s). length bs - offset)") auto

declare install_profile_parts.simps [simp del]

definition installDeviceProfile :: "('e, 's) core \<Rightarrow> request_options \<Rightarrow> int \<Rightarrow> ValidateDeviceProfileRequest \<Rightarrow> ('s, 'e, unit) act" where
  "installDeviceProfile core opts token req =
     (if length (vdp_profileCbor req) > 480 \<and> vdp_upload req = None
      then install_profile_parts core opts (vdp_profileCbor req) token 0
      else install_profile_part core opts req)"

section \<open>What an upload sends\<close>

text \<open>A Core that only remembers what it was asked; its answers are arbitrary.\<close>

definition recorder :: "((Operation \<times> bytes) list \<Rightarrow> 'e + bytes) \<Rightarrow> ('e, (Operation \<times> bytes) list) core" where
  "recorder answer opts operation bs log = (answer log, log @ [(operation, bs)])"

function pieces :: "bytes \<Rightarrow> nat \<Rightarrow> (nat \<times> bytes) list" where
  "pieces bs offset = (if offset \<ge> length bs then [] else (offset, slice bs offset) # pieces bs (offset + 400))"
  by pat_completeness auto

termination
  by (relation "measure (\<lambda>(bs, offset). length bs - offset)") auto

declare pieces.simps [simp del]

lemma pieces_end [simp]: "offset \<ge> length bs \<Longrightarrow> pieces bs offset = []"
  by (simp add: pieces.simps)

lemma pieces_step: "offset < length bs \<Longrightarrow> pieces bs offset = (offset, slice bs offset) # pieces bs (offset + 400)"
  by (simp add: pieces.simps [of bs offset])

lemma pieces_join: "concat (map snd (pieces bs offset)) = drop offset bs"
proof (induction bs offset rule: pieces.induct)
  case (1 bs offset)
  have "take 400 (drop offset bs) @ drop (offset + 400) bs = drop offset bs"
    by (metis append_take_drop_id drop_drop add.commute)
  with 1 show ?case by (cases "offset < length bs") (auto simp: pieces_step slice_def)
qed

lemma pieces_short: "p \<in> set (pieces bs offset) \<Longrightarrow> snd p \<noteq> [] \<and> length (snd p) \<le> 400"
proof (induction bs offset rule: pieces.induct)
  case (1 bs offset)
  then show ?case by (cases "offset < length bs") (auto simp: pieces_step slice_def)
qed

lemma ask_recorder:
  "ask (recorder answer) opts operation payload log = (Inr r, log') \<longleftrightarrow>
     (\<exists>bs. payload = Inr bs \<and> answer log = Inr r \<and> log' = log @ [(operation, bs)])"
  by (auto simp: ask_Inr recorder_def)

definition chunk_payload :: "config_operation \<Rightarrow> bytes \<Rightarrow> int \<Rightarrow> int \<Rightarrow> nat \<times> bytes \<Rightarrow> bytes \<Rightarrow> bool" where
  "chunk_payload operation bs token generation p payload \<longleftrightarrow>
     encodeConfigChunk operation (snd p) token (int (fst p)) (int (length bs)) generation = Inr payload"

lemma upload_sends:
  "upload_chunks (recorder answer) opts operation bs token generation offset result log = (Inr r, log') \<Longrightarrow>
     \<exists>payloads. log' = log @ map (Pair (if operation = OpApply then APPLY_CONFIG else VALIDATE_CONFIG)) payloads \<and>
       list_all2 (chunk_payload operation bs token generation) (pieces bs offset) payloads"
proof (induction "length bs - offset" arbitrary: offset result log rule: less_induct)
  case less
  show ?case
  proof (cases "offset < length bs")
    case True
    let ?op = "if operation = OpApply then APPLY_CONFIG else VALIDATE_CONFIG"
    from less.prems True obtain p r' where
      p: "encodeConfigChunk operation (slice bs offset) token (int offset) (int (length bs)) generation = Inr p"
      and more: "upload_chunks (recorder answer) opts operation bs token generation (offset + 400) r' (log @ [(?op, p)]) = (Inr r, log')"
      by (auto simp: upload_chunks.simps [of _ _ _ _ _ _ offset] ask_recorder split: prod.splits sum.splits)
    from less.hyps [OF _ more] True obtain payloads where
      "log' = (log @ [(?op, p)]) @ map (Pair ?op) payloads" "list_all2 (chunk_payload operation bs token generation) (pieces bs (offset + 400)) payloads"
      by (auto simp: diff_less_mono2)
    with p True show ?thesis
      by (intro exI [of _ "p # payloads"]) (auto simp: pieces_step chunk_payload_def)
  qed (use less.prems in \<open>auto simp: upload_chunks.simps\<close>)
qed

lemma transfer_sends:
  assumes "transferConfig (recorder answer) opts operation bs generation (token, []) = (Inr r, (token', log))" and "length bs > 576"
  shows "token' = next_token token \<and> (\<exists>payloads.
     log = map (Pair (if operation = OpApply then APPLY_CONFIG else VALIDATE_CONFIG)) payloads \<and>
     list_all2 (chunk_payload operation bs token' generation) (pieces bs 0) payloads)"
  using assms upload_sends [of answer opts operation bs "next_token token" generation 0 "[]" "[]" r log]
  by (auto simp: transferConfig_def split: prod.splits)

lemma next_token_range: "0 < next_token token \<and> next_token token < 2 ^ 32"
proof -
  have "0 \<le> (token + 1) mod 2 ^ 32 \<and> (token + 1) mod 2 ^ 32 < 2 ^ 32" by simp
  then show ?thesis by (auto simp: next_token_def Let_def)
qed

text \<open>An acknowledgment with fewer modes than the request is accepted.\<close>

lemma acknowledges_shorter:
  "acknowledges \<lparr>ap_nodeId = 5, ap_modes = [1, 1, 1, 1], ap_i2cSpeed = 0, ap_expectedTag = None, ap_settings = None\<rparr>
     \<lparr>ap_nodeId = 5, ap_modes = [1, 1, 1, 1, 2, 2, 2, 2], ap_i2cSpeed = 0, ap_expectedTag = None, ap_settings = None\<rparr>"
  by code_simp

lemma acknowledges_prefix: "acknowledges confirmed request \<Longrightarrow> prefix (ap_modes confirmed) (ap_modes request)"
proof -
  assume a: "acknowledges confirmed request"
  then have n: "i < length (ap_modes request) \<and> ap_modes confirmed ! i = ap_modes request ! i" if "i < length (ap_modes confirmed)" for i
    using that by (auto simp: acknowledges_def list_all_length nth_enumerate_eq)
  have "ap_modes confirmed = take (length (ap_modes confirmed)) (ap_modes request)"
  proof (rule nth_equalityI)
    show "length (ap_modes confirmed) = length (take (length (ap_modes confirmed)) (ap_modes request))"
      using n by (metis length_take min.absorb2 linorder_not_less order_refl)
  qed (use n in auto)
  then show ?thesis by (metis take_is_prefix)
qed

end
