(* ===== verification/Wire.thy ===== *)
theory Wire
  imports Deploy Transfers
begin

text \<open>
  The client of a deployment is a \<open>SpaghettiClient\<close>: the three calls of \<open>Deploy\<close> implemented by the chunked transfers
  of \<open>Transfers\<close>, and what they promise when the Core serves its configuration in pieces.
\<close>

fun wire_failure :: "client_error client_failure \<Rightarrow> wire_error" where
  "wire_failure (RequestFailed e) =
     (case ce_status e of Some status \<Rightarrow> if ce_code e = ErrProtocol then ProtocolError status else OtherError | None \<Rightarrow> OtherError)"
| "wire_failure (CodecFailed e) = OtherError"
| "wire_failure (Thrown m) = OtherError"

fun wire_validate :: "ValidateConfigResponse \<Rightarrow> ValidateAnswer" where
  "wire_validate ConfigValid = Accepted"
| "wire_validate (ConfigInvalid f i r) = Rejected f i r"

definition wire_apply :: "ApplyConfigResponse \<Rightarrow> ApplyAnswer" where
  "wire_apply r = \<lparr>aa_changed = applied_changed r, aa_generation = applied_generation r, aa_sha256 = applied_sha256 r\<rparr>"

definition wire_config :: "GetConfigResponse \<Rightarrow> ConfigAnswer" where
  "wire_config r = \<lparr>ca_generation = gc_generation r, ca_sha256 = gc_sha256 r, ca_configBytes = gc_configBytes r\<rparr>"

definition sdk_client :: "(client_error, 's) core \<Rightarrow> request_options \<Rightarrow> (int \<times> 's) wire_client" where
  "sdk_client core opts =
     \<lparr>wc_validate = (\<lambda>bs s. apfst (map_sum wire_failure wire_validate) (validateConfig core opts bs s)),
      wc_apply = (\<lambda>g bs s. apfst (map_sum wire_failure wire_apply)
        (applyConfig core opts \<lparr>apply_expectedGeneration = g, apply_configBytes = bs\<rparr> s)),
      wc_get = (\<lambda>(token, s). case getConfig core opts s of (a, t) \<Rightarrow> (map_sum wire_failure wire_config a, (token, t)))\<rparr>"

text \<open>Reading the configuration does not change it.\<close>

definition quiet :: "('s \<Rightarrow> 'a) \<Rightarrow> ('e, 's) core \<Rightarrow> bool" where
  "quiet view core \<longleftrightarrow> (\<forall>opts bs s. view (snd (core opts GET_CONFIG bs s)) = view s)"

lemma chunk_quiet: "quiet view core \<Longrightarrow> view (snd (get_config_chunk core opts offset s)) = view s"
  by (auto simp: get_config_chunk_def exchange_def bindA_def ask_def decoded_def quiet_def split: sum.split prod.split)
     (metis snd_conv)+

lemma download_quiet:
  assumes "quiet view core"
  shows "view (snd (download core opts head full filled s)) = view s"
proof (induction "full - length filled" arbitrary: filled s rule: less_induct)
  case less
  obtain a t where a: "get_config_chunk core opts (Some (int (length filled))) s = (a, t)"
    by (cases "get_config_chunk core opts (Some (int (length filled))) s")
  with chunk_quiet [OF assms, of opts "Some (int (length filled))" s] have t: "view t = view s" by simp
  show ?case
  proof (cases "length filled < full \<and> (\<exists>chunk. a = Inr chunk \<and> continues head full (length filled) chunk)")
    case True
    then obtain chunk where c: "a = Inr chunk" "continues head full (length filled) chunk" by blast
    with less.hyps [of "filled @ gc_configBytes chunk" t] continues_less [OF c(2)] True a t show ?thesis
      by (simp add: download.simps [of core opts head full filled s])
  next
    case False
    with a t show ?thesis by (auto simp: download.simps [of core opts head full filled s] split: sum.split)
  qed
qed

lemma getConfig_quiet: "quiet view core \<Longrightarrow> view (snd (getConfig core opts s)) = view s"
  using chunk_quiet [of view core opts None s] download_quiet [of view core opts]
  by (auto simp: getConfig_def bindA_def split: prod.split sum.split option.split) (metis snd_conv)+

lemma sdk_truthful:
  assumes "serves sha256 holds gen core" and "quiet (\<lambda>s. (holds s, gen s)) core"
  shows "truthful sha256 (\<lambda>(token, s). holds s) (\<lambda>(token, s). gen s) (sdk_client core opts)"
proof -
  have "(\<lambda>(token, s). holds s) (snd (wc_get (sdk_client core opts) u)) = (\<lambda>(token, s). holds s) u \<and>
     (\<lambda>(token, s). gen s) (snd (wc_get (sdk_client core opts) u)) = (\<lambda>(token, s). gen s) u \<and>
     (\<forall>live. fst (wc_get (sdk_client core opts) u) = Inr live \<longrightarrow>
        ca_generation live = (\<lambda>(token, s). gen s) u \<and> ca_sha256 live = sha256 ((\<lambda>(token, s). holds s) u))" for u
  proof -
    obtain token s where u: "u = (token, s)" by (cases u)
    obtain a t where a: "getConfig core opts s = (a, t)" by (cases "getConfig core opts s")
    have "holds t = holds s \<and> gen t = gen s" using getConfig_quiet [OF assms(2), of opts s] a by simp
    moreover have "gc_generation r = gen s \<and> gc_sha256 r = sha256 (holds s)" if "a = Inr r" for r
      using getConfig_reads [OF assms(1) a [unfolded that]] by blast
    ultimately show ?thesis
      by (cases a) (auto simp: u a sdk_client_def wire_config_def)
  qed
  then show ?thesis unfolding truthful_def by blast
qed

section \<open>A Core that serves pieces\<close>

text \<open>The state is the generation and the bytes; replies carry at most \<open>n\<close> bytes, and requests beyond the words of 32 bits fail.\<close>

definition piece_reply :: "(bytes \<Rightarrow> bytes) \<Rightarrow> nat \<Rightarrow> int option \<Rightarrow> int \<times> bytes \<Rightarrow> GetConfigResponse" where
  "piece_reply sha256 n offset = (\<lambda>(g, bs).
     if length bs \<le> n then \<lparr>gc_generation = g, gc_sha256 = sha256 bs, gc_configBytes = bs, gc_totalSize = None, gc_offset = None\<rparr>
     else let k = (case offset of None \<Rightarrow> 0 | Some v \<Rightarrow> v) in
       \<lparr>gc_generation = g, gc_sha256 = sha256 bs, gc_configBytes = take n (drop (nat k) bs), gc_totalSize = Some (int (length bs)), gc_offset = Some k\<rparr>)"

definition chunk_core :: "(bytes \<Rightarrow> bytes) \<Rightarrow> (int \<Rightarrow> bytes) \<Rightarrow> nat \<Rightarrow> (client_error, int) core" where
  "chunk_core sha256 config n opts operation payload g =
     (case decodeGetConfigRequest payload of
        Inl _ \<Rightarrow> (Inl (client_error ErrTimeout 16 1), g)
      | Inr offset \<Rightarrow>
          let r = piece_reply sha256 n offset (g, config g) in
          (case encodeGetConfigResponse r of
             Inr answer \<Rightarrow> if operation = GET_CONFIG \<and> decodeGetConfigResponse answer = Inr r then Inr answer
                           else Inl (client_error ErrTimeout 16 1)
           | Inl _ \<Rightarrow> Inl (client_error ErrTimeout 16 1), g))"

lemma piece_describes: "describes sha256 (snd s) (fst s) (piece_reply sha256 n offset s)"
  by (auto simp: describes_def piece_reply_def Let_def take_is_prefix split: option.split prod.split)

lemma chunk_core_serves: "serves sha256 config id (chunk_core sha256 config n)"
proof -
  have "describes sha256 (config g) g r"
    if a: "chunk_core sha256 config n opts GET_CONFIG bs g = (Inr answer, t)" and r: "decodeGetConfigResponse answer = Inr r"
    for opts bs g answer t r
  proof -
    from a r obtain offset where "r = piece_reply sha256 n offset (g, config g)"
      by (auto simp: chunk_core_def Let_def split: sum.splits if_splits)
    with piece_describes [of sha256 "(g, config g)" n offset] show ?thesis by simp
  qed
  then show ?thesis unfolding serves_def by auto
qed

lemma chunk_core_quiet: "quiet view (chunk_core sha256 config n)"
  by (auto simp: quiet_def chunk_core_def Let_def split: sum.split)

text \<open>Three bytes, two at a time.\<close>

lemma chunk_core_run:
  "getConfig (chunk_core (\<lambda>bs. [0]) (\<lambda>g. [1, 2, 3]) 2) default_options 7 =
     (Inr \<lparr>gc_generation = 7, gc_sha256 = [0], gc_configBytes = [1, 2, 3], gc_totalSize = None, gc_offset = None\<rparr>, 7)"
  by code_simp

end
