(* ===== verification/TransferSample.thy ===== *)
theory TransferSample
  imports Transfers
begin

text \<open>
  Concrete transfers: a catalog of one page without drivers, and the upload of a configuration of 577 bytes.
\<close>

definition empty_catalog :: GetCatalogResponse where
  "empty_catalog = \<lparr>cat_protocolVersion = 1, cat_configVersion = 1, cat_fingerprint = [7], cat_drivers = [], cat_nextCursor = 0, cat_driverCount = 0\<rparr>"

definition catalog_core :: "(client_error, unit) core" where
  "catalog_core opts operation payload s =
     (case encodeGetCatalogResponse empty_catalog of Inr bs \<Rightarrow> Inr bs | Inl e \<Rightarrow> Inl (client_error ErrTimeout 1 1), s)"

lemma catalog_page: "getCatalog catalog_core default_options \<lparr>pg_cursor = Some 0, pg_limit = None\<rparr> () = (Inr empty_catalog, ())"
  by code_simp

lemma catalog_core_reads: "getFullCatalog catalog_core default_options None () = Some (Inr empty_catalog, ())"
  unfolding getFullCatalog_def by (subst catalog_pass.simps) (simp add: catalog_page, simp add: empty_catalog_def)

lemma chunk_encodes:
  assumes "u32_ok token" and "u32_ok offset" and "u32_ok full" and "length bs < 2 ^ 53"
  shows "\<exists>payload. encodeConfigChunk OpValidate bs token offset full generation = Inr payload"
proof -
  have "gives (encodeConfigChunk OpValidate bs token offset full generation)
      (CMap [(0, CBytes bs), (10, CUint token), (11, CUint offset), (12, CUint full)])"
    unfolding encodeConfigChunk_def
    by (rule gives_fields) (use assms in \<open>simp_all add: writes_intros bytes_ok_def\<close>)
  then show ?thesis by (auto simp: gives_def)
qed

definition recording_core :: "(client_error, (Operation \<times> bytes) list) core" where
  "recording_core = recorder (\<lambda>log. Inr [0])"

lemma long_upload:
  "\<exists>log. transferConfig recording_core default_options OpValidate (replicate 577 1) 0 (0, []) = (Inr [0], (1, log)) \<and> length log = 2"
proof -
  let ?bs = "replicate 577 1 :: bytes"
  have s: "length (slice ?bs n) < 2 ^ 53" for n by (simp add: slice_def)
  obtain p q where p: "encodeConfigChunk OpValidate (slice ?bs 0) 1 0 577 0 = Inr p"
    and q: "encodeConfigChunk OpValidate (slice ?bs 400) 1 400 577 0 = Inr q"
    using chunk_encodes [of 1 0 577 "slice ?bs 0" 0] chunk_encodes [of 1 400 577 "slice ?bs 400" 0] s by auto
  have "upload_chunks recording_core default_options OpValidate ?bs 1 0 0 [] [] =
      (Inr [0], [(VALIDATE_CONFIG, p), (VALIDATE_CONFIG, q)])"
    using p q by (simp add: upload_chunks.simps recording_core_def ask_def recorder_def bindA_def)
  then show ?thesis by (simp add: transferConfig_def next_token_def)
qed

end
