(* ===== verification/SyncState.thy ===== *)
theory SyncState
  imports Deploy Operations StatusOperation
begin

text \<open>
  The parts of a Core session that stand for themselves: \<open>core-session/src/sync-classifier.ts\<close>,
  \<open>catalog-cache.ts\<close>, \<open>discovery-binding.ts\<close>, \<open>reconnect-policy.ts\<close>, \<open>hex.ts\<close> and \<open>session-state.ts\<close>.
\<close>

section \<open>How project and Core relate\<close>

datatype SessionState =
    DISCONNECTED | CONNECTING | AUTHENTICATING | SYNCHRONIZING | READY | VALIDATING | APPLYING | UPDATING
  | REBOOTING | TRIAL | CONFLICT | ERROR | ROLLED_BACK

datatype SyncRelationship = IN_SYNC | PROJECT_DIRTY | DEVICE_CHANGED | DIVERGED | INCOMPATIBLE

record SyncClassificationInput =
  sci_lastDeployment :: "DeploymentRecordV1 option"
  sci_currentProjectHash :: jsstr
  sci_liveConfigHash :: "jsstr option"
  sci_catalogCompatible :: bool

definition classifySyncRelationship :: "SyncClassificationInput \<Rightarrow> SyncRelationship" where
  "classifySyncRelationship input =
     (if \<not> sci_catalogCompatible input then INCOMPATIBLE
      else case (sci_liveConfigHash input, sci_lastDeployment input) of
        (Some live, Some deployment) \<Rightarrow>
          let deployedMatchesLive = dr_configHash deployment = Some live;
              projectUnchangedSinceDeploy = dr_sourceProjectHash deployment = sci_currentProjectHash input in
          if deployedMatchesLive \<and> projectUnchangedSinceDeploy then IN_SYNC
          else if deployedMatchesLive then PROJECT_DIRTY
          else if projectUnchangedSinceDeploy then DEVICE_CHANGED
          else DIVERGED
      | _ \<Rightarrow> DIVERGED)"

text \<open>The record of the target with the greatest timestamp, the first one among equals.\<close>

definition latestDeploymentRecord :: "jsstr \<Rightarrow> ProjectV1 \<Rightarrow> DeploymentRecordV1 option" where
  "latestDeploymentRecord bindingId project =
     (case filter (\<lambda>r. dr_target r = bindingId) (pj_deploymentRecords project) of
        [] \<Rightarrow> None
      | r # rs \<Rightarrow> Some (fold (\<lambda>r latest. if dr_timestamp r > dr_timestamp latest then r else latest) rs r))"

text \<open>\<open>syncWithProject\<close> with the hash of the live configuration; the project hash needs the number texts \<open>num\<close>.\<close>

definition project_relationship :: "(float64 \<Rightarrow> jsstr) \<Rightarrow> jsstr \<Rightarrow> ProjectV1 \<Rightarrow> bytes \<Rightarrow> bool \<Rightarrow> SyncRelationship option" where
  "project_relationship num bindingId project liveSha256 catalogCompatible =
     map_option (\<lambda>hash. classifySyncRelationship
       \<lparr>sci_lastDeployment = latestDeploymentRecord bindingId project, sci_currentProjectHash = hash,
        sci_liveConfigHash = Some (bytesToHex liveSha256), sci_catalogCompatible = catalogCompatible\<rparr>)
       (canonicalProjectHash num project)"

section \<open>Hexadecimal identifiers\<close>

definition bytesEqualHex :: "(jsstr \<Rightarrow> jsstr) \<Rightarrow> bytes \<Rightarrow> jsstr \<Rightarrow> bool" where
  "bytesEqualHex lower bs hex \<longleftrightarrow> bytesToHex bs = lower hex"

section \<open>The catalog cache\<close>

type_synonym catalog_cache = "(jsstr, GetCatalogResponse) jsmap"

definition cache_key :: "bytes \<Rightarrow> bytes \<Rightarrow> jsstr" where
  "cache_key deviceId fingerprint = bytesToHex deviceId @ 58 # bytesToHex fingerprint"

definition cache_get :: "bytes \<Rightarrow> bytes \<Rightarrow> catalog_cache \<Rightarrow> GetCatalogResponse option" where
  "cache_get deviceId fingerprint cache = jm_get cache (cache_key deviceId fingerprint)"

definition cache_set :: "bytes \<Rightarrow> GetCatalogResponse \<Rightarrow> catalog_cache \<Rightarrow> catalog_cache" where
  "cache_set deviceId catalog cache = jm_put (cache_key deviceId (cat_fingerprint catalog)) catalog cache"

definition invalidateDevice :: "bytes \<Rightarrow> catalog_cache \<Rightarrow> catalog_cache" where
  "invalidateDevice deviceId cache = filter (\<lambda>(key, _). \<not> prefix (bytesToHex deviceId @ [58]) key) cache"

section \<open>Bindings and backoff\<close>

definition proposeBindingFromDiscovery :: "CoreBindingRecord list \<Rightarrow> jsstr \<Rightarrow> jsstr \<Rightarrow> jsstr \<Rightarrow> CoreBindingRecord" where
  "proposeBindingFromDiscovery existingBindings expectedDeviceId connectionProfileId newBindingId =
     (case find (\<lambda>b. cb_expectedDeviceId b = expectedDeviceId) existingBindings of
        Some existing \<Rightarrow> existing
      | None \<Rightarrow> \<lparr>cb_bindingId = newBindingId, cb_expectedDeviceId = expectedDeviceId, cb_connectionProfileId = connectionProfileId,
                  cb_lastKnownVariant = None, cb_lastKnownProfile = None, cb_lastKnownFeatureSet = None\<rparr>)"

text \<open>
  An attempt below 0 throws. The product is exact in a float as long as it matters: whatever exceeds \<open>maxMs\<close>,
  the infinity of a great exponent included, becomes \<open>maxMs\<close>.
\<close>

definition computeBackoffDelayMs :: "int \<Rightarrow> int \<Rightarrow> int \<Rightarrow> int option" where
  "computeBackoffDelayMs attempt baseMs maxMs =
     (if attempt < 0 then None else Some (min (baseMs * 2 ^ nat attempt) maxMs))"

section \<open>Devices do not share the cache\<close>

lemma unat_hex_unit: "a < 16 \<Longrightarrow> unat (hex_unit a) = (if a < 10 then 48 + a else 87 + a)"
  by (simp add: hex_unit_def unsigned_of_nat take_bit_nat_eq_self)

lemma hex_unit_inj:
  assumes "a < 16" and "b < 16" and "hex_unit a = hex_unit b"
  shows "a = b"
proof -
  from assms(3) have "unat (hex_unit a) = unat (hex_unit b)" by simp
  with assms(1,2) show ?thesis by (simp add: unat_hex_unit split: if_splits)
qed

lemma hex_unit_colon: "a < 16 \<Longrightarrow> hex_unit a \<noteq> 58"
  using unat_hex_unit [of a] by (auto split: if_splits)

lemma hex_inj: "bytesToHex a = bytesToHex b \<longleftrightarrow> a = b"
proof
  show "bytesToHex a = bytesToHex b \<Longrightarrow> a = b"
  proof (induction a arbitrary: b)
    case Nil
    then show ?case by (cases b) (auto simp: bytesToHex_def)
  next
    case (Cons x a)
    then obtain y c where b: "b = y # c" by (cases b) (auto simp: bytesToHex_def)
    have "unat x < 256" "unat y < 256" using unsigned_less [of x] unsigned_less [of y] by simp_all
    with Cons.prems b have "unat x div 16 = unat y div 16" "unat x mod 16 = unat y mod 16"
      by (auto simp: bytesToHex_def intro: hex_unit_inj)
    then have "x = y" by (metis div_mult_mod_eq unsigned_word_eqI)
    with Cons b show ?case by (simp add: bytesToHex_def)
  qed
qed simp

lemma hex_no_colon: "58 \<notin> set (bytesToHex bs)"
proof -
  have "hex_unit (unat b div 16) \<noteq> 58 \<and> hex_unit (unat b mod 16) \<noteq> 58" for b :: byte
  proof -
    have "unat b < 2 ^ LENGTH(8)" by (rule unsigned_less)
    then show ?thesis by (simp add: hex_unit_colon)
  qed
  then show ?thesis by (auto simp: bytesToHex_def)
qed

lemma device_prefix: "prefix (bytesToHex d @ [58]) (cache_key e f) \<longleftrightarrow> d = e"
proof
  assume "prefix (bytesToHex d @ [58]) (cache_key e f)"
  then obtain x where "bytesToHex d @ 58 # x = bytesToHex e @ 58 # bytesToHex f" by (auto simp: prefix_def cache_key_def)
  from colon_split [OF hex_no_colon hex_no_colon this] show "d = e" by (simp add: hex_inj)
qed (simp add: cache_key_def prefix_def)

lemma cache_key_inj: "cache_key d f = cache_key e g \<longleftrightarrow> d = e \<and> f = g"
proof
  assume "cache_key d f = cache_key e g"
  then have "bytesToHex d = bytesToHex e \<and> bytesToHex f = bytesToHex g"
    unfolding cache_key_def by (rule colon_split [OF hex_no_colon hex_no_colon])
  then show "d = e \<and> f = g" by (simp add: hex_inj)
qed simp

text \<open>Every entry stands under the key of some device and of its own fingerprint.\<close>

definition cache_ok :: "catalog_cache \<Rightarrow> bool" where
  "cache_ok cache \<longleftrightarrow> (\<forall>(k, c)\<in>set cache. \<exists>d. k = cache_key d (cat_fingerprint c))"

lemma cache_ok_set: "cache_ok cache \<Longrightarrow> cache_ok (cache_set d c cache)"
  using set_update_subset [of "cache_key d (cat_fingerprint c)" c cache] by (auto simp: cache_ok_def cache_set_def)

lemma cache_ok_invalidate: "cache_ok cache \<Longrightarrow> cache_ok (invalidateDevice d cache)"
  by (auto simp: cache_ok_def invalidateDevice_def)

lemma cache_get_fingerprint: "cache_ok cache \<Longrightarrow> cache_get d f cache = Some c \<Longrightarrow> cat_fingerprint c = f"
  by (auto simp: cache_ok_def cache_get_def cache_key_inj dest!: map_of_SomeD)

lemma map_of_invalidate:
  "map_of (invalidateDevice d cache) (cache_key e f) = (if d = e then None else map_of cache (cache_key e f))"
  by (induction cache) (auto simp: invalidateDevice_def device_prefix)

lemma cache_refresh:
  "cache_get e f (cache_set d c (invalidateDevice d cache)) =
     (if e = d then if f = cat_fingerprint c then Some c else None else cache_get e f cache)"
  by (auto simp: cache_get_def cache_set_def jm.get_put map_of_invalidate cache_key_inj)

section \<open>After a deployment\<close>

text \<open>
  The hash of a project covers its deployment records, so the record of a deployment changes the very hash that it
  names as its source: afterwards the project counts as dirty, unless the two hashes collide.
\<close>

lemma latest_appended:
  assumes "dr_target r = b" and "\<forall>q\<in>set (pj_deploymentRecords p). dr_timestamp q < dr_timestamp r"
  shows "latestDeploymentRecord b (p\<lparr>pj_deploymentRecords := pj_deploymentRecords p @ [r]\<rparr>) = Some r"
proof -
  let ?newer = "\<lambda>r latest. if dr_timestamp r > dr_timestamp latest then r else latest"
  have kept: "fold ?newer qs q \<in> set (q # qs)" for qs q
    by (induction qs arbitrary: q) (auto split: if_splits)
  show ?thesis
  proof (cases "filter (\<lambda>q. dr_target q = b) (pj_deploymentRecords p)")
    case Nil
    then show ?thesis using assms(1) by (simp add: latestDeploymentRecord_def)
  next
    case (Cons q qs)
    then have "set (q # qs) \<subseteq> set (pj_deploymentRecords p)" by (metis filter_is_subset)
    with kept [of qs q] assms(2) have "dr_timestamp (fold ?newer qs q) < dr_timestamp r" by blast
    then show ?thesis using Cons assms(1) by (simp add: latestDeploymentRecord_def)
  qed
qed

lemma recorded_relationship:
  assumes "dr_target r = b" and "\<forall>q\<in>set (pj_deploymentRecords p). dr_timestamp q < dr_timestamp r"
    and "canonicalProjectHash num p = Some (dr_sourceProjectHash r)" and "dr_configHash r = Some (bytesToHex live)"
    and "recorded = p\<lparr>pj_deploymentRecords := pj_deploymentRecords p @ [r]\<rparr>"
  shows "project_relationship num b recorded live True =
     Some (if canonicalProjectHash num recorded = canonicalProjectHash num p then IN_SYNC else PROJECT_DIRTY)"
proof -
  obtain h where h: "canonicalProjectHash num recorded = Some h" using project_hash_total by blast
  from latest_appended [OF assms(1,2)] have "latestDeploymentRecord b recorded = Some r" by (simp add: assms(5))
  with h assms(3,4) show ?thesis
    by (auto simp: project_relationship_def classifySyncRelationship_def Let_def)
qed

end
