(* ===== verification/SyncSample.thy ===== *)
theory SyncSample
  imports SyncState
begin

text \<open>
  A small project and the record of its deployment, with their hashes computed: the record changes the hash, so the
  project that was just deployed counts as dirty.
\<close>

definition sample_project :: ProjectV1 where
  "sample_project = createEmptyProject (js ''p'') (js ''n'')"

definition sample_record :: DeploymentRecordV1 where
  "sample_record =
     \<lparr>dr_deploymentId = js ''d'', dr_target = js ''b'', dr_timestamp = js ''t'', dr_sourceProjectHash = js ''6e564bf2'',
      dr_configGeneration = None, dr_configHash = Some (js ''00''), dr_nodeRedRevision = None, dr_catalogFingerprint = None,
      dr_featureSetHash = None, dr_outcome = js ''success''\<rparr>"

definition sample_text :: "ProjectV1 \<Rightarrow> jsstr" where
  "sample_text p = the (canonicalJson (\<lambda>_. js ''1'') (hashed_value p))"

lemma hex8_sample: "hex8 0x6e564bf2 = js ''6e564bf2''"
  by (simp add: hex8_def hex_unit_def js_def)

lemma sample_hash: "canonicalProjectHash (\<lambda>_. js ''1'') sample_project = Some (js ''6e564bf2'')"
proof -
  have "canonicalJson (\<lambda>_. js ''1'') (hashed_value sample_project) \<noteq> None" using canonicalJson_total by (simp add: hashed_value_def)
  moreover have "fold fnv_round (sample_text sample_project) 0x811c9dc5 = 0x6e564bf2" by code_simp
  ultimately show ?thesis
    by (auto simp: canonicalProjectHash_def contentHash_def sample_text_def fnv1a_def hex8_sample)
qed

definition recorded_project :: ProjectV1 where
  "recorded_project = sample_project\<lparr>pj_deploymentRecords := pj_deploymentRecords sample_project @ [sample_record]\<rparr>"

lemma recorded_hash: "canonicalProjectHash (\<lambda>_. js ''1'') recorded_project \<noteq> Some (js ''6e564bf2'')"
proof -
  have "canonicalJson (\<lambda>_. js ''1'') (hashed_value recorded_project) \<noteq> None" using canonicalJson_total by (simp add: hashed_value_def)
  moreover have "fold fnv_round (sample_text recorded_project) 0x811c9dc5 = 0x914e4f18" by code_simp
  moreover have "hex8 0x914e4f18 \<noteq> js ''6e564bf2''" by (simp add: hex8_def hex_unit_def js_def)
  ultimately show ?thesis
    by (auto simp: canonicalProjectHash_def contentHash_def sample_text_def fnv1a_def)
qed

end
