(* ===== verification/Session.thy ===== *)
theory Session
  imports SyncState EventStream CommandOperations
begin

text \<open>
  A Core session: \<open>core-session/src/core-session.ts\<close>. Reading the state of the Core (\<open>sync\<close>) is a sequence of
  awaited calls, so several reads can be under way while events arrive and the session is disconnected; a step is
  what the code does between two awaits. The catalog cache is shared by the sessions of a registry and is part of
  the state here.
\<close>

section \<open>The session\<close>

record CoreSessionSnapshot =
  sn_status :: "GetStatusResponse option"
  sn_capabilities :: "GetCapabilitiesResponse option"
  sn_features :: "GetFeaturesResponse option"
  sn_catalog :: "GetCatalogResponse option"
  sn_topology :: "TopologyFlow list option"
  sn_config :: "GetConfigResponse option"
  sn_resources :: "GetResourcesResponse option"

definition empty_snapshot :: CoreSessionSnapshot where
  "empty_snapshot = \<lparr>sn_status = None, sn_capabilities = None, sn_features = None, sn_catalog = None, sn_topology = None,
     sn_config = None, sn_resources = None\<rparr>"

text \<open>Which call a read awaits; what it has collected so far is a partial snapshot.\<close>

datatype sync_stage =
    StatusStage | CapabilitiesStage | FeaturesStage | CatalogPageStage | FullCatalogStage | TopologyStage | ConfigStage | ResourcesStage

datatype sync_reply =
    RStatus GetStatusResponse | RCapabilities GetCapabilitiesResponse | RFeatures GetFeaturesResponse | RCatalog GetCatalogResponse
  | RTopology "TopologyFlow list" | RConfig GetConfigResponse | RResources GetResourcesResponse

text \<open>A failed call: \<open>TIMEOUT\<close> or \<open>REBOOT_DURING_REQUEST\<close> of the client, or anything else.\<close>

datatype sync_failure = TimeoutOrReboot | OtherFailure

record core_session =
  se_expectedDeviceId :: jsstr
  se_strict :: bool
  se_state :: SessionState
  se_stale :: bool
  se_deviceId :: "bytes option"
  se_bootId :: "int option"
  se_disposed :: bool
  se_snapshot :: CoreSessionSnapshot
  se_latestRecords :: "(jsstr, RecordEventPayload \<times> int) jsmap"
  se_cache :: catalog_cache
  se_reads :: "(nat, sync_stage \<times> CoreSessionSnapshot) jsmap"

definition new_core_session :: "jsstr \<Rightarrow> bool \<Rightarrow> catalog_cache \<Rightarrow> core_session" where
  "new_core_session expectedDeviceId strict cache =
     \<lparr>se_expectedDeviceId = expectedDeviceId, se_strict = strict, se_state = DISCONNECTED, se_stale = False, se_deviceId = None,
      se_bootId = None, se_disposed = False, se_snapshot = empty_snapshot, se_latestRecords = [], se_cache = cache, se_reads = []\<rparr>"

definition observeStatus :: "GetStatusResponse \<Rightarrow> core_session \<Rightarrow> core_session" where
  "observeStatus status s = s\<lparr>se_snapshot := (se_snapshot s)\<lparr>sn_status := Some status\<rparr>\<rparr>"

definition observeConfig :: "GetConfigResponse \<Rightarrow> core_session \<Rightarrow> core_session" where
  "observeConfig config s =
     (let s' = (if map_option gc_generation (sn_config (se_snapshot s)) \<noteq> Some (gc_generation config) then s\<lparr>se_latestRecords := []\<rparr> else s) in
      s'\<lparr>se_snapshot := (se_snapshot s')\<lparr>sn_config := Some config\<rparr>\<rparr>)"

definition disconnect :: "core_session \<Rightarrow> core_session" where
  "disconnect s = s\<lparr>se_latestRecords := [], se_stale := (se_stale s \<or> se_state s = READY \<or> se_state s = SYNCHRONIZING),
     se_state := DISCONNECTED\<rparr>"

definition dispose :: "core_session \<Rightarrow> core_session" where
  "dispose s = s\<lparr>se_latestRecords := [], se_disposed := True\<rparr>"

definition importLiveState :: "core_session \<Rightarrow> GetConfigResponse option" where
  "importLiveState s = sn_config (se_snapshot s)"

definition syncWithProject :: "(float64 \<Rightarrow> jsstr) \<Rightarrow> jsstr \<Rightarrow> ProjectV1 \<Rightarrow> bool \<Rightarrow> core_session \<Rightarrow> SyncRelationship option" where
  "syncWithProject num bindingId project catalogCompatible s =
     (case sn_config (se_snapshot s) of
        None \<Rightarrow> None
      | Some config \<Rightarrow> project_relationship num bindingId project (gc_sha256 config) catalogCompatible)"

section \<open>Reading the Core\<close>

definition start_read :: "nat \<Rightarrow> core_session \<Rightarrow> core_session" where
  "start_read i s = s\<lparr>se_state := SYNCHRONIZING, se_reads := jm_put i (StatusStage, empty_snapshot) (se_reads s)\<rparr>"

definition await_next :: "nat \<Rightarrow> sync_stage \<Rightarrow> CoreSessionSnapshot \<Rightarrow> core_session \<Rightarrow> core_session" where
  "await_next i stage collected s = s\<lparr>se_reads := jm_put i (stage, collected) (se_reads s)\<rparr>"

definition end_read :: "nat \<Rightarrow> core_session \<Rightarrow> core_session" where
  "end_read i s = s\<lparr>se_reads := jm_del i (se_reads s)\<rparr>"

text \<open>The \<open>catch\<close>: a lost answer keeps a session that has a status, marked stale; everything else is an error.\<close>

definition read_fails :: "nat \<Rightarrow> sync_failure \<Rightarrow> core_session \<Rightarrow> core_session" where
  "read_fails i e s =
     (let s' = end_read i s in
      if sn_status (se_snapshot s) \<noteq> None \<and> e = TimeoutOrReboot then s'\<lparr>se_stale := True, se_state := READY\<rparr>
      else s'\<lparr>se_state := ERROR\<rparr>)"

definition wrong_device :: "(jsstr \<Rightarrow> jsstr) \<Rightarrow> core_session \<Rightarrow> bool" where
  "wrong_device lower s \<longleftrightarrow> se_strict s \<and> se_expectedDeviceId s \<noteq> [] \<and>
     (case se_deviceId s of None \<Rightarrow> False | Some d \<Rightarrow> \<not> bytesEqualHex lower d (se_expectedDeviceId s))"

text \<open>After the features: the device identifies itself and is compared with the binding.\<close>

definition identify :: "(jsstr \<Rightarrow> jsstr) \<Rightarrow> nat \<Rightarrow> CoreSessionSnapshot \<Rightarrow> core_session \<Rightarrow> core_session" where
  "identify lower i collected s =
     (let s' = (case sn_status collected of
                  Some status \<Rightarrow> (case st_deviceId status of Some d \<Rightarrow> s\<lparr>se_deviceId := Some d\<rparr> | None \<Rightarrow> s)
                | None \<Rightarrow> s) in
      if wrong_device lower s' then read_fails i OtherFailure s' else await_next i CatalogPageStage collected s')"

definition catalog_read :: "nat \<Rightarrow> GetCatalogResponse \<Rightarrow> CoreSessionSnapshot \<Rightarrow> core_session \<Rightarrow> core_session" where
  "catalog_read i catalog collected s = await_next i TopologyStage (collected\<lparr>sn_catalog := Some catalog\<rparr>) s"

definition first_page :: "nat \<Rightarrow> GetCatalogResponse \<Rightarrow> CoreSessionSnapshot \<Rightarrow> core_session \<Rightarrow> core_session" where
  "first_page i page collected s =
     (case se_deviceId s of
        None \<Rightarrow> await_next i FullCatalogStage collected s
      | Some d \<Rightarrow> (case cache_get d (cat_fingerprint page) (se_cache s) of
                    Some cached \<Rightarrow> catalog_read i cached collected s
                  | None \<Rightarrow> await_next i FullCatalogStage collected s))"

definition full_catalog :: "nat \<Rightarrow> GetCatalogResponse \<Rightarrow> CoreSessionSnapshot \<Rightarrow> core_session \<Rightarrow> core_session" where
  "full_catalog i full collected s =
     catalog_read i full collected
       (case se_deviceId s of None \<Rightarrow> s | Some d \<Rightarrow> s\<lparr>se_cache := cache_set d full (invalidateDevice d (se_cache s))\<rparr>)"

definition publish :: "nat \<Rightarrow> CoreSessionSnapshot \<Rightarrow> core_session \<Rightarrow> core_session" where
  "publish i collected s =
     (let s' = (case sn_config collected of Some config \<Rightarrow> observeConfig config s | None \<Rightarrow> s) in
      (end_read i s')\<lparr>se_snapshot := collected, se_state := READY, se_stale := False\<rparr>)"

text \<open>The answer of the call that read \<open>i\<close> awaits; a reply of another kind does not exist.\<close>

definition read_answer :: "(jsstr \<Rightarrow> jsstr) \<Rightarrow> nat \<Rightarrow> sync_failure + sync_reply \<Rightarrow> core_session \<Rightarrow> core_session" where
  "read_answer lower i a s =
     (case jm_get (se_reads s) i of
        None \<Rightarrow> s
      | Some (stage, collected) \<Rightarrow>
          (case a of
             Inl e \<Rightarrow> read_fails i e s
           | Inr reply \<Rightarrow>
               (case (stage, reply) of
                  (StatusStage, RStatus r) \<Rightarrow> await_next i CapabilitiesStage (collected\<lparr>sn_status := Some r\<rparr>) s
                | (CapabilitiesStage, RCapabilities r) \<Rightarrow> await_next i FeaturesStage (collected\<lparr>sn_capabilities := Some r\<rparr>) s
                | (FeaturesStage, RFeatures r) \<Rightarrow> identify lower i (collected\<lparr>sn_features := Some r\<rparr>) s
                | (CatalogPageStage, RCatalog r) \<Rightarrow> first_page i r collected s
                | (FullCatalogStage, RCatalog r) \<Rightarrow> full_catalog i r collected s
                | (TopologyStage, RTopology r) \<Rightarrow> await_next i ConfigStage (collected\<lparr>sn_topology := Some r\<rparr>) s
                | (ConfigStage, RConfig r) \<Rightarrow> await_next i ResourcesStage (collected\<lparr>sn_config := Some r\<rparr>) s
                | (ResourcesStage, RResources r) \<Rightarrow> publish i (collected\<lparr>sn_resources := Some r\<rparr>) s
                | _ \<Rightarrow> s)))"

section \<open>Events\<close>

definition record_key :: "RecordEventPayload \<Rightarrow> jsstr" where
  "record_key p = decimal (rec_sourceKey p) @ 58 # rec_schemaId p @ 58 # decimal (case rec_actionId p of None \<Rightarrow> 0 | Some a \<Rightarrow> a)"

text \<open>The newest records, the oldest first, one for each key and at most 128.\<close>

definition note_record :: "RecordEventPayload \<Rightarrow> int \<Rightarrow> (jsstr, RecordEventPayload \<times> int) jsmap \<Rightarrow> (jsstr, RecordEventPayload \<times> int) jsmap" where
  "note_record p at m =
     (let m' = jm_put (record_key p) (p, at) (jm_del (record_key p) m) in if length m' > 128 then tl m' else m')"

text \<open>One event of the stream, at the time \<open>at\<close>; a reboot of a ready session starts the read \<open>i\<close>.\<close>

definition session_event :: "nat \<Rightarrow> int \<Rightarrow> streamed_event \<Rightarrow> core_session \<Rightarrow> core_session" where
  "session_event i at e s =
     (if se_disposed s then s
      else case e of
        StreamedRecord p \<Rightarrow> s\<lparr>se_latestRecords := note_record p at (se_latestRecords s)\<rparr>
      | StreamedStatus p \<Rightarrow>
          (let rebooted = (se_bootId s \<noteq> None \<and> se_bootId s \<noteq> Some (sev_bootId p));
               s' = s\<lparr>se_deviceId := Some (sev_deviceId p), se_latestRecords := (if rebooted then [] else se_latestRecords s),
                      se_bootId := Some (sev_bootId p)\<rparr> in
           if rebooted \<and> se_state s = READY then start_read i s' else s')
      | _ \<Rightarrow> s)"

section \<open>Any interleaving\<close>

datatype session_label =
    Connect nat | Answered nat "sync_failure + sync_reply" | Happens nat int streamed_event | Disconnect | Dispose
  | ObserveStatus GetStatusResponse | ObserveConfig GetConfigResponse | OtherSession catalog_cache

text \<open>Reads have fresh identifiers. \<open>OtherSession\<close>: what the sessions of other devices do to the shared cache.\<close>

fun session_step :: "(jsstr \<Rightarrow> jsstr) \<Rightarrow> session_label \<Rightarrow> core_session \<Rightarrow> core_session" where
  "session_step lower (Connect i) s = (if jm_has (se_reads s) i then s else start_read i s)"
| "session_step lower (Answered i a) s = read_answer lower i a s"
| "session_step lower (Happens i at e) s = (if jm_has (se_reads s) i then s else session_event i at e s)"
| "session_step lower Disconnect s = disconnect s"
| "session_step lower Dispose s = dispose s"
| "session_step lower (ObserveStatus r) s = observeStatus r s"
| "session_step lower (ObserveConfig r) s = observeConfig r s"
| "session_step lower (OtherSession cache) s = s\<lparr>se_cache := cache\<rparr>"

section \<open>What a ready session knows\<close>

definition complete :: "CoreSessionSnapshot \<Rightarrow> bool" where
  "complete n \<longleftrightarrow> sn_status n \<noteq> None \<and> sn_capabilities n \<noteq> None \<and> sn_features n \<noteq> None \<and> sn_catalog n \<noteq> None \<and>
     sn_topology n \<noteq> None \<and> sn_config n \<noteq> None \<and> sn_resources n \<noteq> None"

text \<open>What has been collected before a stage.\<close>

fun collected_at :: "sync_stage \<Rightarrow> CoreSessionSnapshot \<Rightarrow> bool" where
  "collected_at StatusStage n = True"
| "collected_at CapabilitiesStage n = (sn_status n \<noteq> None)"
| "collected_at FeaturesStage n = (sn_status n \<noteq> None \<and> sn_capabilities n \<noteq> None)"
| "collected_at CatalogPageStage n = (sn_status n \<noteq> None \<and> sn_capabilities n \<noteq> None \<and> sn_features n \<noteq> None)"
| "collected_at FullCatalogStage n = (sn_status n \<noteq> None \<and> sn_capabilities n \<noteq> None \<and> sn_features n \<noteq> None)"
| "collected_at TopologyStage n = (sn_status n \<noteq> None \<and> sn_capabilities n \<noteq> None \<and> sn_features n \<noteq> None \<and> sn_catalog n \<noteq> None)"
| "collected_at ConfigStage n = (sn_status n \<noteq> None \<and> sn_capabilities n \<noteq> None \<and> sn_features n \<noteq> None \<and> sn_catalog n \<noteq> None \<and>
     sn_topology n \<noteq> None)"
| "collected_at ResourcesStage n = (sn_status n \<noteq> None \<and> sn_capabilities n \<noteq> None \<and> sn_features n \<noteq> None \<and> sn_catalog n \<noteq> None \<and>
     sn_topology n \<noteq> None \<and> sn_config n \<noteq> None)"

definition reads_ok :: "core_session \<Rightarrow> bool" where
  "reads_ok s \<longleftrightarrow> (\<forall>i stage n. jm_get (se_reads s) i = Some (stage, n) \<longrightarrow> collected_at stage n)"

definition ready_ok :: "core_session \<Rightarrow> bool" where
  "ready_ok s \<longleftrightarrow> (se_state s = READY \<longrightarrow> sn_status (se_snapshot s) \<noteq> None \<and> (\<not> se_stale s \<longrightarrow> complete (se_snapshot s)))"

definition session_ok :: "core_session \<Rightarrow> bool" where
  "session_ok s \<longleftrightarrow> reads_ok s \<and> ready_ok s"

lemma await_ok: "session_ok s \<Longrightarrow> collected_at stage n \<Longrightarrow> session_ok (await_next i stage n s)"
  by (auto simp: session_ok_def reads_ok_def ready_ok_def await_next_def jm.get_put)

lemma start_ok: "session_ok s \<Longrightarrow> session_ok (start_read i s)"
  by (auto simp: session_ok_def reads_ok_def ready_ok_def start_read_def jm.get_put)

lemma fails_ok: "session_ok s \<Longrightarrow> session_ok (read_fails i e s)"
  by (auto simp: session_ok_def reads_ok_def ready_ok_def read_fails_def end_read_def jm.get_del Let_def)

lemma device_ok: "session_ok s \<Longrightarrow> session_ok (s\<lparr>se_deviceId := d\<rparr>)" "session_ok s \<Longrightarrow> session_ok (s\<lparr>se_cache := cache\<rparr>)"
  by (simp_all add: session_ok_def reads_ok_def ready_ok_def)

lemma identify_ok:
  assumes "session_ok s" and "collected_at CatalogPageStage n"
  shows "session_ok (identify lower i n s)"
proof -
  define s' where "s' = (case sn_status n of Some status \<Rightarrow> (case st_deviceId status of Some d \<Rightarrow> s\<lparr>se_deviceId := Some d\<rparr> | None \<Rightarrow> s) | None \<Rightarrow> s)"
  have "session_ok s'" using assms(1) by (auto simp: s'_def device_ok split: option.split)
  then have "session_ok (if wrong_device lower s' then read_fails i OtherFailure s' else await_next i CatalogPageStage n s')"
    using assms(2) by (simp add: fails_ok await_ok del: collected_at.simps)
  then show ?thesis unfolding identify_def s'_def Let_def .
qed

lemma catalog_read_ok: "session_ok s \<Longrightarrow> collected_at CatalogPageStage n \<Longrightarrow> session_ok (catalog_read i c n s)"
  by (auto simp: catalog_read_def intro: await_ok)

lemma first_page_ok: "session_ok s \<Longrightarrow> collected_at CatalogPageStage n \<Longrightarrow> session_ok (first_page i c n s)"
  by (auto simp: first_page_def intro!: await_ok catalog_read_ok split: option.split)

lemma full_catalog_ok: "session_ok s \<Longrightarrow> collected_at CatalogPageStage n \<Longrightarrow> session_ok (full_catalog i c n s)"
  by (auto simp: full_catalog_def intro!: catalog_read_ok device_ok split: option.split)

lemma config_ok_step: "session_ok s \<Longrightarrow> session_ok (observeConfig r s)"
  by (auto simp: session_ok_def reads_ok_def ready_ok_def observeConfig_def complete_def Let_def)

lemma publish_ok: "session_ok s \<Longrightarrow> complete n \<Longrightarrow> session_ok (publish i n s)"
  using config_ok_step [of s] 
  by (auto simp: publish_def session_ok_def reads_ok_def ready_ok_def end_read_def jm.get_del complete_def Let_def split: option.split)

lemma read_answer_ok:
  assumes "session_ok s"
  shows "session_ok (read_answer lower i a s)"
proof (cases "jm_get (se_reads s) i")
  case None
  with assms show ?thesis by (simp add: read_answer_def)
next
  case (Some r)
  obtain stage n where r: "r = (stage, n)" by (cases r)
  with Some assms have n: "collected_at stage n" by (auto simp: session_ok_def reads_ok_def)
  show ?thesis
  proof (cases a)
    case (Inl e)
    with Some r assms show ?thesis by (simp add: read_answer_def fails_ok)
  next
    case (Inr reply)
    with Some r assms n show ?thesis
      by (cases stage; cases reply)
         (simp_all add: read_answer_def await_ok identify_ok first_page_ok full_catalog_ok publish_ok complete_def)
  qed
qed

lemma event_ok: "session_ok s \<Longrightarrow> session_ok (session_event i at e s)"
  by (auto simp: session_event_def Let_def session_ok_def reads_ok_def ready_ok_def start_read_def jm.get_put split: streamed_event.split if_splits)

lemma session_step_ok: "session_ok s \<Longrightarrow> session_ok (session_step lower l s)"
proof (cases l)
  case (Disconnect)
  then show "session_ok s \<Longrightarrow> session_ok (session_step lower l s)"
    by (simp add: disconnect_def session_ok_def reads_ok_def ready_ok_def)
next
  case Dispose
  then show "session_ok s \<Longrightarrow> session_ok (session_step lower l s)"
    by (simp add: dispose_def session_ok_def reads_ok_def ready_ok_def)
next
  case (ObserveStatus r)
  then show "session_ok s \<Longrightarrow> session_ok (session_step lower l s)"
    by (simp add: observeStatus_def session_ok_def reads_ok_def ready_ok_def complete_def)
qed (simp_all add: start_ok event_ok read_answer_ok config_ok_step device_ok)

lemma session_run_ok: "session_ok (fold (session_step lower) ls (new_core_session e strict cache))"
proof -
  have "session_ok s \<Longrightarrow> session_ok (fold (session_step lower) ls s)" for s
    by (induction ls arbitrary: s) (simp_all add: session_step_ok)
  moreover have "session_ok (new_core_session e strict cache)"
    by (simp add: session_ok_def reads_ok_def ready_ok_def new_core_session_def)
  ultimately show ?thesis .
qed

section \<open>Every read ends\<close>

text \<open>The kinds of answers the awaited calls give, and how far a read is.\<close>

fun fits :: "sync_stage \<Rightarrow> sync_reply \<Rightarrow> bool" where
  "fits StatusStage (RStatus r) = True"
| "fits CapabilitiesStage (RCapabilities r) = True"
| "fits FeaturesStage (RFeatures r) = True"
| "fits CatalogPageStage (RCatalog r) = True"
| "fits FullCatalogStage (RCatalog r) = True"
| "fits TopologyStage (RTopology r) = True"
| "fits ConfigStage (RConfig r) = True"
| "fits ResourcesStage (RResources r) = True"
| "fits stage reply = False"

fun calls_left :: "sync_stage \<Rightarrow> nat" where
  "calls_left StatusStage = 8" | "calls_left CapabilitiesStage = 7" | "calls_left FeaturesStage = 6" | "calls_left CatalogPageStage = 5"
| "calls_left FullCatalogStage = 4" | "calls_left TopologyStage = 3" | "calls_left ConfigStage = 2" | "calls_left ResourcesStage = 1"

text \<open>The read has ended in \<open>READY\<close> or \<open>ERROR\<close>, or it awaits one of fewer calls.\<close>

definition read_advances :: "nat \<Rightarrow> sync_stage \<Rightarrow> core_session \<Rightarrow> bool" where
  "read_advances i stage t \<longleftrightarrow>
     (case jm_get (se_reads t) i of
        None \<Rightarrow> se_state t = READY \<or> se_state t = ERROR
      | Some (stage', n) \<Rightarrow> calls_left stage' < calls_left stage)"

lemma observeConfig_reads [simp]: "se_reads (observeConfig r s) = se_reads s" "se_state (observeConfig r s) = se_state s"
  by (simp_all add: observeConfig_def Let_def)

lemma advances_await: "calls_left stage' < calls_left stage \<Longrightarrow> read_advances i stage (await_next i stage' n s)"
  by (simp add: read_advances_def await_next_def jm.get_put)

lemma advances_fails: "read_advances i stage (read_fails i e s)"
  by (simp add: read_advances_def read_fails_def end_read_def jm.get_del Let_def)

lemma advances_publish: "read_advances i stage (publish i n s)"
  by (simp add: read_advances_def publish_def end_read_def jm.get_del Let_def split: option.split)

lemma read_answer_advances:
  assumes "jm_get (se_reads s) i = Some (stage, n)" and "case a of Inl e \<Rightarrow> True | Inr reply \<Rightarrow> fits stage reply"
  shows "read_advances i stage (read_answer lower i a s)"
proof (cases a)
  case (Inl e)
  with assms(1) show ?thesis by (simp add: read_answer_def advances_fails)
next
  case (Inr reply)
  with assms show ?thesis
    by (cases stage; cases reply)
       (simp_all add: read_answer_def identify_def first_page_def full_catalog_def catalog_read_def Let_def advances_await advances_fails
         advances_publish split: option.split)
qed

section \<open>The newest records\<close>

text \<open>The keys in the order of their last record are \<open>remdups\<close> of all keys; the table holds the last 128 of them.\<close>

lemma remdups_snoc: "remdups (xs @ [x]) = filter (\<lambda>y. y \<noteq> x) (remdups xs) @ [x]"
  by (induction xs) simp_all

lemma keys_note:
  "jm_keys (note_record p at m) =
     (let ks = filter (\<lambda>k. k \<noteq> record_key p) (jm_keys m) @ [record_key p] in if length ks > 128 then tl ks else ks)"
proof -
  let ?m = "jm_del (record_key p) m"
  have "record_key p \<notin> fst ` set ?m" by (metis jm.get_del jm.get_keys list.set_map)
  then have "jm_put (record_key p) (p, at) ?m = ?m @ [(record_key p, (p, at))]" by (rule update_new)
  moreover have "length (filter (\<lambda>k. k \<noteq> record_key p) (jm_keys m)) = length ?m"
    by (metis keys_delete length_map)
  ultimately show ?thesis by (auto simp: note_record_def Let_def keys_delete map_tl)
qed

lemma drop_filter_in: 
  assumes "distinct xs" and "x \<in> set (drop n xs)"
  shows "drop n (filter (\<lambda>y. y \<noteq> x) xs) = filter (\<lambda>y. y \<noteq> x) (drop n xs)"
  using assms
proof (induction n arbitrary: xs)
  case (Suc n)
  then show ?case
  proof (cases xs)
    case (Cons y ys)
    with Suc.prems have "y \<noteq> x" by (auto dest: in_set_dropD)
    with Cons Suc show ?thesis by simp
  qed simp
qed simp

lemma drop_filter_out:
  assumes "distinct xs" and "x \<in> set xs" and "x \<notin> set (drop n xs)"
  shows "drop n (filter (\<lambda>y. y \<noteq> x) xs) = tl (drop n xs)"
  using assms
proof (induction n arbitrary: xs)
  case (Suc n)
  then obtain y ys where xs: "xs = y # ys" by (cases xs) auto
  show ?case
  proof (cases "y = x")
    case True
    with Suc.prems xs have "filter (\<lambda>z. z \<noteq> x) ys = ys" by (auto intro: filter_True)
    with True xs show ?thesis by (simp add: drop_Suc tl_drop)
  next
    case False
    with Suc xs show ?thesis by simp
  qed
qed simp

definition newest_keys :: "RecordEventPayload list \<Rightarrow> jsstr list" where
  "newest_keys ps = (let ks = remdups (map record_key ps) in drop (length ks - 128) ks)"

lemma filter_one: "distinct R \<Longrightarrow> x \<in> set R \<Longrightarrow> Suc (length (filter (\<lambda>k. k \<noteq> x) R)) = length R"
proof (induction R)
  case (Cons y R)
  then show ?case
  proof (cases "y = x")
    case True
    with Cons.prems have "filter (\<lambda>k. k \<noteq> x) R = R" by (auto simp: filter_id_conv)
    with True show ?thesis by simp
  qed simp
qed simp

lemma newest_step:
  fixes R :: "'a list" and x :: 'a
  assumes "distinct R"
  defines "F \<equiv> filter (\<lambda>k. k \<noteq> x) R @ [x]" and "K \<equiv> drop (length R - 128) R"
  shows "drop (length F - 128) F =
    (let ks = filter (\<lambda>k. k \<noteq> x) K @ [x] in if length ks > 128 then tl ks else ks)"
proof (cases "x \<in> set R")
  case True
  have len: "length (filter (\<lambda>k. k \<noteq> x) R) = length R - 1"
    using filter_one [OF assms(1) True] by simp
  have n: "length R > 0" using True by auto
  show ?thesis
  proof (cases "x \<in> set K")
    case in_K: True
    have "length (filter (\<lambda>k. k \<noteq> x) K) \<le> length K - 1"
      using in_K length_filter_less [of x K "\<lambda>k. k \<noteq> x"] by simp
    moreover have "length K \<le> 128" by (simp add: K_def)
    ultimately have "length (filter (\<lambda>k. k \<noteq> x) K @ [x]) \<le> 128" using in_K by (cases K) auto
    then show ?thesis
      using drop_filter_in [OF assms(1), of x "length R - 128"] in_K len n by (simp add: F_def K_def Let_def)
  next
    case False
    then have "length R > 128" using True by (cases "length R \<le> 128") (auto simp: K_def)
    moreover have K: "filter (\<lambda>k. k \<noteq> x) K = K" using False by (auto simp: filter_id_conv)
    moreover have "length K = 128" using \<open>length R > 128\<close> by (simp add: K_def)
    moreover have "drop (length F - 128) F = tl K @ [x]"
      using drop_filter_out [OF assms(1) True, of "length R - 128"] False len \<open>length R > 128\<close> by (simp add: F_def K_def)
    ultimately show ?thesis by (cases K) (auto simp: Let_def)
  qed
next
  case False
  then have F: "F = R @ [x]" by (auto simp: F_def filter_id_conv)
  have K: "filter (\<lambda>k. k \<noteq> x) K = K" using False by (auto simp: K_def filter_id_conv dest: in_set_dropD)
  show ?thesis
  proof (cases "length R < 128")
    case True
    then have "K = R" by (simp add: K_def)
    with True K show ?thesis by (simp add: F Let_def)
  next
    case False
    then have "length K = 128" by (simp add: K_def)
    moreover have "drop (length F - 128) F = tl K @ [x]"
    proof -
      have "length F - 128 = Suc (length R - 128)" using False by (simp add: F)
      then show ?thesis using False by (simp only: F K_def drop_Suc tl_drop) (simp add: drop_Suc flip: tl_drop)
    qed
    ultimately show ?thesis unfolding K Let_def by (cases K) auto
  qed
qed

lemma newest_records:
  "jm_keys (fold (\<lambda>(p, at). note_record p at) ps []) = newest_keys (map fst ps)"
proof (induction ps rule: rev_induct)
  case Nil
  show ?case by (simp add: newest_keys_def)
next
  case (snoc x ps)
  obtain p at where x: "x = (p, at)" by (cases x)
  have "newest_keys (map fst (ps @ [x])) =
      (let R = remdups (map record_key (map fst ps)); F = filter (\<lambda>k. k \<noteq> record_key p) R @ [record_key p] in drop (length F - 128) F)"
    by (simp add: newest_keys_def x remdups_snoc Let_def)
  also have "\<dots> = (let ks = filter (\<lambda>k. k \<noteq> record_key p) (newest_keys (map fst ps)) @ [record_key p] in if length ks > 128 then tl ks else ks)"
    unfolding newest_keys_def Let_def by (rule newest_step [unfolded Let_def]) simp
  finally show ?case by (simp add: keys_note snoc x)
qed

section \<open>The shared cache\<close>

lemma cache_reads [simp]:
  "se_cache (start_read i s) = se_cache s" "se_cache (await_next i stage n s) = se_cache s" "se_cache (read_fails i e s) = se_cache s"
  "se_cache (publish i n s) = se_cache s" "se_cache (identify lower i n s) = se_cache s" "se_cache (first_page i c n s) = se_cache s"
  by (simp_all add: start_read_def await_next_def read_fails_def end_read_def publish_def observeConfig_def identify_def first_page_def
      catalog_read_def Let_def split: option.split)

lemma cache_full: "cache_ok (se_cache s) \<Longrightarrow> cache_ok (se_cache (full_catalog i c n s))"
  by (auto simp: full_catalog_def catalog_read_def cache_ok_set cache_ok_invalidate split: option.split)

text \<open>A full read only replaces the entries of the device that is connected.\<close>

lemma full_catalog_other:
  "se_deviceId s \<noteq> Some e \<Longrightarrow> cache_get e f (se_cache (full_catalog i c n s)) = cache_get e f (se_cache s)"
  by (auto simp: full_catalog_def catalog_read_def cache_refresh split: option.split)

lemma cache_read_answer: "cache_ok (se_cache s) \<Longrightarrow> cache_ok (se_cache (read_answer lower i a s))"
  by (auto simp: read_answer_def catalog_read_def cache_full split: option.split sum.split sync_stage.split sync_reply.split)

lemma cache_step:
  assumes "cache_ok (se_cache s)" and "\<forall>cache. l = OtherSession cache \<longrightarrow> cache_ok cache"
  shows "cache_ok (se_cache (session_step lower l s))"
  using assms
  by (cases l) (auto simp: cache_read_answer session_event_def disconnect_def dispose_def observeStatus_def observeConfig_def Let_def
      split: streamed_event.split)

text \<open>A catalog that a page's fingerprint finds in the cache has that fingerprint.\<close>

lemma cache_run:
  assumes "cache_ok cache" and "\<forall>c. OtherSession c \<in> set ls \<longrightarrow> cache_ok c"
  shows "cache_ok (se_cache (fold (session_step lower) ls (new_core_session e strict cache)))"
proof -
  have "cache_ok (se_cache (fold (session_step lower) ls s))" if "cache_ok (se_cache s)" for s
    using assms(2) that
  proof (induction ls arbitrary: s)
    case (Cons l ls)
    then have "cache_ok (se_cache (session_step lower l s))" by (intro cache_step) auto
    with Cons show ?case by simp
  qed simp
  then show ?thesis using assms(1) by (simp add: new_core_session_def)
qed

section \<open>A read outlives the connection\<close>

text \<open>The read that was under way when the session was disconnected makes it ready again.\<close>

definition answers :: "GetStatusResponse \<Rightarrow> GetCapabilitiesResponse \<Rightarrow> GetFeaturesResponse \<Rightarrow> GetCatalogResponse \<Rightarrow>
    TopologyFlow list \<Rightarrow> GetConfigResponse \<Rightarrow> GetResourcesResponse \<Rightarrow> session_label list" where
  "answers status caps feats catalog flows config res =
     map (\<lambda>r. Answered 0 (Inr r)) [RStatus status, RCapabilities caps, RFeatures feats, RCatalog catalog, RCatalog catalog,
       RTopology flows, RConfig config, RResources res]"

lemma single_read:
  assumes "se_reads s = [(i, (stage, n))]"
  shows "stage = StatusStage \<Longrightarrow> read_answer lower i (Inr (RStatus r1)) s = s\<lparr>se_reads := [(i, (CapabilitiesStage, n\<lparr>sn_status := Some r1\<rparr>))]\<rparr>"
    and "stage = CapabilitiesStage \<Longrightarrow> read_answer lower i (Inr (RCapabilities r2)) s = s\<lparr>se_reads := [(i, (FeaturesStage, n\<lparr>sn_capabilities := Some r2\<rparr>))]\<rparr>"
    and "stage = FeaturesStage \<Longrightarrow> se_expectedDeviceId s = [] \<Longrightarrow>
      \<exists>d. read_answer lower i (Inr (RFeatures r3)) s = s\<lparr>se_deviceId := d, se_reads := [(i, (CatalogPageStage, n\<lparr>sn_features := Some r3\<rparr>))]\<rparr>"
    and "stage = CatalogPageStage \<Longrightarrow> se_cache s = [] \<Longrightarrow>
      read_answer lower i (Inr (RCatalog r4)) s = s\<lparr>se_reads := [(i, (FullCatalogStage, n))]\<rparr>"
    and "stage = FullCatalogStage \<Longrightarrow>
      \<exists>cache. read_answer lower i (Inr (RCatalog r5)) s = s\<lparr>se_cache := cache, se_reads := [(i, (TopologyStage, n\<lparr>sn_catalog := Some r5\<rparr>))]\<rparr>"
    and "stage = TopologyStage \<Longrightarrow> read_answer lower i (Inr (RTopology r6)) s = s\<lparr>se_reads := [(i, (ConfigStage, n\<lparr>sn_topology := Some r6\<rparr>))]\<rparr>"
    and "stage = ConfigStage \<Longrightarrow> read_answer lower i (Inr (RConfig r7)) s = s\<lparr>se_reads := [(i, (ResourcesStage, n\<lparr>sn_config := Some r7\<rparr>))]\<rparr>"
    and "stage = ResourcesStage \<Longrightarrow> se_state (read_answer lower i (Inr (RResources r8)) s) = READY \<and>
      \<not> se_stale (read_answer lower i (Inr (RResources r8)) s)"
proof -
  show "stage = FeaturesStage \<Longrightarrow> se_expectedDeviceId s = [] \<Longrightarrow>
      \<exists>d. read_answer lower i (Inr (RFeatures r3)) s = s\<lparr>se_deviceId := d, se_reads := [(i, (CatalogPageStage, n\<lparr>sn_features := Some r3\<rparr>))]\<rparr>"
    using assms
    by (cases "sn_status n"; cases "map_option st_deviceId (sn_status n)")
       (auto simp: read_answer_def identify_def wrong_device_def await_next_def Let_def split: option.split
         intro: exI [of _ "se_deviceId s"])
  show "stage = FullCatalogStage \<Longrightarrow>
      \<exists>cache. read_answer lower i (Inr (RCatalog r5)) s = s\<lparr>se_cache := cache, se_reads := [(i, (TopologyStage, n\<lparr>sn_catalog := Some r5\<rparr>))]\<rparr>"
    using assms by (cases "se_deviceId s") (auto simp: read_answer_def full_catalog_def catalog_read_def await_next_def intro: exI [of _ "se_cache s"])
qed (use assms in \<open>simp_all add: read_answer_def await_next_def first_page_def cache_get_def publish_def end_read_def Let_def split: option.split\<close>)

text \<open>A single read with fitting answers, whatever the state of the session is meanwhile.\<close>

lemma single_read_ready:
  assumes "se_reads s = [(0, (StatusStage, n))]" and "se_expectedDeviceId s = []" and "se_cache s = []"
  shows "se_state (fold (session_step lower) (answers status caps feats catalog flows config res) s) = READY \<and>
     \<not> se_stale (fold (session_step lower) (answers status caps feats catalog flows config res) s)"
proof -
  let ?ask = "\<lambda>r s. read_answer lower 0 (Inr r) s"
  let ?n3 = "n\<lparr>sn_status := Some status, sn_capabilities := Some caps\<rparr>"
  define s2 where "s2 = ?ask (RCapabilities caps) (?ask (RStatus status) s)"
  have s2: "se_reads s2 = [(0, (FeaturesStage, ?n3))]" "se_expectedDeviceId s2 = []" "se_cache s2 = []"
    unfolding s2_def using assms by (simp_all add: single_read(1) single_read(2))
  from single_read(3) [OF s2(1) HOL.refl s2(2)] obtain d where
    d: "?ask (RFeatures feats) s2 = s2\<lparr>se_deviceId := d, se_reads := [(0, (CatalogPageStage, ?n3\<lparr>sn_features := Some feats\<rparr>))]\<rparr>" by blast
  define s4 where "s4 = ?ask (RCatalog catalog) (?ask (RFeatures feats) s2)"
  have s4: "se_reads s4 = [(0, (FullCatalogStage, ?n3\<lparr>sn_features := Some feats\<rparr>))]"
    unfolding s4_def d using s2 by (simp add: single_read(4))
  from single_read(5) [OF s4 HOL.refl] obtain cache where
    c: "?ask (RCatalog catalog) s4 = s4\<lparr>se_cache := cache, se_reads := [(0, (TopologyStage, ?n3\<lparr>sn_features := Some feats, sn_catalog := Some catalog\<rparr>))]\<rparr>" by auto
  define s7 where "s7 = ?ask (RConfig config) (?ask (RTopology flows) (?ask (RCatalog catalog) s4))"
  obtain m where s7: "se_reads s7 = [(0, (ResourcesStage, m))]"
    unfolding s7_def c by (simp add: single_read(6) single_read(7))
  have "fold (session_step lower) (answers status caps feats catalog flows config res) s = ?ask (RResources res) s7"
    by (simp add: answers_def s7_def s4_def s2_def)
  with single_read(8) [OF s7 HOL.refl] show ?thesis by simp
qed

lemma read_outlives_disconnect:
  assumes "s = fold (session_step lower) ([Connect 0, Disconnect] @ answers status caps feats catalog flows config res)
      (new_core_session [] strict [])"
  shows "se_state s = READY \<and> \<not> se_stale s"
proof -
  let ?d = "session_step lower Disconnect (session_step lower (Connect 0) (new_core_session [] strict []))"
  have "se_reads ?d = [(0, (StatusStage, empty_snapshot))]" "se_expectedDeviceId ?d = []" "se_cache ?d = []"
    by (simp_all add: new_core_session_def start_read_def disconnect_def jm_has_def)
  from single_read_ready [OF this] show ?thesis by (simp add: assms)
qed

end
