(* ===== verification/Marketplace.thy ===== *)
theory Marketplace
  imports Catalogs
begin

text \<open>
  The capability marketplace: \<open>capability-marketplace/src/manifest.ts\<close>, \<open>trust.ts\<close>, \<open>required-artifacts.ts\<close> and
  \<open>dependency-resolver.ts\<close>. Versions are integers; the verifier of signatures is a parameter that may be missing;
  the human-readable reasons of selections and conflicts are left out.
\<close>

section \<open>Manifests\<close>

record PackVersionRange =
  vr_packId :: jsstr
  vr_minVersion :: int
  vr_maxVersion :: "int option"

definition versionSatisfies :: "PackVersionRange \<Rightarrow> int \<Rightarrow> bool" where
  "versionSatisfies r version \<longleftrightarrow>
     \<not> version < vr_minVersion r \<and> (case vr_maxVersion r of None \<Rightarrow> True | Some m \<Rightarrow> \<not> version > m)"

record PackArtifact =
  pa_url :: jsstr
  pa_sizeBytes :: int

record PackSignature =
  ps_algorithm :: jsstr
  ps_signature :: jsstr
  ps_keyId :: jsstr

record CoreCompat =
  co_coreVariants :: "jsstr list option"
  co_resourceProfiles :: "int list option"

record AbiCompat =
  ab_protocolVersion :: int
  ab_configWireVersion :: int

record PackResourceManifest =
  prm_flashBytes :: int
  prm_staticRamBytes :: int
  prm_rulesUsed :: int
  prm_blocksUsed :: int

record ProvidedTypes =
  pv_blockTypeIds :: "jsstr list"
  pv_ruleTypeIds :: "jsstr list"
  pv_moduleDriverTypeIds :: "jsstr list"

record MarketplacePackManifest =
  mp_packId :: jsstr
  mp_version :: int
  mp_displayName :: jsstr
  mp_artifact :: PackArtifact
  mp_hash :: jsstr
  mp_signature :: PackSignature
  mp_dependencies :: "PackVersionRange list"
  mp_conflicts :: "PackVersionRange list"
  mp_coreCompat :: CoreCompat
  mp_abiCompat :: AbiCompat
  mp_providedTypes :: ProvidedTypes
  mp_resourceManifest :: PackResourceManifest

section \<open>Trust\<close>

datatype PackTrust = TRUSTED | UNTRUSTED | UNVERIFIABLE

definition checkPackTrust :: "'a \<Rightarrow> ('a \<Rightarrow> bool) option \<Rightarrow> PackTrust" where
  "checkPackTrust manifest verifier =
     (case verifier of None \<Rightarrow> UNVERIFIABLE | Some v \<Rightarrow> if v manifest then TRUSTED else UNTRUSTED)"

lemma trusted_iff: "checkPackTrust m verifier = TRUSTED \<longleftrightarrow> (\<exists>v. verifier = Some v \<and> v m)"
  by (auto simp: checkPackTrust_def split: option.split)

section \<open>Required artifacts\<close>

datatype RequiredArtifactKind = KBlock | KRule | KModuleDriver | KDeviceProfile

fun kind_text :: "RequiredArtifactKind \<Rightarrow> jsstr" where
  "kind_text KBlock = js ''block''"
| "kind_text KRule = js ''rule''"
| "kind_text KModuleDriver = js ''module-driver''"
| "kind_text KDeviceProfile = js ''device-profile''"

record UsedType =
  ut_typeId :: jsstr
  ut_kind :: RequiredArtifactKind
  ut_usedBy :: jsstr

record RequiredArtifact =
  ra_typeId :: jsstr
  ra_kind :: RequiredArtifactKind
  ra_requiredBy :: "jsstr list"

definition is_installed :: "jsstr list \<Rightarrow> jsstr list option \<Rightarrow> jsstr list option \<Rightarrow> UsedType \<Rightarrow> bool" where
  "is_installed drivers blocks_rules profiles u =
     (case ut_kind u of
        KModuleDriver \<Rightarrow> ut_typeId u \<in> set drivers
      | KDeviceProfile \<Rightarrow> (case profiles of None \<Rightarrow> False | Some ids \<Rightarrow> ut_typeId u \<in> set ids)
      | _ \<Rightarrow> (case blocks_rules of None \<Rightarrow> False | Some ids \<Rightarrow> ut_typeId u \<in> set ids))"

text \<open>The key \<open>kind:typeId\<close> stands for the pair, since the kinds contain no colon.\<close>

definition artifact_key :: "UsedType \<Rightarrow> jsstr" where
  "artifact_key u = kind_text (ut_kind u) @ 58 # ut_typeId u"

definition note_used :: "UsedType \<Rightarrow> (jsstr, RequiredArtifact) jsmap \<Rightarrow> (jsstr, RequiredArtifact) jsmap" where
  "note_used u m =
     (case jm_get m (artifact_key u) of
        Some existing \<Rightarrow> jm_put (artifact_key u) (existing\<lparr>ra_requiredBy := ra_requiredBy existing @ [ut_usedBy u]\<rparr>) m
      | None \<Rightarrow> jm_put (artifact_key u) \<lparr>ra_typeId = ut_typeId u, ra_kind = ut_kind u, ra_requiredBy = [ut_usedBy u]\<rparr> m)"

text \<open>The kinds are compared with \<open>localeCompare\<close>, which orders these four texts alphabetically.\<close>

fun kind_rank :: "RequiredArtifactKind \<Rightarrow> nat" where
  "kind_rank KBlock = 0" | "kind_rank KDeviceProfile = 1" | "kind_rank KModuleDriver = 2" | "kind_rank KRule = 3"

definition computeRequiredArtifacts ::
  "UsedType list \<Rightarrow> CatalogIndex \<Rightarrow> jsstr list option \<Rightarrow> jsstr list option \<Rightarrow> RequiredArtifact list" where
  "computeRequiredArtifacts used drivers blocks_rules profiles =
     sort_key ra_typeId (sort_key (kind_rank \<circ> ra_kind)
       (map snd (fold note_used
         (filter (\<lambda>u. \<not> is_installed (map cde_typeId (ci_moduleDrivers drivers)) blocks_rules profiles u) used) [])))"

section \<open>Resolving dependencies\<close>

record CoreCompatibilityContext =
  cc_coreVariant :: jsstr
  cc_resourceProfile :: int
  cc_protocolVersion :: int
  cc_configWireVersion :: int

datatype ResolutionConflictKind =
    NO_PROVIDER | CORE_INCOMPATIBLE | ABI_INCOMPATIBLE | UNTRUSTED_PACK | MISSING_DEPENDENCY | MUTUAL_CONFLICT

record ResolutionConflict =
  rc_kind :: ResolutionConflictKind
  rc_target :: jsstr

record ResolvedPackSelection =
  sel_packId :: jsstr
  sel_version :: int

definition isCoreCompatible :: "MarketplacePackManifest \<Rightarrow> CoreCompatibilityContext \<Rightarrow> bool" where
  "isCoreCompatible m core \<longleftrightarrow>
     (case co_coreVariants (mp_coreCompat m) of None \<Rightarrow> True | Some vs \<Rightarrow> cc_coreVariant core \<in> set vs) \<and>
     (case co_resourceProfiles (mp_coreCompat m) of None \<Rightarrow> True | Some ps \<Rightarrow> cc_resourceProfile core \<in> set ps)"

definition isAbiCompatible :: "MarketplacePackManifest \<Rightarrow> CoreCompatibilityContext \<Rightarrow> bool" where
  "isAbiCompatible m core \<longleftrightarrow>
     ab_protocolVersion (mp_abiCompat m) = cc_protocolVersion core \<and> ab_configWireVersion (mp_abiCompat m) = cc_configWireVersion core"

text \<open>By identifier, and the packs of one identifier with the highest version first, as two stable sorts.\<close>

definition sortCandidates :: "MarketplacePackManifest list \<Rightarrow> MarketplacePackManifest list" where
  "sortCandidates ps = sort_key mp_packId (sort_key (\<lambda>p. - mp_version p) ps)"

fun provides :: "RequiredArtifactKind \<Rightarrow> jsstr \<Rightarrow> MarketplacePackManifest \<Rightarrow> bool" where
  "provides KBlock typeId p = (typeId \<in> set (pv_blockTypeIds (mp_providedTypes p)))"
| "provides KRule typeId p = (typeId \<in> set (pv_ruleTypeIds (mp_providedTypes p)))"
| "provides _ typeId p = (typeId \<in> set (pv_moduleDriverTypeIds (mp_providedTypes p)))"

definition candidatesProviding :: "jsstr \<Rightarrow> RequiredArtifactKind \<Rightarrow> MarketplacePackManifest list \<Rightarrow> MarketplacePackManifest list" where
  "candidatesProviding typeId kind packs = sortCandidates (filter (provides kind typeId) packs)"

definition pack_name :: "MarketplacePackManifest \<Rightarrow> jsstr" where
  "pack_name p = mp_packId p @ js ''@'' @ decimal (mp_version p)"

definition suitable :: "CoreCompatibilityContext \<Rightarrow> (MarketplacePackManifest \<Rightarrow> bool) option \<Rightarrow> MarketplacePackManifest \<Rightarrow> bool" where
  "suitable core verifier p \<longleftrightarrow> isCoreCompatible p core \<and> isAbiCompatible p core \<and> checkPackTrust p verifier = TRUSTED"

definition pickFirstCompatible ::
  "MarketplacePackManifest list \<Rightarrow> CoreCompatibilityContext \<Rightarrow> (MarketplacePackManifest \<Rightarrow> bool) option \<Rightarrow> jsstr \<Rightarrow>
     ResolutionConflict + MarketplacePackManifest" where
  "pickFirstCompatible candidates core verifier target =
     (case candidates of
        [] \<Rightarrow> Inl \<lparr>rc_kind = NO_PROVIDER, rc_target = target\<rparr>
      | c # cs \<Rightarrow>
          (case find (suitable core verifier) candidates of
             Some p \<Rightarrow> Inr p
           | None \<Rightarrow>
               (case find (\<lambda>p. checkPackTrust p verifier \<noteq> TRUSTED) candidates of
                  Some p \<Rightarrow> Inl \<lparr>rc_kind = UNTRUSTED_PACK, rc_target = pack_name p\<rparr>
                | None \<Rightarrow>
                    (case find (\<lambda>p. \<not> isCoreCompatible p core) candidates of
                       Some p \<Rightarrow> Inl \<lparr>rc_kind = CORE_INCOMPATIBLE, rc_target = pack_name p\<rparr>
                     | None \<Rightarrow> Inl \<lparr>rc_kind = ABI_INCOMPATIBLE, rc_target = pack_name c\<rparr>))))"

text \<open>The state of the resolution: the conflicts, the packs selected by identifier, and the packs to expand.\<close>

type_synonym selected = "(jsstr, MarketplacePackManifest) jsmap"
type_synonym resolution = "ResolutionConflict list \<times> selected \<times> MarketplacePackManifest list"

definition require_turn ::
  "MarketplacePackManifest list \<Rightarrow> CoreCompatibilityContext \<Rightarrow> (MarketplacePackManifest \<Rightarrow> bool) option \<Rightarrow> RequiredArtifact \<Rightarrow> resolution \<Rightarrow> resolution" where
  "require_turn packs core verifier r = (\<lambda>(conflicts, selected, pending).
     case pickFirstCompatible (candidatesProviding (ra_typeId r) (ra_kind r) packs) core verifier (ra_typeId r) of
       Inl c \<Rightarrow> (conflicts @ [c], selected, pending)
     | Inr p \<Rightarrow> if jm_has selected (mp_packId p) then (conflicts, selected, pending)
               else (conflicts, jm_put (mp_packId p) p selected, pending @ [p]))"

definition range_text :: "PackVersionRange \<Rightarrow> jsstr" where
  "range_text dep = vr_packId dep @ js ''>='' @ decimal (vr_minVersion dep) @
     (case vr_maxVersion dep of None \<Rightarrow> [] | Some m \<Rightarrow> js '',<='' @ decimal m)"

definition dep_candidates :: "MarketplacePackManifest list \<Rightarrow> PackVersionRange \<Rightarrow> MarketplacePackManifest list" where
  "dep_candidates packs dep = sortCandidates (filter (\<lambda>p. mp_packId p = vr_packId dep \<and> versionSatisfies dep (mp_version p)) packs)"

definition dep_turn ::
  "MarketplacePackManifest list \<Rightarrow> CoreCompatibilityContext \<Rightarrow> (MarketplacePackManifest \<Rightarrow> bool) option \<Rightarrow> PackVersionRange \<Rightarrow> resolution \<Rightarrow> resolution" where
  "dep_turn packs core verifier dep = (\<lambda>(conflicts, selected, pending).
     if jm_has selected (vr_packId dep) then (conflicts, selected, pending)
     else let candidates = dep_candidates packs dep in
       (case pickFirstCompatible candidates core verifier (range_text dep) of
          Inl c \<Rightarrow> (conflicts @ [if candidates = [] then c\<lparr>rc_kind := MISSING_DEPENDENCY\<rparr> else c], selected, pending)
        | Inr p \<Rightarrow> (conflicts, jm_put (mp_packId p) p selected, pending @ [p])))"

lemma pick_in: "pickFirstCompatible cs core verifier t = Inr p \<Longrightarrow> p \<in> set cs \<and> suitable core verifier p"
proof -
  have found: "find P xs = Some x \<Longrightarrow> x \<in> set xs \<and> P x" for P and xs :: "MarketplacePackManifest list" and x
    by (induction xs) (auto split: if_splits)
  assume "pickFirstCompatible cs core verifier t = Inr p"
  then have "find (suitable core verifier) cs = Some p"
    by (auto simp: pickFirstCompatible_def simp del: find.simps split: list.splits option.splits)
  from found [OF this] show "p \<in> set cs \<and> suitable core verifier p" .
qed

lemma dep_candidates_in: "p \<in> set (dep_candidates packs dep) \<longleftrightarrow> p \<in> set packs \<and> mp_packId p = vr_packId dep \<and> versionSatisfies dep (mp_version p)"
  by (auto simp: dep_candidates_def sortCandidates_def)

text \<open>How many identifiers of the catalog are not selected yet, and how many packs wait.\<close>

definition work :: "MarketplacePackManifest list \<Rightarrow> resolution \<Rightarrow> nat" where
  "work packs = (\<lambda>(conflicts, selected, pending). card (mp_packId ` set packs - set (jm_keys selected)) + length pending)"

lemma work_dep: "work packs (dep_turn packs core verifier dep (cs, sel, pend)) = work packs (cs, sel, pend)"
proof (cases "jm_has sel (vr_packId dep)")
  case False
  show ?thesis
  proof (cases "pickFirstCompatible (dep_candidates packs dep) core verifier (range_text dep)")
    case (Inr p)
    from pick_in [OF Inr] have p: "p \<in> set packs" "mp_packId p = vr_packId dep" by (auto simp: dep_candidates_in)
    with False have "mp_packId p \<in> mp_packId ` set packs - set (jm_keys sel)" by (auto simp: jm_has_iff intro: rev_image_eqI)
    moreover have "set (jm_keys (jm_put (mp_packId p) p sel)) = insert (mp_packId p) (set (jm_keys sel))"
      by (auto simp: keys_update)
    moreover have "mp_packId ` set packs - insert (mp_packId p) (set (jm_keys sel)) = mp_packId ` set packs - set (jm_keys sel) - {mp_packId p}" by blast
    ultimately show ?thesis
      using False Inr card_Suc_Diff1 [of "mp_packId ` set packs - set (jm_keys sel)" "mp_packId p"]
      by (simp add: dep_turn_def work_def Let_def)
  qed (use False in \<open>simp add: dep_turn_def work_def Let_def\<close>)
qed (simp add: dep_turn_def)

lemma work_deps: "work packs (fold (dep_turn packs core verifier) deps st) = work packs st"
proof (induction deps arbitrary: st)
  case (Cons dep deps)
  then show ?case using work_dep by (cases st) simp
qed simp

function resolve_loop ::
  "MarketplacePackManifest list \<Rightarrow> CoreCompatibilityContext \<Rightarrow> (MarketplacePackManifest \<Rightarrow> bool) option \<Rightarrow> resolution \<Rightarrow> ResolutionConflict list \<times> selected" where
  "resolve_loop packs core verifier (conflicts, selected, []) = (conflicts, selected)"
| "resolve_loop packs core verifier (conflicts, selected, m # pending) =
     resolve_loop packs core verifier (fold (dep_turn packs core verifier) (mp_dependencies m) (conflicts, selected, pending))"
  by pat_completeness auto

termination
proof (relation "measure (\<lambda>(packs, core, verifier, st). work packs st)")
  fix packs core verifier conflicts and selected :: selected and m :: MarketplacePackManifest and pending
  have "work packs (fold (dep_turn packs core verifier) (mp_dependencies m) (conflicts, selected, pending)) < work packs (conflicts, selected, m # pending)"
    by (simp add: work_deps) (simp add: work_def)
  then show "((packs, core, verifier, fold (dep_turn packs core verifier) (mp_dependencies m) (conflicts, selected, pending)), packs, core, verifier, conflicts, selected, m # pending)
      \<in> measure (\<lambda>(packs, core, verifier, st). work packs st)" by simp
qed simp

definition mutual_conflicts :: "selected \<Rightarrow> ResolutionConflict list" where
  "mutual_conflicts selected = concat (map (\<lambda>a. concat (map (\<lambda>c.
     case jm_get selected (vr_packId c) of
       None \<Rightarrow> []
     | Some b \<Rightarrow> if versionSatisfies c (mp_version b)
                then [\<lparr>rc_kind = MUTUAL_CONFLICT, rc_target = pack_name a @ js '' vs '' @ pack_name b\<rparr>] else [])
     (mp_conflicts a))) (map snd selected))"

definition resolveDependencies ::
  "RequiredArtifact list \<Rightarrow> MarketplacePackManifest list \<Rightarrow> CoreCompatibilityContext \<Rightarrow> (MarketplacePackManifest \<Rightarrow> bool) option \<Rightarrow>
     ResolutionConflict list + ResolvedPackSelection list" where
  "resolveDependencies required packs core verifier =
     (let (conflicts, selected) = resolve_loop packs core verifier (fold (require_turn packs core verifier) required ([], [], []));
          all = conflicts @ mutual_conflicts selected in
      if all \<noteq> [] then Inl all
      else Inr (sort_key sel_packId (map (\<lambda>(_, m). \<lparr>sel_packId = mp_packId m, sel_version = mp_version m\<rparr>) selected)))"

section \<open>What a resolved plan guarantees\<close>

text \<open>
  While the resolution runs: what is selected comes from the catalog, is suitable, and stands under its own
  identifier; and as long as there is no conflict the dependencies of what is not pending are selected.
\<close>

definition selected_ok :: "MarketplacePackManifest list \<Rightarrow> CoreCompatibilityContext \<Rightarrow> (MarketplacePackManifest \<Rightarrow> bool) option \<Rightarrow> selected \<Rightarrow> bool" where
  "selected_ok packs core verifier selected \<longleftrightarrow> jm_wf selected \<and>
     (\<forall>(k, p)\<in>set selected. k = mp_packId p \<and> p \<in> set packs \<and> suitable core verifier p)"

definition expanded :: "resolution \<Rightarrow> bool" where
  "expanded = (\<lambda>(conflicts, selected, pending). conflicts = [] \<longrightarrow>
     (\<forall>m\<in>snd ` set selected - set pending. \<forall>dep\<in>set (mp_dependencies m). jm_has selected (vr_packId dep)))"

lemma selected_put:
  assumes "selected_ok packs core verifier sel" and "p \<in> set packs" and "suitable core verifier p"
  shows "selected_ok packs core verifier (jm_put (mp_packId p) p sel)"
  using assms set_update_subset [of "mp_packId p" p sel] jm.wf_put [of sel "mp_packId p" p]
  by (fastforce simp: selected_ok_def)

lemma vals_put: "\<not> jm_has sel k \<Longrightarrow> set (jm_put k p sel) = insert (k, p) (set sel)"
  by (simp add: update_new jm_has_iff)

lemma has_put: "jm_has (jm_put k p sel) j \<longleftrightarrow> j = k \<or> jm_has sel j"
  by (simp add: jm_has_def update_conv')

lemma require_turn_ok:
  "selected_ok packs core verifier sel \<Longrightarrow> selected_ok packs core verifier (fst (snd (require_turn packs core verifier r (cs, sel, pend))))"
  using selected_put by (auto simp: require_turn_def candidatesProviding_def sortCandidates_def split: sum.split dest!: pick_in)

lemma dep_turn_ok:
  "selected_ok packs core verifier sel \<Longrightarrow> selected_ok packs core verifier (fst (snd (dep_turn packs core verifier dep (cs, sel, pend))))"
  using selected_put [of packs core verifier sel]
  by (fastforce simp: dep_turn_def Let_def dep_candidates_in split: sum.split dest!: pick_in)

text \<open>A turn keeps what is selected, and keeps its conflicts.\<close>

definition extends :: "resolution \<Rightarrow> resolution \<Rightarrow> bool" where
  "extends = (\<lambda>(cs, sel, pend) (cs', sel', pend'). (\<exists>ds. cs' = cs @ ds) \<and> (\<forall>k. jm_has sel k \<longrightarrow> jm_has sel' k) \<and>
     snd ` set sel' \<subseteq> snd ` set sel \<union> set pend' \<and> set pend \<subseteq> set pend')"

lemma extends_refl: "extends st st"
  by (cases st) (auto simp: extends_def)

lemma extends_trans: 
  assumes "extends a b" and "extends b c"
  shows "extends a c"
proof -
  obtain cs1 s1 p1 cs2 s2 p2 cs3 s3 p3 where st: "a = (cs1, s1, p1)" "b = (cs2, s2, p2)" "c = (cs3, s3, p3)"
    by (cases a; cases b; cases c)
  from assms(1) obtain ds where 1: "cs2 = cs1 @ ds" "\<forall>k. jm_has s1 k \<longrightarrow> jm_has s2 k" "snd ` set s2 \<subseteq> snd ` set s1 \<union> set p2" "set p1 \<subseteq> set p2"
    by (auto simp: st extends_def)
  from assms(2) obtain es where 2: "cs3 = cs2 @ es" "\<forall>k. jm_has s2 k \<longrightarrow> jm_has s3 k" "snd ` set s3 \<subseteq> snd ` set s2 \<union> set p3" "set p2 \<subseteq> set p3"
    by (auto simp: st extends_def)
  have "A3 \<subseteq> A2 \<union> P3 \<Longrightarrow> A2 \<subseteq> A1 \<union> P2 \<Longrightarrow> P2 \<subseteq> P3 \<Longrightarrow> A3 \<subseteq> A1 \<union> P3" for A1 A2 A3 P2 P3 :: "MarketplacePackManifest set"
    by blast
  from this [OF 2(3) 1(3) 2(4)] subset_trans [OF 1(4) 2(4)] 1(1,2) 2(1,2) show ?thesis by (simp add: st extends_def)
qed

lemma extends_put: "\<not> jm_has sel k \<Longrightarrow> extends (cs, sel, pend) (cs, jm_put k p sel, pend @ [p])"
  by (auto simp: extends_def vals_put has_put)

lemma extends_require: "extends st (require_turn packs core verifier r st)"
proof -
  obtain cs sel pend where st: "st = (cs, sel, pend)" by (cases st)
  have "extends st (cs @ [c], sel, pend)" for c by (auto simp: st extends_def)
  then show ?thesis using extends_put [of sel] extends_refl [of st] by (auto simp: st require_turn_def split: sum.split)
qed

lemma extends_dep:
  assumes "st = (cs, sel, pend)"
  shows "extends st (dep_turn packs core verifier dep st)"
proof (cases "jm_has sel (vr_packId dep)")
  case False
  show ?thesis
  proof (cases "pickFirstCompatible (dep_candidates packs dep) core verifier (range_text dep)")
    case (Inl c)
    with False show ?thesis by (auto simp: assms dep_turn_def Let_def extends_def)
  next
    case (Inr p)
    with pick_in [OF Inr] False extends_put [of sel "mp_packId p" cs pend p] show ?thesis
      by (simp add: assms dep_turn_def Let_def dep_candidates_in)
  qed
qed (simp add: assms dep_turn_def extends_refl)

lemma dep_selected:
  "fst (dep_turn packs core verifier dep (cs, sel, pend)) = [] \<Longrightarrow> jm_has (fst (snd (dep_turn packs core verifier dep (cs, sel, pend)))) (vr_packId dep)"
  by (auto simp: dep_turn_def Let_def has_put dep_candidates_in split: sum.splits if_splits dest!: pick_in)

lemma deps_run:
  assumes "fold (dep_turn packs core verifier) deps st = (cs', sel', pend')" and "st = (cs, sel, pend)" and "selected_ok packs core verifier sel"
  shows "selected_ok packs core verifier sel' \<and> extends st (cs', sel', pend') \<and>
    (cs' = [] \<longrightarrow> (\<forall>dep\<in>set deps. jm_has sel' (vr_packId dep)))"
  using assms
proof (induction deps arbitrary: st cs sel pend)
  case Nil
  then show ?case by (simp add: extends_refl)
next
  case (Cons dep deps)
  obtain c1 s1 p1 where t: "dep_turn packs core verifier dep st = (c1, s1, p1)" by (cases "dep_turn packs core verifier dep st")
  from dep_turn_ok [OF Cons.prems(3), of dep cs pend] t Cons.prems(2) have ok: "selected_ok packs core verifier s1" by simp
  from Cons.prems(1) t have more: "fold (dep_turn packs core verifier) deps (c1, s1, p1) = (cs', sel', pend')" by simp
  from Cons.IH [OF more HOL.refl ok] have ih: "selected_ok packs core verifier sel'" "extends (c1, s1, p1) (cs', sel', pend')"
    "cs' = [] \<longrightarrow> (\<forall>dep\<in>set deps. jm_has sel' (vr_packId dep))" by auto
  have e: "extends st (c1, s1, p1)" using extends_dep [OF Cons.prems(2), of packs core verifier dep] t by simp
  moreover have "jm_has sel' (vr_packId dep)" if "cs' = []"
  proof -
    from that ih(2) have "c1 = []" by (auto simp: extends_def)
    with dep_selected [of packs core verifier dep cs sel pend] t Cons.prems(2) have "jm_has s1 (vr_packId dep)" by simp
    with ih(2) show ?thesis by (auto simp: extends_def)
  qed
  ultimately show ?case using ih extends_trans by auto
qed

lemma expand_turn:
  assumes "fold (dep_turn packs core verifier) (mp_dependencies m) (cs, sel, pend) = (cs', sel', pend')"
    and "selected_ok packs core verifier sel" and "expanded (cs, sel, m # pend)"
  shows "expanded (cs', sel', pend')"
  unfolding expanded_def
proof (clarsimp)
  fix k p dep
  assume none: "cs' = []" and p: "(k, p) \<in> set sel'" "p \<notin> set pend'" and dep: "dep \<in> set (mp_dependencies p)"
  from deps_run [OF assms(1) HOL.refl assms(2)] none have e: "extends (cs, sel, pend) (cs', sel', pend')"
    and new: "\<forall>dep\<in>set (mp_dependencies m). jm_has sel' (vr_packId dep)" by auto
  show "jm_has sel' (vr_packId dep)"
  proof (cases "p = m")
    case True
    with new dep show ?thesis by blast
  next
    case False
    from e p have "p \<in> snd ` set sel" "p \<notin> set pend" unfolding extends_def by force+
    moreover from e none have "cs = []" by (auto simp: extends_def)
    ultimately have "jm_has sel (vr_packId dep)" using assms(3) False dep unfolding expanded_def by auto
    with e show ?thesis by (auto simp: extends_def)
  qed
qed

lemma loop_ok:
  assumes "resolve_loop packs core verifier st = (conflicts, selected)" and "selected_ok packs core verifier (fst (snd st))" and "expanded st"
  shows "selected_ok packs core verifier selected \<and> expanded (conflicts, selected, []) \<and>
    (\<forall>k. jm_has (fst (snd st)) k \<longrightarrow> jm_has selected k) \<and> (conflicts = [] \<longrightarrow> fst st = [])"
  using assms
proof (induction packs core verifier st rule: resolve_loop.induct)
  case (1 packs core verifier cs sel)
  then show ?case by auto
next
  case (2 packs core verifier cs sel m pend)
  obtain c1 s1 p1 where t: "fold (dep_turn packs core verifier) (mp_dependencies m) (cs, sel, pend) = (c1, s1, p1)"
    by (cases "fold (dep_turn packs core verifier) (mp_dependencies m) (cs, sel, pend)")
  from 2(3) have ok: "selected_ok packs core verifier sel" by simp
  from deps_run [OF t HOL.refl ok] have r: "selected_ok packs core verifier s1" "extends (cs, sel, pend) (c1, s1, p1)" by auto
  from 2(1) [unfolded t] 2(2) t r(1) expand_turn [OF t ok 2(4)]
  have "selected_ok packs core verifier selected \<and> expanded (conflicts, selected, []) \<and>
      (\<forall>k. jm_has s1 k \<longrightarrow> jm_has selected k) \<and> (conflicts = [] \<longrightarrow> c1 = [])" by simp
  with r(2) show ?case by (auto simp: extends_def)
qed

lemma require_run:
  assumes "fold (require_turn packs core verifier) required st = (cs', sel', pend')" and "st = (cs, sel, pend)"
    and "selected_ok packs core verifier sel" and "snd ` set sel \<subseteq> set pend"
  shows "selected_ok packs core verifier sel' \<and> snd ` set sel' \<subseteq> set pend' \<and> extends st (cs', sel', pend') \<and>
    (cs' = [] \<longrightarrow> (\<forall>r\<in>set required. \<exists>p. pickFirstCompatible (candidatesProviding (ra_typeId r) (ra_kind r) packs) core verifier (ra_typeId r) = Inr p \<and>
       jm_has sel' (mp_packId p)))"
  using assms
proof (induction required arbitrary: st cs sel pend)
  case Nil
  then show ?case by (simp add: extends_refl)
next
  case (Cons r required)
  obtain c1 s1 p1 where t: "require_turn packs core verifier r (cs, sel, pend) = (c1, s1, p1)"
    by (cases "require_turn packs core verifier r (cs, sel, pend)")
  let ?pick = "pickFirstCompatible (candidatesProviding (ra_typeId r) (ra_kind r) packs) core verifier (ra_typeId r)"
  from require_turn_ok [OF Cons.prems(3), of r cs pend] t have ok: "selected_ok packs core verifier s1" by simp
  have e: "extends (cs, sel, pend) (c1, s1, p1)" using extends_require [of "(cs, sel, pend)" packs core verifier r] t by simp
  then have "snd ` set s1 \<subseteq> snd ` set sel \<union> set p1" "set pend \<subseteq> set p1" by (simp_all add: extends_def)
  with Cons.prems(4) have sub: "snd ` set s1 \<subseteq> set p1" by blast
  from Cons.prems(1,2) t have more: "fold (require_turn packs core verifier) required (c1, s1, p1) = (cs', sel', pend')" by simp
  note ih = Cons.IH [OF more HOL.refl ok sub]
  moreover have "\<exists>p. ?pick = Inr p \<and> jm_has sel' (mp_packId p)" if none: "cs' = []"
  proof -
    from ih none have "c1 = []" by (auto simp: extends_def)
    with t obtain p where p: "?pick = Inr p" and "jm_has s1 (mp_packId p)"
      by (auto simp: require_turn_def has_put split: sum.splits if_splits)
    with ih show ?thesis by (auto simp: extends_def)
  qed
  ultimately show ?case using e extends_trans [of st] Cons.prems(2) by auto
qed

lemma mutual_Nil:
  assumes "mutual_conflicts selected = []" and "(j, a) \<in> set selected" and "c \<in> set (mp_conflicts a)" and "jm_get selected (vr_packId c) = Some b"
  shows "\<not> versionSatisfies c (mp_version b)"
proof
  let ?f = "\<lambda>a c. case jm_get selected (vr_packId c) of None \<Rightarrow> []
     | Some b \<Rightarrow> if versionSatisfies c (mp_version b) then [\<lparr>rc_kind = MUTUAL_CONFLICT, rc_target = pack_name a @ js '' vs '' @ pack_name b\<rparr>] else []"
  assume "versionSatisfies c (mp_version b)"
  with assms(4) have "?f a c \<noteq> []" by simp
  moreover have "\<forall>xs\<in>set (map (\<lambda>a. concat (map (?f a) (mp_conflicts a))) (map snd selected)). xs = []"
    using assms(1) unfolding mutual_conflicts_def concat_eq_Nil_conv .
  then have "concat (map (?f a) (mp_conflicts a)) = []" by (rule bspec) (use assms(2) imageI [of "(j, a)" "set selected" snd] in \<open>simp only: set_map snd_conv image_eqI\<close>)
  then have "\<forall>xs\<in>set (map (?f a) (mp_conflicts a)). xs = []" unfolding concat_eq_Nil_conv .
  then have "?f a c = []" by (rule bspec) (use assms(3) in \<open>simp only: set_map image_eqI\<close>)
  ultimately show False by blast
qed

text \<open>A plan as a list of manifests.\<close>

definition sound_plan ::
  "RequiredArtifact list \<Rightarrow> MarketplacePackManifest list \<Rightarrow> CoreCompatibilityContext \<Rightarrow> (MarketplacePackManifest \<Rightarrow> bool) option \<Rightarrow> MarketplacePackManifest list \<Rightarrow> bool" where
  "sound_plan required packs core verifier plan \<longleftrightarrow>
     set plan \<subseteq> set packs \<and> distinct (map mp_packId plan) \<and> list_all (suitable core verifier) plan \<and>
     (\<forall>r\<in>set required. \<exists>p\<in>set packs. provides (ra_kind r) (ra_typeId r) p \<and> suitable core verifier p \<and> mp_packId p \<in> mp_packId ` set plan) \<and>
     (\<forall>m\<in>set plan. \<forall>dep\<in>set (mp_dependencies m). vr_packId dep \<in> mp_packId ` set plan) \<and>
     (\<forall>a\<in>set plan. \<forall>c\<in>set (mp_conflicts a). \<forall>b\<in>set plan. mp_packId b = vr_packId c \<longrightarrow> \<not> versionSatisfies c (mp_version b))"

definition selection :: "MarketplacePackManifest \<Rightarrow> ResolvedPackSelection" where
  "selection m = \<lparr>sel_packId = mp_packId m, sel_version = mp_version m\<rparr>"

lemma resolution_sound:
  assumes "resolveDependencies required packs core verifier = Inr sels"
  shows "\<exists>plan. sound_plan required packs core verifier plan \<and> sels = sort_key sel_packId (map selection plan)"
proof -
  obtain c0 s0 p0 where q: "fold (require_turn packs core verifier) required ([], [], []) = (c0, s0, p0)"
    by (cases "fold (require_turn packs core verifier) required ([], [], [])")
  obtain conflicts selected where l: "resolve_loop packs core verifier (c0, s0, p0) = (conflicts, selected)"
    by (cases "resolve_loop packs core verifier (c0, s0, p0)")
  from assms have none: "conflicts = []" "mutual_conflicts selected = []"
    and sels: "sels = sort_key sel_packId (map (\<lambda>(_, m). \<lparr>sel_packId = mp_packId m, sel_version = mp_version m\<rparr>) selected)"
    by (auto simp: resolveDependencies_def q l Let_def split: if_splits)
  have r: "selected_ok packs core verifier s0" "snd ` set s0 \<subseteq> set p0"
    and req: "c0 = [] \<longrightarrow> (\<forall>r\<in>set required. \<exists>p. pickFirstCompatible (candidatesProviding (ra_typeId r) (ra_kind r) packs) core verifier (ra_typeId r) = Inr p \<and>
       jm_has s0 (mp_packId p))"
    using require_run [OF q HOL.refl] by (auto simp: selected_ok_def)
  then have "expanded (c0, s0, p0)" by (auto simp: expanded_def)
  with loop_ok [OF l] r none have ok: "selected_ok packs core verifier selected" and ex: "expanded ([], selected, [])"
    and keep: "\<forall>k. jm_has s0 k \<longrightarrow> jm_has selected k" and "c0 = []" by auto
  let ?plan = "map snd selected"
  have ids: "map mp_packId ?plan = map fst selected" using ok by (auto simp: selected_ok_def)
  then have has: "jm_has selected k \<longleftrightarrow> k \<in> mp_packId ` set ?plan" for k by (metis jm_has_iff list.set_map)
  have "provides (ra_kind r) (ra_typeId r) p \<and> p \<in> set packs \<and> suitable core verifier p"
    if "pickFirstCompatible (candidatesProviding (ra_typeId r) (ra_kind r) packs) core verifier (ra_typeId r) = Inr p" for r p
    using pick_in [OF that] by (auto simp: candidatesProviding_def sortCandidates_def)
  with req \<open>c0 = []\<close> keep have "\<forall>r\<in>set required. \<exists>p\<in>set packs. provides (ra_kind r) (ra_typeId r) p \<and> suitable core verifier p \<and>
      mp_packId p \<in> mp_packId ` set ?plan"
    unfolding has [symmetric] by blast
  moreover have "\<forall>m\<in>set ?plan. \<forall>dep\<in>set (mp_dependencies m). vr_packId dep \<in> mp_packId ` set ?plan"
    using ex unfolding has [symmetric] expanded_def by auto
  moreover have "\<not> versionSatisfies c (mp_version b)" if a: "a \<in> set ?plan" and c: "c \<in> set (mp_conflicts a)" and b: "b \<in> set ?plan" "mp_packId b = vr_packId c" for a b c
  proof -
    from a obtain j where "(j, a) \<in> set selected" by auto
    moreover from b ok have "(vr_packId c, b) \<in> set selected" by (auto simp: selected_ok_def)
    then have "jm_get selected (vr_packId c) = Some b" using ok by (simp add: selected_ok_def jm_get_in)
    ultimately show ?thesis using mutual_Nil [OF none(2)] c by blast
  qed
  moreover have "set ?plan \<subseteq> set packs" "list_all (suitable core verifier) ?plan" "distinct (map mp_packId ?plan)"
    unfolding ids using ok by (auto simp: selected_ok_def jm_wf_def list_all_iff)
  ultimately have "sound_plan required packs core verifier ?plan" unfolding sound_plan_def by blast
  moreover have "sels = sort_key sel_packId (map selection ?plan)" by (simp add: sels selection_def comp_def case_prod_unfold)
  ultimately show ?thesis by blast
qed

section \<open>What a resolved plan does not guarantee\<close>

definition plain_pack :: "string \<Rightarrow> int \<Rightarrow> string list \<Rightarrow> PackVersionRange list \<Rightarrow> MarketplacePackManifest" where
  "plain_pack name version blocks deps =
     \<lparr>mp_packId = js name, mp_version = version, mp_displayName = [], mp_artifact = \<lparr>pa_url = [], pa_sizeBytes = 0\<rparr>, mp_hash = [],
      mp_signature = \<lparr>ps_algorithm = [], ps_signature = [], ps_keyId = []\<rparr>, mp_dependencies = deps, mp_conflicts = [],
      mp_coreCompat = \<lparr>co_coreVariants = None, co_resourceProfiles = None\<rparr>,
      mp_abiCompat = \<lparr>ab_protocolVersion = 1, ab_configWireVersion = 1\<rparr>,
      mp_providedTypes = \<lparr>pv_blockTypeIds = map js blocks, pv_ruleTypeIds = [], pv_moduleDriverTypeIds = []\<rparr>,
      mp_resourceManifest = \<lparr>prm_flashBytes = 0, prm_staticRamBytes = 0, prm_rulesUsed = 0, prm_blocksUsed = 0\<rparr>\<rparr>"

definition plain_core :: CoreCompatibilityContext where
  "plain_core = \<lparr>cc_coreVariant = [], cc_resourceProfile = 0, cc_protocolVersion = 1, cc_configWireVersion = 1\<rparr>"

definition needs :: "string \<Rightarrow> RequiredArtifact" where
  "needs name = \<lparr>ra_typeId = js name, ra_kind = KBlock, ra_requiredBy = []\<rparr>"

text \<open>Pack \<open>b\<close> depends on version 2 of \<open>a\<close>; version 1 of \<open>a\<close> is selected already, and the plan keeps it.\<close>

lemma range_not_checked:
  "resolveDependencies [needs ''x'', needs ''y'']
     [plain_pack ''a'' 1 [''x''] [], plain_pack ''a'' 2 [] [], plain_pack ''b'' 1 [''y''] [\<lparr>vr_packId = js ''a'', vr_minVersion = 2, vr_maxVersion = None\<rparr>]]
     plain_core (Some (\<lambda>p. True)) =
   Inr [\<lparr>sel_packId = js ''a'', sel_version = 1\<rparr>, \<lparr>sel_packId = js ''b'', sel_version = 1\<rparr>]"
  by code_simp

text \<open>Only version 1 of \<open>a\<close> provides \<open>x\<close>, only version 2 provides \<open>y\<close>: the plan has version 2 and nothing provides \<open>x\<close>.\<close>

lemma provider_missing:
  "resolveDependencies [needs ''y'', needs ''x''] [plain_pack ''a'' 1 [''x''] [], plain_pack ''a'' 2 [''y''] []] plain_core (Some (\<lambda>p. True)) =
   Inr [\<lparr>sel_packId = js ''a'', sel_version = 2\<rparr>]"
  by code_simp

text \<open>The highest version comes first only among the packs of one identifier.\<close>

lemma lower_version_first:
  "resolveDependencies [needs ''x''] [plain_pack ''b'' 9 [''x''] [], plain_pack ''a'' 1 [''x''] []] plain_core (Some (\<lambda>p. True)) =
   Inr [\<lparr>sel_packId = js ''a'', sel_version = 1\<rparr>]"
  by code_simp

section \<open>What is required\<close>

text \<open>The entry of a key: the users of its type in their order.\<close>

definition users :: "jsstr \<Rightarrow> UsedType list \<Rightarrow> RequiredArtifact option" where
  "users k us = (case filter (\<lambda>u. artifact_key u = k) us of
     [] \<Rightarrow> None
   | u # vs \<Rightarrow> Some \<lparr>ra_typeId = ut_typeId u, ra_kind = ut_kind u, ra_requiredBy = map ut_usedBy (u # vs)\<rparr>)"

lemma note_used_users: "jm_get (fold note_used us []) k = users k us"
proof (induction us rule: rev_induct)
  case Nil
  then show ?case by (simp add: users_def)
next
  case (snoc u us)
  show ?case
  proof (cases "artifact_key u = k")
    case True
    with snoc show ?thesis
      by (auto simp: note_used_def users_def jm.get_put split: list.splits option.splits)
  next
    case False
    have "users k (us @ [u]) = users k us" using False by (simp add: users_def)
    moreover have "jm_get (note_used u m) k = jm_get m k" for m
      using False by (auto simp: note_used_def jm.get_put split: option.split)
    ultimately show ?thesis using snoc by simp
  qed
qed

lemma kind_text_no_colon: "58 \<notin> set (kind_text k)"
  by (cases k) (simp_all add: js_def)

lemma kind_text_inj: "kind_text k = kind_text l \<longleftrightarrow> k = l"
  by (cases k; cases l) (simp_all add: js_inj)

lemma artifact_key_inj: "artifact_key u = artifact_key v \<longleftrightarrow> ut_kind u = ut_kind v \<and> ut_typeId u = ut_typeId v"
proof
  assume k: "artifact_key u = artifact_key v"
  have t: "takeWhile (\<lambda>c. c \<noteq> 58) (artifact_key w) = kind_text (ut_kind w)" for w
    using kind_text_no_colon [of "ut_kind w"] by (auto simp: artifact_key_def takeWhile_append takeWhile_eq_all_conv)
  from t [of u] t [of v] k have "ut_kind u = ut_kind v" by (simp add: kind_text_inj)
  with k show "ut_kind u = ut_kind v \<and> ut_typeId u = ut_typeId v" by (simp add: artifact_key_def)
qed (simp add: artifact_key_def)

end
