(* ===== verification/OtaPreflight.thy ===== *)
theory OtaPreflight
  imports Marketplace SyncState Ota
begin

text \<open>
  What is decided before an update is transferred and after the Core has rebooted: \<open>ota-preflight/src\<close>
  (\<open>candidate-manifest.ts\<close>, \<open>update-coordinator-state.ts\<close>, \<open>resource-budget-diff.ts\<close>, \<open>preflight.ts\<close>,
  \<open>build-selection.ts\<close>), \<open>ota-lifecycle/src/postflight.ts\<close> and \<open>catalog-invalidation.ts\<close>. Versions of firmware and
  bootloader are texts and are compared as texts, by their code units. The human-readable reasons are left out.
\<close>

section \<open>Candidates and the Core\<close>

datatype ConfigMigrationPolicy = REJECT_REMOVAL | EXPLICIT

record FeaturePackRef =
  fr_packId :: jsstr
  fr_version :: int

record OtaCandidateManifest =
  om_coreVariant :: jsstr
  om_resourceProfile :: int
  om_fwVersion :: jsstr
  om_abiVersion :: int
  om_minProtocolVersion :: int
  om_minConfigVersion :: int
  om_packs :: "FeaturePackRef list"
  om_featureSetHash :: jsstr
  om_flashSlotBytes :: int
  om_flashImageBudgetBytes :: int
  om_flashHeadroomBytes :: int
  om_staticRamBudgetBytes :: int
  om_declaredStackBytes :: int
  om_declaredPoolBytes :: int
  om_declaredWorkspaceBytes :: int
  om_bootloaderMin :: jsstr
  om_configMigrationPolicy :: ConfigMigrationPolicy
  om_artifact :: PackArtifact
  om_hash :: jsstr
  om_signature :: PackSignature
  om_providedTypeIds :: "jsstr list"
  om_isAllSupportedBuild :: bool

datatype UpdateState = US_IDLE | US_ARMED | US_RECEIVING | US_VERIFYING | US_PENDING_REBOOT | US_TRIAL_BOOT | US_ERROR

definition canArm :: "UpdateState \<Rightarrow> bool" where
  "canArm state =
     (if state = US_TRIAL_BOOT \<or> state = US_ERROR then False
      else if state = US_ARMED \<or> state = US_RECEIVING \<or> state = US_VERIFYING \<or> state = US_PENDING_REBOOT then False
      else True)"

record CoreOtaContext =
  oc_coreVariant :: jsstr
  oc_resourceProfile :: int
  oc_protocolVersion :: int
  oc_configVersion :: int
  oc_currentFwVersion :: jsstr
  oc_updateState :: UpdateState
  oc_resources :: GetResourcesResponse
  oc_currentBootloaderVersion :: "jsstr option"
  oc_usedTypeIds :: "jsstr list option"

section \<open>The resource budget\<close>

datatype BudgetDimension = FlashImage | StaticRam | Stack | Pool | Workspace

record BudgetDelta =
  bd_dimension :: BudgetDimension
  bd_availableBytes :: int
  bd_requiredBytes :: int
  bd_marginBytes :: int

definition delta :: "BudgetDimension \<Rightarrow> int \<Rightarrow> int \<Rightarrow> BudgetDelta" where
  "delta dimension available required =
     \<lparr>bd_dimension = dimension, bd_availableBytes = available, bd_requiredBytes = required, bd_marginBytes = available - required\<rparr>"

record BuildCapacityOverrides =
  bo_stackBytes :: "int option"
  bo_poolBytes :: "int option"
  bo_workspaceBytes :: "int option"

definition given :: "(BuildCapacityOverrides \<Rightarrow> int option) \<Rightarrow> BuildCapacityOverrides option \<Rightarrow> int \<Rightarrow> int" where
  "given which overrides other =
     (case overrides of None \<Rightarrow> other | Some b \<Rightarrow> (case which b of None \<Rightarrow> other | Some n \<Rightarrow> n))"

definition compareResourceBudget ::
  "OtaCandidateManifest \<Rightarrow> GetResourcesResponse \<Rightarrow> BuildCapacityOverrides option \<Rightarrow> BudgetDelta list \<times> bool" where
  "compareResourceBudget candidate running overrides =
     (let deltas =
        [delta FlashImage (res_flashImageBudgetBytes running) (om_flashImageBudgetBytes candidate),
         delta StaticRam (res_staticRamBudgetBytes running) (om_staticRamBudgetBytes candidate),
         delta Stack (given bo_stackBytes overrides (res_flashHeadroomBytes running)) (om_declaredStackBytes candidate),
         delta Pool (given bo_poolBytes overrides (res_flashHeadroomBytes running)) (om_declaredPoolBytes candidate),
         delta Workspace (given bo_workspaceBytes overrides (res_flashHeadroomBytes running)) (om_declaredWorkspaceBytes candidate)]
      in (deltas, list_all (\<lambda>d. bd_marginBytes d \<ge> 0) deltas))"

section \<open>The preflight\<close>

datatype PreflightOutcome =
    PREFLIGHT_READY | REJECTED_UNTRUSTED | REJECTED_HASH_MISMATCH | REJECTED_CORE_VARIANT | REJECTED_RESOURCE_PROFILE
  | REJECTED_COORDINATOR_BUSY | REJECTED_POSSIBLE_DOWNGRADE | REJECTED_BOOTLOADER_TOO_OLD | REJECTED_PROTOCOL_TOO_OLD
  | REJECTED_CONFIG_VERSION_TOO_OLD | REJECTED_ABI_TOO_NEW | REJECTED_CONFIG_TYPE_REMOVED | REJECTED_BUDGET_EXCEEDED

record PreflightResult =
  pf_kind :: PreflightOutcome
  pf_budgetDeltas :: "BudgetDelta list option"

record PreflightOptions =
  po_trustVerifier :: "(OtaCandidateManifest \<Rightarrow> bool) option"
  po_expectedHash :: "jsstr option"
  po_buildCapacityOverrides :: "BuildCapacityOverrides option"

definition no_options :: PreflightOptions where
  "no_options = \<lparr>po_trustVerifier = None, po_expectedHash = None, po_buildCapacityOverrides = None\<rparr>"

definition rejected :: "PreflightOutcome \<Rightarrow> PreflightResult" where
  "rejected kind = \<lparr>pf_kind = kind, pf_budgetDeltas = None\<rparr>"

definition removed_types :: "OtaCandidateManifest \<Rightarrow> jsstr list \<Rightarrow> jsstr list" where
  "removed_types candidate used = filter (\<lambda>t. t \<notin> set (om_providedTypeIds candidate)) used"

definition preflightOtaCandidate :: "OtaCandidateManifest \<Rightarrow> CoreOtaContext \<Rightarrow> PreflightOptions \<Rightarrow> PreflightResult" where
  "preflightOtaCandidate candidate core options =
     (if \<not> (case po_trustVerifier options of None \<Rightarrow> False | Some v \<Rightarrow> v candidate) then rejected REJECTED_UNTRUSTED
      else if (case po_expectedHash options of None \<Rightarrow> False | Some h \<Rightarrow> h \<noteq> om_hash candidate) then rejected REJECTED_HASH_MISMATCH
      else if om_coreVariant candidate \<noteq> oc_coreVariant core then rejected REJECTED_CORE_VARIANT
      else if om_resourceProfile candidate \<noteq> oc_resourceProfile core then rejected REJECTED_RESOURCE_PROFILE
      else if \<not> canArm (oc_updateState core) then rejected REJECTED_COORDINATOR_BUSY
      else if om_fwVersion candidate < oc_currentFwVersion core then rejected REJECTED_POSSIBLE_DOWNGRADE
      else if (case oc_currentBootloaderVersion core of None \<Rightarrow> False | Some v \<Rightarrow> om_bootloaderMin candidate > v)
      then rejected REJECTED_BOOTLOADER_TOO_OLD
      else if om_minProtocolVersion candidate > oc_protocolVersion core then rejected REJECTED_PROTOCOL_TOO_OLD
      else if om_minConfigVersion candidate > oc_configVersion core then rejected REJECTED_CONFIG_VERSION_TOO_OLD
      else if (case oc_usedTypeIds core of None \<Rightarrow> False | Some used \<Rightarrow>
          om_configMigrationPolicy candidate = REJECT_REMOVAL \<and> removed_types candidate used \<noteq> [])
      then rejected REJECTED_CONFIG_TYPE_REMOVED
      else case compareResourceBudget candidate (oc_resources core) (po_buildCapacityOverrides options) of
        (deltas, fitting) \<Rightarrow>
          if \<not> fitting then \<lparr>pf_kind = REJECTED_BUDGET_EXCEEDED, pf_budgetDeltas = Some deltas\<rparr> else rejected PREFLIGHT_READY)"

section \<open>Choosing a build\<close>

datatype BuildSelection =
    SELECTED OtaCandidateManifest PreflightResult
  | NO_CANDIDATE_FITS "(OtaCandidateManifest \<times> PreflightResult) list"

definition providesAll :: "OtaCandidateManifest \<Rightarrow> jsstr list \<Rightarrow> bool" where
  "providesAll candidate required \<longleftrightarrow> list_all (\<lambda>i. i \<in> set (map fr_packId (om_packs candidate))) required"

fun try_candidates ::
  "(OtaCandidateManifest \<Rightarrow> PreflightResult) \<Rightarrow> (OtaCandidateManifest \<times> PreflightResult) list \<Rightarrow> OtaCandidateManifest list \<Rightarrow> BuildSelection" where
  "try_candidates preflight attempts [] = NO_CANDIDATE_FITS attempts"
| "try_candidates preflight attempts (c # cs) =
     (if pf_kind (preflight c) = PREFLIGHT_READY then SELECTED c (preflight c)
      else try_candidates preflight (attempts @ [(c, preflight c)]) cs)"

text \<open>
  The sort compares the budgets and then, with \<open>localeCompare\<close>, the joined pack names: \<open>collate\<close> is the collation key
  of a text, in which \<open>localeCompare\<close> compares.
\<close>

fun joined :: "jsstr list \<Rightarrow> jsstr" where
  "joined [] = []"
| "joined [p] = p"
| "joined (p # ps) = p @ 44 # joined ps"

definition build_order :: "(jsstr \<Rightarrow> nat) \<Rightarrow> OtaCandidateManifest list \<Rightarrow> OtaCandidateManifest list" where
  "build_order collate eligible =
     filter om_isAllSupportedBuild eligible @
     sort_key om_flashImageBudgetBytes (sort_key (\<lambda>c. collate (joined (map fr_packId (om_packs c))))
       (filter (\<lambda>c. \<not> om_isAllSupportedBuild c) eligible))"

definition selectBuildVariant ::
  "(jsstr \<Rightarrow> nat) \<Rightarrow> jsstr list \<Rightarrow> OtaCandidateManifest list \<Rightarrow> CoreOtaContext \<Rightarrow> PreflightOptions \<Rightarrow> BuildSelection" where
  "selectBuildVariant collate required candidates core options =
     try_candidates (\<lambda>c. preflightOtaCandidate c core options) []
       (build_order collate (filter (\<lambda>c. providesAll c required) candidates))"

section \<open>After the reboot\<close>

record PostflightSnapshot =
  pn_deviceId :: bytes
  pn_fwVersion :: jsstr
  pn_featureSetHash :: bytes
  pn_packIds :: "jsstr list"
  pn_catalogFingerprint :: bytes
  pn_flashImageBudgetBytes :: int
  pn_staticRamBudgetBytes :: int
  pn_configPreserved :: bool
  pn_profilesPreserved :: bool

datatype PostflightOutcome =
    CONFIRMED_INSTALLED | ROLLBACK_DETECTED | WRONG_DEVICE | VERSION_MISMATCH | FEATURE_SET_MISMATCH | RESOURCE_REPORT_MISMATCH
  | CONFIG_NOT_PRESERVED | PROFILES_NOT_PRESERVED

definition evaluatePostflight ::
  "(jsstr \<Rightarrow> jsstr) \<Rightarrow> PostflightSnapshot \<Rightarrow> PostflightSnapshot \<Rightarrow> OtaCandidateManifest \<Rightarrow> PostflightOutcome" where
  "evaluatePostflight lower before after candidate =
     (if pn_deviceId before \<noteq> pn_deviceId after then WRONG_DEVICE
      else if pn_fwVersion after = pn_fwVersion before then ROLLBACK_DETECTED
      else if pn_fwVersion after \<noteq> om_fwVersion candidate then VERSION_MISMATCH
      else if \<not> bytesEqualHex lower (pn_featureSetHash after) (om_featureSetHash candidate) then FEATURE_SET_MISMATCH
      else if pn_flashImageBudgetBytes after \<noteq> om_flashImageBudgetBytes candidate \<or>
        pn_staticRamBudgetBytes after \<noteq> om_staticRamBudgetBytes candidate then RESOURCE_REPORT_MISMATCH
      else if \<not> pn_configPreserved after then CONFIG_NOT_PRESERVED
      else if \<not> pn_profilesPreserved after then PROFILES_NOT_PRESERVED
      else CONFIRMED_INSTALLED)"

definition invalidateCatalogAfterOta :: "catalog_cache \<Rightarrow> bytes \<Rightarrow> PostflightOutcome \<Rightarrow> catalog_cache" where
  "invalidateCatalogAfterOta cache deviceId postflight =
     (if postflight = WRONG_DEVICE then cache else invalidateDevice deviceId cache)"

section \<open>What the preflight accepts\<close>

definition budgets_fit :: "OtaCandidateManifest \<Rightarrow> GetResourcesResponse \<Rightarrow> BuildCapacityOverrides option \<Rightarrow> bool" where
  "budgets_fit candidate running overrides \<longleftrightarrow>
     om_flashImageBudgetBytes candidate \<le> res_flashImageBudgetBytes running \<and>
     om_staticRamBudgetBytes candidate \<le> res_staticRamBudgetBytes running \<and>
     om_declaredStackBytes candidate \<le> given bo_stackBytes overrides (res_flashHeadroomBytes running) \<and>
     om_declaredPoolBytes candidate \<le> given bo_poolBytes overrides (res_flashHeadroomBytes running) \<and>
     om_declaredWorkspaceBytes candidate \<le> given bo_workspaceBytes overrides (res_flashHeadroomBytes running)"

lemma budget_fits: "snd (compareResourceBudget candidate running overrides) \<longleftrightarrow> budgets_fit candidate running overrides"
  by (simp add: compareResourceBudget_def budgets_fit_def delta_def Let_def)

lemma canArm_idle: "canArm state \<longleftrightarrow> state = US_IDLE"
  by (cases state) (simp_all add: canArm_def)

definition compatible :: "OtaCandidateManifest \<Rightarrow> CoreOtaContext \<Rightarrow> bool" where
  "compatible candidate core \<longleftrightarrow>
     om_coreVariant candidate = oc_coreVariant core \<and> om_resourceProfile candidate = oc_resourceProfile core \<and>
     oc_updateState core = US_IDLE \<and> oc_currentFwVersion core \<le> om_fwVersion candidate \<and>
     list_all (\<lambda>v. om_bootloaderMin candidate \<le> v) (case oc_currentBootloaderVersion core of None \<Rightarrow> [] | Some v \<Rightarrow> [v]) \<and>
     om_minProtocolVersion candidate \<le> oc_protocolVersion core \<and> om_minConfigVersion candidate \<le> oc_configVersion core \<and>
     (om_configMigrationPolicy candidate = EXPLICIT \<or>
      set (case oc_usedTypeIds core of None \<Rightarrow> [] | Some used \<Rightarrow> used) \<subseteq> set (om_providedTypeIds candidate))"

lemma removed_Nil: "removed_types candidate used = [] \<longleftrightarrow> set used \<subseteq> set (om_providedTypeIds candidate)"
  by (auto simp: removed_types_def filter_empty_conv)

lemma preflight_ready_iff:
  "pf_kind (preflightOtaCandidate candidate core options) = PREFLIGHT_READY \<longleftrightarrow>
     (\<exists>v. po_trustVerifier options = Some v \<and> v candidate) \<and>
     (po_expectedHash options = None \<or> po_expectedHash options = Some (om_hash candidate)) \<and>
     compatible candidate core \<and> budgets_fit candidate (oc_resources core) (po_buildCapacityOverrides options)"
proof -
  obtain deltas ok where b: "compareResourceBudget candidate (oc_resources core) (po_buildCapacityOverrides options) = (deltas, ok)"
    by (cases "compareResourceBudget candidate (oc_resources core) (po_buildCapacityOverrides options)")
  with budget_fits [of candidate "oc_resources core" "po_buildCapacityOverrides options"]
  have ok: "ok \<longleftrightarrow> budgets_fit candidate (oc_resources core) (po_buildCapacityOverrides options)" by simp
  have explicit: "om_configMigrationPolicy candidate = EXPLICIT \<longleftrightarrow> om_configMigrationPolicy candidate \<noteq> REJECT_REMOVAL"
    by (cases "om_configMigrationPolicy candidate") simp_all
  show ?thesis
    unfolding compatible_def preflightOtaCandidate_def b rejected_def canArm_idle explicit removed_Nil ok [symmetric] prod.case
    by (cases "po_trustVerifier options"; cases "po_expectedHash options"; cases "oc_currentBootloaderVersion core"; cases "oc_usedTypeIds core")
       (auto simp: not_less)
qed

text \<open>Without a verifier nothing is ever ready.\<close>

lemma no_verifier_no_update: "pf_kind (preflightOtaCandidate candidate core no_options) = REJECTED_UNTRUSTED"
  by (simp add: preflightOtaCandidate_def no_options_def rejected_def)

text \<open>No candidate is rejected for its ABI.\<close>

lemma abi_never_checked: "pf_kind (preflightOtaCandidate candidate core options) \<noteq> REJECTED_ABI_TOO_NEW"
proof -
  obtain deltas ok where b: "compareResourceBudget candidate (oc_resources core) (po_buildCapacityOverrides options) = (deltas, ok)"
    by (cases "compareResourceBudget candidate (oc_resources core) (po_buildCapacityOverrides options)")
  show ?thesis by (simp add: preflightOtaCandidate_def rejected_def b)
qed

text \<open>Version 1.10.0 sorts before 1.9.0.\<close>

lemma newer_version_rejected:
  "om_fwVersion candidate = js ''1.10.0'' \<Longrightarrow> oc_currentFwVersion core = js ''1.9.0'' \<Longrightarrow>
     pf_kind (preflightOtaCandidate candidate core options) \<noteq> PREFLIGHT_READY"
proof -
  have "\<not> js ''1.9.0'' \<le> js ''1.10.0''" by code_simp
  then show "om_fwVersion candidate = js ''1.10.0'' \<Longrightarrow> oc_currentFwVersion core = js ''1.9.0'' \<Longrightarrow>
     pf_kind (preflightOtaCandidate candidate core options) \<noteq> PREFLIGHT_READY"
    by (simp add: preflight_ready_iff compatible_def)
qed

section \<open>What is selected\<close>

lemma try_selected:
  "try_candidates preflight attempts cs = SELECTED c r \<Longrightarrow>
     \<exists>us vs. cs = us @ c # vs \<and> r = preflight c \<and> pf_kind r = PREFLIGHT_READY \<and> (\<forall>u\<in>set us. pf_kind (preflight u) \<noteq> PREFLIGHT_READY)"
proof (induction preflight attempts cs rule: try_candidates.induct)
  case (2 preflight attempts d cs)
  show ?case
  proof (cases "pf_kind (preflight d) = PREFLIGHT_READY")
    case True
    with 2(2) show ?thesis by (intro exI [of _ "[]"] exI [of _ cs]) auto
  next
    case False
    with 2 obtain us vs where "cs = us @ c # vs" "r = preflight c" "pf_kind r = PREFLIGHT_READY"
      "\<forall>u\<in>set us. pf_kind (preflight u) \<noteq> PREFLIGHT_READY" by auto
    with False show ?thesis by (intro exI [of _ "d # us"] exI [of _ vs]) simp
  qed
qed simp

lemma try_none:
  "try_candidates preflight attempts cs = NO_CANDIDATE_FITS as \<longleftrightarrow>
     (\<forall>c\<in>set cs. pf_kind (preflight c) \<noteq> PREFLIGHT_READY) \<and> as = attempts @ map (\<lambda>c. (c, preflight c)) cs"
  by (induction preflight attempts cs rule: try_candidates.induct) auto

lemma build_order_set: "set (build_order collate eligible) = set eligible"
  by (auto simp: build_order_def)

text \<open>Nothing that comes earlier in the order was ready: the complete build, or a composed one with a smaller budget.\<close>

definition preferred :: "OtaCandidateManifest \<Rightarrow> OtaCandidateManifest \<Rightarrow> bool" where
  "preferred a b \<longleftrightarrow> (om_isAllSupportedBuild a \<and> \<not> om_isAllSupportedBuild b) \<or>
     (\<not> om_isAllSupportedBuild a \<and> \<not> om_isAllSupportedBuild b \<and> om_flashImageBudgetBytes a < om_flashImageBudgetBytes b)"

lemma preferred_earlier:
  assumes "build_order collate eligible = us @ c # vs" and "d \<in> set eligible" and "preferred d c"
  shows "d \<in> set us"
proof (rule ccontr)
  assume "d \<notin> set us"
  moreover have "d \<noteq> c" using assms(3) by (auto simp: preferred_def)
  moreover have "d \<in> set (us @ c # vs)" using assms(1,2) build_order_set by metis
  ultimately have later: "d \<in> set vs" by simp
  let ?all = "filter om_isAllSupportedBuild eligible"
  define composed where "composed = sort_key om_flashImageBudgetBytes
      (sort_key (\<lambda>c. collate (joined (map fr_packId (om_packs c)))) (filter (\<lambda>c. \<not> om_isAllSupportedBuild c) eligible))"
  have split: "?all @ composed = us @ c # vs" using assms(1) by (simp add: build_order_def composed_def)
  have not: "\<not> om_isAllSupportedBuild x" if "x \<in> set composed" for x using that by (auto simp: composed_def)
  from split consider ws where "?all = us @ c # ws" | ws where "us = ?all @ ws" "composed = ws @ c # vs"
    by (auto simp: append_eq_append_conv2 append_eq_Cons_conv Cons_eq_append_conv)
  then show False
  proof cases
    case 1
    then have "c \<in> set ?all" by simp
    then show False using assms(3) by (simp add: preferred_def)
  next
    case 2
    from 2(2) later not have "\<not> om_isAllSupportedBuild d" by simp
    moreover have "sorted (map om_flashImageBudgetBytes composed)" by (simp add: composed_def)
    with 2(2) later have "om_flashImageBudgetBytes c \<le> om_flashImageBudgetBytes d" by (auto simp: sorted_append)
    ultimately show False using assms(3) by (auto simp: preferred_def)
  qed
qed

lemma selected_best:
  assumes "selectBuildVariant collate required candidates core options = SELECTED c r"
  shows "c \<in> set candidates \<and> providesAll c required \<and> r = preflightOtaCandidate c core options \<and> pf_kind r = PREFLIGHT_READY \<and>
    (\<forall>d\<in>set candidates. providesAll d required \<and> preferred d c \<longrightarrow> pf_kind (preflightOtaCandidate d core options) \<noteq> PREFLIGHT_READY)"
proof -
  let ?eligible = "filter (\<lambda>c. providesAll c required) candidates"
  from assms obtain us vs where o: "build_order collate ?eligible = us @ c # vs" and r: "r = preflightOtaCandidate c core options" "pf_kind r = PREFLIGHT_READY"
    and us: "\<forall>u\<in>set us. pf_kind (preflightOtaCandidate u core options) \<noteq> PREFLIGHT_READY"
    using try_selected unfolding selectBuildVariant_def by blast
  from o have "c \<in> set ?eligible" by (metis build_order_set in_set_conv_decomp)
  moreover have "pf_kind (preflightOtaCandidate d core options) \<noteq> PREFLIGHT_READY"
    if "d \<in> set candidates" "providesAll d required" "preferred d c" for d
    using preferred_earlier [OF o] us that by auto
  ultimately show ?thesis using r by auto
qed

lemma nothing_fits:
  "(\<exists>attempts. selectBuildVariant collate required candidates core options = NO_CANDIDATE_FITS attempts) \<longleftrightarrow>
     (\<forall>d\<in>set candidates. providesAll d required \<longrightarrow> pf_kind (preflightOtaCandidate d core options) \<noteq> PREFLIGHT_READY)"
  using build_order_set [of collate "filter (\<lambda>c. providesAll c required) candidates"]
  by (auto simp: selectBuildVariant_def try_none)

section \<open>What is confirmed\<close>

lemma confirmed_iff:
  "evaluatePostflight lower before after candidate = CONFIRMED_INSTALLED \<longleftrightarrow>
     pn_deviceId after = pn_deviceId before \<and> pn_fwVersion after \<noteq> pn_fwVersion before \<and> pn_fwVersion after = om_fwVersion candidate \<and>
     bytesToHex (pn_featureSetHash after) = lower (om_featureSetHash candidate) \<and>
     pn_flashImageBudgetBytes after = om_flashImageBudgetBytes candidate \<and> pn_staticRamBudgetBytes after = om_staticRamBudgetBytes candidate \<and>
     pn_configPreserved after \<and> pn_profilesPreserved after"
  by (auto simp: evaluatePostflight_def bytesEqualHex_def)

text \<open>A reinstallation of the running version passes the preflight but is never confirmed.\<close>

lemma reinstallation_never_confirmed:
  "om_fwVersion candidate = pn_fwVersion before \<Longrightarrow> evaluatePostflight lower before after candidate \<noteq> CONFIRMED_INSTALLED"
  by (simp add: confirmed_iff)

lemma after_ota_cache:
  "evaluatePostflight lower before after candidate \<noteq> WRONG_DEVICE \<Longrightarrow>
     cache_get (pn_deviceId before) f (invalidateCatalogAfterOta cache (pn_deviceId before) (evaluatePostflight lower before after candidate)) = None"
  by (simp add: invalidateCatalogAfterOta_def cache_get_def invalidateDevice_def map_of_eq_None_iff)
     (auto simp: cache_key_def prefix_def)

end
