(* ===== verification/ProfileOps.thy ===== *)
theory ProfileOps
  imports Int64
begin

text \<open>
  The instructions of Device Profiles and their raw form: \<open>device-profile-authoring-model/src/instruction.ts\<close>,
  \<open>opcodes.ts\<close> and \<open>raw-op.ts\<close>. Operands are integers; an optional flag that is absent is \<open>False\<close>.
\<close>

section \<open>Instructions\<close>

datatype shift_direction = ShiftLeft | ShiftRight
datatype byte_order = BigEndian | LittleEndian

text \<open>The arguments of each constructor are the fields of its variant, in the order of the source.\<close>

datatype (plugins only: code size) Instruction =
    PWM_SET int int int
  | DS18B20_SETUP int bool "int option" bool
  | DS18B20_READ int int bool
  | EMIT_DECIMAL int int bool "int option" bool
  | DHT22_POWER int int bool
  | DHT22_READ int int int int bool bool
  | RGB_PROGRAM "int option" int int int bool
  | STEPPER int int int int int
  | MESSAGE_LOAD int int
  | MESSAGE_PATCH int int int
  | I2C_MESSAGE_WRITE int int
  | SCALE_PACK int int int int int int int
  | LOAD_ARGUMENT int int int bool bool int int
  | LOAD_VALUE int int int bool bool int int
  | I2C_WRITE int int int
  | I2C_READ int int int
  | I2C_WRITE_READ int int int int int
  | SPI_TRANSCEIVE int int int int int int
  | UART_WRITE int int int
  | UART_READ_UNTIL int int int int
  | UART_READ int int int
  | GPIO_PULSE int int bool bool
  | GPIO_GET int "int option"
  | GPIO_SET bool "int option"
  | GPIO_SET_VALUE int int bool
  | ADC_READ int int
  | DELAY_BOUNDED int
  | WAIT_FIELD_MASK int int int int int int
  | WAIT_GPIO int int int int
  | W1_WRITE_READ int int int int int
  | LOAD_CONST int int int int
  | COPY_BYTES int int int "int option"
  | CONCAT int int int
  | BYTE_SWAP int int int
  | MASK int int int
  | SHIFT int int int shift_direction
  | SIGN_EXTEND int int int
  | CRC8 int int
  | CRC16 int int
  | EMIT_FIELD int int "int option" "byte_order option" bool "int option"
  | EMIT_RECORD

fun opcode :: "Instruction \<Rightarrow> int" where
  "opcode (PWM_SET src channel frequencyHz) = 41"
| "opcode (DHT22_POWER dataChannel powerChannel on) = 36"
| "opcode (EMIT_DECIMAL src fieldId isText divisor humidity) = 38"
| "opcode (DHT22_READ dst humidityDst dataChannel powerChannel dht11 queued) = 37"
| "opcode (DS18B20_READ dst channel rawScratchpad) = 39"
| "opcode (DS18B20_SETUP channel on powerChannel externalPower) = 40"
| "opcode (RGB_PROGRAM nodeId offset len channels inverted) = 35"
| "opcode (STEPPER command channels intervalMs stepsPerRevolution src) = 34"
| "opcode (MESSAGE_LOAD offset len) = 29"
| "opcode (MESSAGE_PATCH src offset len) = 30"
| "opcode (I2C_MESSAGE_WRITE len timeoutMs) = 31"
| "opcode (I2C_WRITE src len timeoutMs) = 1"
| "opcode (I2C_READ dst len timeoutMs) = 2"
| "opcode (I2C_WRITE_READ src dst readLength writeLength timeoutMs) = 3"
| "opcode (SPI_TRANSCEIVE src dst len timeoutMs frequencyHz mode) = 4"
| "opcode (UART_WRITE src len timeoutMs) = 5"
| "opcode (UART_READ_UNTIL dst maxLength timeoutMs stopByte) = 6"
| "opcode (GPIO_GET dst channel) = 7"
| "opcode (GPIO_SET v channel) = 8"
| "opcode (GPIO_SET_VALUE src channel invert) = 32"
| "opcode (GPIO_PULSE channel milliseconds activeHigh restoreHigh) = 33"
| "opcode (ADC_READ dst timeoutMs) = 9"
| "opcode (DELAY_BOUNDED milliseconds) = 10"
| "opcode (WAIT_FIELD_MASK dst src bits expected attempts intervalMs) = 11"
| "opcode (LOAD_CONST dst len low high) = 12"
| "opcode (COPY_BYTES src dst len offset) = 13"
| "opcode (CONCAT srcA srcB dst) = 14"
| "opcode (BYTE_SWAP src dst width) = 15"
| "opcode (MASK src dst bits) = 16"
| "opcode (SHIFT src dst amount direction) = 17"
| "opcode (SIGN_EXTEND src dst bits) = 18"
| "opcode (CRC8 src dst) = 19"
| "opcode (CRC16 src dst) = 20"
| "opcode (EMIT_FIELD src fieldId width byteOrder signExtend multiplier) = 21"
| "opcode EMIT_RECORD = 22"
| "opcode (W1_WRITE_READ src dst readLength writeLength timeoutMs) = 23"
| "opcode (UART_READ dst len timeoutMs) = 24"
| "opcode (WAIT_GPIO dst attempts intervalMs expectedLevel) = 25"
| "opcode (LOAD_ARGUMENT dst argumentId len littleEndian required low high) = 26"
| "opcode (SCALE_PACK src dst flags width divisor multiplier offset) = 27"
| "opcode (LOAD_VALUE dst argumentId len littleEndian required low high) = 28"

section \<open>The raw form\<close>

record RawDeviceProfileOp =
  rw_opcode :: int
  rw_dst :: int
  rw_srcA :: int
  rw_srcB :: int
  rw_imm0 :: int
  rw_imm1 :: int
  rw_imm2 :: int
  rw_imm3 :: int

definition base_op :: "int \<Rightarrow> RawDeviceProfileOp" where
  "base_op code = \<lparr>rw_opcode = code, rw_dst = 0, rw_srcA = 0, rw_srcB = 0, rw_imm0 = 0, rw_imm1 = 0, rw_imm2 = 0, rw_imm3 = 0\<rparr>"

abbreviation flag :: "bool \<Rightarrow> int" where
  "flag b \<equiv> (if b then 1 else 0)"

text \<open>\<open>x ?? 0\<close>, \<open>x >>> 0\<close> and \<open>x | 0\<close>.\<close>

fun or_zero :: "int option \<Rightarrow> int" where
  "or_zero None = 0"
| "or_zero (Some n) = n"

definition to_uint32 :: "int \<Rightarrow> int" where
  "to_uint32 n = n mod 2 ^ 32"

definition to_int32 :: "int \<Rightarrow> int" where
  "to_int32 n = (n + 2 ^ 31) mod 2 ^ 32 - 2 ^ 31"

fun raw_operands :: "Instruction \<Rightarrow> RawDeviceProfileOp \<Rightarrow> RawDeviceProfileOp" where
  "raw_operands (PWM_SET src channel frequencyHz) r = r\<lparr>rw_srcA := src, rw_imm0 := channel, rw_imm2 := frequencyHz\<rparr>"
| "raw_operands (I2C_WRITE src len timeoutMs) r = r\<lparr>rw_srcA := src, rw_imm0 := len, rw_imm1 := timeoutMs\<rparr>"
| "raw_operands (I2C_READ dst len timeoutMs) r = r\<lparr>rw_dst := dst, rw_imm0 := len, rw_imm1 := timeoutMs\<rparr>"
| "raw_operands (I2C_WRITE_READ src dst readLength writeLength timeoutMs) r =
     r\<lparr>rw_srcA := src, rw_dst := dst, rw_imm0 := readLength, rw_imm1 := writeLength, rw_imm2 := timeoutMs\<rparr>"
| "raw_operands (SPI_TRANSCEIVE src dst len timeoutMs frequencyHz mode) r =
     r\<lparr>rw_srcA := src, rw_dst := dst, rw_imm0 := len, rw_imm1 := timeoutMs, rw_imm2 := frequencyHz, rw_imm3 := mode\<rparr>"
| "raw_operands (UART_WRITE src len timeoutMs) r = r\<lparr>rw_srcA := src, rw_imm0 := len, rw_imm1 := timeoutMs\<rparr>"
| "raw_operands (UART_READ_UNTIL dst maxLength timeoutMs stopByte) r =
     r\<lparr>rw_dst := dst, rw_imm0 := maxLength, rw_imm1 := timeoutMs, rw_imm2 := stopByte\<rparr>"
| "raw_operands (UART_READ dst len timeoutMs) r = r\<lparr>rw_dst := dst, rw_imm0 := len, rw_imm1 := timeoutMs\<rparr>"
| "raw_operands (W1_WRITE_READ src dst readLength writeLength timeoutMs) r =
     r\<lparr>rw_srcA := src, rw_dst := dst, rw_imm0 := readLength, rw_imm1 := writeLength, rw_imm2 := timeoutMs\<rparr>"
| "raw_operands (GPIO_GET dst channel) r = r\<lparr>rw_dst := dst, rw_imm0 := or_zero channel\<rparr>"
| "raw_operands (GPIO_SET v channel) r = r\<lparr>rw_imm0 := flag v, rw_imm1 := or_zero channel\<rparr>"
| "raw_operands (EMIT_DECIMAL src fieldId isText divisor humidity) r =
     r\<lparr>rw_srcA := src, rw_dst := fieldId, rw_imm0 := flag isText, rw_imm1 := or_zero divisor, rw_imm2 := flag humidity\<rparr>"
| "raw_operands (DHT22_POWER dataChannel powerChannel on) r =
     r\<lparr>rw_imm0 := dataChannel, rw_imm1 := powerChannel, rw_imm2 := flag on\<rparr>"
| "raw_operands (DHT22_READ dst humidityDst dataChannel powerChannel dht11 queued) r =
     r\<lparr>rw_dst := dst, rw_srcA := humidityDst, rw_imm0 := dataChannel, rw_imm1 := powerChannel, rw_imm2 := flag queued, rw_imm3 := flag dht11\<rparr>"
| "raw_operands (DS18B20_READ dst channel rawScratchpad) r = r\<lparr>rw_dst := dst, rw_imm0 := channel, rw_imm1 := flag rawScratchpad\<rparr>"
| "raw_operands (DS18B20_SETUP channel on powerChannel externalPower) r =
     r\<lparr>rw_imm0 := channel, rw_imm1 := flag on,
       rw_imm2 := (if externalPower then 5 else case powerChannel of None \<Rightarrow> 0 | Some p \<Rightarrow> p + 1)\<rparr>"
| "raw_operands (RGB_PROGRAM nodeId offset len channels inverted) r =
     r\<lparr>rw_imm0 := offset, rw_imm1 := len, rw_imm2 := channels, rw_imm3 := or_zero nodeId * 2 + flag inverted\<rparr>"
| "raw_operands (STEPPER command channels intervalMs stepsPerRevolution src) r =
     r\<lparr>rw_srcA := src, rw_imm0 := command, rw_imm1 := channels, rw_imm2 := intervalMs, rw_imm3 := stepsPerRevolution\<rparr>"
| "raw_operands (GPIO_PULSE channel milliseconds activeHigh restoreHigh) r =
     r\<lparr>rw_imm0 := channel, rw_imm1 := milliseconds, rw_imm2 := flag activeHigh + (if restoreHigh then 2 else 0)\<rparr>"
| "raw_operands (GPIO_SET_VALUE src channel invert) r = r\<lparr>rw_srcA := src, rw_imm0 := channel, rw_imm1 := flag invert\<rparr>"
| "raw_operands (ADC_READ dst timeoutMs) r = r\<lparr>rw_dst := dst, rw_imm0 := timeoutMs\<rparr>"
| "raw_operands (DELAY_BOUNDED milliseconds) r = r\<lparr>rw_imm0 := milliseconds\<rparr>"
| "raw_operands (WAIT_FIELD_MASK dst src bits expected attempts intervalMs) r =
     r\<lparr>rw_dst := dst, rw_srcA := src, rw_imm0 := attempts, rw_imm1 := intervalMs, rw_imm2 := bits, rw_imm3 := expected\<rparr>"
| "raw_operands (WAIT_GPIO dst attempts intervalMs expectedLevel) r =
     r\<lparr>rw_dst := dst, rw_imm0 := attempts, rw_imm1 := intervalMs, rw_imm2 := expectedLevel\<rparr>"
| "raw_operands (SCALE_PACK src dst flags width divisor multiplier offset) r =
     r\<lparr>rw_dst := dst, rw_srcA := src, rw_srcB := flags, rw_imm0 := width, rw_imm1 := divisor, rw_imm2 := to_uint32 multiplier, rw_imm3 := to_uint32 offset\<rparr>"
| "raw_operands (LOAD_VALUE dst argumentId len littleEndian required low high) r =
     r\<lparr>rw_dst := dst, rw_srcA := argumentId, rw_srcB := flag required, rw_imm0 := len, rw_imm1 := flag littleEndian, rw_imm2 := low, rw_imm3 := high\<rparr>"
| "raw_operands (LOAD_ARGUMENT dst argumentId len littleEndian required low high) r =
     r\<lparr>rw_dst := dst, rw_srcA := argumentId, rw_srcB := flag required, rw_imm0 := len, rw_imm1 := flag littleEndian, rw_imm2 := low, rw_imm3 := high\<rparr>"
| "raw_operands (MESSAGE_LOAD offset len) r = r\<lparr>rw_imm0 := len, rw_imm2 := offset\<rparr>"
| "raw_operands (MESSAGE_PATCH src offset len) r = r\<lparr>rw_srcA := src, rw_imm0 := offset, rw_imm1 := len\<rparr>"
| "raw_operands (I2C_MESSAGE_WRITE len timeoutMs) r = r\<lparr>rw_imm0 := len, rw_imm1 := timeoutMs\<rparr>"
| "raw_operands (LOAD_CONST dst len low high) r = r\<lparr>rw_dst := dst, rw_imm0 := len, rw_imm2 := low, rw_imm3 := high\<rparr>"
| "raw_operands (COPY_BYTES src dst len offset) r = r\<lparr>rw_srcA := src, rw_dst := dst, rw_imm0 := len, rw_imm1 := or_zero offset\<rparr>"
| "raw_operands (CONCAT srcA srcB dst) r = r\<lparr>rw_srcA := srcA, rw_srcB := srcB, rw_dst := dst\<rparr>"
| "raw_operands (BYTE_SWAP src dst width) r = r\<lparr>rw_srcA := src, rw_dst := dst, rw_imm0 := width\<rparr>"
| "raw_operands (MASK src dst bits) r = r\<lparr>rw_srcA := src, rw_dst := dst, rw_imm2 := bits\<rparr>"
| "raw_operands (SHIFT src dst amount direction) r =
     r\<lparr>rw_srcA := src, rw_dst := dst, rw_imm0 := amount, rw_imm1 := (if direction = ShiftLeft then 0 else 1)\<rparr>"
| "raw_operands (SIGN_EXTEND src dst bits) r = r\<lparr>rw_srcA := src, rw_dst := dst, rw_imm0 := bits\<rparr>"
| "raw_operands (CRC8 src dst) r = r\<lparr>rw_srcA := src, rw_dst := dst\<rparr>"
| "raw_operands (CRC16 src dst) r = r\<lparr>rw_srcA := src, rw_dst := dst\<rparr>"
| "raw_operands (EMIT_FIELD src fieldId width byteOrder signExtend multiplier) r =
     r\<lparr>rw_srcA := src, rw_dst := fieldId, rw_imm0 := or_zero width, rw_imm1 := (if byteOrder = Some BigEndian then 1 else 0),
       rw_imm2 := flag signExtend, rw_imm3 := or_zero multiplier\<rparr>"
| "raw_operands EMIT_RECORD r = r"

definition toRawOp :: "Instruction \<Rightarrow> RawDeviceProfileOp" where
  "toRawOp i = raw_operands i (base_op (opcode i))"

section \<open>Reading a raw operation\<close>

record profile_failure =
  pe_code :: jsstr
  pe_path :: "jsstr list"
  pe_target :: jsstr

definition invalidOperand :: "jsstr \<Rightarrow> profile_failure" where
  "invalidOperand target =
     \<lparr>pe_code = js ''device-profile.invalid_raw_operand'', pe_path = [js ''device-profile'', js ''raw-op''], pe_target = target\<rparr>"

definition unknown_opcode :: "int \<Rightarrow> profile_failure" where
  "unknown_opcode code =
     \<lparr>pe_code = js ''device-profile.unknown_opcode'', pe_path = [js ''device-profile'', js ''raw-op''], pe_target = decimal code\<rparr>"

text \<open>\<open>n ? { field: n } : {}\<close>.\<close>

definition nonzero :: "int \<Rightarrow> int option" where
  "nonzero n = (if n = 0 then None else Some n)"

definition fromRawOp :: "RawDeviceProfileOp \<Rightarrow> profile_failure + Instruction" where
  "fromRawOp raw =
     (let code = rw_opcode raw; dst = rw_dst raw; a = rw_srcA raw; b = rw_srcB raw; i0 = rw_imm0 raw; i1 = rw_imm1 raw;
          i2 = rw_imm2 raw; i3 = rw_imm3 raw in
      if code = 1 then Inr (I2C_WRITE a i0 i1)
      else if code = 2 then Inr (I2C_READ dst i0 i1)
      else if code = 3 then Inr (I2C_WRITE_READ a dst i0 i1 i2)
      else if code = 4 then
        (if i3 \<noteq> 0 \<and> i3 \<noteq> 1 \<and> i3 \<noteq> 2 \<and> i3 \<noteq> 3 then Inl (invalidOperand (decimal i3)) else Inr (SPI_TRANSCEIVE a dst i0 i1 i2 i3))
      else if code = 5 then Inr (UART_WRITE a i0 i1)
      else if code = 6 then Inr (UART_READ_UNTIL dst i0 i1 i2)
      else if code = 24 then Inr (UART_READ dst i0 i1)
      else if code = 23 then Inr (W1_WRITE_READ a dst i0 i1 i2)
      else if code = 7 then Inr (GPIO_GET dst (nonzero i0))
      else if code = 8 then Inr (GPIO_SET (i0 \<noteq> 0) (nonzero i1))
      else if code = 38 then Inr (EMIT_DECIMAL a dst (i0 \<noteq> 0) (nonzero i1) (i2 \<noteq> 0))
      else if code = 36 then Inr (DHT22_POWER i0 i1 (i2 \<noteq> 0))
      else if code = 41 then Inr (PWM_SET a i0 i2)
      else if code = 39 then Inr (DS18B20_READ dst i0 (i1 \<noteq> 0))
      else if code = 40 then Inr (DS18B20_SETUP i0 (i1 \<noteq> 0) (if i2 = 5 \<or> i2 = 0 then None else Some (i2 - 1)) (i2 = 5))
      else if code = 37 then Inr (DHT22_READ dst a i0 i1 (i3 \<noteq> 0) (i2 \<noteq> 0))
      else if code = 35 then Inr (RGB_PROGRAM (if i3 > 1 then Some (to_uint32 i3 div 2) else None) i0 i1 i2 (i3 mod 2 \<noteq> 0))
      else if code = 34 then Inr (STEPPER i0 i1 i2 i3 a)
      else if code = 33 then Inr (GPIO_PULSE i0 i1 (i2 mod 2 \<noteq> 0) ((i2 div 2) mod 2 \<noteq> 0))
      else if code = 32 then Inr (GPIO_SET_VALUE a i0 (i1 \<noteq> 0))
      else if code = 9 then Inr (ADC_READ dst i0)
      else if code = 10 then Inr (DELAY_BOUNDED i0)
      else if code = 11 then Inr (WAIT_FIELD_MASK dst a i2 i3 i0 i1)
      else if code = 25 then
        (if i2 \<noteq> 0 \<and> i2 \<noteq> 1 then Inl (invalidOperand (decimal i2)) else Inr (WAIT_GPIO dst i0 i1 i2))
      else if code = 27 then
        (if b > 7 \<or> i0 < 1 \<or> i0 > 8 \<or> i1 < 1 then Inl (invalidOperand (js ''SCALE_PACK''))
         else Inr (SCALE_PACK a dst b i0 i1 (to_int32 i2) (to_int32 i3)))
      else if code = 28 \<or> code = 26 then
        (if a < 1 \<or> a > 8 \<or> b > 1 \<or> i0 < 1 \<or> i0 > 8 \<or> i1 > 1 then Inl (invalidOperand (js ''LOAD_ARGUMENT''))
         else if code = 28 then Inr (LOAD_VALUE dst a i0 (i1 = 1) (b = 1) i2 i3) else Inr (LOAD_ARGUMENT dst a i0 (i1 = 1) (b = 1) i2 i3))
      else if code = 29 then Inr (MESSAGE_LOAD i2 i0)
      else if code = 30 then Inr (MESSAGE_PATCH a i0 i1)
      else if code = 31 then Inr (I2C_MESSAGE_WRITE i0 i1)
      else if code = 12 then Inr (LOAD_CONST dst i0 i2 i3)
      else if code = 13 then Inr (COPY_BYTES a dst i0 (nonzero i1))
      else if code = 14 then Inr (CONCAT a b dst)
      else if code = 15 then
        (if i0 \<noteq> 2 \<and> i0 \<noteq> 4 then Inl (invalidOperand (decimal i0)) else Inr (BYTE_SWAP a dst i0))
      else if code = 16 then Inr (MASK a dst i2)
      else if code = 17 then Inr (SHIFT a dst i0 (if i1 = 0 then ShiftLeft else ShiftRight))
      else if code = 18 then Inr (SIGN_EXTEND a dst i0)
      else if code = 19 then Inr (CRC8 a dst)
      else if code = 20 then Inr (CRC16 a dst)
      else if code = 21 then
        Inr (if i0 = 0 then EMIT_FIELD a dst None None False None
             else EMIT_FIELD a dst (Some i0) (Some (if i1 \<noteq> 0 then BigEndian else LittleEndian)) (i2 \<noteq> 0) (Some i3))
      else if code = 22 then Inr EMIT_RECORD
      else Inl (unknown_opcode code))"

section \<open>Round trips\<close>

text \<open>
  The operands that survive the raw form: absent where they would be written as 0, and in the ranges the reader checks.
\<close>

fun op_ok :: "Instruction \<Rightarrow> bool" where
  "op_ok (SPI_TRANSCEIVE src dst len timeoutMs frequencyHz mode) = (0 \<le> mode \<and> mode \<le> 3)"
| "op_ok (GPIO_GET dst channel) = (channel \<noteq> Some 0)"
| "op_ok (GPIO_SET v channel) = (channel \<noteq> Some 0)"
| "op_ok (EMIT_DECIMAL src fieldId isText divisor humidity) = (divisor \<noteq> Some 0)"
| "op_ok (DS18B20_SETUP channel on powerChannel externalPower) =
     (if externalPower then powerChannel = None else powerChannel \<noteq> Some (- 1) \<and> powerChannel \<noteq> Some 4)"
| "op_ok (RGB_PROGRAM nodeId offset len channels inverted) =
     (case nodeId of None \<Rightarrow> True | Some n \<Rightarrow> 1 \<le> n \<and> n < 2 ^ 31)"
| "op_ok (WAIT_GPIO dst attempts intervalMs expectedLevel) = (expectedLevel = 0 \<or> expectedLevel = 1)"
| "op_ok (SCALE_PACK src dst flags width divisor multiplier offset) =
     (flags \<le> 7 \<and> 1 \<le> width \<and> width \<le> 8 \<and> 1 \<le> divisor \<and> - (2 ^ 31) \<le> multiplier \<and> multiplier < 2 ^ 31 \<and>
      - (2 ^ 31) \<le> offset \<and> offset < 2 ^ 31)"
| "op_ok (LOAD_VALUE dst argumentId len littleEndian required low high) = (1 \<le> argumentId \<and> argumentId \<le> 8 \<and> 1 \<le> len \<and> len \<le> 8)"
| "op_ok (LOAD_ARGUMENT dst argumentId len littleEndian required low high) = (1 \<le> argumentId \<and> argumentId \<le> 8 \<and> 1 \<le> len \<and> len \<le> 8)"
| "op_ok (COPY_BYTES src dst len offset) = (offset \<noteq> Some 0)"
| "op_ok (BYTE_SWAP src dst width) = (width = 2 \<or> width = 4)"
| "op_ok (EMIT_FIELD src fieldId width byteOrder signExtend multiplier) =
     (case width of None \<Rightarrow> byteOrder = None \<and> \<not> signExtend \<and> multiplier = None
                  | Some w \<Rightarrow> w \<noteq> 0 \<and> byteOrder \<noteq> None \<and> multiplier \<noteq> None)"
| "op_ok _ = True"

lemma int32_uint32: "- (2 ^ 31) \<le> n \<Longrightarrow> n < 2 ^ 31 \<Longrightarrow> to_int32 (to_uint32 n) = n"
  by (simp add: to_int32_def to_uint32_def mod_add_left_eq)

lemma uint32_int32: "0 \<le> n \<Longrightarrow> n < 2 ^ 32 \<Longrightarrow> to_uint32 (to_int32 n) = n"
  by (simp add: to_int32_def to_uint32_def mod_diff_left_eq)

lemma int32_range: "- (2 ^ 31) \<le> to_int32 n \<and> to_int32 n < 2 ^ 31"
  by (simp add: to_int32_def)

lemma nonzero_or_zero: "n \<noteq> Some 0 \<Longrightarrow> nonzero (or_zero n) = n"
  by (cases n) (simp_all add: nonzero_def)

lemma raw_opcode [simp]: "rw_opcode (toRawOp i) = opcode i"
  by (cases i) (simp_all add: toRawOp_def base_op_def)

lemma op_roundtrip: "op_ok i \<Longrightarrow> fromRawOp (toRawOp i) = Inr i"
proof (cases i)
  case (RGB_PROGRAM nodeId offset len channels inverted)
  assume "op_ok i"
  with RGB_PROGRAM show ?thesis
    by (cases nodeId) (auto simp: fromRawOp_def toRawOp_def base_op_def to_uint32_def Let_def)
next
  case (EMIT_FIELD src fieldId width byteOrder signExtend multiplier)
  assume "op_ok i"
  moreover have "bo = BigEndian \<or> bo = LittleEndian" for bo by (cases bo) simp_all
  ultimately show ?thesis using EMIT_FIELD
    by (cases width; cases byteOrder; cases multiplier) (auto simp: fromRawOp_def toRawOp_def base_op_def Let_def)
next
  case (DS18B20_SETUP channel on powerChannel externalPower)
  assume "op_ok i"
  with DS18B20_SETUP show ?thesis
    by (cases powerChannel) (auto simp: fromRawOp_def toRawOp_def base_op_def Let_def)
next
  case (SHIFT src dst amount direction)
  then show ?thesis by (cases direction) (simp_all add: fromRawOp_def toRawOp_def base_op_def Let_def)
qed (auto simp: fromRawOp_def toRawOp_def base_op_def Let_def nonzero_or_zero int32_uint32)

text \<open>What is read from words of 32 bits is such an instruction, so writing and reading it again gives it back.\<close>

definition words :: "RawDeviceProfileOp \<Rightarrow> bool" where
  "words raw \<longleftrightarrow> list_all (\<lambda>n. 0 \<le> n \<and> n < 2 ^ 32)
     [rw_opcode raw, rw_dst raw, rw_srcA raw, rw_srcB raw, rw_imm0 raw, rw_imm1 raw, rw_imm2 raw, rw_imm3 raw]"

lemma from_raw_ok: "fromRawOp raw = Inr i \<Longrightarrow> words raw \<Longrightarrow> op_ok i"
  using int32_range
  by (auto simp: fromRawOp_def words_def Let_def nonzero_def to_uint32_def split: if_splits)

lemma raw_reread: "fromRawOp raw = Inr i \<Longrightarrow> words raw \<Longrightarrow> fromRawOp (toRawOp i) = Inr i"
  by (intro op_roundtrip from_raw_ok)

end
