(* ===== verification/ProfileCheck.thy ===== *)
theory ProfileCheck
  imports ProfileOps
begin

text \<open>
  The validator of Device Profile drafts, \<open>device-profile-authoring-model/src/validate-profile.ts\<close>, with the drafts of
  \<open>profile.ts\<close> and \<open>sample-field.ts\<close>. An error has its code, its path and its target; the remediation texts are left out.
\<close>

section \<open>Drafts\<close>

datatype SampleFieldType = FInt64 | FUint64 | FFloat | FText

record SampleField =
  sf_fieldId :: int
  sf_type :: SampleFieldType
  sf_name :: jsstr
  sf_unit :: "jsstr option"

record ProfileAction =
  ac_id :: int
  ac_first :: int
  ac_count :: int

record DeviceProfileDraft =
  dd_messageData :: "int list option"
  dd_actions :: "ProfileAction list option"
  dd_profileId :: jsstr
  dd_version :: int
  dd_transport :: int
  dd_requiredCapabilities :: int
  dd_maxTotalTimeMs :: int
  dd_maxTransactions :: int
  dd_maxBytes :: int
  dd_initOps :: "Instruction list"
  dd_sampleOps :: "Instruction list"
  dd_safeStopOps :: "Instruction list"
  dd_sampleSchemaId :: jsstr
  dd_sampleSchemaVersion :: int
  dd_sampleFields :: "SampleField list"

definition "MAX_TEMP_SLOTS = (8 :: int)"
definition "PROFILE_ID_MAX_LENGTH = (31 :: nat)"
definition "SCHEMA_ID_MAX_LENGTH = (31 :: nat)"
definition "FIELD_NAME_MAX_LENGTH = (23 :: nat)"
definition "UNIT_NAME_MAX_LENGTH = (15 :: nat)"

section \<open>Budgets\<close>

record DeviceProfileBudget =
  dpb_totalTimeMs :: int
  dpb_transactions :: int
  dpb_bytes :: int
  dpb_operations :: int

fun tempSlots :: "Instruction \<Rightarrow> int list" where
  "tempSlots (GPIO_SET_VALUE src channel invert) = [src]"
| "tempSlots (MESSAGE_PATCH src offset len) = [src]"
| "tempSlots (I2C_WRITE src len timeoutMs) = [src]"
| "tempSlots (UART_WRITE src len timeoutMs) = [src]"
| "tempSlots (I2C_READ dst len timeoutMs) = [dst]"
| "tempSlots (GPIO_GET dst channel) = [dst]"
| "tempSlots (ADC_READ dst timeoutMs) = [dst]"
| "tempSlots (UART_READ_UNTIL dst maxLength timeoutMs stopByte) = [dst]"
| "tempSlots (UART_READ dst len timeoutMs) = [dst]"
| "tempSlots (I2C_WRITE_READ src dst readLength writeLength timeoutMs) = [src, dst]"
| "tempSlots (SPI_TRANSCEIVE src dst len timeoutMs frequencyHz mode) = [src, dst]"
| "tempSlots (W1_WRITE_READ src dst readLength writeLength timeoutMs) = [src, dst]"
| "tempSlots (SCALE_PACK src dst flags width divisor multiplier offset) = [src, dst]"
| "tempSlots (COPY_BYTES src dst len offset) = [src, dst]"
| "tempSlots (BYTE_SWAP src dst width) = [src, dst]"
| "tempSlots (MASK src dst bits) = [src, dst]"
| "tempSlots (SHIFT src dst amount direction) = [src, dst]"
| "tempSlots (SIGN_EXTEND src dst bits) = [src, dst]"
| "tempSlots (CRC8 src dst) = [src, dst]"
| "tempSlots (CRC16 src dst) = [src, dst]"
| "tempSlots (WAIT_FIELD_MASK dst src bits expected attempts intervalMs) = [dst, src]"
| "tempSlots (WAIT_GPIO dst attempts intervalMs expectedLevel) = [dst]"
| "tempSlots (LOAD_VALUE dst argumentId len littleEndian required low high) = [dst]"
| "tempSlots (LOAD_ARGUMENT dst argumentId len littleEndian required low high) = [dst]"
| "tempSlots (LOAD_CONST dst len low high) = [dst]"
| "tempSlots (CONCAT srcA srcB dst) = [srcA, srcB, dst]"
| "tempSlots (EMIT_FIELD src fieldId width byteOrder signExtend multiplier) = [src]"
| "tempSlots (EMIT_DECIMAL src fieldId isText divisor humidity) = [src]"
| "tempSlots (DS18B20_READ dst channel rawScratchpad) = [dst]"
| "tempSlots (PWM_SET src channel frequencyHz) = [src]"
| "tempSlots (DHT22_READ dst humidityDst dataChannel powerChannel dht11 queued) = [dst, humidityDst]"
| "tempSlots (STEPPER command channels intervalMs stepsPerRevolution src) = (if command = 2 then [src] else [])"
| "tempSlots _ = []"

fun transactionsFor :: "Instruction \<Rightarrow> int" where
  "transactionsFor (DHT22_READ dst humidityDst dataChannel powerChannel dht11 queued) = 2"
| "transactionsFor (DHT22_POWER dataChannel powerChannel on) = 2"
| "transactionsFor (DS18B20_READ dst channel rawScratchpad) = 1"
| "transactionsFor (DS18B20_SETUP channel on powerChannel externalPower) = 1"
| "transactionsFor (RGB_PROGRAM nodeId offset len channels inverted) = 3"
| "transactionsFor (STEPPER command channels intervalMs stepsPerRevolution src) = 4"
| "transactionsFor (GPIO_PULSE channel milliseconds activeHigh restoreHigh) = 2"
| "transactionsFor (I2C_MESSAGE_WRITE len timeoutMs) = 1"
| "transactionsFor (I2C_WRITE src len timeoutMs) = 1"
| "transactionsFor (I2C_READ dst len timeoutMs) = 1"
| "transactionsFor (I2C_WRITE_READ src dst readLength writeLength timeoutMs) = 1"
| "transactionsFor (SPI_TRANSCEIVE src dst len timeoutMs frequencyHz mode) = 1"
| "transactionsFor (UART_WRITE src len timeoutMs) = 1"
| "transactionsFor (UART_READ_UNTIL dst maxLength timeoutMs stopByte) = 1"
| "transactionsFor (UART_READ dst len timeoutMs) = 1"
| "transactionsFor (PWM_SET src channel frequencyHz) = 1"
| "transactionsFor (GPIO_GET dst channel) = 1"
| "transactionsFor (GPIO_SET v channel) = 1"
| "transactionsFor (GPIO_SET_VALUE src channel invert) = 1"
| "transactionsFor (ADC_READ dst timeoutMs) = 1"
| "transactionsFor (WAIT_FIELD_MASK dst src bits expected attempts intervalMs) = attempts"
| "transactionsFor (WAIT_GPIO dst attempts intervalMs expectedLevel) = attempts"
| "transactionsFor (W1_WRITE_READ src dst readLength writeLength timeoutMs) = 1"
| "transactionsFor _ = 0"

fun bytesFor :: "Instruction \<Rightarrow> int" where
  "bytesFor (I2C_MESSAGE_WRITE len timeoutMs) = len"
| "bytesFor (I2C_WRITE src len timeoutMs) = len"
| "bytesFor (I2C_READ dst len timeoutMs) = len"
| "bytesFor (SPI_TRANSCEIVE src dst len timeoutMs frequencyHz mode) = len"
| "bytesFor (UART_WRITE src len timeoutMs) = len"
| "bytesFor (I2C_WRITE_READ src dst readLength writeLength timeoutMs) = readLength + (if writeLength \<noteq> 0 then writeLength else 1)"
| "bytesFor (W1_WRITE_READ src dst readLength writeLength timeoutMs) = readLength + (if writeLength \<noteq> 0 then writeLength else 1)"
| "bytesFor (UART_READ_UNTIL dst maxLength timeoutMs stopByte) = maxLength"
| "bytesFor (UART_READ dst len timeoutMs) = len"
| "bytesFor (WAIT_FIELD_MASK dst src bits expected attempts intervalMs) = attempts * 2"
| "bytesFor _ = 0"

fun timeFor :: "Instruction \<Rightarrow> int" where
  "timeFor (DHT22_READ dst humidityDst dataChannel powerChannel dht11 queued) = (if dht11 then 32 else 12)"
| "timeFor (DS18B20_READ dst channel rawScratchpad) = 20"
| "timeFor (I2C_MESSAGE_WRITE len timeoutMs) = timeoutMs"
| "timeFor (I2C_WRITE src len timeoutMs) = timeoutMs"
| "timeFor (I2C_READ dst len timeoutMs) = timeoutMs"
| "timeFor (SPI_TRANSCEIVE src dst len timeoutMs frequencyHz mode) = timeoutMs"
| "timeFor (UART_WRITE src len timeoutMs) = timeoutMs"
| "timeFor (UART_READ_UNTIL dst maxLength timeoutMs stopByte) = timeoutMs"
| "timeFor (UART_READ dst len timeoutMs) = timeoutMs"
| "timeFor (I2C_WRITE_READ src dst readLength writeLength timeoutMs) = min timeoutMs 0xffff"
| "timeFor (W1_WRITE_READ src dst readLength writeLength timeoutMs) = min timeoutMs 0xffff"
| "timeFor (ADC_READ dst timeoutMs) = timeoutMs"
| "timeFor (DELAY_BOUNDED milliseconds) = milliseconds"
| "timeFor (WAIT_FIELD_MASK dst src bits expected attempts intervalMs) = attempts * intervalMs"
| "timeFor (WAIT_GPIO dst attempts intervalMs expectedLevel) = attempts * intervalMs"
| "timeFor _ = 0"

definition allOps :: "DeviceProfileDraft \<Rightarrow> Instruction list" where
  "allOps d = dd_initOps d @ dd_sampleOps d @ dd_safeStopOps d"

definition computeBudget :: "DeviceProfileDraft \<Rightarrow> DeviceProfileBudget" where
  "computeBudget d =
     \<lparr>dpb_totalTimeMs = sum_list (map timeFor (allOps d)), dpb_transactions = sum_list (map transactionsFor (allOps d)),
      dpb_bytes = sum_list (map bytesFor (allOps d)), dpb_operations = int (length (allOps d))\<rparr>"

section \<open>One instruction\<close>

text \<open>Two bits of a channel mask.\<close>

definition channel_at :: "int \<Rightarrow> nat \<Rightarrow> int" where
  "channel_at channels i = (channels div 4 ^ i) mod 4"

definition out_of :: "int \<Rightarrow> int \<Rightarrow> int \<Rightarrow> bool" where
  "out_of low high n \<longleftrightarrow> n < low \<or> n > high"

text \<open>The target of the structural error, if there is one.\<close>

fun structuralError :: "Instruction \<Rightarrow> jsstr option" where
  "structuralError (PWM_SET src channel frequencyHz) =
     (if out_of 0 3 channel \<or> out_of 0 1000000 frequencyHz then Some (js ''PWM_SET'') else None)"
| "structuralError (DS18B20_SETUP channel on powerChannel externalPower) =
     (if out_of 0 3 channel \<or> (externalPower \<and> powerChannel \<noteq> None) \<or>
       (case powerChannel of None \<Rightarrow> False | Some p \<Rightarrow> out_of 0 3 p \<or> p = channel)
      then Some (js ''DS18B20_SETUP'') else None)"
| "structuralError (DS18B20_READ dst channel rawScratchpad) = (if out_of 0 3 channel then Some (js ''DS18B20_READ'') else None)"
| "structuralError (DHT22_POWER dataChannel powerChannel on) =
     (if out_of 0 3 dataChannel \<or> out_of 0 3 powerChannel \<or> dataChannel = powerChannel then Some (js ''DHT22_POWER'') else None)"
| "structuralError (DHT22_READ dst humidityDst dataChannel powerChannel dht11 queued) =
     (if out_of 0 3 dataChannel \<or> out_of 0 3 powerChannel \<or> dataChannel = powerChannel \<or> dst = humidityDst
      then Some (js ''DHT22_READ'') else None)"
| "structuralError (RGB_PROGRAM nodeId offset len channels inverted) =
     (if (case nodeId of None \<Rightarrow> False | Some n \<Rightarrow> out_of 1 0xffffff n) \<or> offset < 0 \<or> len < 6 \<or> len > 96 \<or> len mod 6 \<noteq> 0 \<or>
       out_of 0 63 channels \<or> card {channel_at channels 0, channel_at channels 1, channel_at channels 2} \<noteq> 3
      then Some (js ''RGB_PROGRAM'') else None)"
| "structuralError (STEPPER command channels intervalMs stepsPerRevolution src) =
     (if out_of 0 2 command \<or> out_of 0 255 channels \<or>
       card {channel_at channels 0, channel_at channels 1, channel_at channels 2, channel_at channels 3} \<noteq> 4 \<or>
       out_of 2 100 intervalMs \<or> out_of 8 16384 stepsPerRevolution
      then Some (js ''STEPPER'') else None)"
| "structuralError (GPIO_PULSE channel milliseconds activeHigh restoreHigh) =
     (if out_of 0 3 channel \<or> out_of 1 60000 milliseconds then Some (js ''GPIO_PULSE'') else None)"
| "structuralError (GPIO_GET dst channel) = (if out_of 0 3 (or_zero channel) then Some (js ''GPIO channel'') else None)"
| "structuralError (GPIO_SET v channel) = (if out_of 0 3 (or_zero channel) then Some (js ''GPIO channel'') else None)"
| "structuralError (GPIO_SET_VALUE src channel invert) = (if out_of 0 3 channel then Some (js ''GPIO channel'') else None)"
| "structuralError (UART_READ_UNTIL dst maxLength timeoutMs stopByte) = (if maxLength = 0 then Some (js ''maxLength'') else None)"
| "structuralError (I2C_READ dst len timeoutMs) = (if len = 0 then Some (js ''length'') else None)"
| "structuralError (UART_READ dst len timeoutMs) = (if len = 0 then Some (js ''length'') else None)"
| "structuralError (SPI_TRANSCEIVE src dst len timeoutMs frequencyHz mode) =
     (if len = 0 then Some (js ''length'') else if out_of 0 3 mode then Some (js ''mode'') else None)"
| "structuralError (I2C_WRITE_READ src dst readLength writeLength timeoutMs) = (if readLength = 0 then Some (js ''readLength'') else None)"
| "structuralError (SCALE_PACK src dst flags width divisor multiplier offset) =
     (if flags > 7 \<or> width < 1 \<or> width > 8 \<or> divisor < 1 then Some (js ''SCALE_PACK'') else None)"
| "structuralError (LOAD_VALUE dst argumentId len littleEndian required low high) =
     (if out_of 1 8 argumentId \<or> out_of 1 8 len then Some (js ''LOAD_ARGUMENT'') else None)"
| "structuralError (LOAD_ARGUMENT dst argumentId len littleEndian required low high) =
     (if out_of 1 8 argumentId \<or> out_of 1 8 len then Some (js ''LOAD_ARGUMENT'') else None)"
| "structuralError (LOAD_CONST dst len low high) = (if out_of 1 8 len then Some (js ''length'') else None)"
| "structuralError _ = None"

fun waits :: "Instruction \<Rightarrow> int option" where
  "waits (WAIT_FIELD_MASK dst src bits expected attempts intervalMs) = Some attempts"
| "waits (WAIT_GPIO dst attempts intervalMs expectedLevel) = Some attempts"
| "waits _ = None"

fun emits :: "Instruction \<Rightarrow> int option" where
  "emits (EMIT_FIELD src fieldId width byteOrder signExtend multiplier) = Some fieldId"
| "emits (EMIT_DECIMAL src fieldId isText divisor humidity) = Some fieldId"
| "emits _ = None"

fun op_name :: "Instruction \<Rightarrow> string" where
  "op_name (PWM_SET src channel frequencyHz) = ''PWM_SET''"
| "op_name (DS18B20_SETUP channel on powerChannel externalPower) = ''DS18B20_SETUP''"
| "op_name (DS18B20_READ dst channel rawScratchpad) = ''DS18B20_READ''"
| "op_name (EMIT_DECIMAL src fieldId isText divisor humidity) = ''EMIT_DECIMAL''"
| "op_name (DHT22_POWER dataChannel powerChannel on) = ''DHT22_POWER''"
| "op_name (DHT22_READ dst humidityDst dataChannel powerChannel dht11 queued) = ''DHT22_READ''"
| "op_name (RGB_PROGRAM nodeId offset len channels inverted) = ''RGB_PROGRAM''"
| "op_name (STEPPER command channels intervalMs stepsPerRevolution src) = ''STEPPER''"
| "op_name (MESSAGE_LOAD offset len) = ''MESSAGE_LOAD''"
| "op_name (MESSAGE_PATCH src offset len) = ''MESSAGE_PATCH''"
| "op_name (I2C_MESSAGE_WRITE len timeoutMs) = ''I2C_MESSAGE_WRITE''"
| "op_name (SCALE_PACK src dst flags width divisor multiplier offset) = ''SCALE_PACK''"
| "op_name (LOAD_ARGUMENT dst argumentId len littleEndian required low high) = ''LOAD_ARGUMENT''"
| "op_name (LOAD_VALUE dst argumentId len littleEndian required low high) = ''LOAD_VALUE''"
| "op_name (I2C_WRITE src len timeoutMs) = ''I2C_WRITE''"
| "op_name (I2C_READ dst len timeoutMs) = ''I2C_READ''"
| "op_name (I2C_WRITE_READ src dst readLength writeLength timeoutMs) = ''I2C_WRITE_READ''"
| "op_name (SPI_TRANSCEIVE src dst len timeoutMs frequencyHz mode) = ''SPI_TRANSCEIVE''"
| "op_name (UART_WRITE src len timeoutMs) = ''UART_WRITE''"
| "op_name (UART_READ_UNTIL dst maxLength timeoutMs stopByte) = ''UART_READ_UNTIL''"
| "op_name (UART_READ dst len timeoutMs) = ''UART_READ''"
| "op_name (GPIO_PULSE channel milliseconds activeHigh restoreHigh) = ''GPIO_PULSE''"
| "op_name (GPIO_GET dst channel) = ''GPIO_GET''"
| "op_name (GPIO_SET v channel) = ''GPIO_SET''"
| "op_name (GPIO_SET_VALUE src channel invert) = ''GPIO_SET_VALUE''"
| "op_name (ADC_READ dst timeoutMs) = ''ADC_READ''"
| "op_name (DELAY_BOUNDED milliseconds) = ''DELAY_BOUNDED''"
| "op_name (WAIT_FIELD_MASK dst src bits expected attempts intervalMs) = ''WAIT_FIELD_MASK''"
| "op_name (WAIT_GPIO dst attempts intervalMs expectedLevel) = ''WAIT_GPIO''"
| "op_name (W1_WRITE_READ src dst readLength writeLength timeoutMs) = ''W1_WRITE_READ''"
| "op_name (LOAD_CONST dst len low high) = ''LOAD_CONST''"
| "op_name (COPY_BYTES src dst len offset) = ''COPY_BYTES''"
| "op_name (CONCAT srcA srcB dst) = ''CONCAT''"
| "op_name (BYTE_SWAP src dst width) = ''BYTE_SWAP''"
| "op_name (MASK src dst bits) = ''MASK''"
| "op_name (SHIFT src dst amount direction) = ''SHIFT''"
| "op_name (SIGN_EXTEND src dst bits) = ''SIGN_EXTEND''"
| "op_name (CRC8 src dst) = ''CRC8''"
| "op_name (CRC16 src dst) = ''CRC16''"
| "op_name (EMIT_FIELD src fieldId width byteOrder signExtend multiplier) = ''EMIT_FIELD''"
| "op_name EMIT_RECORD = ''EMIT_RECORD''"

section \<open>Plans\<close>

definition profile_error :: "string \<Rightarrow> jsstr list \<Rightarrow> jsstr \<Rightarrow> profile_failure" where
  "profile_error code path target = \<lparr>pe_code = js (''device-profile.'' @ code), pe_path = js ''device-profile'' # path, pe_target = target\<rparr>"

definition LOGICAL_FORBIDDEN :: "int list" where
  "LOGICAL_FORBIDDEN = [11, 23, 24, 25, 31, 32, 33, 34, 35]"

definition data_length :: "DeviceProfileDraft \<Rightarrow> int" where
  "data_length d = (case dd_messageData d of None \<Rightarrow> 0 | Some bs \<Rightarrow> int (length bs))"

text \<open>What a message operation does to the loaded length, and whether it is an error.\<close>

fun message_turn :: "DeviceProfileDraft \<Rightarrow> int \<Rightarrow> Instruction \<Rightarrow> int \<times> bool" where
  "message_turn d loaded (RGB_PROGRAM nodeId offset len channels inverted) =
     (loaded, offset + len > data_length d \<or> dd_transport d \<noteq> 3)"
| "message_turn d loaded (MESSAGE_LOAD offset len) =
     (len, offset < 0 \<or> len < 1 \<or> len > 2048 \<or> offset + len > data_length d)"
| "message_turn d loaded (MESSAGE_PATCH src offset len) =
     (loaded, offset < 0 \<or> len < 1 \<or> len > 32 \<or> offset + len > loaded)"
| "message_turn d loaded (I2C_MESSAGE_WRITE len timeoutMs) =
     (0, dd_transport d \<noteq> 0 \<or> len < 1 \<or> len \<noteq> loaded \<or> timeoutMs < 1 \<or> timeoutMs > 65535)"
| "message_turn d loaded _ = (loaded, False)"

definition op_path :: "string \<Rightarrow> nat \<Rightarrow> jsstr list" where
  "op_path plan n = [js plan, decimal (int n)]"

definition op_errors :: "DeviceProfileDraft \<Rightarrow> jsstr list \<Rightarrow> bool \<Rightarrow> Instruction \<Rightarrow> profile_failure list" where
  "op_errors d path messageError i =
     (if dd_transport d = 6 \<and> (opcode i \<le> 9 \<or> opcode i \<in> set LOGICAL_FORBIDDEN)
      then [profile_error ''temp_slot_out_of_range'' path (js (op_name i))] else []) @
     (if messageError then [profile_error ''temp_slot_out_of_range'' path (js (op_name i))] else []) @
     map (\<lambda>slot. profile_error ''temp_slot_out_of_range'' path (decimal slot)) (filter (\<lambda>slot. slot < 0 \<or> slot \<ge> MAX_TEMP_SLOTS) (tempSlots i)) @
     (case waits i of None \<Rightarrow> [] | Some attempts \<Rightarrow> if attempts \<le> 0 then [profile_error ''unbounded_wait'' path (js ''attempts'')] else []) @
     (case structuralError i of None \<Rightarrow> [] | Some target \<Rightarrow> [profile_error ''temp_slot_out_of_range'' path target])"

fun plan_errors :: "DeviceProfileDraft \<Rightarrow> string \<Rightarrow> nat \<Rightarrow> int \<Rightarrow> Instruction list \<Rightarrow> profile_failure list" where
  "plan_errors d plan n loaded [] = []"
| "plan_errors d plan n loaded (i # is) =
     (case message_turn d loaded i of
        (loaded', wrong) \<Rightarrow> op_errors d (op_path plan n) wrong i @ plan_errors d plan (Suc n) loaded' is)"

definition emitted :: "DeviceProfileDraft \<Rightarrow> int list" where
  "emitted d = rev (remdups (rev (concat (map (\<lambda>i. case emits i of None \<Rightarrow> [] | Some f \<Rightarrow> [f]) (allOps d)))))"

section \<open>Fields, actions and the budget\<close>

fun is_rgb :: "Instruction \<Rightarrow> bool" where
  "is_rgb (RGB_PROGRAM nodeId offset len channels inverted) = True" | "is_rgb _ = False"
fun is_stepper :: "Instruction \<Rightarrow> bool" where
  "is_stepper (STEPPER command channels intervalMs stepsPerRevolution src) = True" | "is_stepper _ = False"
fun is_load_argument :: "Instruction \<Rightarrow> bool" where
  "is_load_argument (LOAD_ARGUMENT dst argumentId len littleEndian required low high) = True" | "is_load_argument _ = False"

definition produced_otherwise :: "DeviceProfileDraft \<Rightarrow> SampleField \<Rightarrow> bool" where
  "produced_otherwise d f \<longleftrightarrow>
     ((sf_fieldId f = 65531 \<or> sf_fieldId f = 65532) \<and> sf_type f = FUint64 \<and> list_ex is_rgb (dd_sampleOps d)) \<or>
     (sf_fieldId f = 65534 \<and> sf_type f = FUint64 \<and> sf_name f = js ''movement_completed'' \<and> list_ex is_stepper (dd_sampleOps d))"

definition field_errors :: "DeviceProfileDraft \<Rightarrow> SampleField list \<Rightarrow> nat \<Rightarrow> SampleField \<Rightarrow> profile_failure list" where
  "field_errors d before n f =
     (let path = op_path ''sampleFields'' n in
      (if sf_fieldId f \<in> set (map sf_fieldId before) then [profile_error ''duplicate_field_id'' path (decimal (sf_fieldId f))] else []) @
      (if sf_name f \<in> set (map sf_name before) then [profile_error ''duplicate_field_name'' path (sf_name f)] else []) @
      (if sf_name f = [] \<or> length (sf_name f) > FIELD_NAME_MAX_LENGTH then [profile_error ''field_name_too_long'' path (sf_name f)] else []) @
      (case sf_unit f of None \<Rightarrow> [] | Some u \<Rightarrow> if length u > UNIT_NAME_MAX_LENGTH then [profile_error ''unit_name_too_long'' path u] else []) @
      (if sf_fieldId f \<notin> set (emitted d) \<and> \<not> produced_otherwise d f
       then [profile_error ''unemitted_field'' path (decimal (sf_fieldId f))] else []))"

fun all_field_errors :: "DeviceProfileDraft \<Rightarrow> SampleField list \<Rightarrow> SampleField list \<Rightarrow> profile_failure list" where
  "all_field_errors d before [] = []"
| "all_field_errors d before (f # fs) = field_errors d before (length before) f @ all_field_errors d (before @ [f]) fs"

definition unknown_fields :: "DeviceProfileDraft \<Rightarrow> profile_failure list" where
  "unknown_fields d =
     map (\<lambda>f. profile_error ''unknown_emitted_field'' [js ''sampleOps''] (decimal f))
       (filter (\<lambda>f. f \<notin> set (map sf_fieldId (dd_sampleFields d))) (emitted d))"

text \<open>The actions cover the sample operations from \<open>next\<close> on; \<open>ids\<close> are those of the actions before.\<close>

fun actions_cover :: "Instruction list \<Rightarrow> int list \<Rightarrow> int \<Rightarrow> ProfileAction list \<Rightarrow> bool" where
  "actions_cover sample ids n [] \<longleftrightarrow> n = int (length sample)"
| "actions_cover sample ids n (a # as) \<longleftrightarrow>
     1 \<le> ac_id a \<and> ac_id a \<le> 8 \<and> ac_id a \<notin> set ids \<and> ac_first a = n \<and> ac_count a > 0 \<and>
     ac_first a + ac_count a \<le> int (length sample) \<and> sample ! nat (ac_first a + ac_count a - 1) = EMIT_RECORD \<and>
     actions_cover sample (ids @ [ac_id a]) (n + ac_count a) as"

definition action_errors :: "DeviceProfileDraft \<Rightarrow> profile_failure list" where
  "action_errors d =
     (case dd_actions d of
        None \<Rightarrow> []
      | Some as \<Rightarrow>
          if as \<noteq> [] \<and> length as \<le> 8 \<and> actions_cover (dd_sampleOps d) [] 0 as \<and>
             \<not> list_ex is_load_argument (dd_initOps d @ dd_safeStopOps d) then []
          else [profile_error ''invalid_raw_operand'' [js ''actions''] (js ''actions'')])"

definition budget_errors_of :: "DeviceProfileDraft \<Rightarrow> int option \<Rightarrow> DeviceProfileBudget \<Rightarrow> profile_failure list" where
  "budget_errors_of d maxOperationCount b =
     (if dpb_totalTimeMs b > dd_maxTotalTimeMs d then [profile_error ''time_budget_exceeded'' [js ''maxTotalTimeMs''] (decimal (dpb_totalTimeMs b))] else []) @
     (if dpb_transactions b > dd_maxTransactions d then [profile_error ''transaction_budget_exceeded'' [js ''maxTransactions''] (decimal (dpb_transactions b))] else []) @
     (if dpb_bytes b > dd_maxBytes d then [profile_error ''byte_budget_exceeded'' [js ''maxBytes''] (decimal (dpb_bytes b))] else []) @
     (case maxOperationCount of None \<Rightarrow> [] | Some m \<Rightarrow>
        if dpb_operations b > m then [profile_error ''operation_count_exceeded'' [js ''operations''] (decimal (dpb_operations b))] else [])"

definition head_errors :: "DeviceProfileDraft \<Rightarrow> profile_failure list" where
  "head_errors d =
     (case dd_messageData d of None \<Rightarrow> [] | Some bs \<Rightarrow>
        if length bs > 3072 \<or> list_ex (\<lambda>b. b < 0 \<or> b > 255) bs then [profile_error ''byte_budget_exceeded'' [js ''messageData''] (js ''bytes'')] else []) @
     (if dd_profileId d = [] \<or> length (dd_profileId d) > PROFILE_ID_MAX_LENGTH
      then [profile_error ''invalid_profile_id'' [js ''profileId''] (dd_profileId d)] else []) @
     (if (dd_sampleFields d \<noteq> [] \<or> (case dd_actions d of None \<Rightarrow> False | Some as \<Rightarrow> as \<noteq> [])) \<and>
        (dd_sampleSchemaId d = [] \<or> length (dd_sampleSchemaId d) > SCHEMA_ID_MAX_LENGTH)
      then [profile_error ''invalid_schema_id'' [js ''sampleSchemaId''] (dd_sampleSchemaId d)] else [])"

definition draft_errors :: "DeviceProfileDraft \<Rightarrow> int option \<Rightarrow> profile_failure list" where
  "draft_errors d maxOperationCount =
     head_errors d @ plan_errors d ''initOps'' 0 0 (dd_initOps d) @ plan_errors d ''sampleOps'' 0 0 (dd_sampleOps d) @
     plan_errors d ''safeStopOps'' 0 0 (dd_safeStopOps d) @ all_field_errors d [] (dd_sampleFields d) @ unknown_fields d @
     action_errors d @ budget_errors_of d maxOperationCount (computeBudget d)"

definition validateProfileDraft :: "DeviceProfileDraft \<Rightarrow> int option \<Rightarrow> profile_failure list + DeviceProfileBudget" where
  "validateProfileDraft d maxOperationCount =
     (if draft_errors d maxOperationCount \<noteq> [] then Inl (draft_errors d maxOperationCount) else Inr (computeBudget d))"

end
