(* ===== verification/FirmwareBudget.thy ===== *)
theory FirmwareBudget
  imports ProfileCheck "HOL-Library.Word"
begin

text \<open>
  The check and the budget of one raw operation in the firmware of the Core,
  \<open>firmware/backbone/subsys/device_profiles/device_profile.c\<close>, which the editor's validator mirrors. The configuration
  constants \<open>SPAGHETTI_VALUE_BYTES_MAX\<close> and \<open>SPAGHETTI_PROPERTY_MAX_FIELDS\<close> are the parameters \<open>vmax\<close> and \<open>pmax\<close>; a
  rejected operation is \<open>None\<close>.
\<close>

unbundle bit_operations_syntax

section \<open>The firmware\<close>

text \<open>The widths of \<open>struct spaghetti_device_profile_op\<close>, which \<open>decode_op\<close> checks.\<close>

definition raw_in_struct :: "RawDeviceProfileOp \<Rightarrow> bool" where
  "raw_in_struct r \<longleftrightarrow>
     list_all (\<lambda>n. 0 \<le> n \<and> n < 2 ^ 8) [rw_opcode r, rw_dst r, rw_srcA r, rw_srcB r] \<and>
     list_all (\<lambda>n. 0 \<le> n \<and> n < 2 ^ 16) [rw_imm0 r, rw_imm1 r] \<and> list_all (\<lambda>n. 0 \<le> n \<and> n < 2 ^ 32) [rw_imm2 r, rw_imm3 r]"

definition temp_ok :: "int \<Rightarrow> bool" where
  "temp_ok slot \<longleftrightarrow> slot < 8"

definition stepper_mask :: "int \<Rightarrow> int" where
  "stepper_mask channels = fold (\<lambda>i m. m OR 2 ^ nat (channels div 4 ^ i mod 4)) [0, 1, 2, 3] 0"

text \<open>Time, transactions and bytes of one operation.\<close>

definition op_cost :: "int \<Rightarrow> int \<Rightarrow> RawDeviceProfileOp \<Rightarrow> (int \<times> int \<times> int) option" where
  "op_cost vmax pmax op =
     (let code = rw_opcode op; dst = rw_dst op; a = rw_srcA op; b = rw_srcB op; i0 = rw_imm0 op; i1 = rw_imm1 op; i2 = rw_imm2 op; i3 = rw_imm3 op in
      if code = 29 then (if i0 = 0 \<or> i0 > 2048 then None else Some (0, 0, 0))
      else if code = 30 then (if \<not> temp_ok a \<or> i1 = 0 \<or> i1 > vmax \<or> i0 + i1 > 2048 then None else Some (0, 0, 0))
      else if code = 31 then (if i0 = 0 \<or> i0 > 2048 \<or> i1 = 0 then None else Some (i1, 1, i0))
      else if code = 1 then (if \<not> temp_ok a then None else Some (i1, 1, i0))
      else if code = 2 then (if \<not> temp_ok dst \<or> i0 = 0 \<or> i0 > vmax then None else Some (i1, 1, i0))
      else if code = 3 then
        (if \<not> temp_ok a \<or> \<not> temp_ok dst \<or> i0 = 0 \<or> i0 > vmax then None
         else Some (if i2 > 0xffff then 0xffff else i2, 1, i0 + (if i1 \<noteq> 0 then i1 else 1)))
      else if code = 4 then
        (if \<not> temp_ok a \<or> \<not> temp_ok dst \<or> i0 = 0 \<or> i0 > vmax \<or> i3 > 3 then None else Some (i1, 1, i0))
      else if code = 5 then (if \<not> temp_ok a then None else Some (i1, 1, i0))
      else if code = 6 \<or> code = 24 then (if \<not> temp_ok dst \<or> i0 = 0 \<or> i0 > vmax then None else Some (i1, 1, i0))
      else if code = 23 then
        (if \<not> temp_ok a \<or> \<not> temp_ok dst \<or> i0 > vmax then None
         else Some (if i2 > 0xffff then 0xffff else i2, 1, i0 + (if i1 \<noteq> 0 then i1 else 1)))
      else if code = 41 then (if \<not> temp_ok a \<or> i0 > 3 \<or> i2 > 1000000 then None else Some (0, 1, 0))
      else if code = 7 then (if \<not> temp_ok dst \<or> i0 > 3 then None else Some (0, 1, 0))
      else if code = 8 then (if i0 > 1 \<or> i1 > 3 then None else Some (0, 1, 0))
      else if code = 40 \<or> code = 39 then
        (if i0 > 3 \<or> (code = 39 \<and> (\<not> temp_ok dst \<or> i1 > 1)) \<or>
           (code = 40 \<and> (i1 > 1 \<or> i2 > 5 \<or> (i2 \<noteq> 0 \<and> i2 < 5 \<and> i2 - 1 = i0))) then None
         else Some (if code = 39 then 20 else 0, 1, 0))
      else if code = 36 \<or> code = 37 then
        (if i0 > 3 \<or> i1 > 3 \<or> i0 = i1 \<or> (code = 36 \<and> i2 > 1) \<or>
           (code = 37 \<and> (i3 > 1 \<or> \<not> temp_ok dst \<or> \<not> temp_ok a \<or> dst = a)) then None
         else Some (if code = 37 then (if i3 \<noteq> 0 then 32 else 12) else 0, 2, 0))
      else if code = 35 then
        (if i1 = 0 \<or> i1 > 96 \<or> i1 mod 6 \<noteq> 0 \<or> i2 > 63 \<or> i3 > 0x1ffffff \<or> i2 mod 4 = i2 div 4 mod 4 \<or>
           i2 mod 4 = i2 div 16 mod 4 \<or> i2 div 4 mod 4 = i2 div 16 mod 4 then None else Some (0, 3, 0))
      else if code = 34 then
        (if i0 > 2 \<or> i1 > 255 \<or> i2 < 2 \<or> i2 > 100 \<or> i3 < 8 \<or> i3 > 16384 \<or> (i0 = 2 \<and> \<not> temp_ok a) \<or> stepper_mask i1 \<noteq> 15
         then None else Some (0, 4, 0))
      else if code = 33 then (if i0 > 3 \<or> i1 = 0 \<or> i1 > 60000 \<or> i2 > 3 then None else Some (0, 2, 0))
      else if code = 32 then (if \<not> temp_ok a \<or> i0 > 3 \<or> i1 > 1 then None else Some (0, 1, 0))
      else if code = 9 then (if \<not> temp_ok dst then None else Some (i0, 1, 0))
      else if code = 10 then Some (i0, 0, 0)
      else if code = 11 then (if \<not> temp_ok dst \<or> i0 = 0 then None else Some (i0 * i1, i0, i0 * 2))
      else if code = 25 then (if \<not> temp_ok dst \<or> i0 = 0 \<or> i2 > 1 then None else Some (i0 * i1, i0, 0))
      else if code = 27 then
        (if \<not> temp_ok dst \<or> \<not> temp_ok a \<or> b > 7 \<or> i0 < 1 \<or> i0 > 8 \<or> i1 = 0 then None else Some (0, 0, 0))
      else if code = 28 \<or> code = 26 then
        (if \<not> temp_ok dst \<or> a = 0 \<or> a > pmax \<or> b > 1 \<or> i0 = 0 \<or> i0 > 8 \<or> i1 > 1 then None else Some (0, 0, 0))
      else if code = 12 then (if \<not> temp_ok dst \<or> i0 = 0 \<or> i0 > 8 then None else Some (0, 0, 0))
      else if code = 13 then (if \<not> temp_ok dst \<or> \<not> temp_ok a \<or> i1 > 8 then None else Some (0, 0, 0))
      else if code = 14 then (if \<not> temp_ok dst \<or> \<not> temp_ok a \<or> \<not> temp_ok b then None else Some (0, 0, 0))
      else if code = 15 then (if \<not> temp_ok dst \<or> \<not> temp_ok a \<or> (i0 \<noteq> 2 \<and> i0 \<noteq> 4) then None else Some (0, 0, 0))
      else if 16 \<le> code \<and> code \<le> 20 then (if \<not> temp_ok dst \<or> \<not> temp_ok a then None else Some (0, 0, 0))
      else if code = 21 \<or> code = 38 then
        (if code = 38 \<and> (i0 > 1 \<or> (i1 \<noteq> 0 \<and> i1 \<noteq> 10 \<and> i1 \<noteq> 16) \<or> i2 > 1) then None
         else if \<not> temp_ok a \<or> dst = 0 then None else Some (0, 0, 0))
      else if code = 22 then Some (0, 0, 0)
      else None)"

definition UINT32_MAX :: int where
  "UINT32_MAX = 2 ^ 32 - 1"

definition accumulate_op_budget :: "int \<Rightarrow> int \<Rightarrow> RawDeviceProfileOp \<Rightarrow> DeviceProfileBudget \<Rightarrow> DeviceProfileBudget option" where
  "accumulate_op_budget vmax pmax op budget =
     (case op_cost vmax pmax op of
        None \<Rightarrow> None
      | Some (time, transactions, bytes) \<Rightarrow>
          if dpb_totalTimeMs budget > UINT32_MAX - time \<or> dpb_transactions budget > UINT32_MAX - transactions \<or>
             dpb_bytes budget > UINT32_MAX - bytes then None
          else Some \<lparr>dpb_totalTimeMs = dpb_totalTimeMs budget + time, dpb_transactions = dpb_transactions budget + transactions,
                     dpb_bytes = dpb_bytes budget + bytes, dpb_operations = dpb_operations budget + 1\<rparr>)"

fun accumulate_ops :: "int \<Rightarrow> int \<Rightarrow> RawDeviceProfileOp list \<Rightarrow> DeviceProfileBudget \<Rightarrow> DeviceProfileBudget option" where
  "accumulate_ops vmax pmax [] budget = Some budget"
| "accumulate_ops vmax pmax (op # ops) budget =
     (case accumulate_op_budget vmax pmax op budget of None \<Rightarrow> None | Some b \<Rightarrow> accumulate_ops vmax pmax ops b)"

definition no_budget :: DeviceProfileBudget where
  "no_budget = \<lparr>dpb_totalTimeMs = 0, dpb_transactions = 0, dpb_bytes = 0, dpb_operations = 0\<rparr>"

section \<open>The editor's budget is the firmware's\<close>

text \<open>What the firmware checks of one operation and the editor does not check of it, or checks only in its plan.\<close>

fun firmware_only :: "int \<Rightarrow> int \<Rightarrow> Instruction \<Rightarrow> bool" where
  "firmware_only vmax pmax (MESSAGE_LOAD offset len) = (1 \<le> len \<and> len \<le> 2048)"
| "firmware_only vmax pmax (MESSAGE_PATCH src offset len) = (1 \<le> len \<and> len \<le> vmax \<and> offset + len \<le> 2048)"
| "firmware_only vmax pmax (I2C_MESSAGE_WRITE len timeoutMs) = (1 \<le> len \<and> len \<le> 2048 \<and> 1 \<le> timeoutMs)"
| "firmware_only vmax pmax (I2C_READ dst len timeoutMs) = (len \<le> vmax)"
| "firmware_only vmax pmax (I2C_WRITE_READ src dst readLength writeLength timeoutMs) = (readLength \<le> vmax)"
| "firmware_only vmax pmax (SPI_TRANSCEIVE src dst len timeoutMs frequencyHz mode) = (len \<le> vmax)"
| "firmware_only vmax pmax (UART_READ_UNTIL dst maxLength timeoutMs stopByte) = (maxLength \<le> vmax)"
| "firmware_only vmax pmax (UART_READ dst len timeoutMs) = (len \<le> vmax)"
| "firmware_only vmax pmax (W1_WRITE_READ src dst readLength writeLength timeoutMs) = (readLength \<le> vmax)"
| "firmware_only vmax pmax (LOAD_VALUE dst argumentId len littleEndian required low high) = (argumentId \<le> pmax)"
| "firmware_only vmax pmax (LOAD_ARGUMENT dst argumentId len littleEndian required low high) = (argumentId \<le> pmax)"
| "firmware_only vmax pmax (COPY_BYTES src dst len offset) = (or_zero offset \<le> 8)"
| "firmware_only vmax pmax (EMIT_FIELD src fieldId width byteOrder signExtend multiplier) = (fieldId \<noteq> 0)"
| "firmware_only vmax pmax (EMIT_DECIMAL src fieldId isText divisor humidity) =
     (fieldId \<noteq> 0 \<and> (divisor = None \<or> divisor = Some 10 \<or> divisor = Some 16))"
| "firmware_only vmax pmax _ = True"

text \<open>The slots the firmware checks: all of them, except the source of a wait for a field.\<close>

fun checked_slots :: "Instruction \<Rightarrow> int list" where
  "checked_slots (WAIT_FIELD_MASK dst src bits expected attempts intervalMs) = [dst]"
| "checked_slots i = tempSlots i"

definition editor_op :: "Instruction \<Rightarrow> bool" where
  "editor_op i \<longleftrightarrow> list_all (\<lambda>slot. 0 \<le> slot \<and> slot < MAX_TEMP_SLOTS) (checked_slots i) \<and> structuralError i = None \<and>
     (case waits i of None \<Rightarrow> True | Some n \<Rightarrow> 0 < n)"

lemma mask_table:
  "list_all (\<lambda>a. list_all (\<lambda>b. list_all (\<lambda>c. list_all (\<lambda>d.
     ((((0 OR 2 ^ nat a) OR 2 ^ nat b) OR 2 ^ nat c) OR 2 ^ nat d = (15 :: int)) = (length (remdups [a, b, c, d]) = 4))
     [0, 1, 2, 3]) [0, 1, 2, 3]) [0, 1, 2, 3]) [0, 1, 2, 3 :: int]"
  by code_simp

lemma mask_full:
  "stepper_mask channels = 15 \<longleftrightarrow>
     card {channel_at channels 0, channel_at channels 1, channel_at channels 2, channel_at channels 3} = 4"
proof -
  have four: "channel_at channels i \<in> set [0, 1, 2, 3]" for i
  proof -
    have "0 \<le> channel_at channels i \<and> channel_at channels i < 4" by (simp add: channel_at_def)
    then have "channel_at channels i = 0 \<or> channel_at channels i = 1 \<or> channel_at channels i = 2 \<or> channel_at channels i = 3" by linarith
    then show ?thesis by simp
  qed
  have m: "stepper_mask channels = (((0 OR 2 ^ nat (channel_at channels 0)) OR 2 ^ nat (channel_at channels 1)) OR 2 ^ nat (channel_at channels 2)) OR
      2 ^ nat (channel_at channels 3)"
    by (simp add: stepper_mask_def channel_at_def)
  from mask_table [unfolded list_all_iff, rule_format, OF four [of 0] four [of 1] four [of 2] four [of 3]]
  show ?thesis unfolding m card_set length_remdups_card_conv by (simp only: list.set)
qed

lemma three_channels:
  "card {a, b, c :: int} = 3 \<longleftrightarrow> a \<noteq> b \<and> a \<noteq> c \<and> b \<noteq> c"
  by (auto simp: card_insert_if)

lemma three_low_channels:
  "card {channel_at c 0, channel_at c 1, channel_at c 2} = 3 \<longleftrightarrow>
     c mod 4 \<noteq> c div 4 mod 4 \<and> c mod 4 \<noteq> c div 16 mod 4 \<and> c div 4 mod 4 \<noteq> c div 16 mod 4"
  by (simp add: three_channels channel_at_def)

lemmas op_sides = op_cost_def toRawOp_def base_op_def raw_in_struct_def editor_op_def temp_ok_def MAX_TEMP_SLOTS_def out_of_def
  three_low_channels mask_full Let_def

lemma op_cost_exact:
  assumes "op_ok i" "raw_in_struct (toRawOp i)"
  shows "op_cost vmax pmax (toRawOp i) =
    (if editor_op i \<and> firmware_only vmax pmax i then Some (timeFor i, transactionsFor i, bytesFor i) else None)"
  using assms
proof (cases i)
  case (RGB_PROGRAM nodeId offset len channels inverted)
  have n: "0 \<le> flag inverted" "flag inverted \<le> 1" by simp_all
  have l: "or_zero nodeId * 2 + flag inverted > 0x1ffffff \<longleftrightarrow> or_zero nodeId > 0xffffff" using n by linarith
  have low: "(case nodeId of None \<Rightarrow> False | Some n \<Rightarrow> out_of 1 0xffffff n) \<longleftrightarrow> or_zero nodeId > 0xffffff"
    using assms(1) RGB_PROGRAM by (cases nodeId) (auto simp: out_of_def)
  have u: "0 \<le> offset" "0 \<le> len" "0 \<le> channels" using assms(2) RGB_PROGRAM by (simp_all add: raw_in_struct_def toRawOp_def base_op_def)
  have c: "op_cost vmax pmax (toRawOp i) =
     (if len = 0 \<or> len > 96 \<or> len mod 6 \<noteq> 0 \<or> channels > 63 \<or> or_zero nodeId * 2 + flag inverted > 0x1ffffff \<or>
        card {channel_at channels 0, channel_at channels 1, channel_at channels 2} \<noteq> 3 then None else Some (0, 3, 0))"
    unfolding RGB_PROGRAM three_low_channels op_cost_def toRawOp_def raw_operands.simps opcode.simps base_op_def Let_def by simp
  have e: "editor_op i \<longleftrightarrow> \<not> (or_zero nodeId > 0xffffff \<or> offset < 0 \<or> len < 6 \<or> len > 96 \<or> len mod 6 \<noteq> 0 \<or>
       out_of 0 63 channels \<or> card {channel_at channels 0, channel_at channels 1, channel_at channels 2} \<noteq> 3)"
    unfolding RGB_PROGRAM editor_op_def checked_slots.simps tempSlots.simps structuralError.simps waits.simps low by simp
  have six: "len mod 6 = 0 \<Longrightarrow> len \<noteq> 0 \<Longrightarrow> \<not> len < 6" using u(2) by presburger
  have f: "firmware_only vmax pmax i" "timeFor i = 0" "transactionsFor i = 3" "bytesFor i = 0" by (simp_all add: RGB_PROGRAM)
  show ?thesis unfolding c e f l out_of_def using six u f(1) by auto
next
  case (DS18B20_SETUP channel on powerChannel externalPower)
  then show ?thesis using assms by (cases powerChannel; cases externalPower) (auto simp: op_sides)
next
  case (EMIT_DECIMAL src fieldId isText divisor humidity)
  then show ?thesis using assms by (cases divisor) (auto simp: op_sides)
qed (auto simp: op_sides)

section \<open>A whole profile\<close>

definition fits_uint32 :: "DeviceProfileBudget \<Rightarrow> bool" where
  "fits_uint32 b \<longleftrightarrow> dpb_totalTimeMs b \<le> UINT32_MAX \<and> dpb_transactions b \<le> UINT32_MAX \<and> dpb_bytes b \<le> UINT32_MAX"

definition spent :: "Instruction list \<Rightarrow> DeviceProfileBudget \<Rightarrow> DeviceProfileBudget" where
  "spent is b = \<lparr>dpb_totalTimeMs = dpb_totalTimeMs b + sum_list (map timeFor is), dpb_transactions = dpb_transactions b + sum_list (map transactionsFor is),
     dpb_bytes = dpb_bytes b + sum_list (map bytesFor is), dpb_operations = dpb_operations b + int (length is)\<rparr>"

lemma costs_positive:
  assumes "raw_in_struct (toRawOp i)"
  shows "0 \<le> timeFor i" "0 \<le> transactionsFor i" "0 \<le> bytesFor i"
  using assms by (cases i; auto simp: raw_in_struct_def toRawOp_def base_op_def)+

lemma spent_grows:
  assumes "\<forall>i \<in> set is. raw_in_struct (toRawOp i)"
  shows "dpb_totalTimeMs b \<le> dpb_totalTimeMs (spent is b)" "dpb_transactions b \<le> dpb_transactions (spent is b)" "dpb_bytes b \<le> dpb_bytes (spent is b)"
  using assms by (auto simp: spent_def costs_positive intro!: sum_list_nonneg)

lemma spent_Cons: "spent (i # is) b = spent is (spent [i] b)"
  by (simp add: spent_def)

lemma accumulate_step:
  assumes "op_ok i" "raw_in_struct (toRawOp i)"
  shows "accumulate_op_budget vmax pmax (toRawOp i) b =
    (if editor_op i \<and> firmware_only vmax pmax i \<and> fits_uint32 (spent [i] b) then Some (spent [i] b) else None)"
  by (auto simp: accumulate_op_budget_def op_cost_exact [OF assms] fits_uint32_def spent_def)

lemma accumulate_exact:
  assumes "\<forall>i \<in> set is. op_ok i \<and> raw_in_struct (toRawOp i)" "fits_uint32 b"
  shows "accumulate_ops vmax pmax (map toRawOp is) b =
    (if (\<forall>i \<in> set is. editor_op i \<and> firmware_only vmax pmax i) \<and> fits_uint32 (spent is b) then Some (spent is b) else None)"
  using assms
proof (induction "is" arbitrary: b)
  case Nil
  then show ?case by (cases b) (simp add: spent_def)
next
  case (Cons i "is")
  have fits: "fits_uint32 (spent [i] b)" if "fits_uint32 (spent (i # is) b)"
    using that spent_grows [of "is" "spent [i] b"] Cons.prems(1) unfolding fits_uint32_def spent_Cons [of i "is"] by auto
  show ?case
  proof (cases "editor_op i \<and> firmware_only vmax pmax i \<and> fits_uint32 (spent [i] b)")
    case True
    then have "accumulate_op_budget vmax pmax (toRawOp i) b = Some (spent [i] b)"
      using Cons.prems(1) by (simp add: accumulate_step)
    then show ?thesis using Cons.IH [of "spent [i] b"] Cons.prems(1) True by (auto simp: spent_Cons [of i "is"])
  next
    case False
    then have "accumulate_op_budget vmax pmax (toRawOp i) b = None" using Cons.prems(1) by (auto simp: accumulate_step)
    then show ?thesis using False fits by auto
  qed
qed

lemma firmware_budget:
  assumes "\<forall>i \<in> set (allOps d). op_ok i \<and> raw_in_struct (toRawOp i)"
  shows "accumulate_ops vmax pmax (map toRawOp (allOps d)) no_budget =
    (if (\<forall>i \<in> set (allOps d). editor_op i \<and> firmware_only vmax pmax i) \<and> fits_uint32 (computeBudget d) then Some (computeBudget d) else None)"
proof -
  have "spent (allOps d) no_budget = computeBudget d" by (simp add: spent_def no_budget_def computeBudget_def)
  moreover have "fits_uint32 no_budget" by (simp add: fits_uint32_def no_budget_def UINT32_MAX_def)
  ultimately show ?thesis using accumulate_exact [OF assms] by simp
qed

text \<open>Every operation of a draft without errors is one the editor accepts.\<close>

lemma no_op_errors: "op_errors d path wrong i = [] \<Longrightarrow> editor_op i"
proof -
  assume e: "op_errors d path wrong i = []"
  have "set (checked_slots i) \<subseteq> set (tempSlots i)" by (cases i) auto
  moreover have "list_all (\<lambda>slot. 0 \<le> slot \<and> slot < MAX_TEMP_SLOTS) (tempSlots i)"
    using e by (auto simp: op_errors_def list_all_iff filter_empty_conv not_less not_le)
  moreover have "structuralError i = None" "case waits i of None \<Rightarrow> True | Some n \<Rightarrow> 0 < n"
    using e by (auto simp: op_errors_def split: if_splits option.splits)
  ultimately show "editor_op i" by (auto simp: editor_op_def list_all_iff)
qed

lemma no_plan_errors: "plan_errors d plan n loaded is = [] \<Longrightarrow> i \<in> set is \<Longrightarrow> editor_op i"
  by (induction "is" arbitrary: n loaded) (auto split: prod.splits intro: no_op_errors)

lemma no_draft_errors: "draft_errors d m = [] \<Longrightarrow> i \<in> set (allOps d) \<Longrightarrow> editor_op i"
  by (auto simp: draft_errors_def allOps_def intro: no_plan_errors)

lemma validated:
  "validateProfileDraft d m = Inr b \<longleftrightarrow> draft_errors d m = [] \<and> b = computeBudget d"
  by (auto simp: validateProfileDraft_def)

end
