(* ===== verification/ProfileCbor.thy ===== *)
theory ProfileCbor
  imports ProfileCheck Operations
begin

text \<open>
  The wire form of a Device Profile: \<open>device-profile-install/src/profile-cbor.ts\<close>, the encoder and the decoder. A byte of
  the message data is written modulo 256.
\<close>

section \<open>The encoder\<close>

definition DEVICE_PROFILE_WIRE_VERSION :: int where "DEVICE_PROFILE_WIRE_VERSION = 1"

fun value_type :: "SampleFieldType \<Rightarrow> int" where
  "value_type FInt64 = 1"
| "value_type FUint64 = 2"
| "value_type FText = 3"
| "value_type FFloat = 5"

definition value_type_reverse :: "int \<Rightarrow> SampleFieldType option" where
  "value_type_reverse n =
     (if n = 3 then Some FText else if n = 5 then Some FFloat else if n = 1 then Some FInt64 else if n = 2 then Some FUint64 else None)"

definition encodeOp :: "RawDeviceProfileOp \<Rightarrow> codec_error + bytes" where
  "encodeOp raw = mapE encodeArray (traverseE encodeUint
     [rw_opcode raw, rw_dst raw, rw_srcA raw, rw_srcB raw, rw_imm0 raw, rw_imm1 raw, rw_imm2 raw, rw_imm3 raw])"

definition encodeProfileField :: "SampleField \<Rightarrow> codec_error + bytes" where
  "encodeProfileField f = mapE encodeArray (sequenceE
     [encodeUint (sf_fieldId f), encodeUint (value_type (sf_type f)), encodeText (sf_name f),
      encodeText (case sf_unit f of None \<Rightarrow> [] | Some u \<Rightarrow> u)])"

definition encodeAction :: "ProfileAction \<Rightarrow> codec_error + bytes" where
  "encodeAction a = mapE encodeArray (traverseE encodeUint [ac_id a, ac_first a, ac_count a])"

definition wire_version :: "DeviceProfileDraft \<Rightarrow> int" where
  "wire_version d = (if dd_messageData d \<noteq> None then 3 else if dd_actions d \<noteq> None then 2 else DEVICE_PROFILE_WIRE_VERSION)"

definition opsField :: "int \<Rightarrow> Instruction list \<Rightarrow> field" where
  "opsField key = arrayField key (\<lambda>i. encodeOp (toRawOp i))"

definition encodeDeviceProfileCbor :: "DeviceProfileDraft \<Rightarrow> codec_error + bytes" where
  "encodeDeviceProfileCbor d = encodeFields
     ([u32Field 0 (wire_version d), textField 1 (dd_profileId d), u32Field 2 (dd_version d), u32Field 3 (dd_transport d),
       u32Field 4 (dd_requiredCapabilities d), u32Field 5 (dd_maxTotalTimeMs d), u32Field 6 (dd_maxTransactions d),
       u32Field 7 (dd_maxBytes d), opsField 8 (dd_initOps d), opsField 9 (dd_sampleOps d), opsField 10 (dd_safeStopOps d),
       textField 11 (dd_sampleSchemaId d), u32Field 12 (dd_sampleSchemaVersion d),
       arrayField 13 encodeProfileField (dd_sampleFields d)] @
      (if dd_actions d \<noteq> None \<or> dd_messageData d \<noteq> None
       then [arrayField 14 encodeAction (case dd_actions d of None \<Rightarrow> [] | Some as \<Rightarrow> as)] else []) @
      (case dd_messageData d of None \<Rightarrow> [] | Some bs \<Rightarrow> [bytesField 15 (map word_of_int bs)]))"

section \<open>The decoder\<close>

datatype profile_cbor_failure = MalformedProfile jsstr | UnsupportedProfileWire int | BadInstruction profile_failure

fun uint_of :: "cbor \<Rightarrow> int option" where
  "uint_of (CUint n) = Some (js_number n)"
| "uint_of _ = None"

definition decodeOpValue :: "cbor \<Rightarrow> profile_cbor_failure + RawDeviceProfileOp" where
  "decodeOpValue value =
     (case value of
        CArray vs \<Rightarrow>
          if length vs \<noteq> 8 then Inl (MalformedProfile (js ''op''))
          else (case those (map uint_of vs) of
                  None \<Rightarrow> Inl (MalformedProfile (js ''op''))
                | Some ns \<Rightarrow> Inr \<lparr>rw_opcode = ns ! 0, rw_dst = ns ! 1, rw_srcA = ns ! 2, rw_srcB = ns ! 3,
                                 rw_imm0 = ns ! 4, rw_imm1 = ns ! 5, rw_imm2 = ns ! 6, rw_imm3 = ns ! 7\<rparr>)
      | _ \<Rightarrow> Inl (MalformedProfile (js ''op'')))"

definition decode_instruction :: "cbor \<Rightarrow> profile_cbor_failure + Instruction" where
  "decode_instruction value =
     bindE (decodeOpValue value) (\<lambda>raw. case fromRawOp raw of Inl e \<Rightarrow> Inl (BadInstruction e) | Inr i \<Rightarrow> Inr i)"

definition decodeFieldValue :: "cbor \<Rightarrow> profile_cbor_failure + SampleField" where
  "decodeFieldValue value =
     (case value of
        CArray [CUint i, CUint t, CText name, CText unit] \<Rightarrow>
          (case value_type_reverse (js_number t) of
             None \<Rightarrow> Inl (MalformedProfile (js ''sampleField.type''))
           | Some type \<Rightarrow> Inr \<lparr>sf_fieldId = js_number i, sf_type = type, sf_name = name,
                             sf_unit = (if unit = [] then None else Some unit)\<rparr>)
      | _ \<Rightarrow> Inl (MalformedProfile (js ''sampleField'')))"

text \<open>The message data and the actions throw; what is thrown inside the \<open>try\<close> is a malformed root.\<close>

definition malformed_root :: "'e + 'a \<Rightarrow> profile_cbor_failure + 'a" where
  "malformed_root r = (case r of Inl _ \<Rightarrow> Inl (MalformedProfile (js ''root'')) | Inr v \<Rightarrow> Inr v)"

definition decode_message :: "field_map \<Rightarrow> int \<Rightarrow> unit + int list option" where
  "decode_message m version =
     (if version = 3 then (case map_of m 15 of Some (CBytes bs) \<Rightarrow> Inr (Some (map uint bs)) | _ \<Rightarrow> Inl ()) else Inr None)"

definition decode_action :: "cbor \<Rightarrow> codec_error + ProfileAction" where
  "decode_action value =
     (case value of
        CArray [CUint i, CUint first, CUint n] \<Rightarrow> Inr \<lparr>ac_id = js_number i, ac_first = js_number first, ac_count = js_number n\<rparr>
      | _ \<Rightarrow> Inl (InvalidMessage ''Invalid action table''))"

definition decode_actions :: "field_map \<Rightarrow> int \<Rightarrow> codec_error + ProfileAction list option" where
  "decode_actions m version =
     (if version \<ge> 2 then mapE Some (bindE (requireArray m 14 ''DeviceProfileCbor'') (traverseE decode_action)) else Inr None)"

abbreviation profile_u32 :: "field_map \<Rightarrow> int \<Rightarrow> profile_cbor_failure + int" where
  "profile_u32 m key \<equiv> malformed_root (requireU32 m key ''DeviceProfileCbor'')"

abbreviation profile_text :: "field_map \<Rightarrow> int \<Rightarrow> profile_cbor_failure + jsstr" where
  "profile_text m key \<equiv> malformed_root (requireText m key ''DeviceProfileCbor'')"

definition profile_ops :: "field_map \<Rightarrow> int \<Rightarrow> profile_cbor_failure + Instruction list" where
  "profile_ops m key = bindE (malformed_root (requireArray m key ''DeviceProfileCbor'')) (traverseE decode_instruction)"

definition decode_profile_map :: "field_map \<Rightarrow> profile_cbor_failure + DeviceProfileDraft" where
  "decode_profile_map m =
     bindE (profile_u32 m 0) (\<lambda>version.
     if version \<noteq> DEVICE_PROFILE_WIRE_VERSION \<and> version \<noteq> 2 \<and> version \<noteq> 3 then Inl (UnsupportedProfileWire version) else
     bindE (profile_ops m 8) (\<lambda>initOps.
     bindE (profile_ops m 9) (\<lambda>sampleOps.
     bindE (profile_ops m 10) (\<lambda>safeStopOps.
     bindE (bindE (malformed_root (requireArray m 13 ''DeviceProfileCbor'')) (traverseE decodeFieldValue)) (\<lambda>sampleFields.
     bindE (malformed_root (decode_message m version)) (\<lambda>messageData.
     bindE (profile_text m 1) (\<lambda>profileId.
     bindE (profile_u32 m 2) (\<lambda>ver.
     bindE (profile_u32 m 3) (\<lambda>transport.
     bindE (profile_u32 m 4) (\<lambda>requiredCapabilities.
     bindE (profile_u32 m 5) (\<lambda>maxTotalTimeMs.
     bindE (profile_u32 m 6) (\<lambda>maxTransactions.
     bindE (profile_u32 m 7) (\<lambda>maxBytes.
     bindE (profile_text m 11) (\<lambda>sampleSchemaId.
     bindE (profile_u32 m 12) (\<lambda>sampleSchemaVersion.
     bindE (malformed_root (decode_actions m version)) (\<lambda>actions.
       Inr \<lparr>dd_messageData = messageData, dd_actions = actions, dd_profileId = profileId, dd_version = ver, dd_transport = transport,
            dd_requiredCapabilities = requiredCapabilities, dd_maxTotalTimeMs = maxTotalTimeMs, dd_maxTransactions = maxTransactions,
            dd_maxBytes = maxBytes, dd_initOps = initOps, dd_sampleOps = sampleOps, dd_safeStopOps = safeStopOps,
            dd_sampleSchemaId = sampleSchemaId, dd_sampleSchemaVersion = sampleSchemaVersion, dd_sampleFields = sampleFields\<rparr>))))))))))))))))"

definition decodeDeviceProfileCbor :: "bytes \<Rightarrow> profile_cbor_failure + DeviceProfileDraft" where
  "decodeDeviceProfileCbor bs =
     (case decodeOne bs of
        Inl _ \<Rightarrow> Inl (MalformedProfile (js ''bytes''))
      | Inr root \<Rightarrow> bindE (malformed_root (requireMap root ''DeviceProfileCbor'')) decode_profile_map)"

section \<open>Round trip\<close>

text \<open>The drafts the wire can carry: numbers of 32 bits, well-formed text, no empty unit, bytes in the message data.\<close>

definition raw_ok :: "RawDeviceProfileOp \<Rightarrow> bool" where
  "raw_ok r \<longleftrightarrow> list_all u32_ok [rw_opcode r, rw_dst r, rw_srcA r, rw_srcB r, rw_imm0 r, rw_imm1 r, rw_imm2 r, rw_imm3 r]"

definition raw_val :: "RawDeviceProfileOp \<Rightarrow> cbor" where
  "raw_val r = CArray (map CUint [rw_opcode r, rw_dst r, rw_srcA r, rw_srcB r, rw_imm0 r, rw_imm1 r, rw_imm2 r, rw_imm3 r])"

definition sample_field_ok :: "SampleField \<Rightarrow> bool" where
  "sample_field_ok f \<longleftrightarrow> u32_ok (sf_fieldId f) \<and> wtext_ok (sf_name f) \<and>
     (case sf_unit f of None \<Rightarrow> True | Some u \<Rightarrow> wtext_ok u \<and> u \<noteq> [])"

definition sample_field_val :: "SampleField \<Rightarrow> cbor" where
  "sample_field_val f = CArray [CUint (sf_fieldId f), CUint (value_type (sf_type f)), CText (sf_name f),
     CText (case sf_unit f of None \<Rightarrow> [] | Some u \<Rightarrow> u)]"

definition action_ok :: "ProfileAction \<Rightarrow> bool" where
  "action_ok a \<longleftrightarrow> u32_ok (ac_id a) \<and> u32_ok (ac_first a) \<and> u32_ok (ac_count a)"

definition action_val :: "ProfileAction \<Rightarrow> cbor" where
  "action_val a = CArray [CUint (ac_id a), CUint (ac_first a), CUint (ac_count a)]"

lemma gives_values:
  "list_all2 gives es vs \<Longrightarrow> gives (mapE encodeArray (sequenceE es)) (CArray vs)"
proof -
  assume "list_all2 gives es vs"
  then have "\<exists>bss. sequenceE es = Inr bss \<and> list_all2 encodes bss vs"
    by (induction rule: list_all2_induct) (auto simp: gives_def sequenceE_def)
  then show ?thesis by (auto simp: gives_def intro: encodes_array)
qed

lemma gives_uints: "list_all u32_ok ns \<Longrightarrow> gives (mapE encodeArray (traverseE encodeUint ns)) (CArray (map CUint ns))"
proof -
  assume "list_all u32_ok ns"
  then have "gives (encodeUint n) (CUint n)" if "n \<in> set ns" for n
    using that by (auto simp: list_all_iff intro: gives_leaf u32_u64)
  from gives_array [of ns encodeUint CUint, OF this] show ?thesis by (auto simp: gives_def)
qed

lemma gives_op: "raw_ok r \<Longrightarrow> gives (encodeOp r) (raw_val r)"
  unfolding raw_ok_def encodeOp_def raw_val_def by (rule gives_uints)

lemma decode_op: "raw_ok r \<Longrightarrow> decodeOpValue (raw_val r) = Inr r"
  by (simp add: raw_ok_def raw_val_def decodeOpValue_def)

lemma decode_instruction_val:
  "op_ok i \<Longrightarrow> raw_ok (toRawOp i) \<Longrightarrow> decode_instruction (raw_val (toRawOp i)) = Inr i"
  by (simp add: decode_instruction_def decode_op op_roundtrip)

lemma value_type_read: "value_type_reverse (value_type t) = Some t" "u32_ok (value_type t)"
  by (cases t; simp add: value_type_reverse_def)+

lemma gives_sample_field: "sample_field_ok f \<Longrightarrow> gives (encodeProfileField f) (sample_field_val f)"
proof -
  assume ok: "sample_field_ok f"
  have "utf8_encode [] = []" by code_simp
  then have "wtext_ok []" by (simp add: wtext_ok_def)
  with ok have "wtext_ok (case sf_unit f of None \<Rightarrow> [] | Some u \<Rightarrow> u)" by (auto simp: sample_field_ok_def split: option.splits)
  with ok show ?thesis
    unfolding sample_field_ok_def encodeProfileField_def sample_field_val_def
    by (intro gives_values) (auto intro!: gives_leaf u32_u64 simp: value_type_read)
qed

lemma decode_sample_field: "sample_field_ok f \<Longrightarrow> decodeFieldValue (sample_field_val f) = Inr f"
  by (cases f) (auto simp: sample_field_ok_def sample_field_val_def decodeFieldValue_def value_type_read split: option.splits)

interpretation profile_action: item_codec encodeAction decode_action action_val action_ok
proof
  fix a assume "action_ok a"
  then show "gives (encodeAction a) (action_val a)"
    using gives_uints [of "[ac_id a, ac_first a, ac_count a]"] by (simp add: action_ok_def encodeAction_def action_val_def)
next
  fix a assume "action_ok a"
  then show "decode_action (action_val a) = Inr a"
    by (simp add: action_ok_def decode_action_def action_val_def)
qed

definition ops_ok :: "Instruction list \<Rightarrow> bool" where
  "ops_ok is \<longleftrightarrow> (\<forall>i\<in>set is. op_ok i \<and> raw_ok (toRawOp i))"

definition ops_val :: "Instruction list \<Rightarrow> cbor" where
  "ops_val is = CArray (map (\<lambda>i. raw_val (toRawOp i)) is)"

lemma writes_ops: "u32_ok k \<Longrightarrow> ops_ok is \<Longrightarrow> writes (opsField k is) (k, ops_val is)"
  unfolding opsField_def ops_val_def by (rule writes_array) (auto simp: ops_ok_def intro: gives_op)

lemma decode_ops: "ops_ok is \<Longrightarrow> traverseE decode_instruction (map (\<lambda>i. raw_val (toRawOp i)) is) = Inr is"
  by (rule traverseE_map_val) (auto simp: ops_ok_def decode_instruction_val)

definition draft_ok :: "DeviceProfileDraft \<Rightarrow> bool" where
  "draft_ok d \<longleftrightarrow> wtext_ok (dd_profileId d) \<and> wtext_ok (dd_sampleSchemaId d) \<and>
     list_all u32_ok [dd_version d, dd_transport d, dd_requiredCapabilities d, dd_maxTotalTimeMs d, dd_maxTransactions d, dd_maxBytes d,
       dd_sampleSchemaVersion d] \<and>
     ops_ok (dd_initOps d) \<and> ops_ok (dd_sampleOps d) \<and> ops_ok (dd_safeStopOps d) \<and> (\<forall>f\<in>set (dd_sampleFields d). sample_field_ok f) \<and>
     (\<forall>a\<in>set (case dd_actions d of None \<Rightarrow> [] | Some as \<Rightarrow> as). action_ok a) \<and>
     (case dd_messageData d of None \<Rightarrow> True | Some bs \<Rightarrow> (\<forall>b\<in>set bs. 0 \<le> b \<and> b < 256) \<and> bytes_ok (map word_of_int bs))"

definition draft_val :: "DeviceProfileDraft \<Rightarrow> (int \<times> cbor) list" where
  "draft_val d =
     [(0, CUint (wire_version d)), (1, CText (dd_profileId d)), (2, CUint (dd_version d)), (3, CUint (dd_transport d)),
      (4, CUint (dd_requiredCapabilities d)), (5, CUint (dd_maxTotalTimeMs d)), (6, CUint (dd_maxTransactions d)),
      (7, CUint (dd_maxBytes d)), (8, ops_val (dd_initOps d)), (9, ops_val (dd_sampleOps d)), (10, ops_val (dd_safeStopOps d)),
      (11, CText (dd_sampleSchemaId d)), (12, CUint (dd_sampleSchemaVersion d)),
      (13, CArray (map sample_field_val (dd_sampleFields d)))] @
     (if dd_actions d \<noteq> None \<or> dd_messageData d \<noteq> None
      then [(14, CArray (map action_val (case dd_actions d of None \<Rightarrow> [] | Some as \<Rightarrow> as)))] else []) @
     (case dd_messageData d of None \<Rightarrow> [] | Some bs \<Rightarrow> [(15, CBytes (map word_of_int bs))])"

lemma wire_version_u32: "u32_ok (wire_version d)"
  by (simp add: wire_version_def DEVICE_PROFILE_WIRE_VERSION_def)

lemma gives_draft: "draft_ok d \<Longrightarrow> gives (encodeDeviceProfileCbor d) (CMap (draft_val d))"
proof -
  assume ok: "draft_ok d"
  have actions: "list_all2 writes
      (if dd_actions d \<noteq> None \<or> dd_messageData d \<noteq> None then [arrayField 14 encodeAction (case dd_actions d of None \<Rightarrow> [] | Some as \<Rightarrow> as)] else [])
      (if dd_actions d \<noteq> None \<or> dd_messageData d \<noteq> None then [(14, CArray (map action_val (case dd_actions d of None \<Rightarrow> [] | Some as \<Rightarrow> as)))] else [])"
    using ok profile_action.writes_items [of 14 "case dd_actions d of None \<Rightarrow> [] | Some as \<Rightarrow> as"] by (simp add: draft_ok_def)
  have message: "list_all2 writes (case dd_messageData d of None \<Rightarrow> [] | Some bs \<Rightarrow> [bytesField 15 (map word_of_int bs)])
      (case dd_messageData d of None \<Rightarrow> [] | Some bs \<Rightarrow> [(15, CBytes (map word_of_int bs))])"
    using ok by (auto simp: draft_ok_def intro: writes_bytes split: option.splits)
  have body: "list_all2 writes
      [u32Field 0 (wire_version d), textField 1 (dd_profileId d), u32Field 2 (dd_version d), u32Field 3 (dd_transport d),
       u32Field 4 (dd_requiredCapabilities d), u32Field 5 (dd_maxTotalTimeMs d), u32Field 6 (dd_maxTransactions d),
       u32Field 7 (dd_maxBytes d), opsField 8 (dd_initOps d), opsField 9 (dd_sampleOps d), opsField 10 (dd_safeStopOps d),
       textField 11 (dd_sampleSchemaId d), u32Field 12 (dd_sampleSchemaVersion d),
       arrayField 13 encodeProfileField (dd_sampleFields d)]
      [(0, CUint (wire_version d)), (1, CText (dd_profileId d)), (2, CUint (dd_version d)), (3, CUint (dd_transport d)),
      (4, CUint (dd_requiredCapabilities d)), (5, CUint (dd_maxTotalTimeMs d)), (6, CUint (dd_maxTransactions d)),
      (7, CUint (dd_maxBytes d)), (8, ops_val (dd_initOps d)), (9, ops_val (dd_sampleOps d)), (10, ops_val (dd_safeStopOps d)),
      (11, CText (dd_sampleSchemaId d)), (12, CUint (dd_sampleSchemaVersion d)),
      (13, CArray (map sample_field_val (dd_sampleFields d)))]"
    using ok unfolding draft_ok_def
    by (intro list.rel_intros writes_intros writes_ops wire_version_u32) (auto intro: gives_sample_field)
  have "list_all2 writes (xs @ ys @ zs) (us @ vs @ ws)" if "list_all2 writes xs us" "list_all2 writes ys vs" "list_all2 writes zs ws" for xs ys zs us vs ws
    using that by (intro list_all2_appendI)
  from this [OF body actions message] show ?thesis
    unfolding encodeDeviceProfileCbor_def draft_val_def
    by (rule gives_fields) (auto split: option.splits)
qed

text \<open>The draft that is read back: message data implies a table of actions.\<close>

definition with_actions :: "DeviceProfileDraft \<Rightarrow> DeviceProfileDraft" where
  "with_actions d = (if dd_messageData d \<noteq> None \<and> dd_actions d = None then d\<lparr>dd_actions := Some []\<rparr> else d)"

lemma bytes_back: "\<forall>b\<in>set bs. 0 \<le> b \<and> b < 256 \<Longrightarrow> map uint (map word_of_int bs :: bytes) = bs"
  by (auto simp: uint_word_of_int intro!: map_idI)

lemma decode_ops_val: "ops_ok is \<Longrightarrow> map_of m k = Some (ops_val is) \<Longrightarrow> profile_ops m k = Inr is"
  by (simp add: profile_ops_def ops_val_def malformed_root_def decode_ops)

lemma decode_fields_val:
  "\<forall>f\<in>set fs. sample_field_ok f \<Longrightarrow> traverseE decodeFieldValue (map sample_field_val fs) = Inr fs"
  by (rule traverseE_map_val) (auto intro: decode_sample_field)

lemma decode_message_val: "draft_ok d \<Longrightarrow> decode_message (draft_val d) (wire_version d) = Inr (dd_messageData d)"
proof (cases "dd_messageData d")
  case (Some bs)
  assume "draft_ok d"
  with Some have "\<forall>b\<in>set bs. 0 \<le> b \<and> b < 256" by (simp add: draft_ok_def)
  moreover have "map_of (draft_val d) 15 = Some (CBytes (map word_of_int bs))" by (simp add: draft_val_def Some)
  ultimately show ?thesis by (simp add: decode_message_def wire_version_def Some bytes_back del: map_map)
qed (simp add: decode_message_def wire_version_def DEVICE_PROFILE_WIRE_VERSION_def)

lemma decode_actions_val:
  assumes "draft_ok d"
  shows "decode_actions (draft_val d) (wire_version d) = Inr (dd_actions (with_actions d))"
proof (cases "dd_actions d = None \<and> dd_messageData d = None")
  case True
  then show ?thesis by (simp add: decode_actions_def wire_version_def DEVICE_PROFILE_WIRE_VERSION_def with_actions_def)
next
  case False
  let ?as = "case dd_actions d of None \<Rightarrow> [] | Some as \<Rightarrow> as"
  have "map_of (draft_val d) 14 = Some (CArray (map action_val ?as))" using False by (auto simp: draft_val_def)
  moreover have "traverseE decode_action (map action_val ?as) = Inr ?as"
    using assms unfolding draft_ok_def by (intro profile_action.decode_items) blast
  moreover have "2 \<le> wire_version d" using False by (auto simp: wire_version_def)
  moreover have "dd_actions (with_actions d) = Some ?as" using False by (auto simp: with_actions_def split: option.splits)
  ultimately show ?thesis by (simp add: decode_actions_def)
qed

lemma decode_draft_val: "draft_ok d \<Longrightarrow> decode_profile_map (draft_val d) = Inr (with_actions d)"
proof -
  assume ok: "draft_ok d"
  have head: "map_of (draft_val d) 0 = Some (CUint (wire_version d))" "map_of (draft_val d) 1 = Some (CText (dd_profileId d))"
    "map_of (draft_val d) 2 = Some (CUint (dd_version d))" "map_of (draft_val d) 3 = Some (CUint (dd_transport d))"
    "map_of (draft_val d) 4 = Some (CUint (dd_requiredCapabilities d))" "map_of (draft_val d) 5 = Some (CUint (dd_maxTotalTimeMs d))"
    "map_of (draft_val d) 6 = Some (CUint (dd_maxTransactions d))" "map_of (draft_val d) 7 = Some (CUint (dd_maxBytes d))"
    "map_of (draft_val d) 8 = Some (ops_val (dd_initOps d))" "map_of (draft_val d) 9 = Some (ops_val (dd_sampleOps d))"
    "map_of (draft_val d) 10 = Some (ops_val (dd_safeStopOps d))" "map_of (draft_val d) 11 = Some (CText (dd_sampleSchemaId d))"
    "map_of (draft_val d) 12 = Some (CUint (dd_sampleSchemaVersion d))"
    "map_of (draft_val d) 13 = Some (CArray (map sample_field_val (dd_sampleFields d)))"
    by (simp_all add: draft_val_def)
  have version: "wire_version d = 1 \<or> wire_version d = 2 \<or> wire_version d = 3" "u32_ok (wire_version d)"
    by (simp_all add: wire_version_def DEVICE_PROFILE_WIRE_VERSION_def)
  have same: "with_actions d = d\<lparr>dd_actions := dd_actions (with_actions d)\<rparr>" by (simp add: with_actions_def)
  have ops: "profile_ops (draft_val d) 8 = Inr (dd_initOps d)" "profile_ops (draft_val d) 9 = Inr (dd_sampleOps d)"
    "profile_ops (draft_val d) 10 = Inr (dd_safeStopOps d)"
    using ok head by (auto simp: draft_ok_def intro: decode_ops_val)
  show ?thesis
    unfolding decode_profile_map_def ops
    using ok version decode_message_val [OF ok] decode_actions_val [OF ok]
    by (subst same) (simp add: head malformed_root_def draft_ok_def decode_fields_val DEVICE_PROFILE_WIRE_VERSION_def)
qed

lemma profile_roundtrip: "draft_ok d \<Longrightarrow> bindE (malformed_root (encodeDeviceProfileCbor d)) decodeDeviceProfileCbor = Inr (with_actions d)"
proof -
  assume ok: "draft_ok d"
  from gives_draft [OF ok] obtain bs where "encodeDeviceProfileCbor d = Inr bs" "encodes bs (CMap (draft_val d))"
    by (auto simp: gives_def)
  then show ?thesis
    using decode_draft_val [OF ok] by (simp add: malformed_root_def decodeDeviceProfileCbor_def encodes_decodeOne)
qed

lemma with_actions_same: "dd_messageData d = None \<or> dd_actions d \<noteq> None \<Longrightarrow> with_actions d = d"
  by (auto simp: with_actions_def)

text \<open>A draft with message data and no actions is not read back as it was, and what is read back is never valid.\<close>

lemma message_needs_actions:
  "dd_messageData d \<noteq> None \<Longrightarrow> dd_actions d = None \<Longrightarrow> \<exists>es. validateProfileDraft (with_actions d) m = Inl es"
  by (simp add: with_actions_def validateProfileDraft_def draft_errors_def action_errors_def)

end
