(* ===== verification/ProfileInstall.thy ===== *)
theory ProfileInstall
  imports ProfileCbor Composition "HOL-Library.Word"
begin

text \<open>
  What happens before and during the installation of a Device Profile: the resolver of
  \<open>device-profile-package/src/resolver.ts\<close> with the opcode dependencies of \<open>package.ts\<close>, the merged catalog and the
  instantiation of \<open>device-profile-install/src/catalog.ts\<close> and \<open>module-instantiation.ts\<close>, and the workflow of
  \<open>install-workflow.ts\<close> as the tree of the calls it makes. SHA-256 is the parameter \<open>sha256\<close>.
\<close>

unbundle bit_operations_syntax

section \<open>Packages\<close>

record DeviceProfilePackage =
  pk_profileId :: jsstr
  pk_version :: int
  pk_author :: jsstr
  pk_hash :: jsstr
  pk_transport :: int
  pk_requiredCapabilities :: int
  pk_opcodeDependencies :: "int list"
  pk_draft :: DeviceProfileDraft

definition computeOpcodeDependencies :: "DeviceProfileDraft \<Rightarrow> int list" where
  "computeOpcodeDependencies d = sort (remdups (map opcode (allOps d)))"

datatype InstallResolution =
    INSTALL_READY | PROFILE_INSTALL_REQUIRED | FIRMWARE_UPDATE_REQUIRED "int list" "jsstr list"
  | HARDWARE_INCOMPATIBLE | RESOURCE_INCOMPATIBLE | VERSION_CONFLICT

record CoreInstallContext =
  ci_installedProfiles :: "DeviceProfileSummary list"
  ci_knownOpcodes :: "int list option"
  ci_availableCapabilities :: "int option"
  ci_resources :: "GetResourcesResponse option"

definition DEFAULT_KNOWN_OPCODES :: "int list" where
  "DEFAULT_KNOWN_OPCODES =
     [41, 36, 38, 37, 39, 40, 35, 34, 29, 30, 31, 1, 2, 3, 4, 5, 6, 7, 8, 32, 33, 9, 10, 11, 12, 13, 14, 15, 16, 17, 18, 19,
      20, 21, 22, 23, 24, 25, 26, 27, 28]"

definition missing_bits :: "int \<Rightarrow> int \<Rightarrow> bool" where
  "missing_bits required available \<longleftrightarrow> (word_of_int required :: 32 word) AND NOT (word_of_int available) \<noteq> 0"

definition suggested :: "(int \<Rightarrow> jsstr option) option \<Rightarrow> int list \<Rightarrow> jsstr list" where
  "suggested packFor ops =
     (case packFor of None \<Rightarrow> [] | Some f \<Rightarrow> rev (remdups (rev (concat (map (\<lambda>n. case f n of None \<Rightarrow> [] | Some p \<Rightarrow> [p]) ops)))))"

definition resolveProfileInstall ::
  "DeviceProfilePackage \<Rightarrow> CoreInstallContext \<Rightarrow> (int \<Rightarrow> jsstr option) option \<Rightarrow> (DeviceProfileSummary \<Rightarrow> bool) option \<Rightarrow> InstallResolution" where
  "resolveProfileInstall pkg context capabilityPackForOpcode matchesInstalled =
     (let known = (case ci_knownOpcodes context of None \<Rightarrow> DEFAULT_KNOWN_OPCODES | Some ks \<Rightarrow> ks);
          missing = filter (\<lambda>n. n \<notin> set known) (pk_opcodeDependencies pkg);
          same = filter (\<lambda>p. dps_profileId p = pk_profileId pkg \<and> dps_version p = pk_version pkg) (ci_installedProfiles context) in
      if missing \<noteq> [] then FIRMWARE_UPDATE_REQUIRED missing (suggested capabilityPackForOpcode missing)
      else if (case ci_availableCapabilities context of None \<Rightarrow> False | Some a \<Rightarrow> missing_bits (pk_requiredCapabilities pkg) a)
      then HARDWARE_INCOMPATIBLE
      else if same \<noteq> []
      then (if (case matchesInstalled of None \<Rightarrow> False | Some f \<Rightarrow> list_ex f same) then INSTALL_READY else VERSION_CONFLICT)
      else if (case ci_resources context of None \<Rightarrow> False | Some r \<Rightarrow> pool_capacity (res_profiles r) \<le> pool_used (res_profiles r))
      then RESOURCE_INCOMPATIBLE
      else PROFILE_INSTALL_REQUIRED)"

section \<open>The merged catalog\<close>

datatype ProfileSource = BuiltIn | Local | FromMarketplace

type_synonym CatalogedPackage = "ProfileSource \<times> DeviceProfilePackage"

definition identity_of :: "DeviceProfilePackage \<Rightarrow> jsstr" where
  "identity_of p = pk_profileId p @ js ''@'' @ decimal (pk_version p)"

definition put_package :: "ProfileSource \<Rightarrow> DeviceProfilePackage \<Rightarrow> (jsstr, CatalogedPackage) jsmap \<Rightarrow> (jsstr, CatalogedPackage) jsmap" where
  "put_package source p = jm_put (identity_of p) (source, p)"

definition mergeProfileCatalog :: "DeviceProfilePackage list \<Rightarrow> DeviceProfilePackage list \<Rightarrow> DeviceProfilePackage list \<Rightarrow> CatalogedPackage list" where
  "mergeProfileCatalog builtIn locals marketplace =
     sort_key (\<lambda>c. pk_profileId (snd c)) (sort_key (\<lambda>c. pk_version (snd c))
       (map snd (fold (put_package BuiltIn) builtIn (fold (put_package Local) locals (fold (put_package FromMarketplace) marketplace [])))))"

section \<open>A module of an installed profile\<close>

definition DECLARATIVE_DEVICE_DRIVER_TYPE_ID :: jsstr where
  "DECLARATIVE_DEVICE_DRIVER_TYPE_ID = js ''declarative-device''"

record ModuleInstantiationChoice =
  mi_portId :: int
  mi_bayId :: int
  mi_railId :: int
  mi_electricalMode :: ElectricalMode
  mi_endpoint :: "ModuleEndpoint option"
  mi_properties :: "(jsstr \<times> js_value) list option"

definition instantiateModuleFromProfile :: "DeviceProfileSummary \<Rightarrow> ModuleInstantiationChoice \<Rightarrow> ModuleNodeData" where
  "instantiateModuleFromProfile installed choice =
     \<lparr>mn_moduleKey = None, mn_driverTypeId = DECLARATIVE_DEVICE_DRIVER_TYPE_ID, mn_profileId = Some (dps_profileId installed),
      mn_portId = mi_portId choice, mn_bayId = mi_bayId choice, mn_railId = mi_railId choice, mn_endpoint = mi_endpoint choice,
      mn_electricalMode = mi_electricalMode choice,
      mn_properties = (case mi_properties choice of None \<Rightarrow> [] | Some ps \<Rightarrow> ps)\<rparr>"

section \<open>Calls of a Core\<close>

text \<open>What a rejected call throws: its \<open>code\<close> when that is a string, its \<open>status\<close> when that is a number, and its message.\<close>

record wire_cause =
  wr_code :: "jsstr option"
  wr_status :: "int option"
  wr_detail :: jsstr

datatype 'r profile_wire =
    Settled 'r
  | AskProfileList "wire_cause + DeviceProfileSummary list \<Rightarrow> 'r profile_wire"
  | AskValidateProfile bytes "wire_cause + int \<Rightarrow> 'r profile_wire"
  | AskInstallProfile bytes "wire_cause + unit \<Rightarrow> 'r profile_wire"
  | AskRemoveProfile bytes int "wire_cause + unit \<Rightarrow> 'r profile_wire"

record 's profile_client =
  pc_list :: "'s \<Rightarrow> (wire_cause + DeviceProfileSummary list) \<times> 's"
  pc_validate :: "bytes \<Rightarrow> 's \<Rightarrow> (wire_cause + int) \<times> 's"
  pc_install :: "bytes \<Rightarrow> 's \<Rightarrow> (wire_cause + unit) \<times> 's"
  pc_remove :: "bytes \<Rightarrow> int \<Rightarrow> 's \<Rightarrow> (wire_cause + unit) \<times> 's"

primrec run_profile :: "'s profile_client \<Rightarrow> 'r profile_wire \<Rightarrow> 's \<Rightarrow> 'r \<times> 's" where
  "run_profile client (Settled r) = (\<lambda>s. (r, s))"
| "run_profile client (AskProfileList k) = (\<lambda>s. case pc_list client s of (a, t) \<Rightarrow> run_profile client (k a) t)"
| "run_profile client (AskValidateProfile bs k) = (\<lambda>s. case pc_validate client bs s of (a, t) \<Rightarrow> run_profile client (k a) t)"
| "run_profile client (AskInstallProfile bs k) = (\<lambda>s. case pc_install client bs s of (a, t) \<Rightarrow> run_profile client (k a) t)"
| "run_profile client (AskRemoveProfile bs v k) = (\<lambda>s. case pc_remove client bs v s of (a, t) \<Rightarrow> run_profile client (k a) t)"

section \<open>Errors\<close>

definition install_error :: "string \<Rightarrow> string \<Rightarrow> jsstr \<Rightarrow> DomainError" where
  "install_error code place target = domainError (''device-profile-install.'' @ code) [js ''device-profile-install'', js place] target"

definition status_target :: "int \<Rightarrow> string option" where
  "status_target status =
     (if status = 4 then Some ''status=CONFLICT'' else if status = 8 then Some ''status=RESOURCE_EXHAUSTED''
      else if status = 2 then Some ''status=UNSUPPORTED'' else if status = 1 then Some ''status=INVALID_ARGUMENT''
      else if status = 9 then Some ''status=MALFORMED_REQUEST'' else if status = 7 then Some ''status=TIMEOUT''
      else if status = 6 then Some ''status=UNAVAILABLE'' else if status = 10 then Some ''status=INTERNAL_ERROR'' else None)"

definition protocol_status :: "wire_cause \<Rightarrow> int option" where
  "protocol_status cause = (if wr_code cause = Some (js ''PROTOCOL_ERROR'') then wr_status cause else None)"

definition client_target :: "string \<Rightarrow> wire_cause \<Rightarrow> string" where
  "client_target operation cause =
     (if wr_code cause = Some (js ''TIMEOUT'') then ''client=TIMEOUT'' else if wr_code cause = Some (js ''CANCELLED'') then ''client=CANCELLED''
      else if wr_code cause = Some (js ''REBOOT_DURING_REQUEST'') then ''client=REBOOT_DURING_REQUEST'' else operation)"

definition wireFailure :: "string \<Rightarrow> wire_cause \<Rightarrow> DomainError" where
  "wireFailure operation cause =
     (if protocol_status cause = Some 5 then install_error ''profile_in_use'' operation (js ''status=BUSY'')
      else install_error ''remote_validation_failed'' operation
        (js (case Option.bind (protocol_status cause) status_target of Some t \<Rightarrow> t | None \<Rightarrow> client_target operation cause)))"

text \<open>The test of a regular expression that is a plain word, without regard to the case of ASCII letters.\<close>

definition ascii_lower :: "jsstr \<Rightarrow> jsstr" where
  "ascii_lower s = map (\<lambda>u. if 65 \<le> u \<and> u \<le> 90 then u + 32 else u) s"

definition mentions :: "string \<Rightarrow> jsstr \<Rightarrow> bool" where
  "mentions w s \<longleftrightarrow> (let p = ascii_lower (js w); t = ascii_lower s in
     list_ex (\<lambda>n. take (length p) (drop n t) = p) [0..<Suc (length t)])"

definition soft_failure :: "wire_cause \<Rightarrow> bool" where
  "soft_failure cause \<longleftrightarrow> mentions ''ValidateDeviceProfileResponse'' (wr_detail cause) \<or>
     mentions ''field 0 must be a uint'' (wr_detail cause) \<or> mentions ''ProtocolCodecError'' (wr_detail cause)"

section \<open>Installation and removal\<close>

definition same_profile :: "DeviceProfileDraft \<Rightarrow> DeviceProfileSummary \<Rightarrow> bool" where
  "same_profile d p \<longleftrightarrow> dps_profileId p = dd_profileId d \<and> dps_version p = dd_version d"

definition at_version :: "jsstr \<Rightarrow> int \<Rightarrow> jsstr" where
  "at_version profileId version = profileId @ js ''@'' @ decimal version"

definition verify_installed :: "(bytes \<Rightarrow> bytes) \<Rightarrow> DeviceProfileDraft \<Rightarrow> bytes \<Rightarrow> (DomainError + DeviceProfileSummary) profile_wire" where
  "verify_installed sha256 d cbor =
     AskProfileList (\<lambda>answer. Settled (case answer of
       Inl cause \<Rightarrow> Inl (wireFailure ''getFullDeviceProfileList'' cause)
     | Inr installed \<Rightarrow>
         (case find (same_profile d) installed of
            None \<Rightarrow> Inl (install_error ''not_found_after_install'' ''installProfile'' (at_version (dd_profileId d) (dd_version d)))
          | Some p \<Rightarrow>
              if dps_hash p \<noteq> sha256 cbor
              then Inl (install_error ''hash_verification_failed'' ''installProfile'' (at_version (dd_profileId d) (dd_version d)))
              else Inr p)))"

definition install_bytes :: "(bytes \<Rightarrow> bytes) \<Rightarrow> DeviceProfileDraft \<Rightarrow> bytes \<Rightarrow> (DomainError + DeviceProfileSummary) profile_wire" where
  "install_bytes sha256 d cbor =
     AskInstallProfile cbor (\<lambda>answer. case answer of
       Inl cause \<Rightarrow> Settled (Inl (wireFailure ''installDeviceProfile'' cause))
     | Inr _ \<Rightarrow> verify_installed sha256 d cbor)"

definition validate_and_install :: "(bytes \<Rightarrow> bytes) \<Rightarrow> DeviceProfileDraft \<Rightarrow> bytes \<Rightarrow> (DomainError + DeviceProfileSummary) profile_wire" where
  "validate_and_install sha256 d cbor =
     AskValidateProfile cbor (\<lambda>answer. case answer of
       Inr valid \<Rightarrow>
         if valid = 0 then Settled (Inl (install_error ''remote_validation_failed'' ''validateDeviceProfile'' (dd_profileId d)))
         else install_bytes sha256 d cbor
     | Inl cause \<Rightarrow>
         if soft_failure cause then install_bytes sha256 d cbor
         else Settled (Inl (wireFailure ''validateDeviceProfile'' cause)))"

definition installProfile :: "(bytes \<Rightarrow> bytes) \<Rightarrow> bool \<Rightarrow> DeviceProfileDraft \<Rightarrow> codec_error + (DomainError + DeviceProfileSummary) profile_wire" where
  "installProfile sha256 reuseInstalled d =
     mapE (\<lambda>cbor.
       if reuseInstalled
       then AskProfileList (\<lambda>answer. case answer of
              Inl cause \<Rightarrow> Settled (Inl (wireFailure ''getFullDeviceProfileList'' cause))
            | Inr installed \<Rightarrow>
                (case find (\<lambda>p. same_profile d p \<and> dps_hash p = sha256 cbor) installed of
                   Some p \<Rightarrow> Settled (Inr p)
                 | None \<Rightarrow> validate_and_install sha256 d cbor))
       else validate_and_install sha256 d cbor)
     (encodeDeviceProfileCbor d)"

definition removeProfile :: "jsstr \<Rightarrow> int \<Rightarrow> bool \<Rightarrow> (DomainError + unit) profile_wire" where
  "removeProfile profileId version isReferencedLocally =
     (if isReferencedLocally then Settled (Inl (install_error ''profile_in_use'' ''removeProfile'' (at_version profileId version)))
      else AskRemoveProfile (utf8_encode profileId) version (\<lambda>answer. Settled (case answer of
        Inl cause \<Rightarrow> Inl (wireFailure ''removeProfile'' cause)
      | Inr _ \<Rightarrow> Inr ())))"

section \<open>What a successful installation means\<close>

lemma find_in: "find P xs = Some x \<Longrightarrow> x \<in> set xs \<and> P x"
  by (auto simp: find_Some_iff)

text \<open>The last call was a listing, and it named the profile with the hash of the bytes.\<close>

definition listed_last :: "'s profile_client \<Rightarrow> (bytes \<Rightarrow> bytes) \<Rightarrow> DeviceProfileDraft \<Rightarrow> bytes \<Rightarrow> DeviceProfileSummary \<Rightarrow> 's \<Rightarrow> bool" where
  "listed_last client sha256 d cbor p t \<longleftrightarrow>
     (\<exists>s ps. pc_list client s = (Inr ps, t) \<and> p \<in> set ps \<and> same_profile d p \<and> dps_hash p = sha256 cbor)"

lemma verified_listed:
  assumes "run_profile client (verify_installed sha256 d cbor) s = (Inr p, t)"
  shows "listed_last client sha256 d cbor p t"
proof -
  obtain answer u where a: "pc_list client s = (answer, u)" by (cases "pc_list client s")
  with assms obtain ps where "answer = Inr ps" "u = t" "find (same_profile d) ps = Some p" "dps_hash p = sha256 cbor"
    by (auto simp: verify_installed_def split: sum.splits option.splits if_splits)
  moreover from this have "p \<in> set ps \<and> same_profile d p" by (auto dest: find_in)
  ultimately show ?thesis using a unfolding listed_last_def by blast
qed

lemma bytes_listed:
  assumes "run_profile client (install_bytes sha256 d cbor) s = (Inr p, t)"
  shows "listed_last client sha256 d cbor p t"
proof -
  obtain answer u where "pc_install client cbor s = (answer, u)" by (cases "pc_install client cbor s")
  with assms have "run_profile client (verify_installed sha256 d cbor) u = (Inr p, t)"
    by (auto simp: install_bytes_def split: sum.splits)
  then show ?thesis by (rule verified_listed)
qed

lemma validated_listed:
  assumes "run_profile client (validate_and_install sha256 d cbor) s = (Inr p, t)"
  shows "listed_last client sha256 d cbor p t"
proof -
  obtain answer u where "pc_validate client cbor s = (answer, u)" by (cases "pc_validate client cbor s")
  with assms have "run_profile client (install_bytes sha256 d cbor) u = (Inr p, t)"
    by (auto simp: validate_and_install_def split: sum.splits if_splits)
  then show ?thesis by (rule bytes_listed)
qed

lemma installed_listed:
  assumes "installProfile sha256 reuse d = Inr tree" and "run_profile client tree s = (Inr p, t)"
  shows "\<exists>cbor. encodeDeviceProfileCbor d = Inr cbor \<and> listed_last client sha256 d cbor p t"
proof -
  from assms(1) obtain cbor where e: "encodeDeviceProfileCbor d = Inr cbor"
    by (auto simp: installProfile_def mapE_Inr_iff)
  show ?thesis
  proof (cases reuse)
    case False
    with assms e have "run_profile client (validate_and_install sha256 d cbor) s = (Inr p, t)" by (simp add: installProfile_def)
    from validated_listed [OF this] e show ?thesis by blast
  next
    case True
    obtain answer u where a: "pc_list client s = (answer, u)" by (cases "pc_list client s")
    with True assms e obtain ps where ps: "answer = Inr ps"
      and r: "case find (\<lambda>p. same_profile d p \<and> dps_hash p = sha256 cbor) ps of Some q \<Rightarrow> q = p \<and> u = t
        | None \<Rightarrow> run_profile client (validate_and_install sha256 d cbor) u = (Inr p, t)"
      by (auto simp: installProfile_def split: sum.splits option.splits)
    show ?thesis
    proof (cases "find (\<lambda>p. same_profile d p \<and> dps_hash p = sha256 cbor) ps")
      case None
      with r have "run_profile client (validate_and_install sha256 d cbor) u = (Inr p, t)" by simp
      from validated_listed [OF this] e show ?thesis by blast
    next
      case (Some q)
      with find_in [OF Some] r ps a e show ?thesis by (auto simp: listed_last_def)
    qed
  qed
qed

text \<open>A Core tells the truth when every profile it lists is one it holds, under the hash of its bytes.\<close>

definition truthful_profiles :: "(bytes \<Rightarrow> bytes) \<Rightarrow> ('s \<Rightarrow> jsstr \<times> int \<Rightarrow> bytes option) \<Rightarrow> 's profile_client \<Rightarrow> bool" where
  "truthful_profiles sha256 held client \<longleftrightarrow>
     (\<forall>s ps t. pc_list client s = (Inr ps, t) \<longrightarrow>
        (\<forall>p\<in>set ps. \<exists>bs. held t (dps_profileId p, dps_version p) = Some bs \<and> dps_hash p = sha256 bs))"

lemma installed_held:
  assumes "installProfile sha256 reuse d = Inr tree" and "run_profile client tree s = (Inr p, t)"
    and "truthful_profiles sha256 held client" and "draft_ok d"
  shows "\<exists>bs cbor. held t (dd_profileId d, dd_version d) = Some bs \<and> encodeDeviceProfileCbor d = Inr cbor \<and> sha256 bs = sha256 cbor \<and>
     (bs = cbor \<longrightarrow> decodeDeviceProfileCbor bs = Inr (with_actions d))"
proof -
  from installed_listed [OF assms(1,2)] obtain cbor where e: "encodeDeviceProfileCbor d = Inr cbor"
    and "listed_last client sha256 d cbor p t" by blast
  then obtain s' ps where "pc_list client s' = (Inr ps, t)" "p \<in> set ps" and p: "same_profile d p" "dps_hash p = sha256 cbor"
    by (auto simp: listed_last_def)
  with assms(3) obtain bs where "held t (dps_profileId p, dps_version p) = Some bs" "dps_hash p = sha256 bs"
    unfolding truthful_profiles_def by blast
  moreover have "decodeDeviceProfileCbor cbor = Inr (with_actions d)"
    using profile_roundtrip [OF assms(4)] e by (simp add: malformed_root_def)
  ultimately show ?thesis using p e by (auto simp: same_profile_def)
qed

text \<open>A profile the project uses is not removed: nothing is asked of the Core.\<close>

lemma used_profile_kept: "\<exists>e. run_profile client (removeProfile i v True) s = (Inl e, s) \<and> de_code e = ''device-profile-install.profile_in_use''"
  by (simp add: removeProfile_def install_error_def domainError_def)

section \<open>Packages and their dependencies\<close>

lemma dependencies_exact: "set (computeOpcodeDependencies d) = opcode ` set (allOps d)" "sorted (computeOpcodeDependencies d)"
  "distinct (computeOpcodeDependencies d)"
  by (simp_all add: computeOpcodeDependencies_def)

lemma opcode_known: "opcode i \<in> set DEFAULT_KNOWN_OPCODES"
  by (cases i) (simp_all add: DEFAULT_KNOWN_OPCODES_def)

text \<open>A package with the dependencies of its own draft needs no new firmware by the default vocabulary.\<close>

lemma default_vocabulary_suffices:
  assumes "pk_opcodeDependencies pkg = computeOpcodeDependencies d" and "ci_knownOpcodes context = None"
  shows "resolveProfileInstall pkg context packFor matches \<noteq> FIRMWARE_UPDATE_REQUIRED ops packs"
proof -
  have "filter (\<lambda>n. n \<notin> set DEFAULT_KNOWN_OPCODES) (pk_opcodeDependencies pkg) = []"
    using opcode_known by (auto simp: assms(1) filter_empty_conv dependencies_exact)
  then show ?thesis by (simp add: resolveProfileInstall_def assms(2) Let_def)
qed

lemma install_resolution_exact:
  "resolveProfileInstall pkg context packFor matches = PROFILE_INSTALL_REQUIRED \<longleftrightarrow>
     set (pk_opcodeDependencies pkg) \<subseteq> set (case ci_knownOpcodes context of None \<Rightarrow> DEFAULT_KNOWN_OPCODES | Some ks \<Rightarrow> ks) \<and>
     (case ci_availableCapabilities context of None \<Rightarrow> True | Some a \<Rightarrow> \<not> missing_bits (pk_requiredCapabilities pkg) a) \<and>
     (\<forall>p\<in>set (ci_installedProfiles context). (dps_profileId p, dps_version p) \<noteq> (pk_profileId pkg, pk_version pkg)) \<and>
     (case ci_resources context of None \<Rightarrow> True | Some r \<Rightarrow> pool_used (res_profiles r) < pool_capacity (res_profiles r))"
  by (auto simp: resolveProfileInstall_def Let_def filter_empty_conv split: option.splits)

text \<open>An identity names one entry of the merged catalog, and built-in packages are never shadowed.\<close>

lemma put_packages:
  "jm_get (fold (put_package src) ps m) k =
     (case filter (\<lambda>p. identity_of p = k) ps of [] \<Rightarrow> jm_get m k | q # qs \<Rightarrow> Some (src, List.last (q # qs)))"
proof (induction ps arbitrary: m)
  case (Cons p ps)
  then show ?case
    by (cases "filter (\<lambda>p. identity_of p = k) ps") (auto simp: put_package_def update_conv')
qed simp

definition merged_table :: "DeviceProfilePackage list \<Rightarrow> DeviceProfilePackage list \<Rightarrow> DeviceProfilePackage list \<Rightarrow> (jsstr, CatalogedPackage) jsmap" where
  "merged_table builtIn locals marketplace = fold (put_package BuiltIn) builtIn (fold (put_package Local) locals (fold (put_package FromMarketplace) marketplace []))"

lemma put_packages_wf: "jm_wf m \<Longrightarrow> jm_wf (fold (put_package src) ps m)"
  by (induction ps arbitrary: m) (auto simp: put_package_def jm_wf_def distinct_update)

lemma put_packages_keyed:
  "\<forall>(k, c)\<in>set m. k = identity_of (snd c) \<Longrightarrow> \<forall>(k, c)\<in>set (fold (put_package src) ps m). k = identity_of (snd c)"
proof (induction ps arbitrary: m)
  case (Cons p ps)
  have "set (jm_put (identity_of p) (src, p) m) \<subseteq> insert (identity_of p, (src, p)) (set m)"
    by (induction m) auto
  with Cons.prems have "\<forall>(k, c)\<in>set (put_package src p m). k = identity_of (snd c)" unfolding put_package_def by fastforce
  from Cons.IH [OF this] show ?case by simp
qed simp

lemma built_in_never_shadowed:
  assumes "(source, p) \<in> set (mergeProfileCatalog builtIn locals marketplace)"
  shows "(source = BuiltIn \<longrightarrow> p \<in> set builtIn) \<and> (source \<noteq> BuiltIn \<longrightarrow> identity_of p \<notin> identity_of ` set builtIn)"
proof -
  let ?t = "merged_table builtIn locals marketplace"
  have wf: "jm_wf ?t" unfolding merged_table_def by (intro put_packages_wf) (simp add: jm_wf_def)
  have keyed: "\<forall>(k, c)\<in>set ?t. k = identity_of (snd c)" unfolding merged_table_def by (intro put_packages_keyed) simp
  from assms obtain k where k: "(k, (source, p)) \<in> set ?t"
    by (auto simp: mergeProfileCatalog_def merged_table_def)
  with keyed have "k = identity_of p" by auto
  with k wf have g: "jm_get ?t (identity_of p) = Some (source, p)" by (simp add: jm_get_in)
  define below where "below = fold (put_package Local) locals (fold (put_package FromMarketplace) marketplace [])"
  have lower: "source' \<noteq> BuiltIn" if "jm_get below k' = Some (source', q)" for k' source' q
    using that unfolding below_def by (auto simp: put_packages split: list.splits)
  show ?thesis
  proof (cases "filter (\<lambda>q. identity_of q = identity_of p) builtIn")
    case Nil
    with g lower have "source \<noteq> BuiltIn" by (simp add: merged_table_def put_packages below_def [symmetric])
    with Nil show ?thesis by (auto simp: filter_empty_conv)
  next
    case (Cons q qs)
    with g have "source = BuiltIn" "p = List.last (q # qs)" by (simp_all add: merged_table_def put_packages)
    moreover have "List.last (q # qs) \<in> set (filter (\<lambda>q. identity_of q = identity_of p) builtIn)"
      unfolding Cons by (rule last_in_set) simp
    ultimately show ?thesis by simp
  qed
qed

end
