(* ===== verification/Autosave.thy ===== *)
theory Autosave
  imports Schema
begin

text \<open>
  The autosave store of projects, \<open>project-store/src/project-autosave-store.ts\<close>, the plain repository of
  \<open>project-repository.ts\<close>, and the migrations of \<open>domain/src/project-migrations.ts\<close>. The storage is a table of texts; a
  save reads it first and is then the list of its writes, so that it can be interrupted after any of them and can
  overlap another. Parameters: \<open>parse\<close> and \<open>stringify\<close> are those of JSON, \<open>export\<close> is the text of a project, \<open>float\<close>
  and \<open>number\<close> turn an integer into a double and back (rounding down), \<open>str\<close> is \<open>String()\<close>, \<open>now\<close> the clock. An entry of the
  history of another shape, which the store never writes, is read as revision -1.
\<close>

type_synonym project = "(jsstr \<times> js_value) list"
type_synonym storage = "(jsstr, jsstr) jsmap"

record autosave_ports =
  ap_parse :: "jsstr \<Rightarrow> js_value option"
  ap_stringify :: "js_value \<Rightarrow> jsstr"
  ap_export :: "project \<Rightarrow> jsstr"
  ap_str :: "js_value \<Rightarrow> jsstr"
  ap_float :: "int \<Rightarrow> float64"
  ap_number :: "float64 \<Rightarrow> int"
  ap_now :: jsstr
  ap_maxHistory :: nat

section \<open>Keys\<close>

definition DEFAULT_MAX_HISTORY :: nat where "DEFAULT_MAX_HISTORY = 10"

definition revPrefix :: "jsstr \<Rightarrow> jsstr" where
  "revPrefix p = js ''project:'' @ p @ js '':rev:''"

definition revKey :: "jsstr \<Rightarrow> int \<Rightarrow> jsstr" where
  "revKey p n = js ''project:'' @ p @ js '':rev:'' @ decimal n"

definition metaKey :: "jsstr \<Rightarrow> jsstr" where
  "metaKey p = js ''project:'' @ p @ js '':meta''"

definition migrationBackupKey :: "jsstr \<Rightarrow> int \<Rightarrow> jsstr" where
  "migrationBackupKey p n = js ''project:'' @ p @ js '':backup:pre-migration:'' @ decimal n"

text \<open>\<open>storage.keys(prefix)\<close>, and \<open>Number.parseInt(s, 10)\<close>.\<close>

definition storage_keys :: "jsstr \<Rightarrow> storage \<Rightarrow> jsstr list" where
  "storage_keys prefix st = filter (\<lambda>k. take (length prefix) k = prefix) (jm_keys st)"

definition parseInt10 :: "jsstr \<Rightarrow> int option" where
  "parseInt10 s =
     (let t = dropWhile white_unit s; negative = (t \<noteq> [] \<and> hd t = 45);
          u = (if t \<noteq> [] \<and> (hd t = 45 \<or> hd t = 43) then tl t else t); digits = takeWhile digit_unit u in
      if digits = [] then None else Some (js_number (if negative then - int (index_value digits) else int (index_value digits))))"

section \<open>Migrations\<close>

text \<open>A registry: from a version to the version after it and the function between them.\<close>

type_synonym migrations = "(int, int \<times> (project \<Rightarrow> project)) jsmap"

definition register_migration :: "int \<Rightarrow> int \<Rightarrow> (project \<Rightarrow> project) \<Rightarrow> migrations \<Rightarrow> migrations" where
  "register_migration from_v to_v f = jm_put from_v (to_v, f)"

definition migration_not_found :: "int \<Rightarrow> DomainError" where
  "migration_not_found v = domainError ''domain.schema.migration_not_found'' [js ''schemaVersion''] (decimal v)"

partial_function (option) migrate_loop ::
  "(int \<Rightarrow> float64) \<Rightarrow> migrations \<Rightarrow> int \<Rightarrow> int \<Rightarrow> project \<Rightarrow> (DomainError + project) option" where
  "migrate_loop float ms target version current =
     (if version < target then
        (case jm_get ms version of
           None \<Rightarrow> Some (Inl (migration_not_found version))
         | Some step \<Rightarrow> migrate_loop float ms target (fst step)
             (jm_put (js ''schemaVersion'') (JNumber (float (fst step))) (snd step current)))
      else Some (Inr current))"

definition schema_version :: "(float64 \<Rightarrow> int) \<Rightarrow> project \<Rightarrow> int option" where
  "schema_version number kvs = (case property kvs ''schemaVersion'' of JNumber f \<Rightarrow> Some (number f) | _ \<Rightarrow> None)"

definition migrateToVersion ::
  "(int \<Rightarrow> float64) \<Rightarrow> (float64 \<Rightarrow> int) \<Rightarrow> migrations \<Rightarrow> project \<Rightarrow> int \<Rightarrow> (DomainError + project) option" where
  "migrateToVersion float number ms raw target =
     migrate_loop float ms target (case schema_version number raw of None \<Rightarrow> 0 | Some v \<Rightarrow> v) raw"

definition migrateProjectToLatest :: "(int \<Rightarrow> float64) \<Rightarrow> (float64 \<Rightarrow> int) \<Rightarrow> project \<Rightarrow> (DomainError + project) option" where
  "migrateProjectToLatest float number raw = migrateToVersion float number [] raw 1"

section \<open>The index of a project\<close>

record ProjectHistoryEntry =
  he_revision :: int
  he_updatedAt :: js_value

record ProjectMeta =
  pm_head :: ProjectHistoryEntry
  pm_history :: "ProjectHistoryEntry list"

fun isNumber :: "js_value \<Rightarrow> bool" where
  "isNumber (JNumber f) = True"
| "isNumber v = False"

fun fields_of :: "js_value \<Rightarrow> (jsstr \<times> js_value) list" where
  "fields_of (JObject kvs) = kvs"
| "fields_of v = []"

definition isProjectMeta :: "js_value \<Rightarrow> bool" where
  "isProjectMeta v \<longleftrightarrow> isNumber (property (fields_of (property (fields_of v) ''head'')) ''revision'') \<and> isArray (property (fields_of v) ''history'')"

fun history_entry :: "(float64 \<Rightarrow> int) \<Rightarrow> js_value \<Rightarrow> ProjectHistoryEntry" where
  "history_entry number v =
     \<lparr>he_revision = (case property (fields_of v) ''revision'' of JNumber f \<Rightarrow> number f | _ \<Rightarrow> -1),
      he_updatedAt = property (fields_of v) ''updatedAt''\<rparr>"

definition project_meta :: "(float64 \<Rightarrow> int) \<Rightarrow> js_value \<Rightarrow> ProjectMeta option" where
  "project_meta number v =
     (if isProjectMeta v
      then Some \<lparr>pm_head = history_entry number (property (fields_of v) ''head''),
                pm_history = map (history_entry number) (case property (fields_of v) ''history'' of JArray es \<Rightarrow> es | _ \<Rightarrow> [])\<rparr>
      else None)"

definition entry_value :: "(int \<Rightarrow> float64) \<Rightarrow> ProjectHistoryEntry \<Rightarrow> js_value" where
  "entry_value float e = JObject [(js ''revision'', JNumber (float (he_revision e))), (js ''updatedAt'', he_updatedAt e)]"

definition meta_value :: "(int \<Rightarrow> float64) \<Rightarrow> ProjectMeta \<Rightarrow> js_value" where
  "meta_value float m = JObject [(js ''head'', entry_value float (pm_head m)), (js ''history'', JArray (map (entry_value float) (pm_history m)))]"

definition snapshot_entry :: "autosave_ports \<Rightarrow> jsstr \<Rightarrow> storage \<Rightarrow> int \<Rightarrow> ProjectHistoryEntry list" where
  "snapshot_entry ports p st n =
     (case jm_get st (revKey p n) of
        None \<Rightarrow> []
      | Some content \<Rightarrow>
          (case importProjectV1 (ap_parse ports) (ap_str ports) content of
             Inl _ \<Rightarrow> []
           | Inr _ \<Rightarrow> [\<lparr>he_revision = n, he_updatedAt = JString (ap_now ports)\<rparr>]))"

definition stored_revisions :: "jsstr \<Rightarrow> storage \<Rightarrow> int list" where
  "stored_revisions p st =
     rev (sort (concat (map (\<lambda>k. case parseInt10 (drop (length (revPrefix p)) k) of None \<Rightarrow> [] | Some n \<Rightarrow> [n]) (storage_keys (revPrefix p) st))))"

definition reconstructMeta :: "autosave_ports \<Rightarrow> jsstr \<Rightarrow> storage \<Rightarrow> ProjectMeta option" where
  "reconstructMeta ports p st =
     (case concat (map (snapshot_entry ports p st) (take (ap_maxHistory ports) (stored_revisions p st))) of
        [] \<Rightarrow> None
      | e # es \<Rightarrow> Some \<lparr>pm_head = e, pm_history = e # es\<rparr>)"

definition readMeta :: "autosave_ports \<Rightarrow> jsstr \<Rightarrow> storage \<Rightarrow> ProjectMeta option" where
  "readMeta ports p st =
     (case Option.bind (Option.bind (jm_get st (metaKey p)) (ap_parse ports)) (project_meta (ap_number ports)) of
        Some m \<Rightarrow> Some m
      | None \<Rightarrow> reconstructMeta ports p st)"

section \<open>Loading\<close>

definition noRecoverableRevision :: "jsstr \<Rightarrow> jsstr list \<Rightarrow> DomainError" where
  "noRecoverableRevision p path = domainError ''project-store.load.no_recoverable_revision'' ([js ''projectAutosaveStore'', js ''load''] @ path) p"

record LoadedProject =
  lp_project :: project
  lp_revision :: int

text \<open>\<open>None\<close> is an exception: a property of \<open>null\<close> is read, or a migration loops.\<close>

type_synonym load_answer = "(DomainError list + LoadedProject) option \<times> storage"

definition migrate_revision :: "autosave_ports \<Rightarrow> jsstr \<Rightarrow> int \<Rightarrow> jsstr \<Rightarrow> project \<Rightarrow> int \<Rightarrow> storage \<Rightarrow> load_answer" where
  "migrate_revision ports p n raw kvs fromVersion st =
     (map_option (\<lambda>migrated. case migrated of
          Inl e \<Rightarrow> Inl [e]
        | Inr current \<Rightarrow> mapE (\<lambda>project. \<lparr>lp_project = project, lp_revision = n\<rparr>) (validateProjectV1 (ap_str ports) (JObject current)))
        (migrateProjectToLatest (ap_float ports) (ap_number ports) kvs),
      jm_put (migrationBackupKey p fromVersion) raw st)"

definition loadRevision :: "autosave_ports \<Rightarrow> jsstr \<Rightarrow> int \<Rightarrow> storage \<Rightarrow> load_answer" where
  "loadRevision ports p n st =
     (case jm_get st (revKey p n) of
        None \<Rightarrow> (Some (Inl [noRecoverableRevision p []]), st)
      | Some raw \<Rightarrow>
          (case ap_parse ports raw of
             None \<Rightarrow> (Some (Inl [noRecoverableRevision p [decimal n]]), st)
           | Some JNull \<Rightarrow> (None, st)
           | Some parsed \<Rightarrow>
               (case validateProjectV1 (ap_str ports) parsed of
                  Inr project \<Rightarrow> (Some (Inr \<lparr>lp_project = project, lp_revision = n\<rparr>), st)
                | Inl errors \<Rightarrow>
                    (case schema_version (ap_number ports) (fields_of parsed) of
                       None \<Rightarrow> (Some (Inl errors), st)
                     | Some fromVersion \<Rightarrow> migrate_revision ports p n raw (fields_of parsed) fromVersion st))))"

fun load_attempts :: "autosave_ports \<Rightarrow> jsstr \<Rightarrow> ProjectHistoryEntry list \<Rightarrow> storage \<Rightarrow> load_answer" where
  "load_attempts ports p [] st = (Some (Inl [noRecoverableRevision p []]), st)"
| "load_attempts ports p (e # es) st =
     (case loadRevision ports p (he_revision e) st of
        (None, t) \<Rightarrow> (None, t)
      | (Some (Inr loaded), t) \<Rightarrow> (Some (Inr loaded), t)
      | (Some (Inl _), t) \<Rightarrow> load_attempts ports p es t)"

definition load :: "autosave_ports \<Rightarrow> jsstr \<Rightarrow> storage \<Rightarrow> load_answer" where
  "load ports p st =
     (case readMeta ports p st of
        None \<Rightarrow> (Some (Inl [noRecoverableRevision p []]), st)
      | Some m \<Rightarrow> load_attempts ports p
          (pm_head m # filter (\<lambda>h. he_revision h \<noteq> he_revision (pm_head m)) (pm_history m)) st)"

section \<open>Saving\<close>

datatype storage_write = Put jsstr jsstr | Remove jsstr

fun apply_write :: "storage_write \<Rightarrow> storage \<Rightarrow> storage" where
  "apply_write (Put k v) st = jm_put k v st"
| "apply_write (Remove k) st = jm_del k st"

definition conflict :: "jsstr \<Rightarrow> DomainError" where
  "conflict p = domainError ''project-store.save.concurrent_write_conflict'' [js ''projectAutosaveStore'', js ''save''] p"

definition next_meta :: "autosave_ports \<Rightarrow> ProjectMeta option \<Rightarrow> ProjectMeta" where
  "next_meta ports meta =
     (let newHead = \<lparr>he_revision = (case meta of None \<Rightarrow> 0 | Some m \<Rightarrow> he_revision (pm_head m) + 1), he_updatedAt = JString (ap_now ports)\<rparr> in
      \<lparr>pm_head = newHead, pm_history = take (ap_maxHistory ports) (newHead # (case meta of None \<Rightarrow> [] | Some m \<Rightarrow> pm_history m))\<rparr>)"

definition save_writes :: "autosave_ports \<Rightarrow> jsstr \<Rightarrow> project \<Rightarrow> ProjectMeta option \<Rightarrow> storage_write list" where
  "save_writes ports p project meta =
     (let new = next_meta ports meta; retained = map he_revision (pm_history new) in
      [Put (revKey p (he_revision (pm_head new))) (ap_export ports project),
       Put (metaKey p) (ap_stringify ports (meta_value (ap_float ports) new))] @
      map (\<lambda>h. Remove (revKey p (he_revision h)))
        (filter (\<lambda>h. he_revision h \<notin> set retained) (case meta of None \<Rightarrow> [] | Some m \<Rightarrow> pm_history m)))"

definition save :: "autosave_ports \<Rightarrow> jsstr \<Rightarrow> project \<Rightarrow> int option \<Rightarrow> storage \<Rightarrow> DomainError + (ProjectHistoryEntry \<times> storage_write list)" where
  "save ports p project expectedRevision st =
     (let meta = readMeta ports p st in
      if map_option (\<lambda>m. he_revision (pm_head m)) meta \<noteq> expectedRevision then Inl (conflict p)
      else Inr (pm_head (next_meta ports meta), save_writes ports p project meta))"

definition autosave_history :: "autosave_ports \<Rightarrow> jsstr \<Rightarrow> storage \<Rightarrow> ProjectHistoryEntry list" where
  "autosave_history ports p st = (case readMeta ports p st of None \<Rightarrow> [] | Some m \<Rightarrow> pm_history m)"

section \<open>The plain repository\<close>

definition keyFor :: "jsstr \<Rightarrow> jsstr" where
  "keyFor p = js ''project:'' @ p"

definition repository_save :: "autosave_ports \<Rightarrow> jsstr \<Rightarrow> project \<Rightarrow> storage \<Rightarrow> storage" where
  "repository_save ports p project st = jm_put (keyFor p) (ap_export ports project) st"

definition repository_load :: "autosave_ports \<Rightarrow> jsstr \<Rightarrow> storage \<Rightarrow> DomainError list + project" where
  "repository_load ports p st =
     (case jm_get st (keyFor p) of
        None \<Rightarrow> Inl [domainError ''domain.id.dangling_reference'' [js ''projectStore'', js ''load''] p]
      | Some raw \<Rightarrow> importProjectV1 (ap_parse ports) (ap_str ports) raw)"

definition repository_remove :: "jsstr \<Rightarrow> storage \<Rightarrow> storage" where
  "repository_remove p st = jm_del (keyFor p) st"

definition listProjectIds :: "storage \<Rightarrow> jsstr list" where
  "listProjectIds st = map (drop 8) (storage_keys (js ''project:'') st)"

section \<open>What a save leaves behind\<close>

lemma key_eqs [simp]:
  "revKey p a = revKey p b \<longleftrightarrow> a = b" "revKey p a \<noteq> metaKey p" "metaKey p \<noteq> revKey p a"
  by (simp_all add: revKey_def metaKey_def js_def decimal_inj)

text \<open>The laws of the parameters: doubles carry the revisions, and JSON gives back the index and the project.\<close>

definition revision_ok :: "autosave_ports \<Rightarrow> int \<Rightarrow> bool" where
  "revision_ok ports n \<longleftrightarrow> ap_number ports (ap_float ports n) = n"

definition meta_ok :: "autosave_ports \<Rightarrow> ProjectMeta \<Rightarrow> bool" where
  "meta_ok ports m \<longleftrightarrow> revision_ok ports (he_revision (pm_head m)) \<and> (\<forall>h\<in>set (pm_history m). revision_ok ports (he_revision h)) \<and>
     ap_parse ports (ap_stringify ports (meta_value (ap_float ports) m)) = Some (meta_value (ap_float ports) m)"

definition exports :: "autosave_ports \<Rightarrow> project \<Rightarrow> project \<Rightarrow> bool" where
  "exports ports project saved \<longleftrightarrow>
     (\<exists>v. ap_parse ports (ap_export ports project) = Some v \<and> validateProjectV1 (ap_str ports) v = Inr saved)"

lemma entry_of_value: "revision_ok ports (he_revision e) \<Longrightarrow> history_entry (ap_number ports) (entry_value (ap_float ports) e) = e"
  by (cases e) (simp add: entry_value_def property_def revision_ok_def js_def)

lemma meta_of_value: "meta_ok ports m \<Longrightarrow> project_meta (ap_number ports) (meta_value (ap_float ports) m) = Some m"
proof -
  assume ok: "meta_ok ports m"
  then have "map (history_entry (ap_number ports)) (map (entry_value (ap_float ports)) (pm_history m)) = pm_history m"
    by (auto simp: meta_ok_def entry_of_value simp del: history_entry.simps intro!: map_idI)
  moreover have "isProjectMeta (meta_value (ap_float ports) m)"
    by (simp add: isProjectMeta_def meta_value_def entry_value_def property_def js_def)
  moreover have "property (fields_of (meta_value (ap_float ports) m)) ''head'' = entry_value (ap_float ports) (pm_head m)"
    "property (fields_of (meta_value (ap_float ports) m)) ''history'' = JArray (map (entry_value (ap_float ports)) (pm_history m))"
    by (simp_all add: meta_value_def property_def js_def)
  ultimately show ?thesis using ok by (simp add: project_meta_def meta_ok_def entry_of_value del: history_entry.simps)
qed

text \<open>The index names a revision whose text is a project: that is what is loaded.\<close>

definition holds_project :: "autosave_ports \<Rightarrow> jsstr \<Rightarrow> storage \<Rightarrow> ProjectMeta \<Rightarrow> project \<Rightarrow> bool" where
  "holds_project ports p st m project \<longleftrightarrow>
     Option.bind (Option.bind (jm_get st (metaKey p)) (ap_parse ports)) (project_meta (ap_number ports)) = Some m \<and>
     (\<exists>raw v. jm_get st (revKey p (he_revision (pm_head m))) = Some raw \<and> ap_parse ports raw = Some v \<and>
        validateProjectV1 (ap_str ports) v = Inr project)"

lemma load_current:
  assumes "holds_project ports p st m project"
  shows "load ports p st = (Some (Inr \<lparr>lp_project = project, lp_revision = he_revision (pm_head m)\<rparr>), st)"
proof -
  from assms obtain raw v where r: "jm_get st (revKey p (he_revision (pm_head m))) = Some raw" "ap_parse ports raw = Some v"
    "validateProjectV1 (ap_str ports) v = Inr project" by (auto simp: holds_project_def)
  then have "v \<noteq> JNull" by (auto simp: validateProjectV1_def)
  with r have "loadRevision ports p (he_revision (pm_head m)) st = (Some (Inr \<lparr>lp_project = project, lp_revision = he_revision (pm_head m)\<rparr>), st)"
    by (cases v) (simp_all add: loadRevision_def)
  with assms show ?thesis by (simp add: load_def readMeta_def holds_project_def)
qed

lemma current_meta: "holds_project ports p st m project \<Longrightarrow> readMeta ports p st = Some m"
  by (simp add: holds_project_def readMeta_def)

lemma removes_keep:
  "Remove k \<notin> set ws \<Longrightarrow> list_all (\<lambda>w. \<exists>k. w = Remove k) ws \<Longrightarrow> jm_get (fold apply_write ws st) k = jm_get st k"
  by (induction ws arbitrary: st) (auto simp: delete_conv' split: if_splits)

lemma after_save:
  assumes new: "new = next_meta ports meta" and "meta_ok ports new" and "exports ports project saved" and "0 < ap_maxHistory ports"
    and ws: "save_writes ports p project meta = w1 # w2 # rest"
  shows "holds_project ports p (fold apply_write (w1 # w2 # take n rest) st) new saved"
proof -
  let ?k = "revKey p (he_revision (pm_head new))"
  have w: "w1 = Put ?k (ap_export ports project)" "w2 = Put (metaKey p) (ap_stringify ports (meta_value (ap_float ports) new))"
    using ws by (simp_all add: save_writes_def Let_def new)
  have "pm_head new \<in> set (pm_history new)"
    using assms(4) by (cases "ap_maxHistory ports") (simp_all add: new next_meta_def Let_def)
  then have inside: "he_revision (pm_head new) \<in> he_revision ` set (pm_history new)" by (rule imageI)
  have rest: "rest = map (\<lambda>h. Remove (revKey p (he_revision h)))
      (filter (\<lambda>h. he_revision h \<notin> he_revision ` set (pm_history new)) (case meta of None \<Rightarrow> [] | Some m \<Rightarrow> pm_history m))"
    using ws by (simp add: save_writes_def Let_def new)
  have kept: "Remove ?k \<notin> set rest"
  proof
    assume "Remove ?k \<in> set rest"
    then obtain h where "Remove ?k = Remove (revKey p (he_revision h))"
      "h \<in> set (filter (\<lambda>h. he_revision h \<notin> he_revision ` set (pm_history new)) (case meta of None \<Rightarrow> [] | Some m \<Rightarrow> pm_history m))"
      unfolding rest set_map by (rule imageE)
    then have "he_revision (pm_head new) = he_revision h" "he_revision h \<notin> he_revision ` set (pm_history new)"
      by (simp_all only: storage_write.inject key_eqs set_filter mem_Collect_eq not_False_eq_True)
    with inside show False by simp
  qed
  have kept': "Remove (metaKey p) \<notin> set rest" "list_all (\<lambda>w. \<exists>k. w = Remove k) rest"
    unfolding rest by (auto simp: list_all_iff)
  have sub: "set (take n rest) \<subseteq> set rest" by (rule set_take_subset)
  with kept kept' have t: "Remove ?k \<notin> set (take n rest)" "Remove (metaKey p) \<notin> set (take n rest)" "list_all (\<lambda>w. \<exists>k. w = Remove k) (take n rest)"
    by (auto simp: list_all_iff)
  have "jm_get (fold apply_write (w1 # w2 # take n rest) st) ?k = Some (ap_export ports project)"
    using removes_keep [OF t(1) t(3)] by (simp add: w update_conv')
  moreover have "jm_get (fold apply_write (w1 # w2 # take n rest) st) (metaKey p) = Some (ap_stringify ports (meta_value (ap_float ports) new))"
    using removes_keep [OF t(2) t(3)] by (simp add: w update_conv')
  moreover have "ap_parse ports (ap_stringify ports (meta_value (ap_float ports) new)) = Some (meta_value (ap_float ports) new)"
    using assms(2) by (simp add: meta_ok_def)
  ultimately show ?thesis
    using assms(3) meta_of_value [OF assms(2)] by (auto simp: holds_project_def exports_def)
qed

lemma save_writes_shape: "\<exists>w1 w2 rest. save_writes ports p project meta = w1 # w2 # rest"
  by (simp add: save_writes_def Let_def)

text \<open>A save against another revision than the stored one is refused, and then writes nothing.\<close>

lemma stale_save_refused:
  "(\<exists>e. save ports p project expected st = Inl e) \<longleftrightarrow> map_option (\<lambda>m. he_revision (pm_head m)) (readMeta ports p st) \<noteq> expected"
  by (simp add: save_def Let_def)

lemma history_bounded: "save ports p project expected st = Inr (e, ws) \<Longrightarrow> length (pm_history (next_meta ports meta)) \<le> ap_maxHistory ports"
  by (simp add: next_meta_def Let_def)

text \<open>A snapshot with the text \<open>null\<close> is an exception, and older revisions are not tried.\<close>

lemma null_snapshot_throws:
  assumes "readMeta ports p st = Some m" and "jm_get st (revKey p (he_revision (pm_head m))) = Some raw" and "ap_parse ports raw = Some JNull"
  shows "fst (load ports p st) = None"
  using assms by (simp add: load_def loadRevision_def)

text \<open>
  A first save that is cut off after its first write has not returned, but its snapshot is found as revision 0: the project
  can be loaded, and saving it again as a new project is refused.
\<close>

lemma parse_zero: "parseInt10 (decimal 0) = Some 0"
  by code_simp

lemma interrupted_first_save:
  assumes "exports ports project saved" and "0 < ap_maxHistory ports"
  shows "\<exists>e ws. save ports p project None [] = Inr (e, ws) \<and> fst (load ports p (fold apply_write (take 1 ws) [])) = Some (Inr \<lparr>lp_project = saved, lp_revision = 0\<rparr>) \<and>
    save ports p again None (fold apply_write (take 1 ws) []) = Inl (conflict p)"
proof -
  let ?st = "[(revKey p 0, ap_export ports project)]"
  have none: "readMeta ports p [] = None"
    by (simp add: readMeta_def reconstructMeta_def stored_revisions_def storage_keys_def)
  have key: "revKey p 0 = revPrefix p @ decimal 0" by (simp add: revKey_def revPrefix_def)
  then have "stored_revisions p ?st = [0]" by (simp add: stored_revisions_def storage_keys_def parse_zero)
  moreover obtain n where "ap_maxHistory ports = Suc n" using assms(2) by (cases "ap_maxHistory ports") auto
  moreover obtain v where v: "ap_parse ports (ap_export ports project) = Some v" "validateProjectV1 (ap_str ports) v = Inr saved"
    using assms(1) by (auto simp: exports_def)
  ultimately have meta: "readMeta ports p ?st =
      Some \<lparr>pm_head = \<lparr>he_revision = 0, he_updatedAt = JString (ap_now ports)\<rparr>, pm_history = [\<lparr>he_revision = 0, he_updatedAt = JString (ap_now ports)\<rparr>]\<rparr>"
    by (simp add: readMeta_def reconstructMeta_def snapshot_entry_def importProjectV1_def)
  from v(2) have "v \<noteq> JNull" by (auto simp: validateProjectV1_def)
  with v have "loadRevision ports p 0 ?st = (Some (Inr \<lparr>lp_project = saved, lp_revision = 0\<rparr>), ?st)"
    by (cases v) (simp_all add: loadRevision_def)
  then have "fst (load ports p ?st) = Some (Inr \<lparr>lp_project = saved, lp_revision = 0\<rparr>)" by (simp add: load_def meta)
  moreover have "save ports p again None ?st = Inl (conflict p)" by (simp add: save_def meta Let_def)
  ultimately show ?thesis by (simp add: save_def none meta Let_def save_writes_def next_meta_def)
qed

text \<open>The plain repository takes the keys of the autosave store in the same storage for projects.\<close>

lemma index_listed_as_project: "jm_has st (metaKey p) \<Longrightarrow> p @ js '':meta'' \<in> set (listProjectIds st)"
proof -
  assume "jm_has st (metaKey p)"
  then have "metaKey p \<in> set (storage_keys (js ''project:'') st)"
    by (auto simp: storage_keys_def metaKey_def js_def jm_has_iff)
  moreover have "drop 8 (metaKey p) = p @ js '':meta''" by (simp add: metaKey_def js_def)
  ultimately show ?thesis by (force simp: listProjectIds_def)
qed

section \<open>Migrations end\<close>

text \<open>A registry all of whose steps increase the version never loops.\<close>

lemma migrations_end:
  assumes "\<And>v step. jm_get ms v = Some step \<Longrightarrow> v < fst step"
  shows "migrate_loop float ms target version current \<noteq> None"
proof (induction "nat (target - version)" arbitrary: version current rule: less_induct)
  case less
  show ?case
  proof (cases "jm_get ms version")
    case None
    then show ?thesis by (simp add: migrate_loop.simps [of float ms target version])
  next
    case (Some step)
    then have "version < fst step" by (rule assms)
    with less [of "fst step"] Some show ?thesis by (simp add: migrate_loop.simps [of float ms target version])
  qed
qed

lemma default_migration:
  "migrateProjectToLatest float number raw =
     (let v = (case schema_version number raw of None \<Rightarrow> 0 | Some v \<Rightarrow> v) in Some (if v < 1 then Inl (migration_not_found v) else Inr raw))"
  by (simp add: migrateProjectToLatest_def migrateToVersion_def migrate_loop.simps Let_def)

section \<open>A small store\<close>

text \<open>
  Projects that differ in their names only, written as their names; the texts \<open>I0\<close> and \<open>I1\<close> stand for the index at revision 0
  and at revision 1. \<open>float\<close> is only ever applied to 0 and 1.
\<close>

definition named_project :: "string \<Rightarrow> project" where
  "named_project name =
     [(js ''schemaVersion'', JNumber 0x3FF0000000000000), (js ''projectId'', JString (js ''p'')), (js ''name'', JString (js name)),
      (js ''coreBindings'', JArray []), (js ''physicalGraphs'', JArray []), (js ''deviceGraphs'', JArray []),
      (js ''systemAutomationGraph'', JObject []), (js ''requiredArtifacts'', JArray []), (js ''deploymentRecords'', JArray []),
      (js ''authoringMetadata'', JObject []), (js ''deviceProfilePackages'', JArray [])]"

definition small_float :: "int \<Rightarrow> float64" where
  "small_float n = (if n = 0 then 0 else 0x3FF0000000000000)"

definition small_index :: "int list \<Rightarrow> ProjectMeta" where
  "small_index ns = (let es = map (\<lambda>n. \<lparr>he_revision = n, he_updatedAt = JString (js ''now'')\<rparr>) ns in \<lparr>pm_head = hd es, pm_history = es\<rparr>)"

definition small_parse :: "jsstr \<Rightarrow> js_value option" where
  "small_parse s =
     (if s = js ''I0'' then Some (meta_value small_float (small_index [0]))
      else if s = js ''I1'' then Some (meta_value small_float (small_index [1, 0]))
      else if s = js ''a'' then Some (JObject (named_project ''a''))
      else if s = js ''b'' then Some (JObject (named_project ''b''))
      else if s = js ''c'' then Some (JObject (named_project ''c'')) else None)"

definition small_ports :: autosave_ports where
  "small_ports =
     \<lparr>ap_parse = small_parse,
      ap_stringify = (\<lambda>v. if v = meta_value small_float (small_index [0]) then js ''I0'' else js ''I1''),
      ap_export = (\<lambda>p. case property p ''name'' of JString s \<Rightarrow> s | _ \<Rightarrow> []),
      ap_str = (\<lambda>v. []), ap_float = small_float, ap_number = (\<lambda>f. if f = 0 then 0 else 1), ap_now = js ''now'', ap_maxHistory = DEFAULT_MAX_HISTORY\<rparr>"

definition small_storage :: storage where
  "small_storage = [(revKey (js ''p'') 0, js ''a''), (metaKey (js ''p''), js ''I0'')]"

lemma named_valid: "validateProjectV1 str (JObject (named_project name)) = Inr (named_project name)"
proof -
  have shape: "project_shape (named_project name)"
    unfolding project_shape_def property_def named_project_def by (simp add: js_inj) (simp add: js_def)
  have "map_of (named_project name) (js ''deviceProfilePackages'') = Some (JArray [])"
    by (simp add: named_project_def js_inj)
  from put_same [OF this] this shape show ?thesis
    by (simp add: validateProjectV1_def Let_def checks_Nil property_def del: concat_eq_Nil_conv)
qed

lemma small_next: "next_meta small_ports (Some (small_index [0])) = small_index [1, 0]"
  by (simp add: next_meta_def small_index_def small_ports_def DEFAULT_MAX_HISTORY_def Let_def)

lemma small_index_text: "ap_stringify small_ports (meta_value (ap_float small_ports) (small_index [1, 0])) = js ''I1''"
  by (simp add: small_ports_def meta_value_def entry_value_def small_index_def small_float_def)

lemma small_meta_ok: "meta_ok small_ports (next_meta small_ports (Some (small_index [0])))"
  unfolding meta_ok_def small_next small_index_text
  by (simp add: revision_ok_def small_index_def [of "[1, 0]"] small_ports_def small_float_def)
    (simp add: small_parse_def js_inj small_index_def [of "[1, 0]"] small_float_def)

lemma small_exports: "exports small_ports (named_project ''b'') (named_project ''b'')" "exports small_ports (named_project ''c'') (named_project ''c'')"
  unfolding exports_def by (simp_all add: small_ports_def property_def named_project_def [of _] js_inj small_parse_def)
    (simp_all add: named_valid flip: named_project_def)

lemma small_holds: "holds_project small_ports (js ''p'') small_storage (small_index [0]) (named_project ''a'')"
proof -
  have "project_meta (ap_number small_ports) (meta_value small_float (small_index [0])) = Some (small_index [0])"
    using meta_of_value [of small_ports "small_index [0]"]
    by (simp add: meta_ok_def revision_ok_def small_index_def small_ports_def small_float_def small_parse_def)
  then show ?thesis
    by (simp add: holds_project_def small_storage_def named_valid)
      (simp add: small_ports_def small_parse_def js_inj named_valid small_index_def)
qed

lemma small_save: "\<exists>e ws. save small_ports (js ''p'') project (Some 0) small_storage = Inr (e, ws)"
  by (simp add: save_def current_meta [OF small_holds] small_index_def Let_def)

end
