(* ===== verification/Spec2Isabelle.thy ===== *)
theory Spec2Isabelle
  imports CborSafety Physical Int64 CommandOperations StatusOperation Operations Framing EventStream Reboots
    Secrets History Schema ConfigCbor Handles Processing Composition Catalogs Recompile Deploy Telemetry Ota
    Wire TransferSample SyncSample Session Marketplace OtaPreflight FirmwareBudget ProfileInstall
    Autosave
begin

text \<open>
  Spaghetti LAB Community connects microcontroller boards (Cores) that run declarative configurations with an editor in
  which those configurations are drawn. The editor, \<open>src/software/micro-flow-editor/packages\<close>, is a set of TypeScript
  packages; paths below are relative to that directory. Its parts interact as follows. The user edits a project of
  physical and device graphs through commands with undo (\<open>domain\<close>). Validators check the graphs
  (\<open>physical-composition-model\<close>, \<open>device-processing-graph-model\<close>, \<open>editor-model\<close>) and a compiler turns them into one
  canonical configuration per Core (\<open>config-compiler\<close>); a decompiler goes back (\<open>config-decompiler\<close>). A deployment
  (\<open>config-deployment\<close>) validates, applies and reads back the configuration through the client of the wire protocol
  (\<open>protocol-sdk\<close>), which also carries events, telemetry (\<open>telemetry-buffer\<close>), updates (\<open>ota-preflight\<close>,
  \<open>ota-lifecycle\<close>) and Device Profiles (\<open>device-profile-*\<close>). A session per Core (\<open>core-session\<close>) holds what was read
  from it, and projects are saved in a versioned store (\<open>project-store\<close>).

  Conventions. Every theory opens with a text that names its files; definitions keep the names of the code. A type of
  the code is a \<open>record\<close> with prefixed fields or a \<open>datatype\<close>; code that throws or returns a \<open>Result\<close> returns a sum,
  \<open>Inl\<close> for the error; a JavaScript \<open>Map\<close> is an association list in insertion order (\<open>JsMap\<close>), a string the list of its
  UTF-16 units, a byte an \<open>8 word\<close>, a \<open>bigint\<close> an \<open>int\<close>, a double its bit pattern. Errors keep code, path and target;
  the English remediation texts are left out. Asynchronous code is cut at its awaits: either into the steps of a state
  machine, so that several invocations overlap (\<open>Client\<close>, \<open>EventStream\<close>, \<open>Ota\<close>, \<open>Session\<close>), or into the calls it makes one
  after another (\<open>Deploy\<close>, \<open>Transfers\<close>, \<open>ProfileInstall\<close>), or, for a save, into the list of its writes (\<open>Autosave\<close>).

  Theories and what their lemmas show:

  \<^item> Foundations: \<open>Prelude\<close> (results, bytes, strings), \<open>JsMap\<close> (maps, with the locale \<open>keyed_map\<close>), \<open>JsValue\<close>
    (values of unknown shape, canonicalisation and content hash of \<open>domain/src/hash.ts\<close>), \<open>Numbers\<close>, \<open>Utf8\<close>, \<open>Grouping\<close>.
  \<^item> The wire format, \<open>protocol-sdk/src\<close>: \<open>Cbor\<close> with \<open>CborReader\<close> and \<open>CborSafety\<close> (\<open>cbor.ts\<close>: every read ends, consumes a
    prefix, and gives back what was written), \<open>PayloadFields\<close> (\<open>fields.ts\<close>, with the locale \<open>value_codec\<close>), \<open>Int64\<close>, \<open>Envelope\<close>.
  \<^item> The payloads, \<open>protocol-sdk/src/operations\<close> and \<open>events.ts\<close>: \<open>Operations\<close>, \<open>StatusOperation\<close>, \<open>Events\<close>,
    \<open>CommandOperations\<close>, \<open>Physical\<close>. Every codec interprets \<open>value_codec\<close> or \<open>item_codec\<close>: what was encoded is read back.
  \<^item> The client, \<open>protocol-sdk/src/client\<close>: \<open>Framing\<close>; \<open>EventStream\<close> (locale \<open>bounded_ring\<close>); \<open>Client\<close>, the pending table
    and the retries as a state machine over interleaved calls, with \<open>ClientSafety\<close>, \<open>ClientReboot\<close> and \<open>Reboots\<close> for its
    invariants; \<open>Transfers\<close>, the operations above \<open>request\<close> with paging, downloads and uploads in pieces; \<open>TransferSample\<close>.
  \<^item> The domain, \<open>domain/src\<close>: \<open>Graph\<close>, \<open>Project\<close>, \<open>History\<close> (the command stack refines a timeline, locale \<open>undo_history\<close>),
    \<open>Schema\<close> (what is accepted from outside), \<open>Secrets\<close>.
  \<^item> Graphs and validation: \<open>Handles\<close> (\<open>editor-model/src\<close>), \<open>Cycles\<close> and \<open>Processing\<close>
    (\<open>device-processing-graph-model/src\<close>), \<open>Composition\<close> (\<open>physical-composition-model/src\<close>), \<open>Catalogs\<close>
    (\<open>catalog-model/src\<close>): each validator is characterised exactly.
  \<^item> Configurations: \<open>ConfigCbor\<close>, \<open>Depth\<close>, \<open>Compile\<close> with \<open>Compiled\<close> (\<open>config-compiler/src\<close>: keys, resolved references,
    independence of insertion order), \<open>Decompile\<close> with \<open>Recompile\<close> (\<open>config-decompiler/src\<close>: the round trip), \<open>ConfigDiff\<close> and
    \<open>Deploy\<close> (\<open>config-deployment/src\<close>), \<open>Wire\<close> (the client of the SDK fulfils the contract of \<open>Deploy\<close>).
  \<^item> \<open>Telemetry\<close> (\<open>telemetry-buffer/src\<close>); \<open>SyncState\<close>, \<open>SyncSample\<close> and \<open>Session\<close> (\<open>core-session/src\<close>).
  \<^item> Updates and packs: \<open>Ota\<close> (\<open>ota-lifecycle/src\<close>), \<open>OtaPreflight\<close> (\<open>ota-preflight/src\<close>), \<open>Marketplace\<close>
    (\<open>capability-marketplace/src\<close>).
  \<^item> Device Profiles: \<open>ProfileOps\<close> and \<open>ProfileCheck\<close> (\<open>device-profile-authoring-model/src\<close>), \<open>FirmwareBudget\<close> (the check of
    the same operations in the firmware, \<open>src/firmware\<close>, in C), \<open>ProfileCbor\<close> and \<open>ProfileInstall\<close>
    (\<open>device-profile-install/src\<close>, \<open>device-profile-package/src\<close>).
  \<^item> \<open>Autosave\<close> (\<open>project-store/src\<close> and the migrations of \<open>domain/src\<close>): what an interrupted and an overlapping save leave.

  Termination and fuel. The CBOR reader has the fuel \<open>2 * length + 1\<close> and never uses it up (\<open>readerValue_fuel\<close>). The cycle
  search has one unit per node, enough by \<open>search_total\<close>; the depths of the compiler one per edge and one more, enough on
  acyclic edges by \<open>depth_total\<close>, and the compiler is shown to return on what the validator accepts. The resolver of packs,
  the stream decoder, the allocator, the downloads and the uploads are total functions. Reads of pages and migrations may
  run for ever in the code, so they are \<open>partial_function\<close>s whose \<open>None\<close> is that; \<open>paginate_for_ever\<close> and \<open>migrations_end\<close> say
  when each happens.

  Parameters stand for the platform and for code outside the repository: \<open>str\<close> is \<open>String()\<close>, \<open>parse\<close> and \<open>stringify\<close> are those
  of JSON, \<open>toNumber\<close> is \<open>Number()\<close>, \<open>num\<close> the decimal text of a double, \<open>lower\<close> is \<open>toLowerCase\<close>, \<open>collate\<close> the order of
  \<open>localeCompare\<close>, \<open>sha256\<close> the hash, \<open>float\<close> the conversion to a double, \<open>core\<close> and the client records the other end of the
  wire, \<open>verifier\<close> the check of signatures, \<open>vmax\<close> and \<open>pmax\<close> two build constants of the firmware, \<open>autosave_ports\<close> the surroundings
  of the store. What is assumed of them stands in each statement.

  What the modelling showed beside the intended behaviour is stated too, each under a text that says so: a retry survives
  a reboot, a read revives a disconnected session, a deployed project is dirty, overlapping saves lose one, a cancelled
  update revives (\<open>ota_cancelled_revives\<close>), a plan of packs may miss a version range (\<open>range_not_checked\<close>), and others.

  Not modelled: the transports (MQTT, WebSocket, Web Serial) below the framing, which are I/O; the React components and the
  mapping to their rendering library; the permission and confirmation checks around single calls (\<open>core-status\<close>,
  \<open>core-actions\<close>, \<open>core-admin\<close>, \<open>security-recovery\<close>); the optional export to Node-RED (\<open>system-automation-graph\<close>,
  \<open>node-red-*\<close>); \<open>processing-block-catalog\<close>, a table of data; the firmware but for the budget of profiles; the module tag
  studio, the hub and the dashboards, which are programs of their own.
\<close>

section \<open>Requests of the client\<close>

text \<open>C1: One call of \<open>request\<close> only ever transmits one envelope, at most \<open>maxRetries + 1\<close> times,
  whatever arrives and whichever timers fire, in every reachable state of the client.\<close>

theorem one_envelope_per_call:
  assumes "reachable opts (new_system now first) s"
    and "jm_get (sy_calls s) i = Some k"
  shows "(\<forall>e\<in>set (sent_of i s). e = call_envelope k) \<and> length (sent_of i s) \<le> ro_maxRetries opts + 1"
proof -
  from calls_ok_reachable [OF assms(1)] assms(2) have "call_ok opts (sent_of i s) k"
    by (auto simp: calls_ok_def dest: spec [of _ i])
  then show ?thesis by (auto simp: call_ok_def)
qed

theorem one_envelope_per_call_witness: "length (sent_of 0 delayed_system) \<le> 3"
  using one_envelope_per_call [OF run_reachable [OF delayed_reached reachable.init], of 0 delayed_call]
  by (simp add: delayed_system_def default_options_def)

text \<open>C2: A reboot of the Core ends every call that awaits its reply: the call has returned, or will
  return once its write is over, with \<open>RebootDuringRequest\<close> for a reply, and no later state has
  sent anything more for it (while the correlation counter has not wrapped around).\<close>

theorem reboot_ends_calls:
  assumes "reachable opts (new_system now first) s" and "first + int (length (sy_calls s)) < 0xffffffff"
    and "reboot_event s bs boot" and "step opts (EventArrives bs) s = Some s'"
    and "jm_get (sy_calls s) i = Some k" and "awaiting k"
    and "reachable opts s' s''"
  shows "(\<exists>k'. jm_get (sy_calls s') i = Some k' \<and> reboot_reply k') \<and> sent_of i s'' = sent_of i s"
proof -
  from reboot_ends_awaiting [OF ids_reachable [OF assms(1,2)] assms(3-6)]
  obtain k' where k': "jm_get (sy_calls s') i = Some k'" "reboot_reply k'" by blast
  from decided_forever [OF assms(7) k'(1) reboot_reply_decided [OF k'(2)]]
  have "sent_of i s'' = sent_of i s'" by blast
  moreover from step_existing [OF assms(4,5)] assms(6) have "sent_of i s' = sent_of i s"
    by (auto simp: call_step_def awaiting_def)
  ultimately show ?thesis using k' by auto
qed

theorem reboot_ends_calls_witness:
  "\<exists>s' k. step default_options (EventArrives (boot_frame 2)) waiting_system = Some s' \<and>
     jm_get (sy_calls s') 0 = Some k \<and> reboot_reply k"
proof -
  obtain s' where s': "step default_options (EventArrives (boot_frame 2)) waiting_system = Some s'"
    by (simp add: step.simps waiting_system_def)
  have "reboot_event waiting_system (boot_frame 2) 2"
    by (rule boot_frame_reboots) (simp add: waiting_system_def)
  from reboot_ends_calls [OF run_reachable [OF waiting_reached reachable.init] _ this s' _ _ reachable.init,
      of 0 "delayed_call\<lparr>k_phase := Waiting 2000\<rparr>"] s'
  show ?thesis
    by (auto simp: waiting_system_def delayed_call_def awaiting_def returned_def delaying_def)
qed

text \<open>C3: A call in its retry delay survives the reboot: after the status event of another boot its
  retry timer fires and the same envelope is sent to the rebooted Core.\<close>

theorem retry_after_reboot:
  assumes "reboot_event s bs boot" and "sc_subscribed (sy_client s)"
    and "jm_get (sy_calls s) i = Some k" and "k_phase k = Delaying u"
    and "encodeRequest (call_envelope k) = Inr frame" and "u \<le> sy_now s + int d"
  shows "\<exists>s'. run opts [EventArrives bs, Tick d, RetryTimer i] s = Some s' \<and>
     sc_lastKnownBootId (sy_client s') = Some boot \<and> sent_of i s' = sent_of i s @ [call_envelope k]"
  using assms by (rule retry_survives)

theorem retry_after_reboot_witness:
  "\<exists>s'. run default_options [EventArrives (boot_frame 2), Tick 200, RetryTimer 0] delayed_system = Some s' \<and>
     length (sent_of 0 s') = 2"
proof -
  obtain frame where frame: "encodeRequest (call_envelope delayed_call) = Inr frame"
    using delayed_frame by blast
  have "reboot_event delayed_system (boot_frame 2) 2"
    by (rule boot_frame_reboots) (simp add: delayed_system_def)
  then obtain s' where "run default_options [EventArrives (boot_frame 2), Tick 200, RetryTimer 0] delayed_system = Some s'"
    "sent_of 0 s' = sent_of 0 delayed_system @ [call_envelope delayed_call]"
    using retry_after_reboot [of delayed_system "boot_frame 2" 2 0 delayed_call 2200 frame 200 default_options] frame
    by (auto simp: delayed_system_def delayed_call_def simp del: run.simps)
  moreover have "sent_of 0 delayed_system = [call_envelope delayed_call]"
    by (simp add: sent_of_def delayed_system_def)
  ultimately show ?thesis by (simp del: run.simps)
qed

text \<open>C4: The correlation allocator, from a counter in range, returns an identifier of 1 .. 2^32 - 1 that
  no pending request has, remembers it, leaves the rest of the client alone, and fails only
  when every identifier is pending.\<close>

theorem allocator_free_id:
  assumes "0 \<le> sc_nextCorrelationId c" and "sc_nextCorrelationId c \<le> 0xffffffff"
    and "length (sc_pending c) < 0xffffffff"
  shows "\<exists>cid. allocateCorrelationId c = Inr (cid, c\<lparr>sc_nextCorrelationId := cid\<rparr>) \<and>
     \<not> jm_has (sc_pending c) cid \<and> 1 \<le> cid \<and> cid \<le> 0xffffffff"
proof -
  from allocate_total [OF assms(3,1,2)] obtain cid c' where a: "allocateCorrelationId c = Inr (cid, c')" by blast
  from allocate_loop_Inr [OF a [unfolded allocateCorrelationId_def] assms(1,2)] a show ?thesis by auto
qed

theorem allocator_free_id_witness:
  "\<exists>cid. allocateCorrelationId ((new_client 0xffffffff)\<lparr>sc_pending := [(1, \<lparr>pe_operation = 1, pe_call = 0\<rparr>)]\<rparr>) =
     Inr (cid, (new_client 0xffffffff)\<lparr>sc_pending := [(1, \<lparr>pe_operation = 1, pe_call = 0\<rparr>)], sc_nextCorrelationId := cid\<rparr>)
     \<and> cid \<noteq> 1"
  using allocator_free_id [of "(new_client 0xffffffff)\<lparr>sc_pending := [(1, \<lparr>pe_operation = 1, pe_call = 0\<rparr>)]\<rparr>"]
  by (auto simp: new_client_def jm_has_def)

text \<open>A call that has returned keeps its result and never transmits again, in every state reached
  from there.\<close>

lemma returned_is_final:
  assumes "reachable opts s s'" and "jm_get (sy_calls s) i = Some k" and "k_phase k = Returned r"
  shows "sent_of i s' = sent_of i s \<and> (\<exists>k'. jm_get (sy_calls s') i = Some k' \<and> k_phase k' = Returned r)"
  using assms by (rule returned_final)

theorem returned_is_final_witness:
  "\<exists>k'. jm_get (sy_calls (delayed_system\<lparr>sy_calls := [(0, delayed_call\<lparr>k_phase := Returned (Inr [])\<rparr>)]\<rparr>)) 0 = Some k' \<and>
     k_phase k' = Returned (Inr [])"
  using returned_is_final [OF reachable.init,
      of "delayed_system\<lparr>sy_calls := [(0, delayed_call\<lparr>k_phase := Returned (Inr [])\<rparr>)]\<rparr>" 0
        "delayed_call\<lparr>k_phase := Returned (Inr [])\<rparr>" "Inr []"]
  by simp

section \<open>The wire protocol\<close>

text \<open>C5: The CBOR reader terminates on every input: the fuel of the model is never used up, so
  decoding returns a value or one of the errors the code throws.\<close>

theorem reader_always_answers: "readerValue bs \<noteq> Inl OutOfFuel"
  by (rule readerValue_fuel)


text \<open>C7: What the encoders of the three envelopes write, the decoders read back.\<close>

theorem envelopes_roundtrip:
  "(request_ok r \<longrightarrow> bindE (encodeRequest r) decodeRequest = Inr r) \<and>
   (response_ok p \<longrightarrow> bindE (encodeResponse p) decodeResponse = Inr p) \<and>
   (event_ok e \<longrightarrow> bindE (encodeEvent e) decodeEvent = Inr e)"
  using request.roundtrip response.roundtrip event.roundtrip by blast

theorem envelopes_roundtrip_witness:
  "bindE (encodeRequest \<lparr>rq_correlationId = 7, rq_operation = 35, rq_payload = [1, 2]\<rparr>) decodeRequest =
     Inr \<lparr>rq_correlationId = 7, rq_operation = 35, rq_payload = [1, 2]\<rparr>"
  using envelopes_roundtrip [of "\<lparr>rq_correlationId = 7, rq_operation = 35, rq_payload = [1, 2]\<rparr>"]
  by (simp add: request_ok_def)

text \<open>A truncated envelope is noticed: no proper prefix of an accepted envelope is accepted.\<close>

lemma truncation_is_noticed:
  assumes "decodeEnvelope (p @ q) = Inr raw" and "q \<noteq> []"
  shows "\<exists>e. decodeEnvelope p = Inl e"
  using assms by (rule truncated_envelope)

theorem truncation_is_noticed_witness: "\<exists>e. decodeEnvelope [0xbf, 0, 1, 1, 5, 2, 1, 3, 0x40] = Inl e"
  by (rule truncation_is_noticed [of _ "[0xff]" "\<lparr>raw_field1 = 5, raw_field2 = 1, raw_payload = []\<rparr>"]) code_simp+

text \<open>The status response, with its modules, chain peers, tags and optional fields, is read back as
  it was written.\<close>

lemma status_roundtrip:
  assumes "status_ok r"
  shows "bindE (encodeGetStatusResponse r) decodeGetStatusResponse = Inr r"
  using assms by (rule status.roundtrip)

theorem status_roundtrip_witness:
  "\<exists>bs. encodeGetStatusResponse \<lparr>st_physical = None, st_state = 1, st_mode = 2, st_imageState = 3, st_activeSlot = 0,
      st_imageConfirmed = True, st_version = [], st_portCount = 4, st_lastResetCause = 0, st_healthState = 0,
      st_modules = [], st_deviceId = Some [1, 2], st_deviceName = None, st_chainPeers = Some [], st_nfcTags = None\<rparr> = Inr bs"
  using status_roundtrip [of "\<lparr>st_physical = None, st_state = 1, st_mode = 2, st_imageState = 3, st_activeSlot = 0,
      st_imageConfirmed = True, st_version = [], st_portCount = 4, st_lastResetCause = 0, st_healthState = 0,
      st_modules = [], st_deviceId = Some [1, 2], st_deviceName = None, st_chainPeers = Some [], st_nfcTags = None\<rparr>"]
  by (auto simp: status_ok_def u32_ok_def wtext_ok_def bytes_ok_def bindE_Inr_iff utf8_encode_def)

text \<open>The physical settings decoder is the exact inverse of the encoder: it accepts the bytes the
  encoder writes for the settings and nothing else.\<close>

lemma physical_settings_exact: "decodePhysicalSettings bs = Inr s \<longleftrightarrow> encodePhysicalSettings s = Inr bs"
  by (rule decodePhysicalSettings_iff)

text \<open>An NFC page request is encoded exactly when it addresses a tag of seven bytes on antenna 0 to 2
  and a user page (or, to read only, page 3 or 45); the encoder refuses every other.\<close>

lemma nfc_request_guard:
  "(\<exists>bs. encodeNfcPageRequest r = Inr bs) \<longleftrightarrow>
     length (nfc_uid r) = 7 \<and> 0 \<le> nfc_antenna r \<and> nfc_antenna r \<le> 2 \<and>
     0 \<le> nfc_nodeId r \<and> nfc_nodeId r \<le> 0xffffff \<and>
     (case nfc_data r of
        None \<Rightarrow> 4 \<le> nfc_page r \<and> nfc_page r \<le> 43 \<or> nfc_page r = 3 \<or> nfc_page r = 45
      | Some d \<Rightarrow> 4 \<le> nfc_page r \<and> nfc_page r \<le> 43 \<and> length d = 4)"
  unfolding encodeNfcPageRequest_total nfc_target_ok_def by (auto split: option.splits)

text \<open>A 64-bit integer written to JSON as a decimal string is read back exactly.\<close>

lemma int64_json_exact: "int64FromJson (JsonString (int64ToJson n)) = Inr n"
  by (rule int64_json_roundtrip)

section \<open>Streams\<close>

text \<open>C8: The frames a stream decoder delivers depend only on the bytes that arrived, not on how the
  transport cut them into chunks.\<close>

theorem framing_ignores_chunks:
  assumes "concat cs = concat ds"
  shows "push_all [] cs = push_all [] ds"
  using assms by (rule chunking_irrelevant)

theorem framing_ignores_chunks_witness: "push_all [] [[1, 0], [3]] = push_all [] [[1], [], [0, 3]]"
  by (rule framing_ignores_chunks) simp

text \<open>Frames written to a stream after some garbage without frame kinds come out complete, in order,
  and nothing is left in the buffer, however the stream is cut.\<close>

lemma framing_roundtrip:
  assumes "list_all sendable fs" and "list_all (\<lambda>b. uint b > 1) g"
    and "concat chunks = g @ concat (map (\<lambda>(k, bs). frameStreamMessage k bs) fs)"
  shows "push_all [] chunks = (fs, [])"
  using assms by (rule stream_roundtrip)

theorem framing_roundtrip_witness:
  "push_all [] [[7, 9], frameStreamMessage FRAME_KIND_EVENT [1, 2]] = ([(FRAME_KIND_EVENT, [1, 2])], [])"
  by (rule framing_roundtrip [where g = "[7, 9]"]) (simp_all add: sendable_def MAX_FRAME_def)

text \<open>C9: The buffer of the stream decoder never holds a whole maximal frame, whatever arrives.\<close>

theorem framing_buffer_bounded: "length (snd (StreamFrameDecoder_push buffer chunk)) < 5 + MAX_FRAME"
  by (rule push_buffer_bounded)

text \<open>C10: The event stream keeps its invariant under every arrival and read: the buffer stays within its
  capacity, waits only while it is empty, every event is delivered, buffered or counted as
  dropped, and what is delivered and buffered keeps the order of arrival.\<close>

theorem event_stream_invariant:
  assumes "0 < c"
  shows "stream_inv (fold stream_step as (new_stream (Some c)))"
  by (rule stream_run_inv [OF stream_inv_new [OF assms]])

theorem event_stream_invariant_witness: "stream_inv (fold stream_step [Next, Arrive [], Next] (new_stream (Some 2)))"
  by (rule event_stream_invariant) simp

text \<open>A record whose sequence does not continue its source is preceded by a gap that names the
  expected and the received number; any other record is delivered alone.\<close>

lemma record_gaps_signalled:
  assumes "decodeEvent bs = Inr \<lparr>ev_sequence = n, ev_type = 1, ev_payload = pl\<rparr>"
    and "decodeRecordEventPayload pl = Inr p"
  shows "es_pushed (handleIncoming bs s) = es_pushed s @
      (case jm_get (es_lastSequence s) (rec_sourceKey p) of
         Some prev \<Rightarrow> if rec_sequence p = prev + 1 then []
                      else [StreamedGap SequenceDiscontinuity (prev + 1) (rec_sequence p)]
       | None \<Rightarrow> []) @ [StreamedRecord p]"
  using assms by (rule handle_record)

theorem record_gaps_signalled_witness:
  "\<exists>p. es_pushed (handleIncoming [0xbf, 0, 1, 1, 1, 2, 1, 3, 0x4a, 0xbf, 0, 3, 1, 5, 2, 0x60, 3, 1, 0xff, 0xff]
       ((new_stream (Some 8))\<lparr>es_lastSequence := [(3, 1)]\<rparr>)) =
     [StreamedGap SequenceDiscontinuity 2 5, StreamedRecord p]"
proof -
  let ?p = "\<lparr>rec_sourceKey = 3, rec_sequence = 5, rec_schemaId = [], rec_schemaVersion = 1, rec_actionId = None,
    rec_fields = None\<rparr>"
  have "decodeEvent [0xbf, 0, 1, 1, 1, 2, 1, 3, 0x4a, 0xbf, 0, 3, 1, 5, 2, 0x60, 3, 1, 0xff, 0xff] =
      Inr \<lparr>ev_sequence = 1, ev_type = 1, ev_payload = [0xbf, 0, 3, 1, 5, 2, 0x60, 3, 1, 0xff]\<rparr>"
    by code_simp
  moreover have "decodeRecordEventPayload [0xbf, 0, 3, 1, 5, 2, 0x60, 3, 1, 0xff] = Inr ?p" by code_simp
  ultimately show ?thesis
    using record_gaps_signalled [of _ 1 _ ?p "(new_stream (Some 8))\<lparr>es_lastSequence := [(3, 1)]\<rparr>"]
    by (simp add: new_stream_def)
qed

section \<open>Graphs and projects\<close>

text \<open>C11: Every graph that the operations of the editor build from an empty one is well formed, whatever is
  tried and refused on the way: nodes are stored under their identifier with the layer of the
  graph, and every edge joins two of its nodes.\<close>

theorem graphs_stay_well_formed: "graph_inv (fold graph_step ops (new_graph l))"
  by (rule graph_inv_run [OF graph_inv_new])

text \<open>Removing a node with its edges succeeds exactly for a node of the graph; it removes exactly the
  edges that touch it, keeps the others in order, and reports the removed ones last first.\<close>

lemma cascade_removes_exactly:
  "removeNodeCascade i g = Inr (removed, g') \<longleftrightarrow>
     jm_has (g_nodes g) i \<and> removed = rev (map ge_id (filter (touches i) (g_edges g))) \<and>
     g' = g\<lparr>g_edges := filter (\<lambda>e. \<not> touches i e) (g_edges g), g_nodes := jm_del i (g_nodes g)\<rparr>"
  by (rule removeNodeCascade_Inr)

text \<open>The deployable snapshot does not depend on the order in which nodes and edges were added.\<close>

lemma snapshot_ignores_order:
  assumes "g_layer g = g_layer h" and "mset (getNodes g) = mset (getNodes h)"
    and "mset (g_edges g) = mset (g_edges h)" and "graph_inv g" and "distinct (map ge_id (g_edges g))"
  shows "deployableSnapshot g = deployableSnapshot h"
  using assms by (rule snapshot_order)

theorem snapshot_ignores_order_witness:
  "\<forall>a b :: nat.
     deployableSnapshot (fold graph_step [AddNode \<lparr>gn_layer = DeviceProcessing, gn_id = js ''a'', gn_data = a\<rparr>,
       AddNode \<lparr>gn_layer = DeviceProcessing, gn_id = js ''b'', gn_data = b\<rparr>] (new_graph DeviceProcessing)) =
     deployableSnapshot (fold graph_step [AddNode \<lparr>gn_layer = DeviceProcessing, gn_id = js ''b'', gn_data = b\<rparr>,
       AddNode \<lparr>gn_layer = DeviceProcessing, gn_id = js ''a'', gn_data = a\<rparr>] (new_graph DeviceProcessing))"
  (is "\<forall>a b. deployableSnapshot (?g a b) = deployableSnapshot (?h a b)")
proof (intro allI snapshot_ignores_order)
  fix a b
  have ab: "js ''a'' \<noteq> js ''b''" by code_simp
  show "g_layer (?g a b) = g_layer (?h a b)" and "mset (getNodes (?g a b)) = mset (getNodes (?h a b))"
    and "mset (g_edges (?g a b)) = mset (g_edges (?h a b))" and "distinct (map ge_id (g_edges (?g a b)))"
    using ab by (simp_all add: addNode_def new_graph_def keep_on_error_def jm_has_def getNodes_def)
  show "graph_inv (?g a b)" by (rule graph_inv_run [OF graph_inv_new])
qed



text \<open>Removing a Core binding removes the graphs of that Core and of no other.\<close>

lemma removal_keeps_other_cores:
  assumes "project_inv p" and "pc_apply (removeCoreBinding i) p = Inr p'" and "j \<noteq> i"
  shows "graphs_of j p' = graphs_of j p \<and> graphs_of i p' = None"
  using remove_keeps_others [OF assms] by blast

theorem removal_keeps_other_cores_witness:
  "\<exists>p'. pc_apply (removeCoreBinding (js ''a'')) ((createEmptyProject (js ''p'') [])\<lparr>
        pj_coreBindings := [\<lparr>cb_bindingId = js ''a'', cb_expectedDeviceId = [], cb_connectionProfileId = [],
            cb_lastKnownVariant = None, cb_lastKnownProfile = None, cb_lastKnownFeatureSet = None\<rparr>],
        pj_physicalGraphs := [emptyGraph PhysicalComposition], pj_deviceGraphs := [emptyGraph DeviceProcessing]\<rparr>) = Inr p' \<and>
      graphs_of (js ''a'') p' = None"
  (is "\<exists>p'. pc_apply _ ?p = _ \<and> _")
proof -
  have inv: "project_inv ?p" by (simp add: project_inv_def createEmptyProject_def emptyGraph_def)
  have ne: "js ''b'' \<noteq> js ''a''" by code_simp
  obtain p' where p': "pc_apply (removeCoreBinding (js ''a'')) ?p = Inr p'"
    by (simp add: removeCoreBinding_def find_index_def createEmptyProject_def)
  from removal_keeps_other_cores [OF inv p' ne] p' show ?thesis by blast
qed

text \<open>C13: The command stack implements a timeline: executing a command, undoing and redoing fail and
  succeed as on the timeline and lead to the corresponding timeline, and the current project
  and the labels of undo and redo are the ones at its cursor.\<close>

theorem stack_implements_timeline:
  "map_option abs_stack (returned_stack (execute c s)) = tl_execute c (abs_stack s) \<and>
   map_option abs_stack (returned_stack (undo s)) = tl_undo (abs_stack s) \<and>
   map_option abs_stack (returned_stack (redo s)) = tl_redo (abs_stack s) \<and>
   cs_state s = tl_states (abs_stack s) ! tl_at (abs_stack s) \<and>
   peekUndoKind s = (if tl_at (abs_stack s) = 0 then None else Some (tl_kinds (abs_stack s) ! (tl_at (abs_stack s) - 1))) \<and>
   peekRedoKind s = (if tl_at (abs_stack s) < length (tl_kinds (abs_stack s))
                     then Some (tl_kinds (abs_stack s) ! tl_at (abs_stack s)) else None)"
  by (intro conjI abs_execute abs_undo abs_redo abs_current abs_kinds)

text \<open>As many undos as there were commands can be done, and as many redos come back to the very same
  stack, history included.\<close>

lemma undo_redo_roundtrip:
  assumes "n \<le> length (cs_past s)"
  shows "\<exists>t. times n undo s = Inr t \<and> length (cs_past t) = length (cs_past s) - n \<and> times n redo t = Inr s"
  using stack.undo_all [OF assms] stack.redo_all by blast

theorem undo_redo_roundtrip_witness:
  "\<forall>p q. \<exists>t. times 1 undo \<lparr>cs_state = q, cs_past = [(p, js ''RenameProject'')], cs_future = []\<rparr> = Inr t \<and>
     times 1 redo t = Inr \<lparr>cs_state = q, cs_past = [(p, js ''RenameProject'')], cs_future = []\<rparr>"
proof (intro allI)
  fix p q
  show "\<exists>t. times 1 undo \<lparr>cs_state = q, cs_past = [(p, js ''RenameProject'')], cs_future = []\<rparr> = Inr t \<and>
     times 1 redo t = Inr \<lparr>cs_state = q, cs_past = [(p, js ''RenameProject'')], cs_future = []\<rparr>"
    using undo_redo_roundtrip [of 1 "\<lparr>cs_state = q, cs_past = [(p, js ''RenameProject'')], cs_future = []\<rparr>"]
    by (auto simp del: times.simps)
qed

text \<open>The hash of a project exists, has 8 characters, and does not depend on the order of nodes,
  edges, bindings, artifacts and deployment records, nor on the authoring metadata.\<close>

lemma project_hash_ignores_order:
  assumes "same_project p q"
  shows "canonicalProjectHash num p = canonicalProjectHash num q \<and> (\<exists>h. canonicalProjectHash num p = Some h \<and> length h = 8)"
  using hash_same [OF assms] project_hash_total [of num p] by (simp add: canonicalProjectHash_def)

theorem project_hash_ignores_order_witness:
  "\<forall>num m. canonicalProjectHash num (createEmptyProject (js ''p'') []) =
     canonicalProjectHash num ((createEmptyProject (js ''p'') [])\<lparr>pj_authoringMetadata := m\<rparr>)"
proof (intro allI)
  fix num m
  have "same_project (createEmptyProject (js ''p'') []) ((createEmptyProject (js ''p'') [])\<lparr>pj_authoringMetadata := m\<rparr>)"
    by (simp add: same_project_def same_graph_def createEmptyProject_def emptyGraph_def)
  from project_hash_ignores_order [OF this] show "canonicalProjectHash num (createEmptyProject (js ''p'') []) =
     canonicalProjectHash num ((createEmptyProject (js ''p'') [])\<lparr>pj_authoringMetadata := m\<rparr>)" by blast
qed

text \<open>The hash of a project does not see which ports the edges of its device graphs join: deleting
  every source and target handle leaves it unchanged.\<close>

lemma project_hash_misses_handles:
  "canonicalProjectHash num (p\<lparr>pj_deviceGraphs := map without_handles (pj_deviceGraphs p)\<rparr>) = canonicalProjectHash num p"
  by (rule hash_without_handles)

section \<open>Secrets, imports and profiles\<close>

text \<open>In what the audit log receives every secret-like key, at any depth, holds the redaction mark;
  a value with no such key is the same value.\<close>

lemma audit_details_redacted: "redacted (scrub v) \<and> (secret_free v \<longrightarrow> same_value (scrub v) v)"
  using scrub_redacted scrub_clean by blast

theorem audit_details_redacted_witness:
  "same_value (scrub (JObject [(js ''target'', JNull), (js ''7'', JBool True)])) (JObject [(js ''target'', JNull), (js ''7'', JBool True)])"
proof -
  have "secret_free (JObject [(js ''target'', JNull), (js ''7'', JBool True)])" by code_simp
  with audit_details_redacted show ?thesis by blast
qed

text \<open>The scan of an export reports nothing exactly when no key of the value, at any depth, looks
  like a secret.\<close>

lemma export_scan_complete: "findSuspicious path v = [] \<longleftrightarrow> no_secret_key v"
  by (rule findSuspicious_empty)

text \<open>The project validator accepts exactly the objects of the right shape.\<close>

lemma project_accepts_exactly: "(\<exists>p. validateProjectV1 str (JObject kvs) = Inr p) \<longleftrightarrow> project_shape kvs"
  by (rule validate_accepts)

text \<open>C14: What the validator returned has the shape, with the default filled in, and is accepted again
  unchanged.\<close>

theorem project_validation_idempotent:
  assumes "validateProjectV1 str raw = Inr p"
  shows "project_shape p \<and> isArray (property p ''deviceProfilePackages'') \<and> validateProjectV1 str (JObject p) = Inr p"
  using validate_shape [OF assms] validate_idem [OF assms] by blast

theorem project_validation_idempotent_witness:
  "\<forall>str. \<exists>p. validateProjectV1 str (JObject
      [(js ''schemaVersion'', JNumber 0x3FF0000000000000), (js ''projectId'', JString (js ''p'')), (js ''name'', JString []),
       (js ''coreBindings'', JArray []), (js ''physicalGraphs'', JArray []), (js ''deviceGraphs'', JArray []),
       (js ''systemAutomationGraph'', JObject []), (js ''requiredArtifacts'', JArray []), (js ''deploymentRecords'', JArray []),
       (js ''authoringMetadata'', JObject [])]) = Inr p \<and> validateProjectV1 str (JObject p) = Inr p"
  (is "\<forall>str. \<exists>p. validateProjectV1 str (JObject ?kvs) = _ \<and> _")
proof
  fix str
  have "project_shape ?kvs" unfolding project_shape_def property_def by (simp add: js_inj) (simp add: js_def)
  then obtain p where p: "validateProjectV1 str (JObject ?kvs) = Inr p" using validate_accepts by blast
  from project_validation_idempotent [OF p] p
  show "\<exists>p. validateProjectV1 str (JObject ?kvs) = Inr p \<and> validateProjectV1 str (JObject p) = Inr p" by blast
qed

text \<open>A refused object gets one error for each field that is wrong.\<close>

lemma project_errors_complete:
  assumes "validateProjectV1 str (JObject kvs) = Inl es"
  shows "length es = length (filter (\<lambda>(P, f). \<not> P (property kvs f)) project_checks)"
  using assms by (rule validate_errors)

theorem project_errors_complete_witness:
  "\<forall>str. \<exists>es. validateProjectV1 str (JObject []) = Inl es \<and> length es = 10"
proof
  fix str
  obtain es where es: "validateProjectV1 str (JObject []) = Inl es"
    by (simp add: validateProjectV1_def project_checks_def check_field_def property_def is_one_def Let_def)
  from project_errors_complete [OF es] es
  show "\<exists>es. validateProjectV1 str (JObject []) = Inl es \<and> length es = 10"
    by (simp add: project_checks_def property_def is_one_def nonempty_string_def)
qed

text \<open>A connection profile is created exactly when its name and host are not blank, its transport is
  one of the four, its port is an integer of 1 .. 65535 and its credential reference, if it has one,
  is not blank; it is the input.\<close>

lemma profile_created_exactly:
  "createConnectionProfile num i = Inr p \<longleftrightarrow>
     p = i \<and> \<not> blank (cp_name i) \<and> cp_transport i \<in> set TRANSPORT_KINDS \<and> \<not> blank (cp_host i) \<and>
     (\<exists>n. float64_int (cp_port i) = Some n \<and> 1 \<le> n \<and> n \<le> 65535) \<and>
     (case cp_credentialRef i of None \<Rightarrow> True | Some r \<Rightarrow> \<not> blank r)"
  unfolding createConnectionProfile_iff by (auto split: option.splits)

text \<open>An import under a new identifier gets the generated one, which is a UUID, and keeps every other
  field; it never keeps the identifier that is already taken.\<close>

lemma import_renames:
  assumes "resolveProjectImportId v Rename generated = Some p" and "ip_isDuplicateId v"
  shows "property p ''projectId'' = JString generated \<and> UUID_PATTERN generated \<and>
     (\<forall>f. f = ''projectId'' \<or> property p f = property (ip_project v) f)"
  using rename_id [OF assms] by blast

theorem import_renames_witness:
  "\<exists>p. resolveProjectImportId \<lparr>ip_project = [(js ''projectId'', JString [])], ip_isDuplicateId = True\<rparr> Rename
       (js ''123e4567-e89b-12d3-a456-426614174000'') = Some p \<and>
     property p ''projectId'' = JString (js ''123e4567-e89b-12d3-a456-426614174000'')"
  (is "\<exists>p. resolveProjectImportId ?v Rename ?g = _ \<and> _")
proof -
  have "UUID_PATTERN ?g" by code_simp
  then obtain p where p: "resolveProjectImportId ?v Rename ?g = Some p"
    by (simp add: resolveProjectImportId_def idFactory_def)
  from import_renames [OF this] p show ?thesis by auto
qed

section \<open>Validation and compilation of graphs\<close>

text \<open>C15: The check of a Device Processing graph reports no cycle exactly when there is none, and every cycle
  it reports is one: a path of edges through nodes of the graph that its closing edge leads back to.\<close>

theorem cycles_reported_exactly:
  "(findCycles nodes edges = [] \<longleftrightarrow> acyclic (edge_relation (map gn_id nodes) edges)) \<and>
   list_all (\<lambda>(e, path). is_cycle (map gn_id nodes) edges e path) (find_cycle_paths (map gn_id nodes) edges)"
  using findCycles_Nil reported_cycle by (auto simp: list_all_iff)

text \<open>C16: A Device Processing graph is accepted exactly when its references are known, no Module has two
  triggers, it is acyclic, its edges join existing and compatible ports, the required inputs are connected
  and no node has more outgoing edges than the cap.\<close>

theorem processing_valid_exactly: "validateDeviceProcessingGraph g options = Inr () \<longleftrightarrow> valid_processing options g"
  by (rule validate_processing_iff)


text \<open>The depth the compiler computes for a node of an acyclic graph is the length of the longest path
  that starts there, whatever the order of the nodes.\<close>

lemma depths_are_longest:
  assumes "acyclic (edge_pairs edges)"
  shows "\<exists>d. longestDepth ids edges = Some d \<and> (\<forall>v\<in>set ids. \<exists>n. jm_get d v = Some n \<and> longest (edge_pairs edges) v n)"
  using depth_total [OF assms, of ids] by (fastforce simp: depths_ok_def)

theorem depths_are_longest_witness: "\<exists>d n. longestDepth [js ''s''] sample_edges = Some d \<and> jm_get d (js ''s'') = Some n \<and> longest (edge_pairs sample_edges) (js ''s'') n"
  using depths_are_longest [OF sample_acyclic, of "[js ''s'']"] by auto

text \<open>C18: A graph that the editor built and the validator accepted is compiled: the compiler, which recurses
  through the graph without a check of its own, returns an answer for it.\<close>

theorem validated_graph_compiles:
  assumes "g = fold graph_step ops (new_graph l)"
    and "in_processing input = \<lparr>pg_nodes = getNodes g, pg_edges = getEdges g\<rparr>"
    and "validateDeviceProcessingGraph (in_processing input) options = Inr ()"
  shows "\<exists>r. compileConfig toNumber str input compileOptions = Some r"
proof (rule compile_returns)
  from assms(1) have g: "graph_inv g" by (simp add: graph_inv_run [OF graph_inv_new])
  from assms(3) have "acyclic (edge_relation (map gn_id (getNodes g)) (getEdges g))"
    by (simp add: validate_processing_iff valid_processing_def assms(2))
  then show "acyclic (edge_pairs (pg_edges (in_processing input)))"
    unfolding assms(2) processing_graph.simps
    by (rule inside_acyclic) (use graph_inv_inside [OF g] in \<open>simp_all add: getEdges_def\<close>)
qed

theorem validated_graph_compiles_witness:
  "\<exists>r. compileConfig sample_number (\<lambda>_. []) (sample_input sample_nodes) sample_options = Some r"
  by (rule validated_graph_compiles [OF HOL.refl sample_built sample_valid])



text \<open>C20: The configuration does not depend on the order in which nodes and edges were added: the same nodes
  and edges in another order compile to the very same configuration.\<close>

theorem compile_ignores_order:
  assumes "same_input a b" and "acyclic (edge_pairs (pg_edges (in_processing a)))"
  shows "compileConfig toNumber str a options = Some (Inr c) \<longleftrightarrow> compileConfig toNumber str b options = Some (Inr c)"
  using assms by (rule compile_same)

theorem compile_ignores_order_witness:
  "\<exists>c. compileConfig sample_number (\<lambda>_. []) (sample_input sample_nodes) sample_options = Some (Inr c) \<and>
     compileConfig sample_number (\<lambda>_. []) (sample_input (rev sample_nodes)) sample_options = Some (Inr c)"
proof -
  have ac: "acyclic (edge_pairs (pg_edges (in_processing (sample_input sample_nodes))))"
    using sample_acyclic by (simp add: sample_input_def)
  obtain c where c: "compileConfig sample_number (\<lambda>_. []) (sample_input sample_nodes) sample_options = Some (Inr c)"
    using sample_compiles by blast
  with compile_ignores_order [OF sample_same ac] show ?thesis by blast
qed

section \<open>Configurations\<close>

text \<open>C21: A compiled configuration is read back from its bytes as it was, so different configurations
  have different bytes.\<close>

theorem configuration_roundtrip:
  assumes "config_ok c"
  shows "\<exists>bs. encodeConfigCbor c = Inr bs \<and> decodeConfigCbor bs = Inr c"
  using assms by (rule config_roundtrip)

theorem configuration_roundtrip_witness:
  "\<exists>bs. encodeConfigCbor \<lparr>cfg_modules = [], cfg_schedules = [\<lparr>csch_sourceKey = 1, csch_periodMs = 1000, csch_enabled = True\<rparr>],
      cfg_rules = [], cfg_mqtt = \<lparr>cmq_enabled = False, cmq_host = [], cmq_port = 1883, cmq_baseTopic = [], cmq_security = 0,
        cmq_credentialId = 0\<rparr>, cfg_connectivity = 0,
      cfg_energy = \<lparr>cen_bleAvailability = 0, cen_advertisingWindowMs = 0, cen_advertisingPeriodMs = 0\<rparr>,
      cfg_blocks = [], cfg_edges = []\<rparr> = Inr bs \<and> bs \<noteq> []"
  (is "\<exists>bs. encodeConfigCbor ?c = Inr bs \<and> _")
proof -
  have e: "utf8_encode [] = []" by code_simp
  have "config_ok ?c"
    by (simp add: e config_ok_def schedule_ok_def mqtt_ok_def energy_ok_def u32_ok_def wtext_ok_def text_ok_def)
  from configuration_roundtrip [OF this] obtain bs where bs: "encodeConfigCbor ?c = Inr bs" "decodeConfigCbor bs = Inr ?c"
    by blast
  moreover have "decodeConfigCbor [] = Inl (MalformedCbor (js ''bytes''))" by code_simp
  ultimately show ?thesis by (cases bs) auto
qed

section \<open>Reading a configuration back\<close>

text \<open>C22: A canonical configuration decompiles, and the graphs compile back to the very same configuration:
  the synthesized identifiers sort like the keys, and the references of the rules are found again.\<close>

theorem decompile_recompile:
  assumes "canonical options c" and "number_texts toNumber"
  shows "\<exists>d. decompileConfig toNumber options c = Some d \<and>
     compileConfig toNumber str (recompile_input c d) (recompile_options options) = Some (Inr c)"
  using assms by (rule recompile)

theorem decompile_recompile_witness:
  "\<exists>d. decompileConfig read_decimal sample_resolvers sample_config = Some d \<and>
     compileConfig read_decimal (\<lambda>_. []) (recompile_input sample_config d) (recompile_options sample_resolvers) = Some (Inr sample_config)"
  by (rule decompile_recompile [OF sample_canonical read_decimal_ok])

text \<open>The diff of two configurations that hold the same properties, once as numbers and once as the texts
  of those numbers with an \<open>n\<close>, is empty, so a change of the type of a property is not shown.\<close>

lemma diff_ignores_types:
  "isConfigDiffEmpty (diffConfigs c (c\<lparr>cfg_modules := map retyped (cfg_modules c)\<rparr>)) \<and>
   retyped \<lparr>cm_key = 1, cm_portId = 1, cm_typeId = [], cm_properties = [(3, PInt 5)], cm_bayId = None, cm_powerRailId = None\<rparr> =
     \<lparr>cm_key = 1, cm_portId = 1, cm_typeId = [], cm_properties = [(3, PText (js ''5n''))], cm_bayId = None, cm_powerRailId = None\<rparr>"
  by (intro conjI diff_misses_types) code_simp

section \<open>Deployment\<close>

text \<open>Whatever the Core answers, a deployment calls it at most three times and in this order: the bytes of
  the compiled configuration are validated, the same bytes are applied under the generation the user saw, and
  the configuration is read back. A deployment that lacks a profile or pack, or does not compile, calls nothing.\<close>

lemma deployment_calls:
  assumes "deployConfig toNumber str float sha256 input context = Some (Inr w)"
  shows "wire_calls client w s = [] \<or>
    (\<exists>candidate bs. compileConfig toNumber str input (dy_compile (dx_dryRun context)) = Some (Inr candidate) \<and>
       encodeConfigCbor candidate = Inr bs \<and>
       prefix (wire_calls client w s) [ValidateCall bs, ApplyCall (dx_expectedGeneration context) bs, GetCall])"
  using assms by (rule deploy_cases) (auto intro: calls_of_candidate)

theorem deployment_calls_witness:
  "\<exists>w. deployConfig read_decimal (\<lambda>_. []) (\<lambda>_. 0) id sample_deployed sample_context = Some (Inr w) \<and>
     length (wire_calls (cas_core id) w (7, [])) \<le> 3"
proof -
  obtain bs where d: "deployConfig read_decimal (\<lambda>_. []) (\<lambda>_. 0) id sample_deployed sample_context =
      Some (Inr (validate_candidate (\<lambda>_. 0) sample_config bs (id bs) sample_context))" (is "_ = Some (Inr ?w)")
    using sample_deploys by blast
  from deployment_calls [OF d, of "cas_core id" "(7, [])"] have "length (wire_calls (cas_core id) ?w (7, [])) \<le> 3"
    by (auto dest: prefix_length_le)
  with d show ?thesis by blast
qed

text \<open>C23: When a Core that tells the truth about what it holds is deployed to, whatever else it answers or
  loses, an applied outcome means that it holds a configuration of the hash of the candidate, the outcome
  \<open>AMBIGUOUS_RESOLVED_NOT_APPLIED\<close> that it does not, and only an applied outcome or \<open>NO_OP\<close> is recorded.\<close>

theorem deployed_is_held:
  assumes "deployConfig toNumber str float sha256 input context = Some (Inr w)"
    and "truthful sha256 holds gen client" and "run_wire client w s = (r, s')"
  shows "(applied_outcome (re_outcome r) \<or> re_outcome r = AMBIGUOUS_RESOLVED_NOT_APPLIED \<longrightarrow>
      (\<exists>candidate bs. compileConfig toNumber str input (dy_compile (dx_dryRun context)) = Some (Inr candidate) \<and>
         encodeConfigCbor candidate = Inr bs \<and> (applied_outcome (re_outcome r) \<longleftrightarrow> sha256 (holds s') = sha256 bs))) \<and>
    (re_record r \<noteq> None \<longrightarrow> applied_outcome (re_outcome r) \<or> re_outcome r = NO_OP)"
  using assms(1)
proof (rule deploy_cases)
  fix candidate bs
  assume w: "w = validate_candidate float candidate bs (sha256 bs) context"
    and c: "compileConfig toNumber str input (dy_compile (dx_dryRun context)) = Some (Inr candidate)" "encodeConfigCbor candidate = Inr bs"
  from candidate_applied [OF assms(2) assms(3) [unfolded w]] c show ?thesis
    by (auto simp: applied_outcome_def)
next
  fix kind issues
  assume "w = Return (outcome kind issues)" and "kind = PROFILE_OR_PACK_MISSING \<or> kind = VALIDATION_FAILED"
  with assms(3) show ?thesis by (auto simp: outcome_def applied_outcome_def)
qed

theorem deployed_is_held_witness:
  "\<exists>w r g candidate bs. deployConfig read_decimal (\<lambda>_. []) (\<lambda>_. 0) id sample_deployed sample_context = Some (Inr w) \<and>
     run_wire (cas_core id) w (7, []) = (r, (g, bs)) \<and> re_outcome r = SUCCESS \<and> encodeConfigCbor candidate = Inr bs"
proof -
  obtain bs where d: "deployConfig read_decimal (\<lambda>_. []) (\<lambda>_. 0) id sample_deployed sample_context =
      Some (Inr (validate_candidate (\<lambda>_. 0) sample_config bs (id bs) sample_context))" (is "_ = Some (Inr ?w)")
    and "bs \<noteq> []"
    using sample_deploys by blast
  obtain r g held where r: "run_wire (cas_core id) ?w (7, []) = (r, (g, held))" by (cases "run_wire (cas_core id) ?w (7, [])") auto
  from cas_deploys [OF r] \<open>bs \<noteq> []\<close> have "re_outcome r = SUCCESS" by (simp add: sample_context_def)
  with deployed_is_held [OF d cas_truthful r] obtain candidate where "encodeConfigCbor candidate = Inr held"
    by (auto simp: applied_outcome_def)
  with d r \<open>re_outcome r = SUCCESS\<close> show ?thesis by blast
qed

section \<open>Telemetry\<close>

text \<open>C24: Whatever reaches the store of telemetry, the buffer of a Core and schema holds exactly the newest
  entries that were pushed for it, up to its capacity (one at least), and the export counts how many were
  pushed beyond the capacity.\<close>

theorem telemetry_buffer_exact:
  "getEntries c sch (fold store_step ops (new_store (Some cap) gaps)) =
     drop (length (added_to (bufferKey c sch) ops) - max 1 cap) (added_to (bufferKey c sch) ops) \<and>
   te_droppedCount (store_export c sch (fold store_step ops (new_store (Some cap) gaps))) =
     int (length (added_to (bufferKey c sch) ops) - cap)"
  using rings [of "new_store (Some cap) gaps" ops "bufferKey c sch"]
  by (simp add: new_store_def getEntries_def store_export_def ring_of_def dropped_of_def)

text \<open>Records of two Cores or schemas never mix as long as the identifiers of the Cores contain no space:
  every entry of a buffer was pushed for that very Core and schema.\<close>

lemma telemetry_sources_apart:
  assumes "32 \<notin> set c" and "\<forall>op\<in>set ops. 32 \<notin> set (op_core op)"
    and "e \<in> set (getEntries c sch (fold store_step ops (new_store cap gaps)))"
  shows "entry_source e = (c, sch)"
proof (rule added_source [OF assms(1,2)])
  have "e \<in> set (ring_of (bufferKey c sch) (fold store_step ops (new_store cap gaps)))"
    using assms(3) by (simp add: getEntries_def ring_of_def)
  then show "e \<in> set (added_to (bufferKey c sch) ops)"
    using rings [of "new_store cap gaps" ops "bufferKey c sch"] by (auto simp: new_store_def dest: in_set_dropD)
qed

theorem telemetry_sources_apart_witness:
  "entry_source (hd (getEntries [65] [66] (store_step (OpUnknown [65] [66]
     \<lparr>tp_coreId = [], tp_sourceKey = 1, tp_schemaId = [], tp_schemaVersion = 1, tp_bootId = None, tp_bootEpoch = 0, tp_sequence = 1\<rparr> None None)
     (new_store None None)))) = ([65], [66])"
  (is "entry_source (hd (getEntries _ _ (store_step ?op _))) = _")
proof -
  have "fold store_step [?op] (new_store None None) = store_step ?op (new_store None None)" by simp
  moreover have "hd (getEntries [65] [66] (fold store_step [?op] (new_store None None))) \<in>
      set (getEntries [65] [66] (fold store_step [?op] (new_store None None)))"
    by (rule hd_in_set) code_simp
  ultimately show ?thesis using telemetry_sources_apart [of "[65]" "[?op]" _ "[66]" None None] by simp
qed

section \<open>Updates over BLE\<close>

text \<open>C25: Without a preflight that is ready no call of the update session ever reaches the wire, whatever is
  invoked in whatever order.\<close>

theorem ota_needs_preflight: "os_wire (fold ota_step ls (new_session n v False)) = []"
  using ota_inv_run [of ls n v False] by (simp add: ota_inv_def ready_run) (simp add: new_session_def)

text \<open>C26: A caller that awaits each method uploads contiguously: the chunks the Core accepted follow each other
  from offset 0, and the session expects the next byte after them.\<close>

theorem ota_upload_contiguous:
  "contiguous 0 (os_accepted (fold perform ras (new_session n v ready))) \<and>
   os_nextExpectedOffset (fold perform ras (new_session n v ready)) =
     int (length (concat (map snd (os_accepted (fold perform ras (new_session n v ready))))))"
  using perform_run [of ras n v ready] by (simp add: sequential_ok_def accepted_bytes_def)

text \<open>A cancelled session comes back to life when the answer to its last chunk is still under way: the
  phase \<open>CANCELLED\<close> is overwritten, and the update that was cancelled is finished on the wire.\<close>

lemma ota_cancelled_revives:
  "os_phase (fold ota_step revive (new_session 64 [49] True)) = CANCELLED \<and>
   os_wire (fold ota_step (revive @ [Answer 1 (Some 0), Invoke 3 Finalize]) (new_session 64 [49] True)) =
     [OpenBleUpdate 64 [] [49], WriteBleUpdate 7 0 [], CancelBleUpdate 7, FinishBleUpdate 7]"
  by (rule cancelled_revives)

section \<open>Transfers\<close>






text \<open>C29: A catalog is read in one pass: all its drivers come from pages that follow each other by their cursors
  from cursor 0 to the last page and that all have the fingerprint of the result.\<close>

theorem catalog_read_in_one_pass:
  assumes "getFullCatalog core opts limit s = Some (Inr r, t)"
  shows "\<exists>u pages. pages_read (\<lambda>cursor. getCatalog core opts \<lparr>pg_cursor = Some cursor, pg_limit = limit\<rparr>) cat_nextCursor 0 u pages t \<and>
    (\<forall>page\<in>set pages. cat_fingerprint page = cat_fingerprint r) \<and>
    cat_drivers r = concat (map cat_drivers pages) \<and> cat_nextCursor r = 0"
  using full_catalog_one_pass [OF assms] by (simp add: one_pass_def)

theorem catalog_read_in_one_pass_witness:
  "\<exists>u pages. pages_read (\<lambda>cursor. getCatalog catalog_core default_options \<lparr>pg_cursor = Some cursor, pg_limit = None\<rparr>) cat_nextCursor 0 u pages () \<and>
     cat_drivers empty_catalog = concat (map cat_drivers pages)"
  using catalog_read_in_one_pass [OF catalog_core_reads] by blast



section \<open>Sessions\<close>

text \<open>C31: A ready session knows its Core: in every interleaving of connections, answers, events and disconnections a
  session in state \<open>READY\<close> has a status, and a complete snapshot unless it is marked stale.\<close>

theorem ready_session_is_complete:
  assumes "s = fold (session_step lower) ls (new_core_session e strict cache)" and "se_state s = READY"
  shows "sn_status (se_snapshot s) \<noteq> None \<and> (se_stale s \<or> complete (se_snapshot s))"
  using session_run_ok [of lower ls e strict cache] assms by (auto simp: session_ok_def ready_ok_def)

theorem ready_session_is_complete_witness:
  "\<forall>status caps feats catalog flows config res.
     complete (se_snapshot (fold (session_step id) (Connect 0 # answers status caps feats catalog flows config res)
       (new_core_session [] True [])))"
proof (intro allI)
  fix status caps feats catalog flows config res
  let ?start = "session_step id (Connect 0) (new_core_session [] True [])"
  have "se_reads ?start = [(0, (StatusStage, empty_snapshot))]" "se_expectedDeviceId ?start = []" "se_cache ?start = []"
    by (simp_all add: new_core_session_def start_read_def jm_has_def)
  from single_read_ready [OF this, of id status caps feats catalog flows config res]
  show "complete (se_snapshot (fold (session_step id) (Connect 0 # answers status caps feats catalog flows config res) (new_core_session [] True [])))"
    using ready_session_is_complete [OF HOL.refl, of id "Connect 0 # answers status caps feats catalog flows config res" "[]" True "[]"] by simp
qed

text \<open>A read of the Core's state cannot get stuck: whatever fitting answer or failure its awaited call gives,
  the read has ended in \<open>READY\<close> or \<open>ERROR\<close> or awaits one of fewer calls.\<close>

lemma reads_end:
  assumes "jm_get (se_reads s) i = Some (stage, n)" and "case a of Inl e \<Rightarrow> True | Inr reply \<Rightarrow> fits stage reply"
  shows "case jm_get (se_reads (read_answer lower i a s)) i of
      None \<Rightarrow> se_state (read_answer lower i a s) = READY \<or> se_state (read_answer lower i a s) = ERROR
    | Some (stage', n) \<Rightarrow> calls_left stage' < calls_left stage"
  using read_answer_advances [OF assms, of lower] by (simp add: read_advances_def)

theorem reads_end_witness:
  "se_state (read_answer id 0 (Inl TimeoutOrReboot) (start_read 0 (new_core_session [] True []))) = ERROR"
proof -
  let ?s = "start_read 0 (new_core_session [] True [])"
  have "jm_get (se_reads ?s) 0 = Some (StatusStage, empty_snapshot)" by (simp add: start_read_def new_core_session_def)
  from reads_end [OF this, of "Inl TimeoutOrReboot" id] show ?thesis
    by (simp add: read_answer_def read_fails_def end_read_def start_read_def new_core_session_def empty_snapshot_def Let_def)
qed

text \<open>The table of live readings holds exactly the sources of the last 128 different sources that sent a record,
  in the order of their last record.\<close>

lemma newest_records_kept:
  "jm_keys (fold (\<lambda>(p, at). note_record p at) ps []) =
     (let sources = remdups (map (record_key \<circ> fst) ps) in drop (length sources - 128) sources)"
  using newest_records [of ps] by (simp add: newest_keys_def)

text \<open>A read outlives the connection: when the session is disconnected while its Core is being read, the answers
  that still arrive make it \<open>READY\<close> and not stale.\<close>

lemma read_revives_session:
  "se_state (fold (session_step lower) ([Connect 0, Disconnect] @ answers status caps feats catalog flows config res)
      (new_core_session [] strict [])) = READY \<and>
   \<not> se_stale (fold (session_step lower) ([Connect 0, Disconnect] @ answers status caps feats catalog flows config res)
      (new_core_session [] strict []))"
  by (rule read_outlives_disconnect) (rule HOL.refl)



section \<open>Packs, updates and Device Profiles\<close>



text \<open>A candidate update is ready exactly when a verifier trusts it, its hash is the expected one where one is expected, it fits the
  variant, state, versions and used types of the Core, and its budgets fit the Core's resources.\<close>

lemma update_ready_exactly:
  "pf_kind (preflightOtaCandidate candidate core options) = PREFLIGHT_READY \<longleftrightarrow>
     (\<exists>v. po_trustVerifier options = Some v \<and> v candidate) \<and>
     (po_expectedHash options = None \<or> po_expectedHash options = Some (om_hash candidate)) \<and>
     compatible candidate core \<and> budgets_fit candidate (oc_resources core) (po_buildCapacityOverrides options)"
  by (rule preflight_ready_iff)








text \<open>C35: Every instruction of a Device Profile is read back from its raw operation, when its optional operands are none of those the
  raw form cannot tell apart and its ranges are those of the types of the editor.\<close>

theorem instructions_roundtrip:
  assumes "op_ok i"
  shows "fromRawOp (toRawOp i) = Inr i"
  using assms by (rule op_roundtrip)

theorem instructions_roundtrip_witness:
  "fromRawOp (toRawOp (EMIT_FIELD 1 2 (Some 2) (Some BigEndian) True (Some 10))) = Inr (EMIT_FIELD 1 2 (Some 2) (Some BigEndian) True (Some 10))"
  by (rule instructions_roundtrip) simp


definition sample_draft :: DeviceProfileDraft where
  "sample_draft =
     \<lparr>dd_messageData = None, dd_actions = None, dd_profileId = js ''th'', dd_version = 1, dd_transport = 0, dd_requiredCapabilities = 1,
      dd_maxTotalTimeMs = 100, dd_maxTransactions = 2, dd_maxBytes = 8, dd_initOps = [LOAD_CONST 0 1 0xe3 0],
      dd_sampleOps = [I2C_WRITE_READ 0 1 2 1 20, DELAY_BOUNDED 30, EMIT_FIELD 1 1 (Some 2) (Some BigEndian) False (Some 1), EMIT_RECORD], dd_safeStopOps = [],
      dd_sampleSchemaId = js ''th'', dd_sampleSchemaVersion = 1,
      dd_sampleFields = [\<lparr>sf_fieldId = 1, sf_type = FInt64, sf_name = js ''t'', sf_unit = None\<rparr>]\<rparr>"




text \<open>C37: A Device Profile is read back from its bytes, when it has message data only together with a table of actions.\<close>

theorem profile_cbor_roundtrip:
  assumes "draft_ok d" and "dd_messageData d = None \<or> dd_actions d \<noteq> None"
  shows "\<exists>bs. encodeDeviceProfileCbor d = Inr bs \<and> decodeDeviceProfileCbor bs = Inr d"
  using profile_roundtrip [OF assms(1)] with_actions_same [OF assms(2)]
  by (cases "encodeDeviceProfileCbor d") (auto simp: malformed_root_def)

lemma utf8_short: "length (utf8_encode s) \<le> 4 * length s"
proof -
  have one: "length (scalar_bytes c) \<le> 4" for c by (simp add: scalar_bytes_def)
  have "length (concat (map scalar_bytes cs)) \<le> 4 * length cs" for cs
    by (induction cs) (use one in \<open>auto simp: add_mono\<close>)
  moreover have "length (scalars s) \<le> length s" by (induction s rule: scalars.induct) auto
  ultimately show ?thesis unfolding utf8_encode_def by (meson le_trans mult_le_mono2)
qed

lemma sample_draft_ok: "draft_ok sample_draft"
proof -
  have "length (js ''th'') = 2" "length (js ''t'') = 1" by (simp_all add: js_def)
  then have "wtext_ok (js ''th'')" "wtext_ok (js ''t'')"
    using utf8_short [of "js ''th''"] utf8_short [of "js ''t''"] by (simp_all add: wtext_ok_def)
  then show ?thesis
    by (simp add: draft_ok_def sample_draft_def ops_ok_def raw_ok_def toRawOp_def base_op_def sample_field_ok_def)
qed

theorem profile_cbor_roundtrip_witness:
  "\<exists>bs. encodeDeviceProfileCbor sample_draft = Inr bs \<and> decodeDeviceProfileCbor bs = Inr sample_draft"
  by (rule profile_cbor_roundtrip [OF sample_draft_ok]) (simp add: sample_draft_def)





section \<open>Saving a project\<close>

text \<open>C39: A save that is cut off after any number of its writes leaves the old project or the new one: until the index has been
  written loading gives the old project at its revision, from then on the saved project at the next revision.\<close>

theorem interrupted_save:
  assumes "holds_project ports p st m old" and "save ports p project (Some r) st = Inr (e, ws)"
    and "meta_ok ports (next_meta ports (Some m))" and "exports ports project saved" and "0 < ap_maxHistory ports"
  shows "fst (load ports p (fold apply_write (take k ws) st)) =
    Some (Inr (if k < 2 then \<lparr>lp_project = old, lp_revision = r\<rparr> else \<lparr>lp_project = saved, lp_revision = r + 1\<rparr>))"
proof -
  from assms(2) current_meta [OF assms(1)] have r: "r = he_revision (pm_head m)" and ws: "ws = save_writes ports p project (Some m)"
    by (auto simp: save_def Let_def split: if_splits)
  obtain w1 w2 rest where shape: "save_writes ports p project (Some m) = w1 # w2 # rest" using save_writes_shape by blast
  then have w1: "w1 = Put (revKey p (r + 1)) (ap_export ports project)" by (simp add: save_writes_def next_meta_def Let_def r)
  consider "k = 0" | "k = 1" | n where "k = Suc (Suc n)" by (metis One_nat_def not0_implies_Suc)
  then show ?thesis
  proof cases
    case 1
    then show ?thesis using load_current [OF assms(1)] r by simp
  next
    case 2
    have "holds_project ports p (apply_write w1 st) m old" using assms(1) by (simp add: holds_project_def w1 r update_conv')
    from load_current [OF this] 2 shape show ?thesis by (simp add: ws r)
  next
    case 3
    have "he_revision (pm_head (next_meta ports (Some m))) = r + 1" by (simp add: next_meta_def Let_def r)
    with load_current [OF after_save [OF HOL.refl assms(3-5) shape, of n st]] 3 shape show ?thesis by (simp add: ws)
  qed
qed

theorem interrupted_save_witness:
  "\<exists>e ws. save small_ports (js ''p'') (named_project ''b'') (Some 0) small_storage = Inr (e, ws) \<and>
     fst (load small_ports (js ''p'') (fold apply_write (take 1 ws) small_storage)) = Some (Inr \<lparr>lp_project = named_project ''a'', lp_revision = 0\<rparr>) \<and>
     fst (load small_ports (js ''p'') (fold apply_write (take 2 ws) small_storage)) = Some (Inr \<lparr>lp_project = named_project ''b'', lp_revision = 1\<rparr>)"
proof -
  obtain e ws where w: "save small_ports (js ''p'') (named_project ''b'') (Some 0) small_storage = Inr (e, ws)" using small_save by blast
  have "0 < ap_maxHistory small_ports" by (simp add: small_ports_def DEFAULT_MAX_HISTORY_def)
  note result = interrupted_save [OF small_holds w small_meta_ok small_exports(1) this]
  from result [of 1] result [of 2] w show ?thesis by simp
qed

text \<open>C40: The check of the expected revision does not protect against a save that overlaps: two saves that both read the storage before either
  writes are both told that they stored the next revision, but the first one is lost, since loading gives what the second one saved.\<close>

theorem overlapping_saves:
  assumes "holds_project ports p st m old"
    and "save ports p a (Some r) st = Inr (e1, ws1)" and "save ports p b (Some r) st = Inr (e2, ws2)"
    and "meta_ok ports (next_meta ports (Some m))" and "exports ports b saved" and "0 < ap_maxHistory ports"
  shows "he_revision e1 = r + 1 \<and> he_revision e2 = r + 1 \<and>
    fst (load ports p (fold apply_write (ws1 @ ws2) st)) = Some (Inr \<lparr>lp_project = saved, lp_revision = r + 1\<rparr>)"
proof -
  from assms(2,3) current_meta [OF assms(1)] have r: "r = he_revision (pm_head m)" and ws: "ws2 = save_writes ports p b (Some m)"
    and e: "e1 = pm_head (next_meta ports (Some m))" "e2 = pm_head (next_meta ports (Some m))"
    by (auto simp: save_def Let_def split: if_splits)
  have next_r: "he_revision (pm_head (next_meta ports (Some m))) = r + 1" by (simp add: next_meta_def Let_def r)
  obtain w1 w2 rest where shape: "save_writes ports p b (Some m) = w1 # w2 # rest" using save_writes_shape by blast
  from load_current [OF after_save [OF HOL.refl assms(4-6) shape, of "length rest" "fold apply_write ws1 st"]] shape
  show ?thesis by (simp add: ws e next_r)
qed

theorem overlapping_saves_witness:
  "\<exists>e1 ws1 e2 ws2. save small_ports (js ''p'') (named_project ''b'') (Some 0) small_storage = Inr (e1, ws1) \<and>
     save small_ports (js ''p'') (named_project ''c'') (Some 0) small_storage = Inr (e2, ws2) \<and> he_revision e1 = 1 \<and> he_revision e2 = 1 \<and>
     fst (load small_ports (js ''p'') (fold apply_write (ws1 @ ws2) small_storage)) = Some (Inr \<lparr>lp_project = named_project ''c'', lp_revision = 1\<rparr>)"
proof -
  obtain e1 ws1 where w1: "save small_ports (js ''p'') (named_project ''b'') (Some 0) small_storage = Inr (e1, ws1)" using small_save by blast
  obtain e2 ws2 where w2: "save small_ports (js ''p'') (named_project ''c'') (Some 0) small_storage = Inr (e2, ws2)" using small_save by blast
  have "0 < ap_maxHistory small_ports" by (simp add: small_ports_def DEFAULT_MAX_HISTORY_def)
  from overlapping_saves [OF small_holds w1 w2 small_meta_ok small_exports(2) this] w1 w2 show ?thesis by simp
qed

end
